(* ===== verification/Prelude.thy ===== *)
theory Prelude
  imports Complex_Main "HOL-Library.Char_ord" "HOL-Library.List_Lexorder"
begin

section \<open>Shared vocabulary of the development\<close>

text \<open>
  What every component theory uses: the types that stand for Python's \<open>Decimal\<close>, for time stamps and
  for identifiers, the three decimal rounding modes the code calls, ASCII string normalisation, the
  error sum with its combinators, the transaction bracket of \<open>with session.begin()\<close>, and the generic
  lemmas on sums over filtered lists that the ledger and inventory proofs share.

  \<^item> \<open>money\<close> is Python's \<open>Decimal\<close> as an exact rational.  The interpreter's context keeps 28 significant
    digits; the amounts of the modelled code have at most 18 digits (\<open>Numeric(18, 6)\<close>) and the rates at most
    20, and every product is quantised to cents right away, so the context rounding is not modelled.
  \<^item> \<open>time\<close> counts microseconds since the epoch in UTC; a calendar day is an integer of its own.
  \<^item> \<open>uuid\<close> is an opaque ordered identifier.
\<close>

type_synonym money = rat
type_synonym time = int
type_synonym day = int
type_synonym uuid = nat
type_synonym user_id = int
type_synonym currency = string

named_theorems money_simps \<open>algebra of quantised amounts\<close>
named_theorems ledger_simps \<open>balances and volumes after a posting\<close>
named_theorems frame_simps \<open>what an operation leaves unchanged\<close>

subsection \<open>Decimal rounding\<close>

text \<open>
  The integer part of the three rounding modes the sources use: \<open>ROUND_DOWN\<close> (towards zero), \<open>ROUND_HALF_UP\<close>
  (ties away from zero) and \<open>ROUND_HALF_EVEN\<close>, the default of \<open>Decimal.quantize\<close> without a \<open>rounding\<close> argument.
\<close>

definition round_down :: "rat \<Rightarrow> int" where
  "round_down x = (if 0 \<le> x then \<lfloor>x\<rfloor> else \<lceil>x\<rceil>)"

definition round_half_up :: "rat \<Rightarrow> int" where
  "round_half_up x = (if 0 \<le> x then \<lfloor>x + 1/2\<rfloor> else \<lceil>x - 1/2\<rceil>)"

definition round_half_even :: "rat \<Rightarrow> int" where
  "round_half_even x =
     (let n = \<lfloor>x\<rfloor>; d = x - of_int n in
      if d < 1/2 then n else if 1/2 < d then n + 1 else if even n then n else n + 1)"

text \<open>\<open>Decimal.quantize\<close> to a step of \<open>10 ^ -k\<close>; the money quantum of the sources is \<open>0.01\<close>.\<close>

definition quantize_to :: "nat \<Rightarrow> (rat \<Rightarrow> int) \<Rightarrow> money \<Rightarrow> money" where
  "quantize_to k rnd x = of_int (rnd (x * 10 ^ k)) / 10 ^ k"

abbreviation cents :: "(rat \<Rightarrow> int) \<Rightarrow> money \<Rightarrow> money" where
  "cents \<equiv> quantize_to 2"

text \<open>An amount that \<open>Numeric(_, 2)\<close> stores without loss.\<close>

definition whole_cents :: "money \<Rightarrow> bool" where
  "whole_cents x \<longleftrightarrow> x * 100 \<in> \<int>"

text \<open>
  The contract of a rounding mode: it fixes the integers and is monotone.  Everything the clients need
  (idempotence, monotonicity, sign, the error bound) follows once, here.
\<close>

locale rounding_mode =
  fixes rnd :: "rat \<Rightarrow> int"
  assumes rnd_int: "rnd (of_int n) = n"
    and rnd_mono: "x \<le> y \<Longrightarrow> rnd x \<le> rnd y"
begin

lemma floor_le_rnd: "\<lfloor>x\<rfloor> \<le> rnd x"
  using rnd_mono [of "of_int \<lfloor>x\<rfloor>" x] by (simp add: rnd_int)

lemma rnd_le_ceiling: "rnd x \<le> \<lceil>x\<rceil>"
  using rnd_mono [of x "of_int \<lceil>x\<rceil>"] by (simp add: rnd_int)

lemma rnd_error: "\<bar>of_int (rnd x) - x\<bar> < 1"
  using floor_le_rnd [of x] rnd_le_ceiling [of x] by linarith

lemma quantize_mono: "x \<le> y \<Longrightarrow> quantize_to k rnd x \<le> quantize_to k rnd y"
  unfolding quantize_to_def by (intro divide_right_mono) (auto intro!: rnd_mono mult_right_mono)

lemma quantize_idem: "quantize_to k rnd (quantize_to k rnd x) = quantize_to k rnd x"
  unfolding quantize_to_def by (simp add: rnd_int)

lemma quantize_int: "quantize_to k rnd (of_int n) = of_int n"
proof -
  have "of_int n * 10 ^ k = (of_int (n * 10 ^ k) :: rat)" by simp
  then have "rnd (of_int n * 10 ^ k) = n * 10 ^ k" using rnd_int by metis
  then show ?thesis by (simp add: quantize_to_def)
qed

lemma quantize_zero: "quantize_to k rnd 0 = 0"
  using quantize_int [of k 0] by simp

lemma quantize_nonneg: "0 \<le> x \<Longrightarrow> 0 \<le> quantize_to k rnd x"
  using quantize_mono [of 0 x k] by (simp add: quantize_zero)

lemma quantize_error: "\<bar>quantize_to k rnd x - x\<bar> < 1 / 10 ^ k"
proof -
  have "quantize_to k rnd x - x = (of_int (rnd (x * 10 ^ k)) - x * 10 ^ k) / 10 ^ k"
    by (simp add: quantize_to_def field_simps)
  then have "\<bar>quantize_to k rnd x - x\<bar> = \<bar>of_int (rnd (x * 10 ^ k)) - x * 10 ^ k\<bar> / 10 ^ k"
    by (simp add: abs_divide)
  then show ?thesis using rnd_error [of "x * 10 ^ k"] by (simp add: divide_strict_right_mono)
qed

lemma whole_cents_quantize: "whole_cents (cents rnd x)"
  by (simp add: whole_cents_def quantize_to_def)

lemma quantize_whole_cents: "whole_cents x \<Longrightarrow> cents rnd x = x"
  by (auto simp: whole_cents_def quantize_to_def rnd_int elim!: Ints_cases)

lemma quantize_le_whole: "whole_cents y \<Longrightarrow> x \<le> y \<Longrightarrow> cents rnd x \<le> y"
  using quantize_mono [of x y 2] quantize_whole_cents [of y] by simp

lemma quantize_ge_whole: "whole_cents y \<Longrightarrow> y \<le> x \<Longrightarrow> y \<le> cents rnd x"
  using quantize_mono [of y x 2] quantize_whole_cents [of y] by simp

end

interpretation down: rounding_mode round_down
proof unfold_locales
  show "round_down (of_int n) = n" for n by (simp add: round_down_def)
  show "round_down x \<le> round_down y" if "x \<le> y" for x y
  proof -
    have "\<lceil>x\<rceil> \<le> \<lfloor>y\<rfloor>" if "\<not> 0 \<le> x" "0 \<le> y"
      using that by (intro order.trans [of "\<lceil>x\<rceil>" 0 "\<lfloor>y\<rfloor>"]) (simp_all add: ceiling_le_iff)
    with that show ?thesis
      unfolding round_down_def by (auto intro: floor_mono ceiling_mono)
  qed
qed

interpretation half_up: rounding_mode round_half_up
proof unfold_locales
  show "round_half_up (of_int n) = n" for n
    by (simp add: round_half_up_def floor_unique ceiling_unique)
  show "round_half_up x \<le> round_half_up y" if "x \<le> y" for x y
    using that unfolding round_half_up_def
    by (auto intro: floor_mono ceiling_mono) linarith
qed

interpretation half_even: rounding_mode round_half_even
proof unfold_locales
  show "round_half_even (of_int n) = n" for n by (simp add: round_half_even_def)
  show "round_half_even x \<le> round_half_even y" if "x \<le> y" for x y
  proof (cases "\<lfloor>x\<rfloor> = \<lfloor>y\<rfloor>")
    case True
    with that show ?thesis by (auto simp: round_half_even_def Let_def)
  next
    case False
    with that have "\<lfloor>x\<rfloor> + 1 \<le> \<lfloor>y\<rfloor>" using floor_mono [of x y] by linarith
    moreover have "round_half_even x \<le> \<lfloor>x\<rfloor> + 1" and "\<lfloor>y\<rfloor> \<le> round_half_even y"
      by (auto simp: round_half_even_def Let_def)
    ultimately show ?thesis by linarith
  qed
qed

text \<open>\<open>ROUND_DOWN\<close> never increases the size of an amount.\<close>

lemma round_down_le: "0 \<le> x \<Longrightarrow> of_int (round_down x) \<le> x"
  by (simp add: round_down_def)

lemma cents_down_le: "0 \<le> x \<Longrightarrow> cents round_down x \<le> x"
  using round_down_le [of "x * 100"] by (simp add: quantize_to_def field_simps)

lemma whole_cents_add [money_simps]: "whole_cents x \<Longrightarrow> whole_cents y \<Longrightarrow> whole_cents (x + y)"
  by (simp add: whole_cents_def distrib_right)

lemma whole_cents_diff [money_simps]: "whole_cents x \<Longrightarrow> whole_cents y \<Longrightarrow> whole_cents (x - y)"
  by (simp add: whole_cents_def left_diff_distrib)

lemma whole_cents_mult_int [money_simps]: "whole_cents x \<Longrightarrow> whole_cents (x * of_int n)"
  unfolding whole_cents_def by (metis Ints_mult Ints_of_int mult.assoc mult.commute)

lemma whole_cents_0 [simp]: "whole_cents 0"
  by (simp add: whole_cents_def)

lemma whole_cents_int: "whole_cents (of_int n)"
  by (simp add: whole_cents_def)

subsection \<open>ASCII strings\<close>

text \<open>Python's \<open>upper\<close>, \<open>lower\<close> and \<open>strip\<close> on ASCII text, the only text currency and status codes hold.\<close>

definition char_upper :: "char \<Rightarrow> char" where
  "char_upper c = (if CHR ''a'' \<le> c \<and> c \<le> CHR ''z'' then char_of (of_char c - 32 :: nat) else c)"

definition char_lower :: "char \<Rightarrow> char" where
  "char_lower c = (if CHR ''A'' \<le> c \<and> c \<le> CHR ''Z'' then char_of (of_char c + 32 :: nat) else c)"

definition str_upper :: "string \<Rightarrow> string" where
  "str_upper = map char_upper"

definition str_lower :: "string \<Rightarrow> string" where
  "str_lower = map char_lower"

definition is_space :: "char \<Rightarrow> bool" where
  "is_space c \<longleftrightarrow> c \<in> {CHR '' '', CHR ''\<newline>'', CHR 0x09, CHR 0x0B, CHR 0x0C, CHR 0x0D}"

definition str_strip :: "string \<Rightarrow> string" where
  "str_strip s = rev (dropWhile is_space (rev (dropWhile is_space s)))"

lemma char_upper_idem: "char_upper (char_upper c) = char_upper c"
proof (cases "CHR ''a'' \<le> c \<and> c \<le> CHR ''z''")
  case True
  then have c: "97 \<le> (of_char c :: nat)" "(of_char c :: nat) \<le> 122" by (auto simp: less_eq_char_def)
  then have "of_char (char_of (of_char c - 32 :: nat)) = (of_char c - 32 :: nat)" by simp
  with c have "\<not> CHR ''a'' \<le> char_of (of_char c - 32 :: nat)" by (simp add: less_eq_char_def)
  with True show ?thesis by (simp add: char_upper_def)
qed (auto simp: char_upper_def)

lemma char_lower_idem: "char_lower (char_lower c) = char_lower c"
proof (cases "CHR ''A'' \<le> c \<and> c \<le> CHR ''Z''")
  case True
  then have c: "65 \<le> (of_char c :: nat)" "(of_char c :: nat) \<le> 90" by (auto simp: less_eq_char_def)
  then have "of_char (char_of (of_char c + 32 :: nat)) = (of_char c + 32 :: nat)" by simp
  with c have "\<not> char_of (of_char c + 32 :: nat) \<le> CHR ''Z''" by (simp add: less_eq_char_def)
  with True show ?thesis by (simp add: char_lower_def)
qed (auto simp: char_lower_def)

lemma str_idem: "str_upper (str_upper s) = str_upper s" "str_lower (str_lower s) = str_lower s"
  by (simp_all add: str_upper_def str_lower_def char_upper_idem char_lower_idem)

subsection \<open>Errors as values, transactions as brackets\<close>

text \<open>
  A fallible step returns \<open>'e + 'a\<close>, with \<open>Inl\<close> for the raised exception.  \<open>rbind\<close> is Python's sequencing:
  the first exception ends the run.  \<open>check\<close> is an \<open>if ...: raise\<close> guard.
\<close>

definition rbind :: "'e + 'a \<Rightarrow> ('a \<Rightarrow> 'e + 'b) \<Rightarrow> 'e + 'b" where
  "rbind m k = (case m of Inl e \<Rightarrow> Inl e | Inr x \<Rightarrow> k x)"

definition check :: "bool \<Rightarrow> 'e \<Rightarrow> 'e + unit" where
  "check ok e = (if ok then Inr () else Inl e)"

lemma rbind_simps [simp]:
  "rbind (Inl e) k = Inl e" "rbind (Inr x) k = k x"
  by (simp_all add: rbind_def)

lemma rbind_eq_Inr [simp]: "rbind m k = Inr y \<longleftrightarrow> (\<exists>x. m = Inr x \<and> k x = Inr y)"
  by (cases m) auto

lemma rbind_eq_Inl: "rbind m k = Inl e \<longleftrightarrow> m = Inl e \<or> (\<exists>x. m = Inr x \<and> k x = Inl e)"
  by (cases m) auto

lemma check_simps [simp]:
  "check ok e = Inr u \<longleftrightarrow> ok" "check ok e = Inl e' \<longleftrightarrow> \<not> ok \<and> e = e'"
  "check True e = Inr ()" "check False e = Inl e"
  by (auto simp: check_def)

text \<open>
  \<open>with session.begin()\<close>: the body runs on the current state; if it raises, the state is rolled back to
  the one at entry, otherwise the new state is committed.
\<close>

definition atomic :: "('s \<Rightarrow> 'e + 'a \<times> 's) \<Rightarrow> 's \<Rightarrow> ('e + 'a) \<times> 's" where
  "atomic body s = (case body s of Inl e \<Rightarrow> (Inl e, s) | Inr (a, s') \<Rightarrow> (Inr a, s'))"

lemma atomic_rollback: "fst (atomic body s) = Inl e \<Longrightarrow> snd (atomic body s) = s"
  by (auto simp: atomic_def split: sum.splits)

lemma atomic_Inr: "atomic body s = (Inr a, s') \<longleftrightarrow> body s = Inr (a, s')"
  by (auto simp: atomic_def split: sum.splits)

lemma atomic_cases:
  obtains (raised) e where "body s = Inl e" and "atomic body s = (Inl e, s)"
    | (committed) a s' where "body s = Inr (a, s')" and "atomic body s = (Inr a, s')"
  by (cases "body s") (auto simp: atomic_def)

subsection \<open>Sums over the rows of a table\<close>

text \<open>\<open>SELECT SUM(f) ... WHERE p\<close> over a list of rows, 0 on the empty selection (\<open>coalesce\<close>).\<close>

definition sum_where :: "('r \<Rightarrow> bool) \<Rightarrow> ('r \<Rightarrow> 'n) \<Rightarrow> 'r list \<Rightarrow> 'n::comm_monoid_add" where
  "sum_where p f rows = sum_list (map f (filter p rows))"

lemma sum_where_simps [simp]:
  "sum_where p f [] = 0"
  "sum_where p f (r # rs) = (if p r then f r + sum_where p f rs else sum_where p f rs)"
  "sum_where p f (xs @ ys) = sum_where p f xs + sum_where p f ys"
  by (simp_all add: sum_where_def)

lemma sum_where_nonneg:
  fixes f :: "'r \<Rightarrow> 'n::ordered_comm_monoid_add"
  shows "(\<And>r. r \<in> set rows \<Longrightarrow> p r \<Longrightarrow> 0 \<le> f r) \<Longrightarrow> 0 \<le> sum_where p f rows"
  by (induction rows) (auto intro: add_nonneg_nonneg)

lemma sum_where_mono:
  fixes f :: "'r \<Rightarrow> 'n::ordered_comm_monoid_add"
  assumes "\<And>r. r \<in> set rows \<Longrightarrow> p r \<Longrightarrow> q r" and "\<And>r. r \<in> set rows \<Longrightarrow> 0 \<le> f r"
  shows "sum_where p f rows \<le> sum_where q f rows"
  using assms
proof (induction rows)
  case (Cons r rs)
  then have "sum_where p f rs \<le> sum_where q f rs" and "p r \<Longrightarrow> q r" and "0 \<le> f r" by auto
  then show ?case by (auto intro: add_left_mono add_increasing)
qed simp

lemma sum_where_cong:
  "(\<And>r. r \<in> set rows \<Longrightarrow> p r = q r) \<Longrightarrow> (\<And>r. r \<in> set rows \<Longrightarrow> q r \<Longrightarrow> f r = g r) \<Longrightarrow>
   sum_where p f rows = sum_where q g rows"
  by (induction rows) auto

lemma sum_where_mono_fun:
  fixes f g :: "'r \<Rightarrow> 'n::ordered_comm_monoid_add"
  shows "(\<And>r. r \<in> set rows \<Longrightarrow> p r \<Longrightarrow> f r \<le> g r) \<Longrightarrow> sum_where p f rows \<le> sum_where p g rows"
  by (induction rows) (auto intro: add_mono)

subsection \<open>Tables\<close>

text \<open>An ORM attribute update of the row with a given key.\<close>

definition update_rows :: "('r \<Rightarrow> bool) \<Rightarrow> ('r \<Rightarrow> 'r) \<Rightarrow> 'r list \<Rightarrow> 'r list" where
  "update_rows p f rows = map (\<lambda>r. if p r then f r else r) rows"

lemma update_rows_simps [simp]:
  "update_rows p f [] = []"
  "update_rows p f (r # rs) = (if p r then f r else r) # update_rows p f rs"
  "length (update_rows p f rows) = length rows"
  by (simp_all add: update_rows_def)

lemma map_update_rows:
  "(\<And>r. g (f r) = g r) \<Longrightarrow> map g (update_rows p f rows) = map g rows"
  by (induction rows) auto

lemma list_all_update_rows:
  "list_all q rows \<Longrightarrow> (\<And>r. q r \<Longrightarrow> q (f r)) \<Longrightarrow> list_all q (update_rows p f rows)"
  by (induction rows) auto

lemma update_rows_none: "(\<And>r. r \<in> set rows \<Longrightarrow> \<not> p r) \<Longrightarrow> update_rows p f rows = rows"
  by (induction rows) auto

lemma find_append:
  "find p (xs @ ys) = (case find p xs of None \<Rightarrow> find p ys | Some x \<Rightarrow> Some x)"
  by (induction xs) auto

lemma find_SomeD: "find p xs = Some x \<Longrightarrow> x \<in> set xs \<and> p x"
  by (induction xs) (auto split: if_splits)

lemma find_Some_key: "find (\<lambda>r. key r = k) rows = Some r \<Longrightarrow> r \<in> set rows \<and> key r = k"
  by (auto simp: find_Some_iff)

lemma find_distinct_key:
  assumes "distinct (map key xs)" and "x \<in> set xs" and "p x" and "\<And>y. p y \<Longrightarrow> key y = key x"
  shows "find p xs = Some x"
  using assms(1,2)
proof (induction xs)
  case (Cons y ys)
  show ?case
  proof (cases "y = x")
    case True
    with assms(3) show ?thesis by simp
  next
    case False
    with Cons.prems have x: "x \<in> set ys" by simp
    with Cons.prems(1) have "key y \<noteq> key x" by (auto simp: image_iff)
    then have "\<not> p y" using assms(4) by blast
    with Cons x show ?thesis by simp
  qed
qed simp

lemma find_distinct: "distinct (map f xs) \<Longrightarrow> x \<in> set xs \<Longrightarrow> find (\<lambda>y. f y = f x) xs = Some x"
  by (rule find_distinct_key [where key = f]) auto

lemma find_update_rows:
  "(\<And>t. p (f t) = p t) \<Longrightarrow>
   find p (update_rows q f rows) = map_option (\<lambda>t. if q t then f t else t) (find p rows)"
  by (induction rows) auto

lemma length_filter_mono:
  "(\<And>x. x \<in> set xs \<Longrightarrow> p x \<Longrightarrow> q x) \<Longrightarrow> length (filter p xs) \<le> length (filter q xs)"
  by (induction xs) (auto simp: le_SucI)

end
