(* ===== verification/State_Tables.thy ===== *)
theory State_Tables
  imports Prelude
begin

section \<open>Table-driven state machines\<close>

text \<open>
  The bookings, the payments, the transport reservations and their obligations are all driven the same
  way: a dictionary \<open>VALID_TRANSITIONS\<close> maps each member of an enum to the list of its successors, the
  database column holds the member's string value, and a \<open>transition\<close> method validates the move, writes the
  old and the new value to an audit trail and stores the new value.  This theory states that contract as a
  locale (\<open>transition_machine\<close>) and proves its consequences for whole runs once.  A second contract
  (\<open>ranked_table\<close>) is for the tables that only go forward; \<open>ranked_machine\<close> joins the two.  The four
  machines interpret them in their own theories.
\<close>

subsection \<open>Paths of a transition table\<close>

fun is_path :: "('s \<Rightarrow> 's list) \<Rightarrow> 's \<Rightarrow> 's list \<Rightarrow> bool" where
  "is_path nxt s [] = True"
| "is_path nxt s (t # ts) = (t \<in> set (nxt s) \<and> is_path nxt t ts)"

fun hops :: "'s \<Rightarrow> 's list \<Rightarrow> ('s \<times> 's) list" where
  "hops s [] = []"
| "hops s (t # ts) = (s, t) # hops t ts"

text \<open>A sequence of calls, stopped by the first one that raises.\<close>

primrec run_all :: "('a \<Rightarrow> 'o \<Rightarrow> 'e + 'o) \<Rightarrow> 'a list \<Rightarrow> 'o \<Rightarrow> 'e + 'o" where
  "run_all f [] x = Inr x"
| "run_all f (a # as) x = rbind (f a x) (run_all f as)"

lemma is_path_append [simp]:
  "is_path nxt s (ts @ us) \<longleftrightarrow> is_path nxt s ts \<and> is_path nxt (last (s # ts)) us"
  by (induction ts arbitrary: s) auto

lemma is_path_hops: "is_path nxt s ts \<longleftrightarrow> (\<forall>(a, b) \<in> set (hops s ts). b \<in> set (nxt a))"
  by (induction ts arbitrary: s) auto

lemma length_hops [simp]: "length (hops s ts) = length ts"
  by (induction ts arbitrary: s) auto

subsection \<open>The contract of a transition method\<close>

locale transition_machine =
  fixes code :: "'s \<Rightarrow> string"
    and label :: "'s \<Rightarrow> string"
    and nxt :: "'s \<Rightarrow> 's list"
    and status :: "'o \<Rightarrow> string"
    and trail :: "'o \<Rightarrow> (string \<times> string) list"
    and step :: "'a \<Rightarrow> 'o \<Rightarrow> 's \<Rightarrow> 'e + 'o"
  assumes code_inj: "code s = code t \<Longrightarrow> s = t"
    and step_sound: "step a x t = Inr y \<Longrightarrow> \<exists>s. status x = code s \<and> t \<in> set (nxt s)"
    and step_status: "step a x t = Inr y \<Longrightarrow> status y = code t"
    and step_trail: "step a x t = Inr y \<Longrightarrow> status x = code s \<Longrightarrow>
                     trail y = trail x @ [(label s, label t)]"
begin

lemma step_from: "step a x t = Inr y \<Longrightarrow> status x = code s \<Longrightarrow> t \<in> set (nxt s)"
  using step_sound code_inj by metis

lemma run_path:
  assumes "run_all (\<lambda>(a, t) x. step a x t) ats x = Inr y" and "status x = code s"
  shows "is_path nxt s (map snd ats) \<and> status y = code (last (s # map snd ats))"
  using assms
proof (induction ats arbitrary: x s)
  case (Cons p ats)
  obtain a t where at: "p = (a, t)" by (cases p)
  with Cons.prems(1) obtain z where z: "step a x t = Inr z"
    and rest: "run_all (\<lambda>(a, t) x. step a x t) ats z = Inr y"
    by auto
  from z Cons.prems(2) have "t \<in> set (nxt s)" and "status z = code t"
    by (auto intro: step_from step_status)
  with Cons.IH [OF rest] at show ?case by auto
qed simp

lemma run_trail:
  assumes "run_all (\<lambda>(a, t) x. step a x t) ats x = Inr y" and "status x = code s"
  shows "trail y = trail x @ map (map_prod label label) (hops s (map snd ats))"
  using assms
proof (induction ats arbitrary: x s)
  case (Cons p ats)
  obtain a t where at: "p = (a, t)" by (cases p)
  with Cons.prems(1) obtain z where z: "step a x t = Inr z"
    and rest: "run_all (\<lambda>(a, t) x. step a x t) ats z = Inr y"
    by auto
  from Cons.IH [OF rest step_status [OF z]] step_trail [OF z Cons.prems(2)] at show ?case by simp
qed simp

lemma terminal_blocks: "status x = code s \<Longrightarrow> nxt s = [] \<Longrightarrow> \<exists>e. step a x t = Inl e"
  by (cases "step a x t") (auto dest: step_from)

end

subsection \<open>Tables that only go forward\<close>

locale ranked_table =
  fixes nxt :: "'s \<Rightarrow> 's list"
    and rank :: "'s \<Rightarrow> nat"
    and top :: nat
  assumes rank_less: "t \<in> set (nxt s) \<Longrightarrow> rank s < rank t"
    and rank_top: "rank s \<le> top"
begin

lemma path_rank: "is_path nxt s ts \<Longrightarrow> rank s + length ts \<le> rank (last (s # ts))"
proof (induction ts arbitrary: s)
  case (Cons t ts)
  then have "rank s < rank t" and "rank t + length ts \<le> rank (last (t # ts))"
    by (simp_all add: rank_less)
  then show ?case by simp
qed simp

lemma path_length: "is_path nxt s ts \<Longrightarrow> rank s + length ts \<le> top"
  using path_rank rank_top le_trans by blast

lemma path_above: "is_path nxt s ts \<Longrightarrow> u \<in> set ts \<Longrightarrow> rank s < rank u"
proof (induction ts arbitrary: s)
  case (Cons t ts)
  then have "rank s < rank t" and "u \<in> set ts \<Longrightarrow> rank t < rank u" and "u = t \<or> u \<in> set ts"
    by (auto simp: rank_less)
  then show ?case by auto
qed simp

lemma path_distinct: "is_path nxt s ts \<Longrightarrow> distinct (s # ts)"
proof (induction ts arbitrary: s)
  case (Cons t ts)
  then have "distinct (t # ts)" by auto
  moreover have "s \<notin> set (t # ts)" using path_above [OF Cons.prems] by blast
  ultimately show ?case by simp
qed simp

end

locale ranked_machine =
  transition_machine code label nxt status trail step + ranked_table nxt rank top
  for code :: "'s \<Rightarrow> string" and label and nxt and status :: "'o \<Rightarrow> string" and trail
    and step :: "'a \<Rightarrow> 'o \<Rightarrow> 's \<Rightarrow> 'e + 'o" and rank and top
begin

lemma run_forward:
  assumes "run_all (\<lambda>(a, t) x. step a x t) ats x = Inr y" and "status x = code s"
  shows "length ats \<le> top - rank s \<and> distinct (s # map snd ats)"
proof -
  from run_path [OF assms] have "is_path nxt s (map snd ats)" by simp
  from path_length [OF this] path_distinct [OF this] show ?thesis by simp
qed

end

end
