(* ===== verification/Booking_States.thy ===== *)
theory Booking_States
  imports State_Tables
begin

section \<open>The lifecycle of an accommodation booking\<close>

text \<open>
  Models \<open>app/accommodation/state_machine/booking_states.py\<close> (\<open>BookingStateMachine\<close>) with the enum and the
  status history of \<open>app/accommodation/models/booking.py\<close>.  The status column is a string, so a stored
  value outside the enum makes \<open>AccommodationBookingStatus(booking.status)\<close> raise \<open>ValueError\<close>.  A
  transition reads the clock, the property's local date and the guest registrations from a \<open>checkin_env\<close> and
  returns the updated booking together with the history table.
\<close>

datatype AccommodationBookingStatus =
    DRAFT | HELD | PENDING_PAYMENT | PENDING_APPROVAL | CONFIRMED | CHECKED_IN | CHECKED_OUT
  | CLOSED | CANCELLED | NO_SHOW | EXPIRED | REFUNDED | PENDING | PAYMENT_PARTIAL

fun booking_status_value :: "AccommodationBookingStatus \<Rightarrow> string" where
  "booking_status_value DRAFT = ''draft''"
| "booking_status_value HELD = ''held''"
| "booking_status_value PENDING_PAYMENT = ''pending_payment''"
| "booking_status_value PENDING_APPROVAL = ''pending_approval''"
| "booking_status_value CONFIRMED = ''confirmed''"
| "booking_status_value CHECKED_IN = ''checked_in''"
| "booking_status_value CHECKED_OUT = ''checked_out''"
| "booking_status_value CLOSED = ''closed''"
| "booking_status_value CANCELLED = ''cancelled''"
| "booking_status_value NO_SHOW = ''no_show''"
| "booking_status_value EXPIRED = ''expired''"
| "booking_status_value REFUNDED = ''refunded''"
| "booking_status_value PENDING = ''pending''"
| "booking_status_value PAYMENT_PARTIAL = ''payment_partial''"

definition all_booking_statuses :: "AccommodationBookingStatus list" where
  "all_booking_statuses =
     [DRAFT, HELD, PENDING_PAYMENT, PENDING_APPROVAL, CONFIRMED, CHECKED_IN, CHECKED_OUT,
      CLOSED, CANCELLED, NO_SHOW, EXPIRED, REFUNDED, PENDING, PAYMENT_PARTIAL]"

text \<open>\<open>AccommodationBookingStatus(value)\<close>: lookup of a member by its value, \<open>None\<close> for \<open>ValueError\<close>.\<close>

definition booking_status_of :: "string \<Rightarrow> AccommodationBookingStatus option" where
  "booking_status_of v = find (\<lambda>s. booking_status_value s = v) all_booking_statuses"

fun booking_transitions :: "AccommodationBookingStatus \<Rightarrow> AccommodationBookingStatus list" where
  "booking_transitions DRAFT = [HELD, CANCELLED]"
| "booking_transitions HELD = [PENDING_PAYMENT, PENDING_APPROVAL, EXPIRED, CANCELLED]"
| "booking_transitions PENDING_PAYMENT = [CONFIRMED, CANCELLED, EXPIRED]"
| "booking_transitions PENDING_APPROVAL = [CONFIRMED, CANCELLED]"
| "booking_transitions CONFIRMED = [CHECKED_IN, CANCELLED, NO_SHOW]"
| "booking_transitions CHECKED_IN = [CHECKED_OUT, CANCELLED]"
| "booking_transitions CHECKED_OUT = [CLOSED]"
| "booking_transitions CANCELLED = [REFUNDED]"
| "booking_transitions CLOSED = []"
| "booking_transitions REFUNDED = []"
| "booking_transitions EXPIRED = []"
| "booking_transitions NO_SHOW = []"
| "booking_transitions PENDING = [PENDING_APPROVAL, CONFIRMED, CANCELLED, EXPIRED]"
| "booking_transitions PAYMENT_PARTIAL = [CONFIRMED, CANCELLED]"

subsection \<open>Rows and inputs\<close>

text \<open>
  A value of the JSON metadata column.  \<open>str(amount)\<close> of a \<open>Decimal\<close> is kept as the number it prints.
\<close>

datatype meta_value = MNone | MStr string | MDec money

fun meta_opt :: "string option \<Rightarrow> meta_value" where
  "meta_opt None = MNone"
| "meta_opt (Some s) = MStr s"

record booking =
  bk_id :: int
  bk_status :: string
  bk_property_id :: int
  bk_check_in :: day
  bk_registration_deadline :: "time option"
  bk_refund_amount :: "money option"
  bk_total_amount :: "money option"
  bk_primary_guest_id :: "int option"
  bk_guest_user_id :: "int option"
  bk_guest_email :: "string option"

record status_history =
  h_booking_id :: int
  h_from_status :: "string option"
  h_to_status :: string
  h_changed_by :: "user_id option"
  h_trigger :: "string option"
  h_metadata :: "string \<rightharpoonup> meta_value"

text \<open>The optional arguments of \<open>transition\<close>.\<close>

record transition_args =
  ta_changed_by :: "user_id option"
  ta_reason :: "string option"
  ta_ip_address :: "string option"
  ta_user_agent :: "string option"
  ta_trigger :: "string option"
  ta_metadata :: "(string \<rightharpoonup> meta_value) option"

text \<open>
  What check-in reads besides the booking: the clock, the local date of a property (\<open>None\<close> when
  \<open>local_today\<close> raises \<open>AttributeError\<close> or \<open>ValueError\<close>) and the statuses of the registrations of a booking
  (\<open>None\<close> when the query itself raises).
\<close>

record checkin_env =
  ce_now :: time
  ce_local_today :: "int \<Rightarrow> day option"
  ce_registrations :: "int \<Rightarrow> string list option"

datatype state_error = InvalidStateTransition string string | ValueError string

type_synonym booking_ctx = "booking \<times> status_history list"

subsection \<open>Operations\<close>

text \<open>Python truthiness of the guest identifiers: 0 and the empty string are false.\<close>

definition all_guests_registered :: "checkin_env \<Rightarrow> booking \<Rightarrow> bool" where
  "all_guests_registered env b =
     (case ce_registrations env (bk_id b) of
        Some rs \<Rightarrow> rs \<noteq> [] \<and> list_all (\<lambda>r. r \<in> {''completed'', ''skipped''}) rs
      | None \<Rightarrow> bk_primary_guest_id b \<notin> {None, Some 0} \<or> bk_guest_user_id b \<notin> {None, Some 0}
                \<or> bk_guest_email b \<notin> {None, Some []})"

definition registration_satisfied :: "checkin_env \<Rightarrow> booking \<Rightarrow> bool" where
  "registration_satisfied env b =
     (if all_guests_registered env b then True
      else case bk_registration_deadline b of
             None \<Rightarrow> True
           | Some deadline \<Rightarrow> deadline < ce_now env)"

definition state_can_check_in :: "checkin_env \<Rightarrow> booking \<Rightarrow> bool" where
  "state_can_check_in env b =
     (if bk_status b \<noteq> booking_status_value CONFIRMED then False
      else case ce_local_today env (bk_property_id b) of
             None \<Rightarrow> False
           | Some property_today \<Rightarrow>
               if bk_check_in b > property_today then False else registration_satisfied env b)"

definition booking_can_transition ::
  "checkin_env \<Rightarrow> booking \<Rightarrow> AccommodationBookingStatus \<Rightarrow> state_error + bool" where
  "booking_can_transition env b new_status =
     (case booking_status_of (bk_status b) of
        None \<Rightarrow> Inl (ValueError (bk_status b))
      | Some current \<Rightarrow> Inr
          (if new_status \<notin> set (booking_transitions current) then False
           else if new_status = CHECKED_IN then state_can_check_in env b
           else if new_status = REFUNDED
             then (case bk_refund_amount b of None \<Rightarrow> False | Some amt \<Rightarrow> amt > 0)
           else True))"

definition booking_get_next_states :: "AccommodationBookingStatus \<Rightarrow> AccommodationBookingStatus list" where
  "booking_get_next_states current = booking_transitions current"

definition booking_is_terminal :: "AccommodationBookingStatus \<Rightarrow> bool" where
  "booking_is_terminal s \<longleftrightarrow> length (booking_transitions s) = 0"

definition transition_metadata :: "transition_args \<Rightarrow> string \<rightharpoonup> meta_value" where
  "transition_metadata a =
     (case ta_metadata a of None \<Rightarrow> Map.empty | Some m \<Rightarrow> m)
       (''reason'' \<mapsto> meta_opt (ta_reason a),
        ''ip_address'' \<mapsto> meta_opt (ta_ip_address a),
        ''user_agent'' \<mapsto> meta_opt (ta_user_agent a))"

definition booking_transition ::
  "checkin_env \<Rightarrow> transition_args \<Rightarrow> booking_ctx \<Rightarrow> AccommodationBookingStatus \<Rightarrow>
   state_error + booking_ctx" where
  "booking_transition env a ctx new_status =
     (case ctx of (b, hist) \<Rightarrow>
      rbind (booking_can_transition env b new_status) (\<lambda>ok.
      rbind (check ok (InvalidStateTransition (bk_status b) (booking_status_value new_status))) (\<lambda>_.
      Inr (b\<lparr>bk_status := booking_status_value new_status\<rparr>,
           hist @ [\<lparr>h_booking_id = bk_id b,
                    h_from_status = Some (bk_status b),
                    h_to_status = booking_status_value new_status,
                    h_changed_by = ta_changed_by a,
                    h_trigger = ta_trigger a,
                    h_metadata = transition_metadata a\<rparr>]))))"

text \<open>The part of the history that records the booking's own moves (payment moves carry a prefix).\<close>

definition booking_trail :: "booking_ctx \<Rightarrow> (string \<times> string) list" where
  "booking_trail ctx =
     (case ctx of (b, hist) \<Rightarrow>
      map (\<lambda>h. (the (h_from_status h), h_to_status h))
        (filter (\<lambda>h. h_booking_id h = bk_id b \<and> h_from_status h \<noteq> None
                     \<and> take 8 (the (h_from_status h)) \<noteq> ''payment:'') hist))"

text \<open>A sequence of \<open>transition\<close> calls, each with its own clock and arguments.\<close>

definition booking_run ::
  "((checkin_env \<times> transition_args) \<times> AccommodationBookingStatus) list \<Rightarrow> booking_ctx \<Rightarrow>
   state_error + booking_ctx" where
  "booking_run = run_all (\<lambda>(p, t) ctx. booking_transition (fst p) (snd p) ctx t)"

text \<open>The position of a status in the lifecycle; every move of the table increases it.\<close>

fun booking_rank :: "AccommodationBookingStatus \<Rightarrow> nat" where
  "booking_rank DRAFT = 0"
| "booking_rank HELD = 1"
| "booking_rank PENDING = 1"
| "booking_rank PENDING_PAYMENT = 2"
| "booking_rank PENDING_APPROVAL = 2"
| "booking_rank PAYMENT_PARTIAL = 2"
| "booking_rank CONFIRMED = 3"
| "booking_rank CHECKED_IN = 4"
| "booking_rank CHECKED_OUT = 5"
| "booking_rank CANCELLED = 5"
| "booking_rank CLOSED = 6"
| "booking_rank REFUNDED = 6"
| "booking_rank EXPIRED = 6"
| "booking_rank NO_SHOW = 6"

text \<open>A concrete booking, clock and sequence of calls for the worked examples.\<close>

definition demo_booking :: booking where
  "demo_booking =
     \<lparr>bk_id = 7, bk_status = ''draft'', bk_property_id = 3, bk_check_in = 100,
      bk_registration_deadline = Some 500, bk_refund_amount = None, bk_total_amount = Some 300,
      bk_primary_guest_id = None, bk_guest_user_id = Some 11, bk_guest_email = None\<rparr>"

definition demo_env :: checkin_env where
  "demo_env =
     \<lparr>ce_now = 600, ce_local_today = (\<lambda>_. Some 100), ce_registrations = (\<lambda>_. Some [''pending''])\<rparr>"

definition no_args :: transition_args where
  "no_args =
     \<lparr>ta_changed_by = None, ta_reason = None, ta_ip_address = None, ta_user_agent = None,
      ta_trigger = None, ta_metadata = None\<rparr>"

definition demo_calls :: "((checkin_env \<times> transition_args) \<times> AccommodationBookingStatus) list" where
  "demo_calls = map (Pair (demo_env, no_args))
     [HELD, PENDING_APPROVAL, CONFIRMED, CHECKED_IN, CHECKED_OUT, CLOSED]"

subsection \<open>The enum and its values\<close>

lemma booking_status_of_value [simp]: "booking_status_of (booking_status_value s) = Some s"
  by (cases s) (simp_all add: booking_status_of_def all_booking_statuses_def)

lemma booking_status_value_inj [simp]: "booking_status_value s = booking_status_value t \<longleftrightarrow> s = t"
  by (metis booking_status_of_value option.inject)

lemma booking_status_of_Some: "booking_status_of v = Some s \<longleftrightarrow> v = booking_status_value s"
proof
  assume "booking_status_of v = Some s"
  then show "v = booking_status_value s"
    unfolding booking_status_of_def by (auto simp: find_Some_iff)
qed simp

lemma booking_value_not_payment [simp]: "take 8 (booking_status_value s) \<noteq> ''payment:''"
  by (cases s) simp_all

lemma booking_rank_less: "t \<in> set (booking_transitions s) \<Longrightarrow> booking_rank s < booking_rank t"
  by (cases s) auto

lemma booking_rank_top: "booking_rank s \<le> 6"
  by (cases s) simp_all

subsection \<open>What a transition does\<close>

lemma booking_transition_Inr:
  "booking_transition env a (b, hist) t = Inr ctx' \<longleftrightarrow>
     booking_can_transition env b t = Inr True \<and>
     ctx' = (b\<lparr>bk_status := booking_status_value t\<rparr>,
             hist @ [\<lparr>h_booking_id = bk_id b, h_from_status = Some (bk_status b),
                      h_to_status = booking_status_value t, h_changed_by = ta_changed_by a,
                      h_trigger = ta_trigger a, h_metadata = transition_metadata a\<rparr>])"
  by (auto simp: booking_transition_def)

lemma booking_can_transition_True:
  "booking_can_transition env b t = Inr True \<longleftrightarrow>
     (\<exists>s. bk_status b = booking_status_value s \<and> t \<in> set (booking_transitions s) \<and>
          (t = CHECKED_IN \<longrightarrow> state_can_check_in env b) \<and>
          (t = REFUNDED \<longrightarrow> (\<exists>amt > 0. bk_refund_amount b = Some amt)))"
  by (auto simp: booking_can_transition_def booking_status_of_Some split: option.splits)

interpretation bookings: ranked_machine booking_status_value booking_status_value booking_transitions
    "\<lambda>ctx. bk_status (fst ctx)" booking_trail "\<lambda>p. booking_transition (fst p) (snd p)" booking_rank 6
proof unfold_locales
  fix s t :: AccommodationBookingStatus
  show "booking_status_value s = booking_status_value t \<Longrightarrow> s = t" by simp
  show "t \<in> set (booking_transitions s) \<Longrightarrow> booking_rank s < booking_rank t"
    by (rule booking_rank_less)
  show "booking_rank s \<le> 6" by (rule booking_rank_top)
next
  fix p :: "checkin_env \<times> transition_args" and x y :: booking_ctx and t
  assume "booking_transition (fst p) (snd p) x t = Inr y"
  then obtain b hist env a where p: "p = (env, a)" "x = (b, hist)"
    and ok: "booking_transition env a (b, hist) t = Inr y"
    by (cases p; cases x) auto
  from ok p show "\<exists>s. bk_status (fst x) = booking_status_value s \<and> t \<in> set (booking_transitions s)"
    by (auto simp: booking_transition_Inr booking_can_transition_True)
  from ok p show "bk_status (fst y) = booking_status_value t"
    by (auto simp: booking_transition_Inr)
  from ok p show "booking_trail y = booking_trail x @ [(booking_status_value s, booking_status_value t)]"
    if "bk_status (fst x) = booking_status_value s" for s
    using that by (auto simp: booking_transition_Inr booking_trail_def)
qed

lemma booking_run_frame:
  "booking_run calls (b, hist) = Inr (b', hist') \<Longrightarrow>
   b' = b\<lparr>bk_status := bk_status b'\<rparr> \<and> (\<exists>new. hist' = hist @ new \<and> length new = length calls)"
  unfolding booking_run_def
proof (induction calls arbitrary: b hist)
  case (Cons c calls)
  from Cons.prems obtain z where z: "booking_transition (fst (fst c)) (snd (fst c)) (b, hist) (snd c) = Inr z"
    and rest: "run_all (\<lambda>(p, t) ctx. booking_transition (fst p) (snd p) ctx t) calls z = Inr (b', hist')"
    by (auto split: prod.splits)
  obtain b1 row where z1: "z = (b1, hist @ [row])" and b1: "b1 = b\<lparr>bk_status := bk_status b1\<rparr>"
    using z by (auto simp: booking_transition_Inr)
  from Cons.IH [OF rest [unfolded z1]] obtain new where b': "b' = b1\<lparr>bk_status := bk_status b'\<rparr>"
    and new: "hist' = hist @ row # new" "length new = length calls"
    by auto
  have "b' = b\<lparr>bk_status := bk_status b'\<rparr>"
    by (subst b', subst b1) simp
  with new show ?case by (intro conjI exI [of _ "row # new"]) simp_all
qed simp

subsection \<open>Properties\<close>

text \<open>
  C40: every sequence of successful \<open>transition\<close> calls on a booking whose status is a member of the enum follows
  the transition table, visits no status twice, has at most six moves, changes nothing of the booking but its
  status, and leaves in the status history exactly one row per move, each starting where the one before ended.
\<close>

theorem booking_lifecycle:
  assumes "booking_run calls (b, hist) = Inr (b', hist')"
    and "bk_status b = booking_status_value s"
  shows "is_path booking_transitions s (map snd calls)
    \<and> bk_status b' = booking_status_value (last (s # map snd calls))
    \<and> distinct (s # map snd calls) \<and> length calls \<le> 6
    \<and> b' = b\<lparr>bk_status := bk_status b'\<rparr>
    \<and> (\<exists>new. hist' = hist @ new \<and> length new = length calls)
    \<and> booking_trail (b', hist') = booking_trail (b, hist)
        @ map (map_prod booking_status_value booking_status_value) (hops s (map snd calls))"
proof -
  note run = assms(1) [unfolded booking_run_def]
  show ?thesis
    using bookings.run_path [OF run] bookings.run_forward [OF run] bookings.run_trail [OF run]
      booking_run_frame [OF assms(1)] assms(2)
    by auto
qed

lemmas demo_booking_defs = demo_booking_def demo_env_def no_args_def demo_calls_def

lemmas booking_eval = booking_run_def booking_transition_def booking_can_transition_def
  booking_status_of_def all_booking_statuses_def state_can_check_in_def registration_satisfied_def
  all_guests_registered_def

theorem booking_lifecycle_witness:
  "\<exists>b' hist'. booking_run demo_calls (demo_booking, []) = Inr (b', hist')
     \<and> bk_status b' = ''closed'' \<and> distinct (DRAFT # map snd demo_calls)
     \<and> booking_trail (b', hist') =
         [(''draft'', ''held''), (''held'', ''pending_approval''), (''pending_approval'', ''confirmed''),
          (''confirmed'', ''checked_in''), (''checked_in'', ''checked_out''), (''checked_out'', ''closed'')]"
proof -
  obtain b' hist' where run: "booking_run demo_calls (demo_booking, []) = Inr (b', hist')"
    by (simp add: demo_booking_defs booking_eval)
  show ?thesis
    using booking_lifecycle [OF run, of DRAFT] run
    by (simp add: demo_booking_defs booking_trail_def)
qed

text \<open>
  A confirmed booking can be checked in exactly when the property's local date is known and has reached the
  check-in date and either every registration of the booking is complete, or there is no registration deadline,
  or the deadline has passed; from any other status check-in is refused.
\<close>

theorem check_in_gate:
  "(\<exists>ctx'. booking_transition env a (b, hist) CHECKED_IN = Inr ctx') \<longleftrightarrow>
     bk_status b = ''confirmed''
     \<and> (\<exists>today. ce_local_today env (bk_property_id b) = Some today \<and> bk_check_in b \<le> today)
     \<and> (all_guests_registered env b \<or> bk_registration_deadline b = None
        \<or> (\<exists>d. bk_registration_deadline b = Some d \<and> d < ce_now env))"
proof -
  have conf: "CHECKED_IN \<in> set (booking_transitions s) \<longleftrightarrow> s = CONFIRMED" for s
    by (cases s) simp_all
  have reg: "registration_satisfied env b \<longleftrightarrow>
      all_guests_registered env b \<or> bk_registration_deadline b = None
      \<or> (\<exists>d. bk_registration_deadline b = Some d \<and> d < ce_now env)"
    by (auto simp: registration_satisfied_def split: option.splits)
  show ?thesis
    unfolding booking_transition_Inr booking_can_transition_True reg [symmetric]
    by (auto simp: conf state_can_check_in_def not_less split: option.splits)
qed

text \<open>
  A booking becomes refunded only from cancelled, and only with a positive refund amount; in any sequence of
  moves that ends in refunded the move before it was the cancellation.
\<close>

theorem refund_after_cancellation:
  assumes "booking_run (calls @ [((env, a), REFUNDED)]) (b, hist) = Inr (b', hist')"
    and "bk_status b = booking_status_value s"
  shows "last (s # map snd calls) = CANCELLED \<and> (\<exists>amt > 0. bk_refund_amount b = Some amt)"
proof -
  have run: "run_all f (xs @ [x]) c = rbind (run_all f xs c) (f x)" for f :: "'x \<Rightarrow> 'o \<Rightarrow> 'e + 'o" and xs x c
    by (induction xs arbitrary: c) (auto simp: rbind_def split: sum.splits)
  from assms(1) obtain b1 h1 where first: "booking_run calls (b, hist) = Inr (b1, h1)"
    and final: "booking_transition env a (b1, h1) REFUNDED = Inr (b', hist')"
    by (auto simp: booking_run_def run)
  have canc: "REFUNDED \<in> set (booking_transitions u) \<longleftrightarrow> u = CANCELLED" for u
    by (cases u) simp_all
  from final have "\<exists>amt > 0. bk_refund_amount b1 = Some amt" and "bk_status b1 = booking_status_value CANCELLED"
    by (auto simp: booking_transition_Inr booking_can_transition_True canc)
  moreover have "bk_status b1 = booking_status_value (last (s # map snd calls))"
    using bookings.run_path [OF first [unfolded booking_run_def]] assms(2) by simp
  moreover have "bk_refund_amount b1 = bk_refund_amount b"
    using booking_run_frame [OF first] by (metis booking.select_convs(6) booking.surjective booking.update_convs(2))
  ultimately show ?thesis by (metis booking_status_value_inj)
qed

theorem refund_after_cancellation_witness:
  "\<exists>b' hist'. booking_run ([((demo_env, no_args), CANCELLED)] @ [((demo_env, no_args), REFUNDED)])
       (demo_booking\<lparr>bk_refund_amount := Some 40\<rparr>, []) = Inr (b', hist')
     \<and> last (DRAFT # map snd [((demo_env, no_args), CANCELLED)]) = CANCELLED"
proof -
  obtain b' hist' where
    run: "booking_run ([((demo_env, no_args), CANCELLED)] @ [((demo_env, no_args), REFUNDED)])
       (demo_booking\<lparr>bk_refund_amount := Some 40\<rparr>, []) = Inr (b', hist')"
    by (simp add: demo_booking_defs booking_eval)
  have "bk_status (demo_booking\<lparr>bk_refund_amount := Some 40\<rparr>) = booking_status_value DRAFT"
    by (simp add: demo_booking_def)
  from refund_after_cancellation [OF run this] run show ?thesis by simp
qed

end
