(* ===== verification/Payment_States.thy ===== *)
theory Payment_States
  imports Booking_States
begin

section \<open>The payment state of a booking\<close>

text \<open>
  Models \<open>app/accommodation/state_machine/payment_states.py\<close> (\<open>PaymentStateMachine\<close>) with the row
  \<open>AccommodationBookingPayment\<close> of \<open>models/booking_payment.py\<close>.  The column \<open>booking_id\<close> is not nullable, so the
  guard \<open>payment_event.booking_id is not None\<close> of \<open>transition\<close> always holds and the history row is always
  written.  Payment moves share the table of the booking moves, with the prefix \<open>payment:\<close> on both statuses.
  The table has cycles (a failed payment is retried), so only the unranked contract applies.
\<close>

datatype PaymentState =
    UNPAID | PENDING | PROCESSING | PARTIALLY_PAID | PAID | FAILED | REFUND_PENDING | REFUNDED
  | PARTIAL_REFUND | CANCELLED

fun payment_state_value :: "PaymentState \<Rightarrow> string" where
  "payment_state_value UNPAID = ''unpaid''"
| "payment_state_value PENDING = ''pending''"
| "payment_state_value PROCESSING = ''processing''"
| "payment_state_value PARTIALLY_PAID = ''partially_paid''"
| "payment_state_value PAID = ''paid''"
| "payment_state_value FAILED = ''failed''"
| "payment_state_value REFUND_PENDING = ''refund_pending''"
| "payment_state_value REFUNDED = ''refunded''"
| "payment_state_value PARTIAL_REFUND = ''partial_refund''"
| "payment_state_value CANCELLED = ''cancelled''"

definition all_payment_states :: "PaymentState list" where
  "all_payment_states =
     [UNPAID, PENDING, PROCESSING, PARTIALLY_PAID, PAID, FAILED, REFUND_PENDING, REFUNDED,
      PARTIAL_REFUND, CANCELLED]"

definition payment_state_of :: "string \<Rightarrow> PaymentState option" where
  "payment_state_of v = find (\<lambda>s. payment_state_value s = v) all_payment_states"

fun payment_transitions :: "PaymentState \<Rightarrow> PaymentState list" where
  "payment_transitions UNPAID = [PENDING, PARTIALLY_PAID, PAID, CANCELLED]"
| "payment_transitions PENDING = [PROCESSING, PARTIALLY_PAID, PAID, FAILED, CANCELLED, UNPAID]"
| "payment_transitions PROCESSING = [PARTIALLY_PAID, PAID, FAILED, CANCELLED]"
| "payment_transitions PARTIALLY_PAID = [PENDING, PAID, FAILED, REFUND_PENDING, CANCELLED]"
| "payment_transitions PAID = [REFUND_PENDING, PARTIAL_REFUND, REFUNDED]"
| "payment_transitions FAILED = [UNPAID, PENDING, CANCELLED]"
| "payment_transitions REFUND_PENDING = [REFUNDED, PARTIAL_REFUND, PAID]"
| "payment_transitions REFUNDED = []"
| "payment_transitions PARTIAL_REFUND = [REFUND_PENDING, REFUNDED]"
| "payment_transitions CANCELLED = []"

record payment_event =
  pe_booking_id :: int
  pe_idempotency_key :: "string option"
  pe_wallet_txn_id :: "string option"
  pe_payment_reference :: string
  pe_payment_status :: string
  pe_payment_method :: "string option"
  pe_payment_gateway :: "string option"
  pe_gateway_transaction_id :: "string option"
  pe_failure_reason :: "string option"
  pe_retry_count :: int
  pe_updated_at :: time

datatype payment_error = InvalidPaymentTransition int string string | PaymentValueError string

type_synonym payment_ctx = "payment_event \<times> status_history list"

subsection \<open>The machine\<close>

definition payment_can_transition :: "PaymentState \<Rightarrow> PaymentState \<Rightarrow> money option \<Rightarrow> bool" where
  "payment_can_transition current new_state amount =
     (if new_state \<notin> set (payment_transitions current) then False
      else if new_state = PARTIALLY_PAID \<and> (case amount of None \<Rightarrow> False | Some a \<Rightarrow> a \<le> 0) then False
      else True)"

definition payment_is_terminal :: "PaymentState \<Rightarrow> bool" where
  "payment_is_terminal s \<longleftrightarrow> length (payment_transitions s) = 0"

definition is_success_state :: "PaymentState \<Rightarrow> bool" where
  "is_success_state s \<longleftrightarrow> s \<in> {PAID, PARTIALLY_PAID}"

definition is_failure_state :: "PaymentState \<Rightarrow> bool" where
  "is_failure_state s \<longleftrightarrow> s \<in> {FAILED, CANCELLED}"

text \<open>\<open>str(amount) if amount else None\<close> and \<open>x or default\<close> on strings.\<close>

definition meta_amount :: "money option \<Rightarrow> meta_value" where
  "meta_amount amount = (case amount of Some a \<Rightarrow> if a \<noteq> 0 then MDec a else MNone | None \<Rightarrow> MNone)"

definition str_or :: "string option \<Rightarrow> string \<Rightarrow> string" where
  "str_or s d = (case s of Some t \<Rightarrow> if t \<noteq> [] then t else d | None \<Rightarrow> d)"

definition payment_label :: "PaymentState \<Rightarrow> string" where
  "payment_label s = ''payment:'' @ payment_state_value s"

definition payment_transition ::
  "time \<Rightarrow> transition_args \<Rightarrow> money option \<Rightarrow> payment_ctx \<Rightarrow> PaymentState \<Rightarrow> payment_error + payment_ctx" where
  "payment_transition now a amount ctx new_state =
     (case ctx of (p, hist) \<Rightarrow>
      case payment_state_of (pe_payment_status p) of
        None \<Rightarrow> Inl (PaymentValueError (pe_payment_status p))
      | Some current \<Rightarrow>
          rbind (check (payment_can_transition current new_state amount)
            (InvalidPaymentTransition (pe_booking_id p) (payment_state_value current)
               (payment_state_value new_state))) (\<lambda>_.
          Inr (p\<lparr>pe_payment_status := payment_state_value new_state, pe_updated_at := now\<rparr>,
               hist @ [\<lparr>h_booking_id = pe_booking_id p,
                        h_from_status = Some (''payment:'' @ pe_payment_status p),
                        h_to_status = ''payment:'' @ payment_state_value new_state,
                        h_changed_by = ta_changed_by a,
                        h_trigger = Some (str_or (ta_trigger a) (''payment_'' @ payment_state_value new_state)),
                        h_metadata = (transition_metadata a)
                          (''payment_reference'' \<mapsto> MStr (pe_payment_reference p),
                           ''amount'' \<mapsto> meta_amount amount)\<rparr>])))"

subsection \<open>The entry points\<close>

text \<open>Arguments of an entry point: who, why, which trigger, which metadata.\<close>

definition pay_args ::
  "user_id option \<Rightarrow> string option \<Rightarrow> string \<Rightarrow> (string \<rightharpoonup> meta_value) \<Rightarrow> transition_args" where
  "pay_args who reason trigger md =
     \<lparr>ta_changed_by = who, ta_reason = reason, ta_ip_address = None, ta_user_agent = None,
      ta_trigger = Some trigger, ta_metadata = Some md\<rparr>"

text \<open>\<open>if x: event.field = x\<close> on an optional string.\<close>

definition set_if :: "string option \<Rightarrow> (string option \<Rightarrow> payment_event \<Rightarrow> payment_event) \<Rightarrow>
  payment_event \<Rightarrow> payment_event" where
  "set_if v upd p = (case v of Some s \<Rightarrow> if s \<noteq> [] then upd (Some s) p else p | None \<Rightarrow> p)"

definition set_gateway_id :: "string option \<Rightarrow> payment_event \<Rightarrow> payment_event" where
  "set_gateway_id v p = p\<lparr>pe_gateway_transaction_id := v\<rparr>"

definition set_wallet_txn :: "string option \<Rightarrow> payment_event \<Rightarrow> payment_event" where
  "set_wallet_txn v p = p\<lparr>pe_wallet_txn_id := v\<rparr>"

text \<open>The column defaults of a new row: no retries yet; \<open>reference\<close> is the random reference.\<close>

definition new_payment_event ::
  "time \<Rightarrow> string \<Rightarrow> int \<Rightarrow> string \<Rightarrow> string option \<Rightarrow> string option \<Rightarrow> payment_event" where
  "new_payment_event now reference booking_id method gateway key =
     \<lparr>pe_booking_id = booking_id, pe_idempotency_key = key, pe_wallet_txn_id = None,
      pe_payment_reference = reference, pe_payment_status = payment_state_value PENDING,
      pe_payment_method = Some method, pe_payment_gateway = gateway,
      pe_gateway_transaction_id = None, pe_failure_reason = None, pe_retry_count = 0,
      pe_updated_at = now\<rparr>"

definition initiate_payment ::
  "time \<Rightarrow> string \<Rightarrow> booking \<Rightarrow> money \<Rightarrow> string \<Rightarrow> string option \<Rightarrow> user_id option \<Rightarrow> string option \<Rightarrow>
   (string \<rightharpoonup> meta_value) \<Rightarrow> status_history list \<Rightarrow> payment_error + payment_ctx" where
  "initiate_payment now reference b amount method gateway who key md hist =
     payment_transition now
       (pay_args who (Some ''Payment initiated'') ''payment_initiated''
         (md(''amount'' \<mapsto> MDec amount, ''payment_method'' \<mapsto> MStr method,
             ''payment_gateway'' \<mapsto> meta_opt gateway)))
       (Some amount) (new_payment_event now reference (bk_id b) method gateway key, hist) PENDING"

definition mark_processing ::
  "time \<Rightarrow> string option \<Rightarrow> string option \<Rightarrow> payment_ctx \<Rightarrow> payment_error + payment_ctx" where
  "mark_processing now gateway_id wallet_txn ctx =
     rbind (payment_transition now
       (pay_args None None ''gateway_processing''
          [''gateway_transaction_id'' \<mapsto> meta_opt gateway_id, ''wallet_txn_id'' \<mapsto> meta_opt wallet_txn])
       None ctx PROCESSING) (\<lambda>(p, hist).
     Inr (set_if wallet_txn set_wallet_txn (set_if gateway_id set_gateway_id p), hist))"

text \<open>The two completions share the metadata and the field updates.\<close>

definition mark_received ::
  "PaymentState \<Rightarrow> string \<Rightarrow> string \<Rightarrow> time \<Rightarrow> money \<Rightarrow> string option \<Rightarrow> string option \<Rightarrow> user_id option \<Rightarrow>
   payment_ctx \<Rightarrow> payment_error + payment_ctx" where
  "mark_received new_state reason trigger now amount wallet_txn gateway_id who ctx =
     rbind (payment_transition now
       (pay_args who (Some reason) trigger
          [''amount'' \<mapsto> MDec amount, ''wallet_txn_id'' \<mapsto> meta_opt wallet_txn,
           ''gateway_transaction_id'' \<mapsto> meta_opt gateway_id])
       (Some amount) ctx new_state) (\<lambda>(p, hist).
     Inr (set_if gateway_id set_gateway_id (set_wallet_txn wallet_txn p), hist))"

definition mark_paid ::
  "time \<Rightarrow> money \<Rightarrow> string option \<Rightarrow> string option \<Rightarrow> user_id option \<Rightarrow> payment_ctx \<Rightarrow>
   payment_error + payment_ctx" where
  "mark_paid now amount wallet_txn gateway_id who ctx =
     (if payment_state_of (pe_payment_status (fst ctx)) = None
      then Inl (PaymentValueError (pe_payment_status (fst ctx)))
      else mark_received PAID ''Payment completed'' ''payment_completed'' now amount wallet_txn gateway_id who ctx)"

definition mark_partially_paid ::
  "time \<Rightarrow> money \<Rightarrow> string option \<Rightarrow> string option \<Rightarrow> user_id option \<Rightarrow> payment_ctx \<Rightarrow>
   payment_error + payment_ctx" where
  "mark_partially_paid =
     mark_received PARTIALLY_PAID ''Partial payment received'' ''partial_payment''"

definition mark_failed ::
  "time \<Rightarrow> string \<Rightarrow> user_id option \<Rightarrow> payment_ctx \<Rightarrow> payment_error + payment_ctx" where
  "mark_failed now failure_reason who ctx =
     rbind (payment_transition now
       (pay_args who (Some (''Payment failed: '' @ failure_reason)) ''payment_failed''
          [''failure_reason'' \<mapsto> MStr failure_reason])
       None ctx FAILED) (\<lambda>(p, hist).
     Inr (p\<lparr>pe_failure_reason := Some failure_reason, pe_retry_count := pe_retry_count p + 1\<rparr>, hist))"

definition initiate_refund ::
  "time \<Rightarrow> money option \<Rightarrow> money \<Rightarrow> string \<Rightarrow> user_id option \<Rightarrow> payment_ctx \<Rightarrow>
   payment_error + payment_ctx" where
  "initiate_refund now booking_total amount reason who ctx =
     (if payment_state_of (pe_payment_status (fst ctx)) = None
      then Inl (PaymentValueError (pe_payment_status (fst ctx)))
      else
        let total = (case booking_total of None \<Rightarrow> 0 | Some t \<Rightarrow> t);
            new_state = (if amount \<ge> total then REFUND_PENDING else PARTIAL_REFUND)
        in payment_transition now
             (pay_args who (Some (''Refund initiated: '' @ reason)) ''refund_initiated''
                [''refund_amount'' \<mapsto> MDec amount, ''refund_reason'' \<mapsto> MStr reason])
             (Some amount) ctx new_state)"

definition mark_refunded ::
  "time \<Rightarrow> money \<Rightarrow> string option \<Rightarrow> user_id option \<Rightarrow> payment_ctx \<Rightarrow> payment_error + payment_ctx" where
  "mark_refunded now amount wallet_txn who ctx =
     (case payment_state_of (pe_payment_status (fst ctx)) of
        None \<Rightarrow> Inl (PaymentValueError (pe_payment_status (fst ctx)))
      | Some current \<Rightarrow>
          let new_state = (if current = REFUND_PENDING then REFUNDED else PARTIAL_REFUND) in
          rbind (payment_transition now
            (pay_args who (Some ''Refund completed'') ''refund_completed''
               [''refund_amount'' \<mapsto> MDec amount, ''wallet_txn_id'' \<mapsto> meta_opt wallet_txn])
            (Some amount) ctx new_state) (\<lambda>(p, hist).
          Inr (set_if wallet_txn set_wallet_txn p, hist)))"

text \<open>A call of one of the entry points on an existing payment event, for sequences of calls.\<close>

datatype payment_op =
    Op_processing "string option" "string option"
  | Op_paid money "string option" "string option" "user_id option"
  | Op_partially_paid money "string option" "string option" "user_id option"
  | Op_failed string "user_id option"
  | Op_initiate_refund "money option" money string "user_id option"
  | Op_refunded money "string option" "user_id option"

fun payment_exec :: "time \<times> payment_op \<Rightarrow> payment_ctx \<Rightarrow> payment_error + payment_ctx" where
  "payment_exec (now, Op_processing g w) = mark_processing now g w"
| "payment_exec (now, Op_paid am w g who) = mark_paid now am w g who"
| "payment_exec (now, Op_partially_paid am w g who) = mark_partially_paid now am w g who"
| "payment_exec (now, Op_failed r who) = mark_failed now r who"
| "payment_exec (now, Op_initiate_refund tot am r who) = initiate_refund now tot am r who"
| "payment_exec (now, Op_refunded am w who) = mark_refunded now am w who"

definition payment_trail :: "payment_ctx \<Rightarrow> (string \<times> string) list" where
  "payment_trail ctx =
     (case ctx of (p, hist) \<Rightarrow>
      map (\<lambda>h. (the (h_from_status h), h_to_status h))
        (filter (\<lambda>h. h_booking_id h = pe_booking_id p \<and> h_from_status h \<noteq> None
                     \<and> take 8 (the (h_from_status h)) = ''payment:'') hist))"

definition demo_event :: payment_event where
  "demo_event = new_payment_event 10 ''PAY-0000000001'' 7 ''card'' None None"

subsection \<open>Lemmas\<close>

lemma payment_state_of_value [simp]: "payment_state_of (payment_state_value s) = Some s"
  by (cases s) (simp_all add: payment_state_of_def all_payment_states_def)

lemma payment_state_value_inj [simp]: "payment_state_value s = payment_state_value t \<longleftrightarrow> s = t"
  by (metis payment_state_of_value option.inject)

lemma payment_state_of_Some: "payment_state_of v = Some s \<longleftrightarrow> v = payment_state_value s"
proof
  assume "payment_state_of v = Some s"
  then show "v = payment_state_value s"
    unfolding payment_state_of_def by (auto simp: find_Some_iff)
qed simp

lemma payment_label_inj [simp]: "payment_label s = payment_label t \<longleftrightarrow> s = t"
  by (simp add: payment_label_def)

lemma payment_transition_Inr:
  "payment_transition now a am (p, hist) t = Inr ctx' \<longleftrightarrow>
     (\<exists>s. pe_payment_status p = payment_state_value s \<and> payment_can_transition s t am \<and>
      ctx' = (p\<lparr>pe_payment_status := payment_state_value t, pe_updated_at := now\<rparr>,
        hist @ [\<lparr>h_booking_id = pe_booking_id p,
                 h_from_status = Some (payment_label s), h_to_status = payment_label t,
                 h_changed_by = ta_changed_by a,
                 h_trigger = Some (str_or (ta_trigger a) (''payment_'' @ payment_state_value t)),
                 h_metadata = (transition_metadata a)
                   (''payment_reference'' \<mapsto> MStr (pe_payment_reference p),
                    ''amount'' \<mapsto> meta_amount am)\<rparr>]))"
  by (auto simp: payment_transition_def payment_state_of_Some payment_label_def split: option.splits)

lemma payment_can_transition_table: "payment_can_transition s t am \<Longrightarrow> t \<in> set (payment_transitions s)"
  by (simp add: payment_can_transition_def split: if_splits)

interpretation payments: transition_machine payment_state_value payment_label payment_transitions
    "\<lambda>ctx. pe_payment_status (fst ctx)" payment_trail
    "\<lambda>(now, a, am). payment_transition now a am"
proof unfold_locales
  fix s t :: PaymentState
  show "payment_state_value s = payment_state_value t \<Longrightarrow> s = t" by simp
next
  fix q :: "time \<times> transition_args \<times> money option" and x y :: payment_ctx and t
  assume "(\<lambda>(now, a, am). payment_transition now a am) q x t = Inr y"
  then obtain p hist now a am where q: "q = (now, a, am)" "x = (p, hist)"
    and ok: "payment_transition now a am (p, hist) t = Inr y"
    by (cases q; cases x) auto
  from ok q show "\<exists>s. pe_payment_status (fst x) = payment_state_value s \<and> t \<in> set (payment_transitions s)"
    by (auto simp: payment_transition_Inr dest: payment_can_transition_table)
  from ok q show "pe_payment_status (fst y) = payment_state_value t"
    by (auto simp: payment_transition_Inr)
  from ok q show "payment_trail y = payment_trail x @ [(payment_label s, payment_label t)]"
    if "pe_payment_status (fst x) = payment_state_value s" for s
    using that by (auto simp: payment_transition_Inr payment_trail_def payment_label_def)
qed

text \<open>Every entry point is one transition followed by updates of fields the machine does not read.\<close>

lemma set_if_frame:
  "pe_payment_status (set_if v set_gateway_id p) = pe_payment_status p"
  "pe_payment_status (set_if v set_wallet_txn p) = pe_payment_status p"
  "pe_payment_status (set_wallet_txn v p) = pe_payment_status p"
  "pe_booking_id (set_if v set_gateway_id p) = pe_booking_id p"
  "pe_booking_id (set_if v set_wallet_txn p) = pe_booking_id p"
  "pe_booking_id (set_wallet_txn v p) = pe_booking_id p"
  by (simp_all add: set_if_def set_gateway_id_def set_wallet_txn_def split: option.splits)

lemmas payment_entry_points = mark_processing_def mark_paid_def mark_partially_paid_def
  mark_received_def mark_failed_def initiate_refund_def mark_refunded_def

lemma payment_exec_step:
  assumes "payment_exec c ctx = Inr ctx'"
  shows "\<exists>a am t z. payment_transition (fst c) a am ctx t = Inr z \<and> snd ctx' = snd z
    \<and> pe_payment_status (fst ctx') = pe_payment_status (fst z)
    \<and> pe_booking_id (fst ctx') = pe_booking_id (fst z)"
proof -
  obtain now op where c: "c = (now, op)" by (cases c)
  show ?thesis using assms unfolding c
    by (cases op)
      (fastforce simp: payment_entry_points Let_def set_if_frame split: if_splits option.splits)+
qed

lemma payment_trail_exec:
  assumes "payment_exec c ctx = Inr ctx'"
  shows "\<exists>s t. pe_payment_status (fst ctx) = payment_state_value s \<and> t \<in> set (payment_transitions s)
    \<and> pe_payment_status (fst ctx') = payment_state_value t
    \<and> payment_trail ctx' = payment_trail ctx @ [(payment_label s, payment_label t)]"
proof -
  from payment_exec_step [OF assms] obtain a am t z where
    z: "payment_transition (fst c) a am ctx t = Inr z" and "snd ctx' = snd z"
    and st: "pe_payment_status (fst ctx') = pe_payment_status (fst z)"
    and "pe_booking_id (fst ctx') = pe_booking_id (fst z)"
    by blast
  then have tr: "payment_trail ctx' = payment_trail z"
    by (cases ctx'; cases z) (simp add: payment_trail_def)
  have step: "(\<lambda>(now, a, am). payment_transition now a am) (fst c, a, am) ctx t = Inr z" using z by simp
  show ?thesis
    using payments.step_sound [OF step] payments.step_status [OF step] payments.step_trail [OF step] st tr
    by metis
qed

text \<open>
  The states in which money has been received, or is on its way back, are entered from the others only by
  a payment.
\<close>

lemma funded_entry:
  "t \<in> set (payment_transitions s) \<Longrightarrow> s \<in> {UNPAID, PENDING, PROCESSING, FAILED, CANCELLED} \<Longrightarrow>
   t \<in> {UNPAID, PENDING, PROCESSING, FAILED, CANCELLED, PAID, PARTIALLY_PAID}"
  by (cases s) auto

lemma payment_run_trail:
  assumes "run_all payment_exec ops ctx = Inr ctx'"
    and "pe_payment_status (fst ctx) = payment_state_value s"
  shows "\<exists>ts. is_path payment_transitions s ts \<and> length ts = length ops
    \<and> pe_payment_status (fst ctx') = payment_state_value (last (s # ts))
    \<and> payment_trail ctx' = payment_trail ctx @ map (map_prod payment_label payment_label) (hops s ts)"
  using assms
proof (induction ops arbitrary: ctx s)
  case Nil
  then show ?case by (intro exI [of _ "[]"]) simp
next
  case (Cons c ops)
  from Cons.prems(1) obtain z where z: "payment_exec c ctx = Inr z"
    and rest: "run_all payment_exec ops z = Inr ctx'"
    by auto
  from payment_trail_exec [OF z] Cons.prems(2) obtain t where t: "t \<in> set (payment_transitions s)"
    and st: "pe_payment_status (fst z) = payment_state_value t"
    and tr: "payment_trail z = payment_trail ctx @ [(payment_label s, payment_label t)]"
    by auto
  from Cons.IH [OF rest st] obtain ts where "is_path payment_transitions t ts"
    and "length ts = length ops" and "pe_payment_status (fst ctx') = payment_state_value (last (t # ts))"
    and "payment_trail ctx' = payment_trail z @ map (map_prod payment_label payment_label) (hops t ts)"
    by blast
  with t tr show ?case by (intro exI [of _ "t # ts"]) simp
qed

lemma unfunded_path:
  "is_path payment_transitions s ts \<Longrightarrow> s \<in> {UNPAID, PENDING, PROCESSING, FAILED, CANCELLED} \<Longrightarrow>
   last (s # ts) \<in> {REFUND_PENDING, REFUNDED, PARTIAL_REFUND} \<Longrightarrow>
   \<exists>(a, b) \<in> set (hops s ts). b \<in> {PAID, PARTIALLY_PAID}"
proof (induction ts arbitrary: s)
  case Nil
  then show ?case by auto
next
  case (Cons t ts)
  then have t: "t \<in> {UNPAID, PENDING, PROCESSING, FAILED, CANCELLED, PAID, PARTIALLY_PAID}"
    using funded_entry [of t s] by simp
  show ?case
  proof (cases "t \<in> {PAID, PARTIALLY_PAID}")
    case False
    with t have "t \<in> {UNPAID, PENDING, PROCESSING, FAILED, CANCELLED}" by blast
    with Cons.IH [of t] Cons.prems show ?thesis by auto
  qed auto
qed

subsection \<open>Properties\<close>

text \<open>
  No refund without a payment.  In any sequence of calls of the entry points that takes a payment event from
  a state without received money (unpaid, pending, processing, failed, cancelled) to a refund state, the
  history written by those calls has a row in which the payment became paid or partially paid.
\<close>

theorem refund_needs_payment:
  assumes "run_all payment_exec ops ctx = Inr ctx'"
    and "pe_payment_status (fst ctx) \<in> {''unpaid'', ''pending'', ''processing'', ''failed'', ''cancelled''}"
    and "pe_payment_status (fst ctx') \<in> {''refund_pending'', ''refunded'', ''partial_refund''}"
  shows "\<exists>new. payment_trail ctx' = payment_trail ctx @ new \<and> length new = length ops
    \<and> (\<exists>f. (f, ''payment:paid'') \<in> set new \<or> (f, ''payment:partially_paid'') \<in> set new)"
proof -
  from assms(2) obtain s where s: "pe_payment_status (fst ctx) = payment_state_value s"
    and un: "s \<in> {UNPAID, PENDING, PROCESSING, FAILED, CANCELLED}"
    by (auto intro: that [of UNPAID] that [of PENDING] that [of PROCESSING] that [of FAILED] that [of CANCELLED])
  from payment_run_trail [OF assms(1) s] obtain ts where path: "is_path payment_transitions s ts"
    and len: "length ts = length ops"
    and fin: "pe_payment_status (fst ctx') = payment_state_value (last (s # ts))"
    and tr: "payment_trail ctx' = payment_trail ctx @ map (map_prod payment_label payment_label) (hops s ts)"
    by blast
  have "last (s # ts) \<in> {REFUND_PENDING, REFUNDED, PARTIAL_REFUND}"
    using assms(3) unfolding fin by (cases "last (s # ts)") auto
  from unfunded_path [OF path un this] obtain a b where
    "(a, b) \<in> set (hops s ts)" and "b \<in> {PAID, PARTIALLY_PAID}" by auto
  then have "(payment_label a, payment_label b) \<in> set (map (map_prod payment_label payment_label) (hops s ts))"
    and "payment_label b \<in> {''payment:paid'', ''payment:partially_paid''}"
    by (force, auto simp: payment_label_def)
  with tr len show ?thesis
    by (intro exI [of _ "map (map_prod payment_label payment_label) (hops s ts)"])
      (auto simp del: set_map intro: exI [of _ "payment_label a"])
qed

lemmas payment_eval = payment_entry_points payment_transition_def payment_state_of_def
  all_payment_states_def payment_can_transition_def new_payment_event_def demo_event_def
  set_if_def set_wallet_txn_def set_gateway_id_def

theorem refund_needs_payment_witness:
  "\<exists>ctx' new. run_all payment_exec [(20, Op_processing None None), (30, Op_paid 300 None None None),
        (40, Op_initiate_refund (Some 300) 300 ''guest'' None), (50, Op_refunded 300 None None)]
       (demo_event, []) = Inr ctx'
     \<and> pe_payment_status (fst ctx') = ''refunded''
     \<and> payment_trail ctx' = payment_trail (demo_event, []) @ new \<and> length new = 4
     \<and> (\<exists>f. (f, ''payment:paid'') \<in> set new \<or> (f, ''payment:partially_paid'') \<in> set new)"
proof -
  obtain ctx' where run: "run_all payment_exec [(20, Op_processing None None), (30, Op_paid 300 None None None),
        (40, Op_initiate_refund (Some 300) 300 ''guest'' None), (50, Op_refunded 300 None None)]
       (demo_event, []) = Inr ctx'" and fin: "pe_payment_status (fst ctx') = ''refunded''"
    by (simp add: payment_eval)
  have "pe_payment_status (fst (demo_event, [] :: status_history list)) = ''pending''"
    by (simp add: demo_event_def new_payment_event_def)
  with refund_needs_payment [OF run] fin have
    "\<exists>new. payment_trail ctx' = payment_trail (demo_event, []) @ new \<and> length new = 4
     \<and> (\<exists>f. (f, ''payment:paid'') \<in> set new \<or> (f, ''payment:partially_paid'') \<in> set new)"
    by (simp add: numeral_eq_Suc)
  with run fin show ?thesis by blast
qed

text \<open>
  \<open>initiate_payment\<close>, documented as the entry point of all payment flows, always raises: it creates the event
  in the pending state and then asks for the transition from pending to pending, which the table does not have.
\<close>

theorem initiate_payment_raises:
  "initiate_payment now reference b amount method gateway who key md hist =
     Inl (InvalidPaymentTransition (bk_id b) ''pending'' ''pending'')"
  by (simp add: initiate_payment_def payment_transition_def new_payment_event_def payment_state_of_def
      all_payment_states_def payment_can_transition_def check_def)

text \<open>
  \<open>mark_refunded\<close> returns exactly for events that are paid or whose refund is pending, and then ends in
  partially refunded or refunded respectively; in particular an event in the partial-refund state, where
  \<open>initiate_refund\<close> puts every refund below the booking total, cannot be completed.  \<open>initiate_refund\<close> below the
  total returns exactly for events that are paid or whose refund is pending (so not for partially paid
  ones), and for the total exactly for events that are paid, partially paid or partially refunded.
\<close>

theorem refund_completion:
  "((\<exists>q hist'. mark_refunded now amount txn who (p, hist) = Inr (q, hist') \<and> pe_payment_status q = st)
      \<longleftrightarrow> (pe_payment_status p = ''refund_pending'' \<and> st = ''refunded'')
        \<or> (pe_payment_status p = ''paid'' \<and> st = ''partial_refund''))
   \<and> ((\<exists>q hist'. initiate_refund now (Some owed) amount r who (p, hist) = Inr (q, hist'))
      \<longleftrightarrow> pe_payment_status p \<in>
           (if amount < owed then {''paid'', ''refund_pending''}
            else {''paid'', ''partially_paid'', ''partial_refund''}))"
proof (cases "payment_state_of (pe_payment_status p)")
  case None
  then have "pe_payment_status p \<noteq> payment_state_value s" for s by auto
  from this [of PAID] this [of REFUND_PENDING] this [of PARTIALLY_PAID] this [of PARTIAL_REFUND]
  show ?thesis using None by (simp add: mark_refunded_def initiate_refund_def)
next
  case (Some s)
  then have st: "pe_payment_status p = payment_state_value s" by (simp add: payment_state_of_Some)
  let ?ns = "if s = REFUND_PENDING then REFUNDED else PARTIAL_REFUND"
  have "(\<exists>q hist'. mark_refunded now amount txn who (p, hist) = Inr (q, hist') \<and> pe_payment_status q = st)
      \<longleftrightarrow> payment_can_transition s ?ns (Some amount) \<and> st = payment_state_value ?ns"
    by (auto simp: mark_refunded_def payment_transition_Inr st set_if_frame Let_def)
  moreover have "(\<exists>q hist'. initiate_refund now (Some owed) amount r who (p, hist) = Inr (q, hist'))
      \<longleftrightarrow> payment_can_transition s (if amount < owed then PARTIAL_REFUND else REFUND_PENDING) (Some amount)"
    by (auto simp: initiate_refund_def payment_transition_Inr st Let_def)
  ultimately show ?thesis
    unfolding st by (cases s) (simp_all add: payment_can_transition_def)
qed

end
