(* ===== verification/Wallet_Ledger.thy ===== *)
theory Wallet_Ledger
  imports Prelude
begin

section \<open>The wallet's tables and repositories\<close>

text \<open>
  Models \<open>app/wallet/models/ledger.py\<close>, \<open>models/transaction.py\<close>, \<open>models/audit.py\<close>, \<open>models/adjustment.py\<close> and the
  repositories of \<open>app/wallet/repositories/\<close>.  A table is the list of its rows in insertion order; a query is
  a filter or a sum over it.  Balances are never stored: they are sums over \<open>ledger_entries\<close>.  The database
  constraints the code relies on are written out: the unique idempotency key, the positive amounts and the
  not-null key raise \<open>IntegrityError\<close>, and \<open>scalar_one_or_none\<close> raises on more than one row.
  \<open>SELECT ... FOR UPDATE\<close> locks do not change the value read and are not part of the state.  Surrogate keys
  are drawn from a counter, which stands for the random UUIDs of the code.
\<close>

datatype wallet_error =
    MultipleResultsFound
  | IntegrityError string
  | InvalidRequestError
  | KeyError string
  | ValueError string
  | PermissionError
  | AttributeError
  | TypeError
  | UnboundLocalError
  | RecursionError
  | NotImplementedError
  | WalletNotFoundError
  | InsufficientBalanceError currency money money
  | DuplicateTransactionError string
  | WalletFrozenError uuid "string option"
  | LimitExceededError string currency
  | UnsupportedCurrencyError currency
  | TransactionPINError string
  | RateStaleError
  | RateDeviationError
  | RateUnavailableError

subsection \<open>Rows\<close>

text \<open>JSON values of the metadata columns.\<close>

datatype json = JNull | JBool bool | JNum rat | JStr string

type_synonym metadata = "string \<rightharpoonup> json"

definition json_truthy :: "json option \<Rightarrow> bool" where
  "json_truthy v = (case v of
       None \<Rightarrow> False | Some JNull \<Rightarrow> False | Some (JBool b) \<Rightarrow> b
     | Some (JNum n) \<Rightarrow> n \<noteq> 0 | Some (JStr s) \<Rightarrow> s \<noteq> [])"

datatype EntryType = DEBIT | CREDIT

fun entry_type_value :: "EntryType \<Rightarrow> string" where
  "entry_type_value DEBIT = ''DEBIT''"
| "entry_type_value CREDIT = ''CREDIT''"

record ledger_entry =
  le_id :: uuid
  le_transaction_id :: uuid
  le_account_id :: uuid
  le_entry_type :: string
  le_amount :: money
  le_currency :: currency
  le_created_at :: time

text \<open>The owner types, statuses and kinds of an account, by their stored values.\<close>

datatype AccountOwnerType = USER | ORGANISATION | PLATFORM | SYSTEM

datatype AccountStatus = ACTIVE | FROZEN | CLOSED | SUSPENDED

datatype AccountType = REVENUE | ESCROW | OPERATIONS | SETTLEMENT | RESERVE | USER_WALLET | ORG_WALLET

record account =
  ac_id :: uuid
  ac_account_number :: "string option"
  ac_owner_type :: AccountOwnerType
  ac_user_id :: "user_id option"
  ac_organisation_id :: "int option"
  ac_platform_account :: bool
  ac_account_type :: AccountType
  ac_status :: AccountStatus
  ac_currency :: currency
  ac_is_frozen :: bool
  ac_frozen_reason :: "string option"
  ac_frozen_at :: "time option"
  ac_frozen_by :: "user_id option"
  ac_daily_volume :: money
  ac_daily_volume_reset_at :: "time option"
  ac_monthly_volume :: money
  ac_monthly_volume_reset_at :: "time option"
  ac_monthly_volume_limit :: "money option"

datatype TransactionType = DEPOSIT | WITHDRAW | TRANSFER | FEE | REFUND | ADJUSTMENT

datatype TransactionStatus = PENDING | COMPLETED | FAILED | CANCELLED

record transaction =
  tx_id :: uuid
  tx_client_request_id :: string
  tx_type :: TransactionType
  tx_status :: TransactionStatus
  tx_amount :: money
  tx_currency :: currency
  tx_user_id :: "user_id option"
  tx_recipient_user_id :: "user_id option"
  tx_metadata :: metadata
  tx_external_reference :: "string option"
  tx_created_at :: time
  tx_completed_at :: "time option"
  tx_failed_at :: "time option"
  tx_failure_reason :: "string option"

record audit_log =
  al_transaction_id :: uuid
  al_actor_id :: "user_id option"
  al_action :: string
  al_before_state :: "(string \<times> money) list"
  al_after_state :: "(string \<times> money) list"

record commission =
  cm_agent :: json
  cm_amount :: money
  cm_currency :: currency
  cm_source_type :: string
  cm_source_id :: uuid
  cm_recipient_id :: "user_id option"

datatype AdjustmentStatus = ADJ_PENDING | ADJ_APPROVED | ADJ_REJECTED

record adjustment =
  aj_public_id :: uuid
  aj_account_id :: uuid
  aj_amount :: money
  aj_currency :: currency
  aj_adjustment_type :: string
  aj_reason :: string
  aj_status :: AdjustmentStatus
  aj_requested_by_id :: user_id
  aj_approved_by_id :: "user_id option"
  aj_approved_at :: "time option"
  aj_rejected_by_id :: "user_id option"
  aj_rejected_at :: "time option"
  aj_rejection_reason :: "string option"
  aj_transaction_id :: "uuid option"

record fx_rate =
  fx_base :: currency
  fx_quote :: currency
  fx_value :: rat
  fx_source :: string
  fx_timestamp :: time
  fx_expires_at :: time
  fx_spread :: rat

record pin_user =
  pu_id :: user_id
  pu_pin_hash :: "string option"
  pu_failed_attempts :: int
  pu_locked_until :: "time option"

text \<open>The database as the wallet sees it.\<close>

record wallet_db =
  db_accounts :: "account list"
  db_transactions :: "transaction list"
  db_ledger :: "ledger_entry list"
  db_reversals :: "uuid list"
  db_audit_logs :: "audit_log list"
  db_commissions :: "commission list"
  db_adjustments :: "adjustment list"
  db_fx_rates :: "fx_rate list"
  db_users :: "pin_user list"
  db_next_id :: uuid

text \<open>\<open>scalar_one_or_none\<close>: at most one row may match.\<close>

fun scalar_one_or_none :: "'r list \<Rightarrow> wallet_error + 'r option" where
  "scalar_one_or_none [] = Inr None"
| "scalar_one_or_none [r] = Inr (Some r)"
| "scalar_one_or_none (r # s # rs) = Inl MultipleResultsFound"

subsection \<open>The ledger repository\<close>

definition credit_of :: "ledger_entry \<Rightarrow> money" where
  "credit_of e = (if le_entry_type e = entry_type_value CREDIT then le_amount e else 0)"

definition debit_of :: "ledger_entry \<Rightarrow> money" where
  "debit_of e = (if le_entry_type e = entry_type_value DEBIT then le_amount e else 0)"

text \<open>
  The rows come with the check constraints of the table: a non-positive amount or an unknown entry type is
  refused by the database.
\<close>

definition valid_entry :: "ledger_entry \<Rightarrow> bool" where
  "valid_entry e \<longleftrightarrow> le_amount e > 0
     \<and> le_entry_type e \<in> {''DEBIT'', ''CREDIT'', ''debit'', ''credit''}"

definition post_entries :: "ledger_entry list \<Rightarrow> wallet_db \<Rightarrow> wallet_error + wallet_db" where
  "post_entries entries db =
     (if list_all valid_entry entries then Inr (db\<lparr>db_ledger := db_ledger db @ entries\<rparr>)
      else Inl (IntegrityError ''ledger_entries''))"

definition get_balance :: "wallet_db \<Rightarrow> uuid \<Rightarrow> currency \<Rightarrow> time option \<Rightarrow> money" where
  "get_balance db account_id cur as_of =
     (let sel = (\<lambda>e. le_account_id e = account_id \<and> le_currency e = cur
                     \<and> (case as_of of None \<Rightarrow> True | Some t \<Rightarrow> le_created_at e \<le> t))
      in sum_where sel credit_of (db_ledger db) - sum_where sel debit_of (db_ledger db))"

definition signed_amount :: "ledger_entry \<Rightarrow> money" where
  "signed_amount e = (if le_entry_type e = entry_type_value CREDIT then le_amount e else - le_amount e)"

definition get_balances :: "wallet_db \<Rightarrow> uuid \<Rightarrow> (currency \<times> money) list" where
  "get_balances db account_id =
     map (\<lambda>c. (c, sum_where (\<lambda>e. le_account_id e = account_id \<and> le_currency e = c) signed_amount (db_ledger db)))
       (remdups (map le_currency (filter (\<lambda>e. le_account_id e = account_id) (db_ledger db))))"

definition hour_us :: time where "hour_us = 3600 * 1000000"

definition day_us :: time where "day_us = 24 * hour_us"

definition debit_volume :: "wallet_db \<Rightarrow> uuid \<Rightarrow> currency \<Rightarrow> time \<Rightarrow> money" where
  "debit_volume db account_id cur since =
     sum_where (\<lambda>e. le_account_id e = account_id \<and> le_currency e = cur
                    \<and> le_entry_type e = entry_type_value DEBIT \<and> le_created_at e \<ge> since)
       le_amount (db_ledger db)"

definition get_daily_volume :: "wallet_db \<Rightarrow> time \<Rightarrow> uuid \<Rightarrow> currency \<Rightarrow> time option \<Rightarrow> money" where
  "get_daily_volume db now account_id cur since =
     debit_volume db account_id cur (case since of None \<Rightarrow> now - day_us | Some s \<Rightarrow> s)"

definition get_monthly_volume :: "wallet_db \<Rightarrow> time \<Rightarrow> uuid \<Rightarrow> currency \<Rightarrow> time option \<Rightarrow> money" where
  "get_monthly_volume db now account_id cur since =
     debit_volume db account_id cur (case since of None \<Rightarrow> now - 30 * day_us | Some s \<Rightarrow> s)"

text \<open>\<open>ORDER BY created_at DESC\<close> with \<open>OFFSET\<close> and \<open>LIMIT\<close>.\<close>

definition newest_first :: "('r \<Rightarrow> time) \<Rightarrow> nat \<Rightarrow> nat \<Rightarrow> 'r list \<Rightarrow> 'r list" where
  "newest_first stamp off lmt rows = take lmt (drop off (sort_key (\<lambda>r. - stamp r) rows))"

definition get_entries_for_transaction :: "wallet_db \<Rightarrow> uuid \<Rightarrow> nat \<Rightarrow> ledger_entry list" where
  "get_entries_for_transaction db tx lmt =
     newest_first le_created_at 0 lmt (filter (\<lambda>e. le_transaction_id e = tx) (db_ledger db))"

definition get_account_ledger_history ::
  "wallet_db \<Rightarrow> uuid \<Rightarrow> currency option \<Rightarrow> nat \<Rightarrow> nat \<Rightarrow> ledger_entry list" where
  "get_account_ledger_history db account_id cur lmt off =
     newest_first le_created_at off lmt
       (filter (\<lambda>e. le_account_id e = account_id \<and> (cur \<in> {None, Some []} \<or> Some (le_currency e) = cur))
          (db_ledger db))"

definition validate_account_balance :: "wallet_db \<Rightarrow> uuid \<Rightarrow> currency \<Rightarrow> money \<Rightarrow> bool" where
  "validate_account_balance db account_id cur required \<longleftrightarrow> get_balance db account_id cur None \<ge> required"

subsection \<open>The account model and repository\<close>

definition is_platform_account :: "account \<Rightarrow> bool" where
  "is_platform_account a \<longleftrightarrow> ac_platform_account a \<or> ac_owner_type a = PLATFORM"

definition freeze :: "time \<Rightarrow> string \<Rightarrow> user_id \<Rightarrow> account \<Rightarrow> account" where
  "freeze now reason frozen_by a =
     a\<lparr>ac_status := FROZEN, ac_is_frozen := True, ac_frozen_at := Some now,
       ac_frozen_reason := Some reason, ac_frozen_by := Some frozen_by\<rparr>"

definition unfreeze :: "account \<Rightarrow> account" where
  "unfreeze a =
     a\<lparr>ac_status := ACTIVE, ac_is_frozen := False, ac_frozen_at := None,
       ac_frozen_reason := None, ac_frozen_by := None\<rparr>"

text \<open>The check constraints of the \<open>accounts\<close> table: one owner, consistent with the owner type.\<close>

definition account_owner_ok :: "account \<Rightarrow> bool" where
  "account_owner_ok a \<longleftrightarrow>
     (ac_user_id a = None \<or> ac_organisation_id a = None)
     \<and> (case ac_owner_type a of
          USER \<Rightarrow> ac_user_id a \<noteq> None \<and> ac_organisation_id a = None
        | ORGANISATION \<Rightarrow> ac_organisation_id a \<noteq> None \<or> ac_user_id a \<noteq> None
        | PLATFORM \<Rightarrow> ac_user_id a \<noteq> None \<and> ac_organisation_id a = None
        | SYSTEM \<Rightarrow> ac_user_id a \<noteq> None \<and> ac_organisation_id a = None)"

text \<open>\<open>assert_internal_id\<close> on an integer.\<close>

definition assert_internal_id :: "user_id \<Rightarrow> wallet_error + user_id" where
  "assert_internal_id v = (if v \<le> 0 then Inl (ValueError ''Internal BIGINT ID must be positive'') else Inr v)"

definition account_get_by_id :: "wallet_db \<Rightarrow> uuid \<Rightarrow> wallet_error + account option" where
  "account_get_by_id db account_id =
     scalar_one_or_none (filter (\<lambda>a. ac_id a = account_id) (db_accounts db))"

definition account_get_by_user_id ::
  "wallet_db \<Rightarrow> user_id \<Rightarrow> currency \<Rightarrow> wallet_error + account option" where
  "account_get_by_user_id db user_id cur =
     rbind (assert_internal_id user_id) (\<lambda>uid.
     scalar_one_or_none (filter (\<lambda>a. ac_user_id a = Some uid \<and> ac_currency a = cur) (db_accounts db)))"

fun collect_wallets :: "wallet_db \<Rightarrow> user_id list \<Rightarrow> wallet_error + account list" where
  "collect_wallets db [] = Inr []"
| "collect_wallets db (u # us) =
     rbind (account_get_by_user_id db u ''USD'') (\<lambda>w.
     rbind (collect_wallets db us) (\<lambda>ws.
     Inr (case w of None \<Rightarrow> ws | Some a \<Rightarrow> a # ws)))"

definition get_wallets_for_update :: "wallet_db \<Rightarrow> user_id list \<Rightarrow> wallet_error + account list" where
  "get_wallets_for_update db user_ids = collect_wallets db (sort user_ids)"

definition account_get_or_create :: "wallet_db \<Rightarrow> user_id \<Rightarrow> currency \<Rightarrow> wallet_error + account option" where
  "account_get_or_create db user_id cur = account_get_by_user_id db user_id cur"

text \<open>The read-modify-write operations: \<open>False\<close> when the account does not exist.\<close>

definition modify_account ::
  "(account \<Rightarrow> account) \<Rightarrow> uuid \<Rightarrow> wallet_db \<Rightarrow> wallet_error + bool \<times> wallet_db" where
  "modify_account f account_id db =
     rbind (account_get_by_id db account_id) (\<lambda>a.
     Inr (case a of
            None \<Rightarrow> (False, db)
          | Some _ \<Rightarrow> (True, db\<lparr>db_accounts := update_rows (\<lambda>a. ac_id a = account_id) f (db_accounts db)\<rparr>)))"

definition freeze_account :: "time \<Rightarrow> uuid \<Rightarrow> string \<Rightarrow> wallet_db \<Rightarrow> wallet_error + bool \<times> wallet_db" where
  "freeze_account now account_id reason =
     modify_account (\<lambda>a. a\<lparr>ac_is_frozen := True, ac_frozen_reason := Some reason, ac_frozen_at := Some now\<rparr>)
       account_id"

definition unfreeze_account :: "uuid \<Rightarrow> wallet_db \<Rightarrow> wallet_error + bool \<times> wallet_db" where
  "unfreeze_account account_id =
     modify_account (\<lambda>a. a\<lparr>ac_is_frozen := False, ac_frozen_reason := None, ac_frozen_at := None\<rparr>) account_id"

definition reset_daily_volume :: "time \<Rightarrow> uuid \<Rightarrow> wallet_db \<Rightarrow> wallet_error + bool \<times> wallet_db" where
  "reset_daily_volume now account_id =
     modify_account (\<lambda>a. a\<lparr>ac_daily_volume := 0, ac_daily_volume_reset_at := Some now\<rparr>) account_id"

definition reset_monthly_volume :: "time \<Rightarrow> uuid \<Rightarrow> wallet_db \<Rightarrow> wallet_error + bool \<times> wallet_db" where
  "reset_monthly_volume now account_id =
     modify_account (\<lambda>a. a\<lparr>ac_monthly_volume := 0, ac_monthly_volume_reset_at := Some now\<rparr>) account_id"

definition update_volume ::
  "uuid \<Rightarrow> money \<Rightarrow> string \<Rightarrow> wallet_db \<Rightarrow> wallet_error + bool \<times> wallet_db" where
  "update_volume account_id amount volume_type =
     modify_account (\<lambda>a.
       if volume_type = ''daily'' then a\<lparr>ac_daily_volume := ac_daily_volume a + amount\<rparr>
       else if volume_type = ''monthly'' then a\<lparr>ac_monthly_volume := ac_monthly_volume a + amount\<rparr>
       else a) account_id"

subsection \<open>The wallet repository\<close>

record wallet_balance =
  wb_exists :: bool
  wb_account_id :: "uuid option"
  wb_balance :: money
  wb_currency :: currency
  wb_is_frozen :: bool
  wb_frozen_reason :: "string option"

text \<open>The account is always looked up in USD, whatever currency is asked for.\<close>

definition wallet_get_balance :: "wallet_db \<Rightarrow> user_id \<Rightarrow> currency \<Rightarrow> wallet_error + wallet_balance" where
  "wallet_get_balance db user_id cur =
     rbind (account_get_by_user_id db user_id ''USD'') (\<lambda>acc.
     Inr (case acc of
       None \<Rightarrow> \<lparr>wb_exists = False, wb_account_id = None, wb_balance = 0, wb_currency = cur,
               wb_is_frozen = False, wb_frozen_reason = None\<rparr>
     | Some a \<Rightarrow> \<lparr>wb_exists = True, wb_account_id = Some (ac_id a),
               wb_balance = get_balance db (ac_id a) cur None, wb_currency = cur,
               wb_is_frozen = ac_is_frozen a, wb_frozen_reason = ac_frozen_reason a\<rparr>))"

definition check_frozen :: "wallet_db \<Rightarrow> user_id \<Rightarrow> wallet_error + bool" where
  "check_frozen db user_id =
     rbind (account_get_by_user_id db user_id ''USD'') (\<lambda>acc.
     Inr (case acc of None \<Rightarrow> False | Some a \<Rightarrow> ac_is_frozen a))"

definition get_frozen_reason :: "wallet_db \<Rightarrow> user_id \<Rightarrow> wallet_error + string option" where
  "get_frozen_reason db user_id =
     rbind (account_get_by_user_id db user_id ''USD'') (\<lambda>acc.
     Inr (case acc of None \<Rightarrow> None | Some a \<Rightarrow> ac_frozen_reason a))"

definition update_balance :: "wallet_db \<Rightarrow> wallet_error + wallet_db" where
  "update_balance db = Inl NotImplementedError"

subsection \<open>The transaction repository\<close>

definition get_by_client_request_id :: "wallet_db \<Rightarrow> string \<Rightarrow> wallet_error + transaction option" where
  "get_by_client_request_id db key =
     scalar_one_or_none (filter (\<lambda>t. tx_client_request_id t = key) (db_transactions db))"

definition tx_get_by_id :: "wallet_db \<Rightarrow> uuid \<Rightarrow> wallet_error + transaction option" where
  "tx_get_by_id db i = scalar_one_or_none (filter (\<lambda>t. tx_id t = i) (db_transactions db))"

definition get_by_external_reference :: "wallet_db \<Rightarrow> string \<Rightarrow> wallet_error + transaction option" where
  "get_by_external_reference db ref =
     scalar_one_or_none (filter (\<lambda>t. tx_external_reference t = Some ref) (db_transactions db))"

text \<open>
  \<open>INSERT ... ON CONFLICT (client_request_id) DO NOTHING RETURNING\<close>: the row is checked against the not-null
  and amount constraints, inserted unless the key is taken, and the row with that key is returned.
\<close>

definition tx_get_or_create ::
  "time \<Rightarrow> string option \<Rightarrow> TransactionType \<Rightarrow> money \<Rightarrow> currency \<Rightarrow> user_id option \<Rightarrow> user_id option \<Rightarrow>
   metadata \<Rightarrow> wallet_db \<Rightarrow> wallet_error + transaction \<times> wallet_db" where
  "tx_get_or_create now key ty amount cur user_id recipient md db =
     (case key of
        None \<Rightarrow> Inl (IntegrityError ''client_request_id'')
      | Some k \<Rightarrow>
          if amount \<le> 0 then Inl (IntegrityError ''ck_transaction_amount_positive'')
          else if list_all (\<lambda>t. tx_client_request_id t \<noteq> k) (db_transactions db) then
            let tx = \<lparr>tx_id = db_next_id db, tx_client_request_id = k, tx_type = ty, tx_status = PENDING,
                      tx_amount = amount, tx_currency = cur, tx_user_id = user_id,
                      tx_recipient_user_id = recipient, tx_metadata = md, tx_external_reference = None,
                      tx_created_at = now, tx_completed_at = None, tx_failed_at = None,
                      tx_failure_reason = None\<rparr>
            in Inr (tx, db\<lparr>db_transactions := db_transactions db @ [tx], db_next_id := db_next_id db + 1\<rparr>)
          else
            rbind (get_by_client_request_id db k) (\<lambda>existing.
            case existing of
              Some tx \<Rightarrow> Inr (tx, db)
            | None \<Rightarrow> Inl (DuplicateTransactionError k)))"

definition update_status ::
  "time \<Rightarrow> uuid \<Rightarrow> TransactionStatus \<Rightarrow> string option \<Rightarrow> wallet_db \<Rightarrow> wallet_error + bool \<times> wallet_db" where
  "update_status now i st reason db =
     rbind (tx_get_by_id db i) (\<lambda>tx.
     Inr (case tx of
       None \<Rightarrow> (False, db)
     | Some _ \<Rightarrow> (True, db\<lparr>db_transactions := update_rows (\<lambda>t. tx_id t = i) (\<lambda>t.
          let t = t\<lparr>tx_status := st\<rparr> in
          if st = COMPLETED then t\<lparr>tx_completed_at := Some now\<rparr>
          else if st = FAILED then t\<lparr>tx_failed_at := Some now, tx_failure_reason := reason\<rparr>
          else t) (db_transactions db)\<rparr>)))"

definition user_tx_filter :: "user_id \<Rightarrow> TransactionType option \<Rightarrow> TransactionStatus option \<Rightarrow> transaction \<Rightarrow> bool" where
  "user_tx_filter user_id ty st t \<longleftrightarrow>
     tx_user_id t = Some user_id \<and> (ty = None \<or> ty = Some (tx_type t)) \<and> (st = None \<or> st = Some (tx_status t))"

definition get_user_transactions ::
  "wallet_db \<Rightarrow> user_id \<Rightarrow> TransactionType option \<Rightarrow> TransactionStatus option \<Rightarrow> nat \<Rightarrow> nat \<Rightarrow> transaction list" where
  "get_user_transactions db user_id ty st lmt off =
     newest_first tx_created_at off lmt (filter (user_tx_filter user_id ty st) (db_transactions db))"

definition get_transaction_count ::
  "wallet_db \<Rightarrow> user_id \<Rightarrow> TransactionType option \<Rightarrow> TransactionStatus option \<Rightarrow> nat" where
  "get_transaction_count db user_id ty st = length (filter (user_tx_filter user_id ty st) (db_transactions db))"

subsection \<open>Invariant and specification functions\<close>

text \<open>What one entry adds to the balance of an account in a currency.\<close>

definition entry_effect :: "uuid \<Rightarrow> currency \<Rightarrow> ledger_entry \<Rightarrow> money" where
  "entry_effect a c e = (if le_account_id e = a \<and> le_currency e = c then credit_of e - debit_of e else 0)"

text \<open>
  The integrity of the database: unique idempotency keys, transaction and account keys, all below the
  counter, and ledger entries that are valid and belong to a transaction.
\<close>

definition wallet_inv :: "wallet_db \<Rightarrow> bool" where
  "wallet_inv db \<longleftrightarrow>
     distinct (map tx_client_request_id (db_transactions db))
     \<and> distinct (map tx_id (db_transactions db))
     \<and> list_all (\<lambda>t. tx_id t < db_next_id db) (db_transactions db)
     \<and> list_all (\<lambda>t. tx_amount t > 0) (db_transactions db)
     \<and> distinct (map ac_id (db_accounts db))
     \<and> list_all (\<lambda>e. valid_entry e \<and> le_transaction_id e \<in> set (map tx_id (db_transactions db))) (db_ledger db)"

definition find_tx :: "wallet_db \<Rightarrow> string \<Rightarrow> transaction option" where
  "find_tx db k = find (\<lambda>t. tx_client_request_id t = k) (db_transactions db)"

definition find_account :: "wallet_db \<Rightarrow> uuid \<Rightarrow> account option" where
  "find_account db i = find (\<lambda>a. ac_id a = i) (db_accounts db)"

subsection \<open>Generic lemmas on tables\<close>

lemma filter_unique_key:
  "distinct (map key rows) \<Longrightarrow>
   filter (\<lambda>r. key r = k) rows = (case find (\<lambda>r. key r = k) rows of None \<Rightarrow> [] | Some r \<Rightarrow> [r])"
proof (induction rows)
  case (Cons r rows)
  show ?case
  proof (cases "key r = k")
    case True
    with Cons.prems have "filter (\<lambda>r. key r = k) rows = []"
      by (auto simp: filter_empty_conv image_iff)
    with True show ?thesis by simp
  next
    case False
    with Cons show ?thesis by simp
  qed
qed simp

lemma scalar_one_or_none_key:
  "distinct (map key rows) \<Longrightarrow>
   scalar_one_or_none (filter (\<lambda>r. key r = k) rows) = Inr (find (\<lambda>r. key r = k) rows)"
  by (simp add: filter_unique_key split: option.splits)

subsection \<open>Balances\<close>

lemma get_balance_sum:
  "get_balance db a c None = sum_list (map (entry_effect a c) (db_ledger db))"
proof -
  have "sum_where sel credit_of es - sum_where sel debit_of es
      = sum_list (map (\<lambda>e. if sel e then credit_of e - debit_of e else 0) es)" for sel es
    by (induction es) (auto simp: algebra_simps)
  then show ?thesis by (simp add: get_balance_def entry_effect_def [abs_def] Let_def)
qed

lemma post_entries_Inr:
  "post_entries es db = Inr db' \<longleftrightarrow> list_all valid_entry es \<and> db' = db\<lparr>db_ledger := db_ledger db @ es\<rparr>"
  by (auto simp: post_entries_def)

lemma get_balance_cong:
  "db_ledger db' = db_ledger db \<Longrightarrow> get_balance db' a c t = get_balance db a c t"
  by (simp add: get_balance_def)

text \<open>
  The contract a balance reader has from the ledger: posting a list of entries moves each balance by the sum
  of what the entries say about it.
\<close>

locale ledger_store =
  fixes balance :: "'db \<Rightarrow> uuid \<Rightarrow> currency \<Rightarrow> money"
    and post :: "ledger_entry list \<Rightarrow> 'db \<Rightarrow> 'e + 'db"
  assumes post_balance: "post es db = Inr db' \<Longrightarrow>
    balance db' a c = balance db a c + sum_list (map (entry_effect a c) es)"
begin

lemma post_untouched:
  assumes "post es db = Inr db'" and "\<And>e. e \<in> set es \<Longrightarrow> \<not> (le_account_id e = a \<and> le_currency e = c)"
  shows "balance db' a c = balance db a c"
proof -
  have "sum_list (map (entry_effect a c) es) = 0"
    using assms(2) by (induction es) (auto simp: entry_effect_def)
  then show ?thesis using post_balance [OF assms(1), of a c] by simp
qed

lemma post_single:
  "post [e] db = Inr db' \<Longrightarrow> balance db' a c = balance db a c + entry_effect a c e"
  using post_balance [of "[e]"] by simp

lemma post_pair_conserves:
  assumes "post [d, k] db = Inr db'"
    and "le_entry_type d = entry_type_value DEBIT" and "le_entry_type k = entry_type_value CREDIT"
    and "le_account_id d = src" and "le_account_id k = dst" and "src \<noteq> dst"
    and "le_amount d = le_amount k" and "le_currency d = le_currency k"
  shows "balance db' src c + balance db' dst c = balance db src c + balance db dst c"
  using post_balance [OF assms(1), of src c] post_balance [OF assms(1), of dst c] assms(2-)
  by (simp add: entry_effect_def credit_of_def debit_of_def)

end

interpretation ledger: ledger_store "\<lambda>db a c. get_balance db a c None" post_entries
  by unfold_locales (auto simp: post_entries_Inr get_balance_sum)

subsection \<open>The idempotency store\<close>

text \<open>
  What a caller of \<open>get_or_create\<close> relies on: a key that is taken is answered with its owner and changes
  nothing; a free key is taken by the row that is returned; no other key is affected.
\<close>

locale idempotency_store =
  fixes inv :: "'db \<Rightarrow> bool"
    and lookup :: "'db \<Rightarrow> string \<Rightarrow> 't option"
    and ensure :: "'a \<Rightarrow> string \<Rightarrow> 'db \<Rightarrow> 'e + 't \<times> 'db"
  assumes ensure_inv: "inv db \<Longrightarrow> ensure a k db = Inr (t, db') \<Longrightarrow> inv db'"
    and ensure_taken: "inv db \<Longrightarrow> ensure a k db = Inr (t, db') \<Longrightarrow> lookup db k = Some u \<Longrightarrow> t = u \<and> db' = db"
    and ensure_stored: "inv db \<Longrightarrow> ensure a k db = Inr (t, db') \<Longrightarrow> lookup db' k = Some t"
    and ensure_others: "inv db \<Longrightarrow> ensure a k db = Inr (t, db') \<Longrightarrow> k' \<noteq> k \<Longrightarrow> lookup db' k' = lookup db k'"
begin

lemma ensure_idem:
  assumes "inv db" and "ensure a k db = Inr (t, db1)" and "ensure b k db1 = Inr (u, db2)"
  shows "u = t \<and> db2 = db1"
  using ensure_taken [OF ensure_inv [OF assms(1,2)] assms(3) ensure_stored [OF assms(1,2)]] .

lemma ensure_keeps_owner:
  assumes "inv db" and "ensure a k db = Inr (t, db')" and "lookup db k' = Some u"
  shows "lookup db' k' = Some u"
  using ensure_others [OF assms(1,2), of k'] ensure_taken [OF assms(1,2)] assms(3) by (cases "k' = k") auto

end

lemma tx_get_or_create_cases:
  assumes "wallet_inv db" and "tx_get_or_create now key ty am cur u r md db = Inr (tx, db')"
  obtains (taken) k where "key = Some k" and "find_tx db k = Some tx" and "db' = db" and "0 < am"
    | (new) k where "key = Some k" and "find_tx db k = None" and "0 < am"
        and "tx_id tx = db_next_id db" and "tx_client_request_id tx = k" and "tx_status tx = PENDING"
        and "tx_amount tx = am" and "tx_type tx = ty" and "tx_currency tx = cur"
        and "db' = db\<lparr>db_transactions := db_transactions db @ [tx], db_next_id := db_next_id db + 1\<rparr>"
proof (cases key)
  case None
  with assms(2) show ?thesis by (simp add: tx_get_or_create_def)
next
  case (Some k)
  have found: "get_by_client_request_id db k = Inr (find_tx db k)"
    using assms(1) by (simp add: wallet_inv_def get_by_client_request_id_def find_tx_def scalar_one_or_none_key)
  have free: "list_all (\<lambda>t. tx_client_request_id t \<noteq> k) (db_transactions db) \<longleftrightarrow> find_tx db k = None"
    by (auto simp: find_tx_def find_None_iff list_all_iff)
  show ?thesis
  proof (cases "find_tx db k")
    case None
    with assms(2) Some show ?thesis
      by (intro new) (auto simp: tx_get_or_create_def free Let_def split: if_splits)
  next
    case (Some t)
    with assms(2) \<open>key = Some k\<close> show ?thesis
      by (intro taken) (auto simp: tx_get_or_create_def free found Let_def split: if_splits)
  qed
qed

lemma tx_get_or_create_inv:
  assumes "wallet_inv db" and "tx_get_or_create now key ty am cur u r md db = Inr (tx, db')"
  shows "wallet_inv db'"
  using assms
proof (cases rule: tx_get_or_create_cases)
  case (new k)
  then have "k \<notin> tx_client_request_id ` set (db_transactions db)"
    by (auto simp: find_tx_def find_None_iff)
  with new assms(1) show ?thesis
    by (auto simp: wallet_inv_def list_all_iff less_SucI)
qed (use assms in simp)

interpretation tx_keys: idempotency_store wallet_inv find_tx
    "\<lambda>(now, ty, am, cur, u, r, md) k. tx_get_or_create now (Some k) ty am cur u r md"
proof unfold_locales
  fix db db' :: wallet_db and q k tx
  assume inv: "wallet_inv db"
    and step: "(\<lambda>(now, ty, am, cur, u, r, md) k. tx_get_or_create now (Some k) ty am cur u r md) q k db = Inr (tx, db')"
  obtain now ty am cur u r md where "tx_get_or_create now (Some k) ty am cur u r md db = Inr (tx, db')"
    using step by (cases q) auto
  note step = this
  show "wallet_inv db'" by (rule tx_get_or_create_inv [OF inv step])
  show "tx = t \<and> db' = db" if "find_tx db k = Some t" for t
    using inv step that by (cases rule: tx_get_or_create_cases) auto
  show "find_tx db' k = Some tx"
    using inv step by (cases rule: tx_get_or_create_cases) (auto simp: find_tx_def find_append)
  show "find_tx db' k' = find_tx db k'" if "k' \<noteq> k" for k'
    using inv step that
    by (cases rule: tx_get_or_create_cases) (auto simp: find_tx_def find_append split: option.splits)
qed

subsection \<open>Properties\<close>

text \<open>The two spellings of an entry type that the check constraint admits besides the ones the service writes.\<close>

definition canonical_entry :: "ledger_entry \<Rightarrow> bool" where
  "canonical_entry e \<longleftrightarrow> le_entry_type e \<in> {''DEBIT'', ''CREDIT''}"

lemma sum_where_diff:
  "sum_where p f xs - sum_where p g xs = sum_where p (\<lambda>x. f x - g x) xs"
  for f g :: "'a \<Rightarrow> rat"
  by (induction xs) (auto simp: sum_where_def)

text \<open>
  The balance overview agrees with the balance.  On a ledger whose entry types are spelled as the service writes them,
  \<open>get_balances\<close> lists every currency in which the account has entries exactly once, each with the value of
  \<open>get_balance\<close>; in every other currency the balance is zero.
\<close>

theorem get_balances_agree:
  assumes "list_all canonical_entry (db_ledger db)"
  shows "distinct (map fst (get_balances db acc))
    \<and> (\<forall>c. map_of (get_balances db acc) c =
          (if list_ex (\<lambda>e. le_account_id e = acc \<and> le_currency e = c) (db_ledger db)
           then Some (get_balance db acc c None) else None))
    \<and> (\<forall>c. map_of (get_balances db acc) c = None \<longrightarrow> get_balance db acc c None = 0)"
proof -
  let ?cs = "remdups (map le_currency (filter (\<lambda>e. le_account_id e = acc) (db_ledger db)))"
  have bal: "sum_where (\<lambda>e. le_account_id e = acc \<and> le_currency e = c) signed_amount (db_ledger db)
      = get_balance db acc c None" for c
    unfolding get_balance_def Let_def option.case sum_where_diff
    using assms by (auto simp: list_all_iff canonical_entry_def signed_amount_def credit_of_def debit_of_def
        intro!: sum_where_cong)
  have eq: "get_balances db acc = map (\<lambda>c. (c, get_balance db acc c None)) ?cs"
    by (simp add: get_balances_def bal)
  have mem: "c \<in> set ?cs \<longleftrightarrow> list_ex (\<lambda>e. le_account_id e = acc \<and> le_currency e = c) (db_ledger db)" for c
    by (auto simp: list_ex_iff)
  have dom: "map_of (get_balances db acc) c = (if c \<in> set ?cs then Some (get_balance db acc c None) else None)" for c
    unfolding eq by (simp add: map_of_map_restrict restrict_map_def)
  have zero: "get_balance db acc c None = 0" if "c \<notin> set ?cs" for c
  proof -
    have "filter (\<lambda>e. le_account_id e = acc \<and> le_currency e = c) (db_ledger db) = []"
      using that by (auto simp: filter_empty_conv)
    then show ?thesis by (simp add: get_balance_def sum_where_def Let_def)
  qed
  show ?thesis using dom zero mem by (simp add: eq comp_def)
qed

theorem get_balances_agree_witness:
  "let e = (\<lambda>i ty am c. \<lparr>le_id = i, le_transaction_id = 1, le_account_id = 7, le_entry_type = ty, le_amount = am,
                         le_currency = c, le_created_at = 0\<rparr>);
       db = \<lparr>db_accounts = [], db_transactions = [],
             db_ledger = [e 1 ''CREDIT'' 100 ''USD'', e 2 ''DEBIT'' 30 ''USD'', e 3 ''CREDIT'' 5 ''UGX''],
             db_reversals = [], db_audit_logs = [], db_commissions = [], db_adjustments = [], db_fx_rates = [],
             db_users = [], db_next_id = 9\<rparr>
   in map_of (get_balances db 7) ''USD'' = Some 70 \<and> map_of (get_balances db 7) ''KES'' = None"
proof -
  define e where "e = (\<lambda>i ty am c. \<lparr>le_id = i, le_transaction_id = 1, le_account_id = 7, le_entry_type = ty,
     le_amount = am, le_currency = c, le_created_at = 0\<rparr>)"
  define db where "db = \<lparr>db_accounts = [], db_transactions = [],
     db_ledger = [e 1 ''CREDIT'' 100 ''USD'', e 2 ''DEBIT'' 30 ''USD'', e 3 ''CREDIT'' 5 ''UGX''],
     db_reversals = [], db_audit_logs = [], db_commissions = [], db_adjustments = [], db_fx_rates = [],
     db_users = [], db_next_id = 9\<rparr>"
  have "list_all canonical_entry (db_ledger db)" by (simp add: db_def e_def canonical_entry_def)
  from get_balances_agree [OF this, of 7]
  have "map_of (get_balances db 7) ''USD'' = Some 70 \<and> map_of (get_balances db 7) ''KES'' = None"
    by (simp add: db_def e_def get_balance_def credit_of_def debit_of_def)
  then show ?thesis by (simp add: db_def e_def Let_def)
qed

text \<open>
  Get-or-create is idempotent by key.  The transaction it returns is what every lookup by its key or by its
  identifier finds afterwards, and a second call with the same key, whatever its other terms, returns the same
  transaction and changes nothing; the call itself succeeds for every key and every positive amount.
\<close>

theorem get_or_create_roundtrip:
  assumes "wallet_inv db" and "0 < am" and "0 < am'"
  shows "\<exists>tx db1. tx_get_or_create now (Some k) ty am cur u r md db = Inr (tx, db1)
    \<and> get_by_client_request_id db1 k = Inr (Some tx) \<and> tx_get_by_id db1 (tx_id tx) = Inr (Some tx)
    \<and> tx_get_or_create now' (Some k) ty' am' cur' u' r' md' db1 = Inr (tx, db1)"
proof -
  have lookup: "get_by_client_request_id d k = Inr (find_tx d k)" if "wallet_inv d" for d
    using that by (simp add: wallet_inv_def get_by_client_request_id_def find_tx_def scalar_one_or_none_key)
  have by_id: "tx_get_by_id d (tx_id t) = Inr (Some t)" if "wallet_inv d" "find_tx d k = Some t" for d t
  proof -
    from that have t: "t \<in> set (db_transactions d)" "distinct (map tx_id (db_transactions d))"
      by (auto simp: find_tx_def wallet_inv_def dest: find_Some_key)
    then obtain t' where t': "find (\<lambda>x. tx_id x = tx_id t) (db_transactions d) = Some t'"
      by (cases "find (\<lambda>x. tx_id x = tx_id t) (db_transactions d)") (auto simp: find_None_iff)
    from find_Some_key [OF t'] t have "t' = t" by (auto simp: distinct_map inj_on_def)
    with t' that(1) show ?thesis by (simp add: tx_get_by_id_def wallet_inv_def scalar_one_or_none_key)
  qed
  have again: "tx_get_or_create n (Some k) y a c v w m d = Inr (t, d)"
    if "wallet_inv d" "find_tx d k = Some t" "0 < a" for n y a c v w m d t
  proof -
    from that(2) have "\<not> list_all (\<lambda>t. tx_client_request_id t \<noteq> k) (db_transactions d)"
      by (auto simp: find_tx_def list_all_iff dest: find_Some_key)
    with that lookup [OF that(1)] show ?thesis by (simp add: tx_get_or_create_def)
  qed
  obtain tx db1 where call: "tx_get_or_create now (Some k) ty am cur u r md db = Inr (tx, db1)"
  proof (cases "find_tx db k")
    case None
    then have "list_all (\<lambda>t. tx_client_request_id t \<noteq> k) (db_transactions db)"
      by (auto simp: find_tx_def list_all_iff find_None_iff)
    with assms(2) that show thesis by (simp add: tx_get_or_create_def Let_def)
  next
    case (Some t)
    with again [OF assms(1) _ assms(2)] that show thesis by blast
  qed
  have inv: "wallet_inv db1" by (rule tx_get_or_create_inv [OF assms(1) call])
  have found: "find_tx db1 k = Some tx"
    using tx_keys.ensure_stored [of db "(now, ty, am, cur, u, r, md)" k tx db1] assms(1) call by simp
  from call lookup [OF inv] by_id [OF inv found] again [OF inv found assms(3)] found show ?thesis by auto
qed

theorem get_or_create_roundtrip_witness:
  "let db = \<lparr>db_accounts = [], db_transactions = [], db_ledger = [], db_reversals = [], db_audit_logs = [],
             db_commissions = [], db_adjustments = [], db_fx_rates = [], db_users = [], db_next_id = 9\<rparr>
   in \<exists>tx db1. tx_get_or_create 0 (Some ''k'') DEPOSIT 5 ''USD'' None None Map.empty db = Inr (tx, db1)
        \<and> tx_get_or_create 1 (Some ''k'') WITHDRAW 7 ''UGX'' (Some 3) None Map.empty db1 = Inr (tx, db1)"
proof -
  let ?db = "\<lparr>db_accounts = [], db_transactions = [], db_ledger = [], db_reversals = [], db_audit_logs = [],
             db_commissions = [], db_adjustments = [], db_fx_rates = [], db_users = [], db_next_id = 9\<rparr>"
  have inv: "wallet_inv ?db" by (simp add: wallet_inv_def)
  have pos: "(0::money) < 5" "(0::money) < 7" by simp_all
  show ?thesis unfolding Let_def
    using get_or_create_roundtrip [OF inv pos, of 0 "''k''" DEPOSIT "''USD''" None None Map.empty
        1 WITHDRAW "''UGX''" "Some 3" None Map.empty] by blast
qed

end
