(* ===== verification/Wallet_Limits.thy ===== *)
theory Wallet_Limits
  imports Wallet_Ledger
begin

section \<open>Transaction limits\<close>

text \<open>
  Models \<open>app/wallet/services/regulatory_volume_calculator.py\<close>, \<open>services/kyc_limit_service.py\<close>, the
  \<open>WalletSystemConfig\<close> row of \<open>models/config.py\<close>, the policy row of \<open>models/regulatory_volume.py\<close>, and the limit helpers of
  \<open>services/wallet_service.py\<close>.  What these read from other parts of the platform (the KYC tier of a user, the
  KYB status of an organisation, the tier table, the Flask configuration) is collected in \<open>wallet_env\<close>
  together with the clock and the caller.
\<close>

subsection \<open>Configuration\<close>

datatype WindowMode = CALENDAR | ROLLING

text \<open>The columns of \<open>WalletSystemConfig\<close> that operations consult.\<close>

record system_config =
  sc_max_deposit_amount :: money
  sc_max_withdrawal_amount :: money
  sc_max_transfer_amount :: money
  sc_max_daily_amount :: "money option"
  sc_max_monthly_amount :: "money option"
  sc_require_kyc_for_deposits :: bool
  sc_require_kyc_for_withdrawals :: bool
  sc_require_kyc_for_transfers :: bool

text \<open>The row \<open>get_config\<close> creates when the table is empty: the column defaults.\<close>

definition default_system_config :: system_config where
  "default_system_config =
     \<lparr>sc_max_deposit_amount = 1000000, sc_max_withdrawal_amount = 500000,
      sc_max_transfer_amount = 1000000, sc_max_daily_amount = Some 5000000,
      sc_max_monthly_amount = Some 50000000, sc_require_kyc_for_deposits = False,
      sc_require_kyc_for_withdrawals = True, sc_require_kyc_for_transfers = False\<rparr>"

definition get_config :: "system_config option \<Rightarrow> system_config" where
  "get_config row = (case row of Some c \<Rightarrow> c | None \<Rightarrow> default_system_config)"

record tier_config =
  tc_daily_limit :: "money option"
  tc_monthly_limit :: "money option"
  tc_transaction_limit :: "money option"

text \<open>
  What \<open>OrganisationKYBService\<close> answers for an organisation: the two levels, and whether a transaction of a given
  amount and currency to a given recipient needs the full one.
\<close>

record kyb_status =
  kb_is_operational :: bool
  kb_is_full :: bool
  kb_level :: int
  kb_requires_full :: "money \<Rightarrow> currency \<Rightarrow> user_id option \<Rightarrow> bool"

record wallet_env =
  we_now :: time
  we_current_user :: "user_id option"
  we_has_global_role :: "user_id \<Rightarrow> string list \<Rightarrow> bool"
  we_config :: "string \<rightharpoonup> money"
  we_supported :: "string list option"
  we_system_config :: "system_config option"
  we_tiers :: "int \<rightharpoonup> tier_config"
  we_kyc_tier :: "user_id option \<Rightarrow> int"
  we_organisation :: "user_id option \<Rightarrow> kyb_status option"
  we_policy :: "(WindowMode \<times> WindowMode) option"
  we_fraud_action :: "user_id option \<Rightarrow> money \<Rightarrow> currency \<Rightarrow> user_id option \<Rightarrow> string"
  we_rate_variation :: rat
  we_commission_rate :: "string \<Rightarrow> rat"
  we_check_hash :: "string \<Rightarrow> string \<Rightarrow> bool"
  we_pin_max_attempts :: int
  we_pin_lock_minutes :: int
  we_adjustment_threshold :: money
  we_commit_closes :: bool

subsection \<open>Windows\<close>

text \<open>
  The calendar of Python's \<open>datetime\<close>: the day of the month of a proleptic Gregorian ordinal, by the cycles of
  400, 100, 4 and 1 years (the standard library's \<open>_ord2ymd\<close>).  Day 0 of the epoch has ordinal 719163.
\<close>

definition days_before_month :: "bool \<Rightarrow> int \<Rightarrow> int" where
  "days_before_month leap m =
     [0, 0, 31, 59, 90, 120, 151, 181, 212, 243, 273, 304, 334] ! nat m + (if leap \<and> m > 2 then 1 else 0)"

definition day_in_month :: "bool \<Rightarrow> int \<Rightarrow> int" where
  "day_in_month leap n =
     (let month = (n + 50) div 32;
          month = (if days_before_month leap month > n then month - 1 else month)
      in n - days_before_month leap month + 1)"

definition day_of_month :: "day \<Rightarrow> int" where
  "day_of_month d =
     (let n = d + 719162;
          n400 = n div 146097; n = n mod 146097;
          n100 = n div 36524; n = n mod 36524;
          n4 = n div 1461; n = n mod 1461;
          n1 = n div 365; n = n mod 365
      in if n1 = 4 \<or> n100 = 4 then 31
         else day_in_month (n1 = 3 \<and> (n4 \<noteq> 24 \<or> n100 = 3)) n)"

text \<open>Kampala is three hours ahead of UTC; \<open>replace(hour=0, ...)\<close> and \<open>replace(day=1, ...)\<close> act on the local date.\<close>

definition utc_to_kampala :: "time \<Rightarrow> time" where "utc_to_kampala t = t + 3 * hour_us"

definition kampala_to_utc :: "time \<Rightarrow> time" where "kampala_to_utc t = t - 3 * hour_us"

definition get_day_start_utc :: "time \<Rightarrow> time" where
  "get_day_start_utc t = kampala_to_utc ((utc_to_kampala t div day_us) * day_us)"

definition get_month_start_utc :: "time \<Rightarrow> time" where
  "get_month_start_utc t =
     (let d = utc_to_kampala t div day_us
      in kampala_to_utc ((d - (day_of_month d - 1)) * day_us))"

text \<open>
  The active policy, or the default created on the fly.  The default is built with the string \<open>'calendar'\<close>,
  which is not the enum member the window calculator compares with \<open>is\<close>, so it selects the rolling windows.
\<close>

definition policy_modes :: "(WindowMode \<times> WindowMode) option \<Rightarrow> WindowMode \<times> WindowMode" where
  "policy_modes p = (case p of Some m \<Rightarrow> m | None \<Rightarrow> (ROLLING, ROLLING))"

definition get_daily_window_bounds :: "(WindowMode \<times> WindowMode) option \<Rightarrow> time \<Rightarrow> time option \<Rightarrow> time \<times> time" where
  "get_daily_window_bounds pol now as_of =
     (let end_time = (case as_of of Some t \<Rightarrow> t | None \<Rightarrow> now)
      in (if fst (policy_modes pol) = CALENDAR then get_day_start_utc end_time else end_time - day_us, end_time))"

definition get_monthly_window_bounds :: "(WindowMode \<times> WindowMode) option \<Rightarrow> time \<Rightarrow> time option \<Rightarrow> time \<times> time" where
  "get_monthly_window_bounds pol now as_of =
     (let end_time = (case as_of of Some t \<Rightarrow> t | None \<Rightarrow> now)
      in (if snd (policy_modes pol) = CALENDAR then get_month_start_utc end_time else end_time - 30 * day_us,
          end_time))"

subsection \<open>Regulatory volume\<close>

definition eligible_entry :: "wallet_db \<Rightarrow> uuid \<Rightarrow> currency \<Rightarrow> ledger_entry \<Rightarrow> bool" where
  "eligible_entry db account_id cur e \<longleftrightarrow>
     le_account_id e = account_id \<and> le_currency e = cur \<and> le_entry_type e = entry_type_value DEBIT
     \<and> le_id e \<notin> set (db_reversals db)"

definition completed_tx :: "wallet_db \<Rightarrow> uuid \<Rightarrow> bool" where
  "completed_tx db i \<longleftrightarrow> list_ex (\<lambda>t. tx_id t = i \<and> tx_status t = COMPLETED) (db_transactions db)"

definition window_volume :: "wallet_db \<Rightarrow> uuid \<Rightarrow> currency \<Rightarrow> time \<times> time \<Rightarrow> money" where
  "window_volume db account_id cur w =
     sum_where (\<lambda>e. eligible_entry db account_id cur e \<and> completed_tx db (le_transaction_id e)
                    \<and> fst w \<le> le_created_at e \<and> le_created_at e \<le> snd w)
       le_amount (db_ledger db)"

definition reg_daily_volume :: "wallet_env \<Rightarrow> wallet_db \<Rightarrow> uuid \<Rightarrow> currency \<Rightarrow> money" where
  "reg_daily_volume env db account_id cur =
     window_volume db account_id cur (get_daily_window_bounds (we_policy env) (we_now env) None)"

definition reg_monthly_volume :: "wallet_env \<Rightarrow> wallet_db \<Rightarrow> uuid \<Rightarrow> currency \<Rightarrow> money" where
  "reg_monthly_volume env db account_id cur =
     window_volume db account_id cur (get_monthly_window_bounds (we_policy env) (we_now env) None)"

definition reg_check_daily_limit :: "wallet_env \<Rightarrow> wallet_db \<Rightarrow> uuid \<Rightarrow> currency \<Rightarrow> money \<Rightarrow> money \<Rightarrow> bool \<times> money" where
  "reg_check_daily_limit env db account_id cur proposed limit =
     (if limit \<le> 0 then (True, 0)
      else let v = reg_daily_volume env db account_id cur in (v + proposed \<le> limit, v))"

definition reg_check_monthly_limit :: "wallet_env \<Rightarrow> wallet_db \<Rightarrow> uuid \<Rightarrow> currency \<Rightarrow> money \<Rightarrow> money \<Rightarrow> bool \<times> money" where
  "reg_check_monthly_limit env db account_id cur proposed limit =
     (if limit \<le> 0 then (True, 0)
      else let v = reg_monthly_volume env db account_id cur in (v + proposed \<le> limit, v))"

subsection \<open>KYC limits\<close>

record tier_features =
  tf_can_send :: bool
  tf_can_receive :: bool
  tf_can_withdraw :: bool
  tf_can_deposit :: bool

definition TIER_FEATURES :: "int \<Rightarrow> tier_features" where
  "TIER_FEATURES level =
     (if level \<in> {1, 2, 3, 4, 5}
      then \<lparr>tf_can_send = True, tf_can_receive = True, tf_can_withdraw = True, tf_can_deposit = True\<rparr>
      else \<lparr>tf_can_send = False, tf_can_receive = True, tf_can_withdraw = False, tf_can_deposit = True\<rparr>)"

record kyc_limits =
  kl_daily_limit :: money
  kl_monthly_limit :: money
  kl_per_txn_limit :: money
  kl_features :: tier_features

definition money_or_0 :: "money option \<Rightarrow> money" where
  "money_or_0 v = (case v of None \<Rightarrow> 0 | Some x \<Rightarrow> x)"

text \<open>\<open>tier_reqs.get(level, tier_reqs[0])\<close>: the fallback is evaluated first, so tier 0 has to exist.\<close>

definition get_limits :: "wallet_env \<Rightarrow> int \<Rightarrow> wallet_error + kyc_limits" where
  "get_limits env level =
     (case we_tiers env 0 of
        None \<Rightarrow> Inl (KeyError ''0'')
      | Some t0 \<Rightarrow>
          let t = (case we_tiers env level of None \<Rightarrow> t0 | Some t \<Rightarrow> t)
          in Inr \<lparr>kl_daily_limit = money_or_0 (tc_daily_limit t),
                  kl_monthly_limit = money_or_0 (tc_monthly_limit t),
                  kl_per_txn_limit = money_or_0 (tc_transaction_limit t),
                  kl_features = TIER_FEATURES level\<rparr>)"

definition operational_per_txn_ceiling :: "system_config \<Rightarrow> string \<Rightarrow> money" where
  "operational_per_txn_ceiling c action =
     (if action = ''deposit'' then sc_max_deposit_amount c
      else if action = ''withdraw'' then sc_max_withdrawal_amount c
      else sc_max_transfer_amount c)"

definition allowed_feature :: "tier_features \<Rightarrow> string \<Rightarrow> bool option" where
  "allowed_feature f action =
     (if action = ''send'' then Some (tf_can_send f)
      else if action = ''receive'' then Some (tf_can_receive f)
      else if action = ''withdraw'' then Some (tf_can_withdraw f)
      else if action = ''deposit'' then Some (tf_can_deposit f)
      else None)"

text \<open>
  The answer of a check: refused with the kind of reason, or allowed with the \<open>kyc_level\<close> entry of the answer,
  which the organisation branch does not set (it sets \<open>kyb_level\<close>).
\<close>

datatype kyc_answer = Refused string | Allowed "int option"

definition check_org_transaction_allowed ::
  "wallet_env \<Rightarrow> kyb_status \<Rightarrow> money \<Rightarrow> string \<Rightarrow> currency \<Rightarrow> user_id option \<Rightarrow> wallet_error + kyc_answer" where
  "check_org_transaction_allowed env org amount action cur recipient =
     (if \<not> kb_is_operational org then Inr (Refused ''kyb_basic'')
      else if kb_requires_full org amount cur recipient \<and> \<not> kb_is_full org then Inr (Refused ''kyb_full'')
      else rbind (get_limits env (kb_level org)) (\<lambda>lims.
        let per_txn = min (kl_per_txn_limit lims)
                        (operational_per_txn_ceiling (get_config (we_system_config env)) action)
        in Inr (case allowed_feature (kl_features lims) action of
                  None \<Rightarrow> Refused ''unknown_action''
                | Some f \<Rightarrow>
                    if \<not> f then Refused ''not_permitted''
                    else if amount > per_txn then Refused ''per_transaction''
                    else Allowed None)))"

definition check_transaction_allowed ::
  "wallet_env \<Rightarrow> user_id option \<Rightarrow> money \<Rightarrow> string \<Rightarrow> currency \<Rightarrow> user_id option \<Rightarrow> wallet_error + kyc_answer" where
  "check_transaction_allowed env user_id amount action cur recipient =
     (case we_organisation env user_id of
        Some org \<Rightarrow> check_org_transaction_allowed env org amount action cur recipient
      | None \<Rightarrow>
          let level = we_kyc_tier env user_id; c = get_config (we_system_config env) in
          rbind (get_limits env level) (\<lambda>lims.
          let per_txn = min (kl_per_txn_limit lims) (operational_per_txn_ceiling c action)
          in Inr (case allowed_feature (kl_features lims) action of
                    None \<Rightarrow> Refused ''unknown_action''
                  | Some f \<Rightarrow>
                      if \<not> f then Refused ''not_permitted''
                      else if action = ''deposit'' \<and> sc_require_kyc_for_deposits c \<and> level = 0
                        then Refused ''kyc_required''
                      else if action = ''withdraw'' \<and> sc_require_kyc_for_withdrawals c \<and> level = 0
                        then Refused ''kyc_required''
                      else if action = ''send'' \<and> sc_require_kyc_for_transfers c \<and> level = 0
                        then Refused ''kyc_required''
                      else if amount > per_txn then Refused ''per_transaction''
                      else Allowed (Some level))))"

definition check_regulatory_cumulative_limits ::
  "wallet_env \<Rightarrow> wallet_db \<Rightarrow> uuid \<Rightarrow> currency \<Rightarrow> money \<Rightarrow> int \<Rightarrow> wallet_error + string option" where
  "check_regulatory_cumulative_limits env db account_id cur amount level =
     rbind (account_get_by_id db account_id) (\<lambda>acc.
     case acc of
       None \<Rightarrow> Inr (Some ''cumulative'')
     | Some _ \<Rightarrow>
         rbind (get_limits env level) (\<lambda>lims.
         let d = kl_daily_limit lims; m = kl_monthly_limit lims in
         Inr (if d = 0 \<and> m = 0 then None
              else if d \<noteq> 0 \<and> \<not> fst (reg_check_daily_limit env db account_id cur amount d) then Some ''daily''
              else if m \<noteq> 0 \<and> \<not> fst (reg_check_monthly_limit env db account_id cur amount m) then Some ''monthly''
              else None)))"

text \<open>The tier that governs cumulative limits elsewhere: the KYB level for organisations.\<close>

definition effective_level :: "wallet_env \<Rightarrow> user_id option \<Rightarrow> int" where
  "effective_level env user_id =
     (case we_organisation env user_id of Some org \<Rightarrow> kb_level org | None \<Rightarrow> we_kyc_tier env user_id)"

definition get_effective_cumulative_limit ::
  "wallet_env \<Rightarrow> user_id option \<Rightarrow> currency \<Rightarrow> string \<Rightarrow> wallet_error + money option" where
  "get_effective_cumulative_limit env user_id cur period =
     rbind (get_limits env (effective_level env user_id)) (\<lambda>reg.
     let c = get_config (we_system_config env) in
     Inr (if period = ''daily'' then
            let op = (case sc_max_daily_amount c of
                        Some v \<Rightarrow> Some v
                      | None \<Rightarrow> we_config env (if cur = ''USD'' then ''WALLET_DAILY_LIMIT_HOME''
                                              else ''WALLET_DAILY_LIMIT_LOCAL''))
            in if kl_daily_limit reg = 0 then None
               else Some (case op of None \<Rightarrow> kl_daily_limit reg | Some v \<Rightarrow> min (kl_daily_limit reg) v)
          else if period = ''monthly'' then
            (if kl_monthly_limit reg = 0 then None
             else Some (case sc_max_monthly_amount c of
                          None \<Rightarrow> kl_monthly_limit reg | Some v \<Rightarrow> min (kl_monthly_limit reg) v))
          else None))"

definition enforce_cumulative_volume ::
  "wallet_env \<Rightarrow> wallet_db \<Rightarrow> user_id option \<Rightarrow> uuid \<Rightarrow> money \<Rightarrow> currency \<Rightarrow> string \<Rightarrow> wallet_error + unit" where
  "enforce_cumulative_volume env db user_id account_id amount cur period =
     rbind (get_limits env (effective_level env user_id)) (\<lambda>lims.
     if period = ''daily'' then
       (if kl_daily_limit lims = 0 then Inr ()
        else check (fst (reg_check_daily_limit env db account_id cur amount (kl_daily_limit lims)))
               (LimitExceededError (''kyc_'' @ period) cur))
     else
       (if kl_monthly_limit lims = 0 then Inr ()
        else check (fst (reg_check_monthly_limit env db account_id cur amount (kl_monthly_limit lims)))
               (LimitExceededError (''kyc_'' @ period) cur)))"

definition check_volume_limits ::
  "wallet_env \<Rightarrow> wallet_db \<Rightarrow> uuid \<Rightarrow> money \<Rightarrow> currency \<Rightarrow> string \<Rightarrow> wallet_error + bool" where
  "check_volume_limits env db account_id amount cur period =
     rbind (account_get_by_id db account_id) (\<lambda>acc.
     case acc of
       None \<Rightarrow> Inr False
     | Some a \<Rightarrow>
         if ac_user_id a = None then Inl TypeError
         else (case enforce_cumulative_volume env db (ac_user_id a) account_id amount cur period of
            Inr _ \<Rightarrow> Inr True
          | Inl (LimitExceededError _ _) \<Rightarrow>
              rbind (get_effective_cumulative_limit env (ac_user_id a) cur period) (\<lambda>_. Inr False)
          | Inl e \<Rightarrow> Inl e))"

subsection \<open>The limit helpers of the wallet service\<close>

definition config_get :: "wallet_env \<Rightarrow> string \<Rightarrow> money \<Rightarrow> money" where
  "config_get env key dflt = (case we_config env key of None \<Rightarrow> dflt | Some v \<Rightarrow> v)"

definition check_transaction_limit :: "wallet_env \<Rightarrow> money \<Rightarrow> string \<Rightarrow> wallet_error + unit" where
  "check_transaction_limit env amount op =
     check (amount \<le> config_get env (''WALLET_MAX_'' @ str_upper op) 10000)
       (LimitExceededError ''per_transaction'' ''any'')"

definition check_daily_limit ::
  "wallet_env \<Rightarrow> wallet_db \<Rightarrow> uuid \<Rightarrow> money \<Rightarrow> currency \<Rightarrow> wallet_error + unit" where
  "check_daily_limit env db account_id amount cur =
     (let c = get_config (we_system_config env);
          daily_limit = (case sc_max_daily_amount c of
             Some v \<Rightarrow> v
           | None \<Rightarrow> config_get env (''WALLET_DAILY_LIMIT_'' @ (if cur = ''USD'' then ''HOME'' else ''LOCAL'')) 10000)
      in check (get_daily_volume db (we_now env) account_id cur None + amount \<le> daily_limit)
           (LimitExceededError ''daily'' cur))"

definition check_monthly_limit ::
  "wallet_env \<Rightarrow> wallet_db \<Rightarrow> uuid \<Rightarrow> money \<Rightarrow> currency \<Rightarrow> wallet_error + unit" where
  "check_monthly_limit env db account_id amount cur =
     (let c = get_config (we_system_config env) in
      rbind (case sc_max_monthly_amount c of
               Some v \<Rightarrow> Inr (Some v)
             | None \<Rightarrow>
                 rbind (account_get_by_id db account_id) (\<lambda>acc.
                 Inr (case acc of
                        None \<Rightarrow> None
                      | Some a \<Rightarrow> if ac_monthly_volume_limit a = Some 0 then None else ac_monthly_volume_limit a)))
        (\<lambda>limit. case limit of
           None \<Rightarrow> Inr ()
         | Some l \<Rightarrow> check (get_monthly_volume db (we_now env) account_id cur None + amount \<le> l)
                      (LimitExceededError ''monthly'' cur)))"

definition check_kyc_limits ::
  "wallet_env \<Rightarrow> wallet_db \<Rightarrow> user_id option \<Rightarrow> money \<Rightarrow> string \<Rightarrow> currency \<Rightarrow> user_id option \<Rightarrow> uuid option \<Rightarrow>
   wallet_error + unit" where
  "check_kyc_limits env db user_id amount action cur recipient account_id =
     rbind (check_transaction_allowed env user_id amount action cur recipient) (\<lambda>ans.
     case ans of
       Refused _ \<Rightarrow> Inl (LimitExceededError ''kyc'' cur)
     | Allowed lv \<Rightarrow>
         (let level = (case lv of Some l \<Rightarrow> l | None \<Rightarrow> we_kyc_tier env user_id) in
          case account_id of
            None \<Rightarrow> Inr ()
          | Some acc \<Rightarrow>
              rbind (check_regulatory_cumulative_limits env db acc cur amount level) (\<lambda>blocked.
              case blocked of
                None \<Rightarrow> Inr ()
              | Some kind \<Rightarrow> Inl (LimitExceededError (''kyc_'' @ kind) cur))))"

text \<open>
  A blocking score raises \<open>KeyError\<close>: the message of the intended \<open>ComplianceBlockError\<close> is formatted with the
  entry \<open>patterns\<close>, which the score does not have.
\<close>

definition check_fraud_risk ::
  "wallet_env \<Rightarrow> user_id option \<Rightarrow> money \<Rightarrow> currency \<Rightarrow> user_id option \<Rightarrow> wallet_error + unit" where
  "check_fraud_risk env user_id amount cur recipient =
     check (we_fraud_action env user_id amount cur recipient \<noteq> ''block'') (KeyError ''patterns'')"

subsection \<open>The calendar\<close>

lemma day_in_month_step:
  assumes "0 \<le> n" "n < 365 + of_bool leap"
  shows "1 \<le> day_in_month leap n \<and> day_in_month leap n \<le> n + 1 \<and> day_in_month leap n \<le> 31
   \<and> (day_in_month leap n \<noteq> 1 \<longrightarrow> day_in_month leap (n - 1) = day_in_month leap n - 1)"
proof -
  have all: "list_all (\<lambda>leap. list_all (\<lambda>n. 1 \<le> day_in_month leap n \<and> day_in_month leap n \<le> n + 1 \<and> day_in_month leap n \<le> 31
      \<and> (day_in_month leap n \<noteq> 1 \<longrightarrow> day_in_month leap (n - 1) = day_in_month leap n - 1))
    [0..364 + of_bool leap]) [True, False]" by code_simp
  then show ?thesis using assms by (cases leap) (simp_all add: list_all_iff)
qed

lemma pred_div_mod:
  assumes "0 < x mod k" "0 < (k :: int)"
  shows "(x - 1) div k = x div k" "(x - 1) mod k = x mod k - 1"
proof -
  have "x - 1 = k * (x div k) + (x mod k - 1)" using mult_div_mod_eq [of k x] by linarith
  moreover have "0 \<le> x mod k - 1" "x mod k - 1 < k" using assms pos_mod_bound [of k x] by linarith+
  ultimately show "(x - 1) div k = x div k" "(x - 1) mod k = x mod k - 1"
    by (metis div_mult_self4 div_pos_pos_trivial add.right_neutral assms(2) less_irrefl, metis mod_mult_self4 mod_pos_pos_trivial)
qed

definition day_in_cycle :: "int \<Rightarrow> int" where
  "day_in_cycle r = (let n100 = r div 36524; r = r mod 36524; n4 = r div 1461; r = r mod 1461; n1 = r div 365
     in if n1 = 4 \<or> n100 = 4 then 31 else day_in_month (n1 = 3 \<and> (n4 \<noteq> 24 \<or> n100 = 3)) (r mod 365))"

lemma day_of_month_cycle: "day_of_month d = day_in_cycle ((d + 719162) mod 146097)"
  by (simp add: day_of_month_def day_in_cycle_def Let_def)

lemma day_in_cycle_pred:
  assumes "0 < r mod 36524 mod 1461" and "r div 36524 \<noteq> 4"
  shows "day_in_cycle (r - 1) =
    (let r2 = r mod 36524 mod 1461 - 1; n1 = r2 div 365 in
     if n1 = 4 then 31
     else day_in_month (n1 = 3 \<and> (r mod 36524 div 1461 \<noteq> 24 \<or> r div 36524 = 3)) (r2 mod 365))"
proof -
  have "r mod 36524 \<noteq> 0" using assms(1) by (metis less_irrefl mod_0)
  then have "0 < r mod 36524" using pos_mod_sign [of 36524 r] by linarith
  then have "(r - 1) div 36524 = r div 36524" "(r - 1) mod 36524 = r mod 36524 - 1"
    by (rule pred_div_mod, simp)+
  moreover have "(r mod 36524 - 1) div 1461 = r mod 36524 div 1461" "(r mod 36524 - 1) mod 1461 = r mod 36524 mod 1461 - 1"
    using assms(1) by (rule pred_div_mod, simp)+
  ultimately show ?thesis by (simp only: day_in_cycle_def Let_def assms(2) simp_thms)
qed

lemma day_in_cycle_step:
  assumes "0 < r" and "r < 146096"
  shows "1 \<le> day_in_cycle r \<and> day_in_cycle r \<le> 31 \<and> (day_in_cycle r \<noteq> 1 \<longrightarrow> day_in_cycle (r - 1) = day_in_cycle r - 1)"
proof -
  define n100 r1 where "n100 = r div 36524" and "r1 = r mod 36524"
  define n4 r2 where "n4 = r1 div 1461" and "r2 = r1 mod 1461"
  define n1 n where "n1 = r2 div 365" and "n = r2 mod 365"
  note defs = n100_def r1_def n4_def r2_def n1_def n_def
  have r1: "0 \<le> r1" "r1 < 36524" "r = 36524 * n100 + r1" by (simp_all add: defs)
  have r2: "0 \<le> r2" "r2 < 1461" "r1 = 1461 * n4 + r2" by (simp_all add: defs)
  have n: "0 \<le> n" "n < 365" "r2 = 365 * n1 + n" by (simp_all add: defs)
  from assms r1 have n100: "n100 \<noteq> 4" by linarith
  define leap where "leap \<longleftrightarrow> n1 = 3 \<and> (n4 \<noteq> 24 \<or> n100 = 3)"
  have day: "day_in_cycle r = (if n1 = 4 then 31 else day_in_month leap n)"
    using n100 unfolding leap_def n_def n1_def r2_def n4_def r1_def n100_def day_in_cycle_def Let_def by simp
  note pred = day_in_cycle_pred [of r, folded n100_def r1_def, folded n4_def r2_def]
  show ?thesis
  proof (cases "n1 = 4")
    case True
    with n r2 have r2': "r2 = 1460" by linarith
    with r1 r2 have n4: "n4 \<noteq> 24" by linarith
    have "day_in_month True 364 = 30" by code_simp
    with pred r2' n4 n100 have "day_in_cycle (r - 1) = 30" by simp
    with day True show ?thesis by simp
  next
    case False
    have "n < 365 + of_bool leap" using n by simp
    note step = day_in_month_step [OF n(1) this]
    have "day_in_cycle (r - 1) = day_in_month leap (n - 1)" if "n \<noteq> 0"
    proof -
      have pos: "0 < r2 mod 365" using that n(1) unfolding n_def by linarith
      then have "0 < r2" using r2 by (cases "r2 = 0") auto
      with pred n100 pred_div_mod [OF pos] False show ?thesis
        unfolding n1_def [symmetric] n_def [symmetric] by (simp add: leap_def Let_def)
    qed
    with day False step show ?thesis by (cases "n = 0") auto
  qed
qed

lemma day_of_month_step:
  "1 \<le> day_of_month d \<and> day_of_month d \<le> 31 \<and> (day_of_month d \<noteq> 1 \<longrightarrow> day_of_month (d - 1) = day_of_month d - 1)"
proof -
  define r where "r = (d + 719162) mod 146097"
  have d: "day_of_month d = day_in_cycle r" by (simp add: day_of_month_cycle r_def)
  have r: "0 \<le> r" "r < 146097" by (simp_all add: r_def)
  have d1: "day_of_month (d - 1) = day_in_cycle (r - 1)" if "0 < r"
  proof -
    have "(d + 719162 - 1) mod 146097 = r - 1"
      using pred_div_mod(2) [OF that [unfolded r_def]] unfolding r_def by (simp only: zero_less_numeral)
    then show ?thesis by (auto simp: day_of_month_cycle algebra_simps)
  qed
  have ends: "day_in_cycle 0 = 1" "day_in_cycle 146096 = 31" "day_in_cycle 146095 = 30" by code_simp+
  consider "r = 0" | "r = 146096" | "0 < r" "r < 146096" using r by linarith
  then show ?thesis using d d1 ends day_in_cycle_step [of r] by cases simp_all
qed

lemma day_of_month_back:
  assumes "0 \<le> k" "k < day_of_month d"
  shows "day_of_month (d - k) = day_of_month d - k"
  using assms
proof (induction k rule: int_ge_induct)
  case (step i)
  then have "day_of_month (d - i) = day_of_month d - i" by simp
  with step.prems day_of_month_step [of "d - i"] show ?case by (simp add: algebra_simps)
qed simp

text \<open>
  The calendar windows are the calendar's.  For every instant the day window starts at the last midnight in Kampala and
  the month window at midnight in Kampala of the last first day of a month, at most 31 days earlier; both windows end
  at the instant itself.
\<close>

theorem calendar_windows:
  "let (ds, de) = get_daily_window_bounds (Some (CALENDAR, CALENDAR)) t None;
       (ms, me) = get_monthly_window_bounds (Some (CALENDAR, CALENDAR)) t None;
       local_day = (\<lambda>u. utc_to_kampala u div day_us)
   in de = t \<and> me = t
      \<and> ds \<le> t \<and> t < ds + day_us \<and> day_us dvd utc_to_kampala ds \<and> local_day ds = local_day t
      \<and> ms \<le> ds \<and> ds < ms + 31 * day_us \<and> day_us dvd utc_to_kampala ms \<and> day_of_month (local_day ms) = 1
      \<and> {d. local_day ms < d \<and> d \<le> local_day t \<and> day_of_month d = 1} = {}"
proof -
  define d where "d = utc_to_kampala t div day_us"
  have us: "(0::int) < day_us" by (simp add: day_us_def hour_us_def)
  define m where "m = d - (day_of_month d - 1)"
  have ds: "get_day_start_utc t = kampala_to_utc (d * day_us)" and ms: "get_month_start_utc t = kampala_to_utc (m * day_us)"
    by (simp_all add: get_day_start_utc_def get_month_start_utc_def d_def m_def Let_def)
  have local: "utc_to_kampala (kampala_to_utc x) = x" for x by (simp add: utc_to_kampala_def kampala_to_utc_def)
  have day: "d * day_us \<le> utc_to_kampala t" "utc_to_kampala t < d * day_us + day_us"
  proof -
    have "d * day_us + utc_to_kampala t mod day_us = utc_to_kampala t" by (simp add: d_def)
    then show "d * day_us \<le> utc_to_kampala t" "utc_to_kampala t < d * day_us + day_us"
      using pos_mod_bound [OF us, of "utc_to_kampala t"] pos_mod_sign [OF us, of "utc_to_kampala t"] by linarith+
  qed
  have m: "m \<le> d" "d < m + 31" using day_of_month_step [of d] by (auto simp: m_def)
  then have mul: "m * day_us \<le> d * day_us" "d * day_us < m * day_us + 31 * day_us"
    using us by (auto simp flip: distrib_right)
  have first: "day_of_month m = 1"
    using day_of_month_back [of "day_of_month d - 1" d] day_of_month_step [of d] by (simp add: m_def)
  have only: "day_of_month e \<noteq> 1" if "m < e" "e \<le> d" for e
    using day_of_month_back [of "d - e" d] that by (auto simp: m_def)
  have "(t + 3 * hour_us) div day_us = d" by (simp add: d_def utc_to_kampala_def)
  then show ?thesis
    using day mul first only us
    by (auto simp: get_daily_window_bounds_def get_monthly_window_bounds_def policy_modes_def ds ms local d_def [symmetric]
        Let_def kampala_to_utc_def utc_to_kampala_def)
qed

end
