(* ===== verification/Wallet_FX.thy ===== *)
theory Wallet_FX
  imports Wallet_Limits
begin

section \<open>Currency conversion\<close>

text \<open>
  Models \<open>app/wallet/services/currency_service.py\<close> (rates from the configuration, with an in-memory cache),
  \<open>services/fx_service.py\<close> (rates with safety halts, cached in the table \<open>fx_rates\<close>) and \<open>models/fx.py\<close>.  The configured
  rates are a function argument, the random market variation is \<open>we_rate_variation\<close>.  A successful
  \<open>get_rate_safe\<close> commits the session, so its result is the committed database.
\<close>

subsection \<open>The configured rates\<close>

definition get_supported_currencies :: "wallet_env \<Rightarrow> currency list" where
  "get_supported_currencies env =
     (case we_supported env of
        Some l \<Rightarrow> l
      | None \<Rightarrow> [''USD'', ''UGX'', ''KES'', ''TZS'', ''NGN'', ''EUR'', ''CFA''])"

definition currency_supported :: "wallet_env \<Rightarrow> currency \<Rightarrow> bool" where
  "currency_supported env cur \<longleftrightarrow> str_upper cur \<in> set (get_supported_currencies env)"

definition validate_currency :: "wallet_env \<Rightarrow> currency \<Rightarrow> wallet_error + unit" where
  "validate_currency env cur = check (currency_supported env cur) (UnsupportedCurrencyError cur)"

text \<open>
  The interpreter's recursion limit is the fuel: a call below it raises \<open>RecursionError\<close>, which the \<open>except
  Exception\<close> of the calling frame turns into the answer \<open>None\<close>.
\<close>

fun get_rate_from_provider ::
  "(currency \<Rightarrow> currency \<Rightarrow> rat option) \<Rightarrow> nat \<Rightarrow> currency \<Rightarrow> currency \<Rightarrow> wallet_error + rat option" where
  "get_rate_from_provider cfg 0 src dst = Inl RecursionError"
| "get_rate_from_provider cfg (Suc depth) src dst =
     (if src = dst then Inr (Some 1)
      else case cfg src dst of
        Some rate \<Rightarrow> Inr (Some rate)
      | None \<Rightarrow>
          Inr (case get_rate_from_provider cfg depth src ''USD'' of
                 Inl _ \<Rightarrow> None
               | Inr to_usd \<Rightarrow>
                   (case get_rate_from_provider cfg depth ''USD'' dst of
                      Inl _ \<Rightarrow> None
                    | Inr from_usd \<Rightarrow>
                        (case (to_usd, from_usd) of
                           (Some a, Some b) \<Rightarrow> if a \<noteq> 0 \<and> b \<noteq> 0 then Some (a * b) else None
                         | _ \<Rightarrow> None))))"

text \<open>The cache of the service object: upper-case pairs to the rate and the time it was fetched.\<close>

type_synonym rate_cache = "currency \<times> currency \<rightharpoonup> rat \<times> time"

definition currency_get_rate ::
  "(currency \<Rightarrow> currency \<Rightarrow> rat option) \<Rightarrow> nat \<Rightarrow> time \<Rightarrow> int \<Rightarrow> bool \<Rightarrow> currency \<Rightarrow> currency \<Rightarrow> rate_cache \<Rightarrow>
   wallet_error + rat option \<times> rate_cache" where
  "currency_get_rate cfg depth now ttl use_cache src dst cache =
     (let src = str_upper src; dst = str_upper dst;
          hit = (case cache (src, dst) of
                   Some (rate, t) \<Rightarrow> if use_cache \<and> now - t < ttl * 1000000 then Some rate else None
                 | None \<Rightarrow> None)
      in if src = dst then Inr (Some 1, cache)
         else case hit of
           Some rate \<Rightarrow> Inr (Some rate, cache)
         | None \<Rightarrow>
             rbind (get_rate_from_provider cfg depth src dst) (\<lambda>r.
             Inr (r, case r of None \<Rightarrow> cache | Some rate \<Rightarrow> cache((src, dst) \<mapsto> (rate, now)))))"

definition convert ::
  "(currency \<Rightarrow> currency \<Rightarrow> rat option) \<Rightarrow> nat \<Rightarrow> time \<Rightarrow> int \<Rightarrow> rat \<Rightarrow> money \<Rightarrow> currency \<Rightarrow> currency \<Rightarrow> bool \<Rightarrow>
   rate_cache \<Rightarrow> wallet_error + (money \<times> rat \<times> money) \<times> rate_cache" where
  "convert cfg depth now ttl fee_pct amount src dst apply_fee cache =
     (if amount = 0 then Inr ((0, 1, 0), cache)
      else rbind (currency_get_rate cfg depth now ttl True src dst cache) (\<lambda>(r, cache').
        case r of
          None \<Rightarrow> Inl (ValueError ''No exchange rate available'')
        | Some rate \<Rightarrow>
            let converted = cents round_down (amount * rate);
                fee = (if apply_fee then cents round_down (converted * fee_pct) else 0)
            in Inr ((if apply_fee then cents round_down (converted - fee) else converted, rate, fee), cache')))"

subsection \<open>The rate service with safety halts\<close>

definition FX_CURRENCIES :: "currency list" where
  "FX_CURRENCIES =
     [''USD'', ''EUR'', ''GBP'', ''NGN'', ''UGX'', ''KES'', ''GHS'', ''ZAR'', ''RWF'', ''TZS'', ''BWP'', ''ZMW'',
      ''MWK'', ''AOA'', ''XAF'', ''XOF'', ''CDF'', ''SCR'', ''MUR'', ''CVE'', ''GMD'', ''SLL'', ''LRD'']"

definition MAX_RATE_AGE_SECONDS :: int where "MAX_RATE_AGE_SECONDS = 120"

definition MAX_DEVIATION_PERCENT :: rat where "MAX_DEVIATION_PERCENT = 2"

definition mock_rates :: "((currency \<times> currency) \<times> rat) list" where
  "mock_rates =
     [((''USD'', ''UGX''), 3800), ((''USD'', ''NGN''), 1550), ((''USD'', ''EUR''), 926 / 1000),
      ((''USD'', ''GBP''), 787 / 1000), ((''USD'', ''KES''), 128), ((''USD'', ''GHS''), 125 / 10),
      ((''USD'', ''TZS''), 2500), ((''USD'', ''RWF''), 1300), ((''USD'', ''ZAR''), 185 / 10),
      ((''UGX'', ''USD''), 263 / 1000000), ((''UGX'', ''EUR''), 244 / 1000000),
      ((''UGX'', ''GBP''), 207 / 1000000), ((''UGX'', ''KES''), 337 / 10000), ((''UGX'', ''TZS''), 658 / 1000),
      ((''UGX'', ''RWF''), 77 / 100), ((''UGX'', ''ZAR''), 487 / 100000), ((''UGX'', ''NGN''), 408 / 1000),
      ((''UGX'', ''GHS''), 33 / 10000), ((''UGX'', ''BWP''), 14 / 10000), ((''UGX'', ''ZMW''), 23 / 10000),
      ((''UGX'', ''MWK''), 18 / 100), ((''UGX'', ''AOA''), 22 / 1000), ((''UGX'', ''XAF''), 15 / 1000),
      ((''UGX'', ''XOF''), 15 / 1000), ((''UGX'', ''CDF''), 62 / 1000), ((''UGX'', ''SCR''), 11 / 10000),
      ((''UGX'', ''MUR''), 12 / 1000), ((''UGX'', ''CVE''), 27 / 10000), ((''UGX'', ''GMD''), 45 / 10000),
      ((''UGX'', ''SLL''), 55 / 100), ((''UGX'', ''LRD''), 51 / 10000),
      ((''EUR'', ''UGX''), 1 / (244 / 1000000)), ((''GBP'', ''UGX''), 1 / (207 / 1000000)),
      ((''KES'', ''UGX''), 1 / (337 / 10000)), ((''NGN'', ''UGX''), 1 / (408 / 1000))]"

text \<open>
  \<open>random\<close> is imported in the branch of the direct pair only, so the branch of the inverse pair raises
  \<open>UnboundLocalError\<close>.
\<close>

definition fetch_from_api_safe :: "wallet_env \<Rightarrow> currency \<Rightarrow> currency \<Rightarrow> wallet_error + rat" where
  "fetch_from_api_safe env b q =
     (case map_of mock_rates (b, q) of
        Some r \<Rightarrow> Inr (r * we_rate_variation env)
      | None \<Rightarrow>
          if map_of mock_rates (q, b) \<noteq> None then Inl UnboundLocalError else Inl RateUnavailableError)"

definition fx_validate_currencies :: "currency \<Rightarrow> currency \<Rightarrow> wallet_error + unit" where
  "fx_validate_currencies b q =
     rbind (check (b \<in> set FX_CURRENCIES) (UnsupportedCurrencyError b)) (\<lambda>_.
     check (q \<in> set FX_CURRENCIES) (UnsupportedCurrencyError q))"

definition get_cached_rate :: "wallet_db \<Rightarrow> currency \<Rightarrow> currency \<Rightarrow> fx_rate option" where
  "get_cached_rate db b q = find (\<lambda>r. fx_base r = b \<and> fx_quote r = q) (db_fx_rates db)"

definition rate_age_us :: "time \<Rightarrow> fx_rate \<Rightarrow> int" where
  "rate_age_us now r = now - fx_timestamp r"

definition is_rate_stale :: "time \<Rightarrow> fx_rate \<Rightarrow> bool" where
  "is_rate_stale now r \<longleftrightarrow> rate_age_us now r > MAX_RATE_AGE_SECONDS * 1000000"

definition calculate_deviation :: "rat \<Rightarrow> rat \<Rightarrow> rat" where
  "calculate_deviation old new =
     (if old = 0 then 100 else cents round_half_even (\<bar>new - old\<bar> / old * 100))"

text \<open>The rate column has eight decimals; the time to live is five minutes.\<close>

definition store_rate :: "time \<Rightarrow> rat \<Rightarrow> fx_rate \<Rightarrow> fx_rate" where
  "store_rate now rate r =
     r\<lparr>fx_value := quantize_to 8 round_half_up rate, fx_source := ''api_live'',
       fx_expires_at := now + 300 * 1000000, fx_timestamp := now, fx_spread := 1 / 100\<rparr>"

definition update_rate_cache :: "time \<Rightarrow> currency \<Rightarrow> currency \<Rightarrow> rat \<Rightarrow> wallet_db \<Rightarrow> fx_rate \<times> wallet_db" where
  "update_rate_cache now b q rate db =
     (case get_cached_rate db b q of
        Some r \<Rightarrow> (store_rate now rate r,
                   db\<lparr>db_fx_rates := update_rows (\<lambda>r. fx_base r = b \<and> fx_quote r = q) (store_rate now rate)
                        (db_fx_rates db)\<rparr>)
      | None \<Rightarrow>
          let r = \<lparr>fx_base = b, fx_quote = q, fx_value = quantize_to 8 round_half_up rate,
                   fx_source = ''api_live'', fx_timestamp = now, fx_expires_at = now + 300 * 1000000,
                   fx_spread = 1 / 100\<rparr>
          in (r, db\<lparr>db_fx_rates := db_fx_rates db @ [r]\<rparr>))"

definition get_rate_safe ::
  "wallet_env \<Rightarrow> currency \<Rightarrow> currency \<Rightarrow> wallet_db \<Rightarrow> wallet_error + fx_rate \<times> wallet_db" where
  "get_rate_safe env base_currency quote_currency db =
     (let b = str_upper base_currency; q = str_upper quote_currency in
      rbind (fx_validate_currencies b q) (\<lambda>_.
      let cached = get_cached_rate db b q in
      rbind (check (case cached of None \<Rightarrow> True | Some r \<Rightarrow> \<not> is_rate_stale (we_now env) r) RateStaleError) (\<lambda>_.
      case fetch_from_api_safe env b q of
        Inl _ \<Rightarrow> Inl RateUnavailableError
      | Inr api_rate \<Rightarrow>
          rbind (check (case cached of
                          None \<Rightarrow> True
                        | Some r \<Rightarrow> calculate_deviation (fx_value r) api_rate \<le> MAX_DEVIATION_PERCENT)
                   RateDeviationError) (\<lambda>_.
          Inr (update_rate_cache (we_now env) b q api_rate db)))))"

definition ask_rate :: "fx_rate \<Rightarrow> rat" where
  "ask_rate r = fx_value r * (1 + fx_spread r / 100)"

definition bid_rate :: "fx_rate \<Rightarrow> rat" where
  "bid_rate r = fx_value r * (1 - fx_spread r / 100)"

text \<open>The amounts of the answer: source, destination and platform fee.\<close>

definition convert_amount_safe ::
  "wallet_env \<Rightarrow> money \<Rightarrow> currency \<Rightarrow> currency \<Rightarrow> wallet_db \<Rightarrow> wallet_error + (money \<times> money \<times> money) \<times> wallet_db" where
  "convert_amount_safe env amount src dst db =
     (if amount \<le> 0 then Inl (ValueError ''Amount must be greater than zero'')
      else if src = dst then Inr ((amount, amount, 0), db)
      else rbind (get_rate_safe env src dst db) (\<lambda>(r, db').
        let dest = cents round_half_up (amount * ask_rate r);
            fee = cents round_half_up (dest * (5 / 1000))
        in Inr ((amount, dest - fee, fee), db')))"

fun collect_rates ::
  "wallet_env \<Rightarrow> currency \<Rightarrow> currency list \<Rightarrow> wallet_db \<Rightarrow> (currency \<times> rat) list \<times> wallet_db" where
  "collect_rates env b [] db = ([], db)"
| "collect_rates env b (c # cs) db =
     (if c = b then collect_rates env b cs db
      else case get_rate_safe env b c db of
        Inl _ \<Rightarrow> collect_rates env b cs db
      | Inr (r, db') \<Rightarrow>
          (case collect_rates env b cs db' of (rs, db'') \<Rightarrow> ((c, fx_value r) # rs, db'')))"

definition get_all_rates_safe :: "wallet_env \<Rightarrow> currency \<Rightarrow> wallet_db \<Rightarrow> (currency \<times> rat) list \<times> wallet_db" where
  "get_all_rates_safe env b db = collect_rates env b FX_CURRENCIES db"

subsection \<open>Specification functions\<close>

text \<open>What the recursive lookup computes: a direct rate, or the product of two direct rates over USD.\<close>

definition provider_rate :: "(currency \<Rightarrow> currency \<Rightarrow> rat option) \<Rightarrow> currency \<Rightarrow> currency \<Rightarrow> rat option" where
  "provider_rate cfg src dst =
     (if src = dst then Some 1
      else case cfg src dst of
        Some r \<Rightarrow> Some r
      | None \<Rightarrow>
          if src = ''USD'' \<or> dst = ''USD'' then None
          else case (cfg src ''USD'', cfg ''USD'' dst) of
            (Some a, Some b) \<Rightarrow> if a \<noteq> 0 \<and> b \<noteq> 0 then Some (a * b) else None
          | _ \<Rightarrow> None)"

text \<open>A sequence of rate requests; a request that raises leaves the table as it is.\<close>

fun rate_requests :: "(wallet_env \<times> currency \<times> currency) list \<Rightarrow> wallet_db \<Rightarrow> wallet_db" where
  "rate_requests [] db = db"
| "rate_requests ((env, b, q) # rs) db =
     rate_requests rs (case get_rate_safe env b q db of Inl _ \<Rightarrow> db | Inr (_, db') \<Rightarrow> db')"

subsection \<open>Lemmas\<close>

lemma provider_no_usd_rate:
  assumes "cfg src dst = None" and "src \<noteq> dst" and "src = ''USD'' \<or> dst = ''USD''"
  shows "get_rate_from_provider cfg (Suc d) src dst = Inr None"
proof (induction d)
  case 0
  then show ?case using assms by simp
next
  case (Suc d)
  from assms(3) show ?case
  proof
    assume "src = ''USD''"
    with assms(1,2) Suc.IH show ?case by simp
  next
    assume "dst = ''USD''"
    with assms(1,2) Suc.IH show ?case by (simp split: sum.splits)
  qed
qed

lemma provider_usd:
  "src = ''USD'' \<or> dst = ''USD'' \<Longrightarrow> src \<noteq> dst \<Longrightarrow>
   get_rate_from_provider cfg (Suc d) src dst = Inr (cfg src dst)"
  using provider_no_usd_rate [of cfg src dst d] by (cases "cfg src dst") auto

lemma get_cached_rate_update:
  "get_cached_rate (snd (update_rate_cache now b q rate db)) b q = Some (fst (update_rate_cache now b q rate db))"
proof (cases "get_cached_rate db b q")
  case None
  then have "find (\<lambda>r. fx_base r = b \<and> fx_quote r = q) (db_fx_rates db) = None"
    by (simp add: get_cached_rate_def)
  with None show ?thesis
    by (simp add: update_rate_cache_def get_cached_rate_def find_append Let_def)
next
  case (Some r)
  have "find (\<lambda>r. fx_base r = b \<and> fx_quote r = q) rows = Some r \<Longrightarrow>
      find (\<lambda>r. fx_base r = b \<and> fx_quote r = q)
        (update_rows (\<lambda>r. fx_base r = b \<and> fx_quote r = q) (store_rate now rate) rows)
      = Some (store_rate now rate r)" for rows
    by (induction rows) (auto simp: store_rate_def split: if_splits)
  with Some show ?thesis by (simp add: update_rate_cache_def get_cached_rate_def)
qed

lemma get_cached_rate_update_other:
  assumes "(b', q') \<noteq> (b, q)"
  shows "get_cached_rate (snd (update_rate_cache now b q rate db)) b' q' = get_cached_rate db b' q'"
proof -
  have "find (\<lambda>r. fx_base r = b' \<and> fx_quote r = q')
        (update_rows (\<lambda>r. fx_base r = b \<and> fx_quote r = q) (store_rate now rate) rows)
      = find (\<lambda>r. fx_base r = b' \<and> fx_quote r = q') rows" for rows
    using assms by (induction rows) (auto simp: store_rate_def)
  with assms show ?thesis
    by (auto simp: update_rate_cache_def get_cached_rate_def find_append Let_def split: option.splits)
qed

lemma get_rate_safe_Inr:
  "get_rate_safe env base_cur quote_cur db = Inr (r, db') \<longleftrightarrow>
     (let b = str_upper base_cur; q = str_upper quote_cur in
      b \<in> set FX_CURRENCIES \<and> q \<in> set FX_CURRENCIES
      \<and> (\<forall>c. get_cached_rate db b q = Some c \<longrightarrow> \<not> is_rate_stale (we_now env) c)
      \<and> (\<exists>rate. fetch_from_api_safe env b q = Inr rate
           \<and> (\<forall>c. get_cached_rate db b q = Some c \<longrightarrow> calculate_deviation (fx_value c) rate \<le> MAX_DEVIATION_PERCENT)
           \<and> (r, db') = update_rate_cache (we_now env) b q rate db))"
  by (auto simp: get_rate_safe_def fx_validate_currencies_def Let_def split: sum.splits option.splits)

lemma get_rate_safe_keeps_ledger:
  assumes "get_rate_safe env b q db = Inr (r, db')"
  shows "db' = db\<lparr>db_fx_rates := db_fx_rates db'\<rparr>"
  using assms by (auto simp: get_rate_safe_Inr Let_def update_rate_cache_def split: option.splits)

lemma get_rate_safe_pair:
  assumes "get_rate_safe env b q db = Inr (r, db')"
  shows "map_of mock_rates (str_upper b, str_upper q) \<noteq> None"
  using assms by (auto simp: get_rate_safe_Inr Let_def fetch_from_api_safe_def split: option.splits if_splits)

subsection \<open>Properties\<close>

text \<open>
  The unbounded recursion of the configured-rate lookup terminates in the recursion limit of the interpreter and
  computes exactly: 1 for equal currencies, the direct rate if there is one, otherwise, for two currencies
  other than USD, the product of the direct rates over USD if both exist and are not zero, otherwise no rate.
\<close>

theorem provider_rate_correct:
  "get_rate_from_provider cfg (Suc (Suc d)) src dst = Inr (provider_rate cfg src dst)"
proof (cases "src = dst \<or> src = ''USD'' \<or> dst = ''USD''")
  case True
  then show ?thesis
    using provider_usd [of src dst cfg "Suc d"]
    by (cases "src = dst") (auto simp: provider_rate_def split: option.splits)
next
  case False
  then have "get_rate_from_provider cfg (Suc d) src ''USD'' = Inr (cfg src ''USD'')"
    and "get_rate_from_provider cfg (Suc d) ''USD'' dst = Inr (cfg ''USD'' dst)"
    by (auto simp: provider_usd simp del: get_rate_from_provider.simps)
  with False show ?thesis
    unfolding get_rate_from_provider.simps(2) [of cfg "Suc d" src dst] provider_rate_def
    by (simp del: get_rate_from_provider.simps split: option.splits)
qed

text \<open>
  A conversion at configured rates creates no value: what the user receives and the fee are not negative and add
  up to the converted amount rounded down to cents, so to at most the amount times the rate.
\<close>

theorem convert_creates_no_value:
  assumes "convert cfg depth now ttl fee_pct amount src dst apply_fee cache = Inr ((converted, rate, fee), cache')"
    and "0 \<le> amount" and "0 \<le> rate" and "0 \<le> fee_pct" and "fee_pct \<le> 1"
  shows "0 \<le> converted \<and> 0 \<le> fee \<and> converted + fee = cents round_down (amount * rate)
    \<and> converted + fee \<le> amount * rate"
proof (cases "amount = 0")
  case True
  with assms(1) show ?thesis by (simp add: convert_def down.quantize_zero)
next
  case False
  let ?c = "cents round_down (amount * rate)" and ?f = "cents round_down (cents round_down (amount * rate) * fee_pct)"
  from False assms(1) have res: "converted = (if apply_fee then cents round_down (?c - ?f) else ?c)"
    "fee = (if apply_fee then ?f else 0)"
    unfolding convert_def Let_def by (cases apply_fee; clarsimp split: option.splits)+
  have c0: "0 \<le> ?c" using assms(2,3) by (intro down.quantize_nonneg) simp
  have f0: "0 \<le> ?f" using c0 assms(4) by (intro down.quantize_nonneg) simp
  have "?f \<le> ?c * fee_pct" using c0 assms(4) by (intro cents_down_le) simp
  also have "\<dots> \<le> ?c * 1" using c0 assms(5) by (intro mult_left_mono) simp_all
  finally have fc: "?f \<le> ?c" by simp
  have "cents round_down (?c - ?f) = ?c - ?f"
    by (intro down.quantize_whole_cents whole_cents_diff down.whole_cents_quantize)
  moreover have "?c \<le> amount * rate" using assms(2,3) by (intro cents_down_le) simp
  ultimately show ?thesis using res c0 f0 fc by simp
qed

text \<open>A configuration and a clock for the worked examples.\<close>

definition demo_env :: wallet_env where
  "demo_env =
     \<lparr>we_now = 1000000000, we_current_user = Some 1, we_has_global_role = (\<lambda>_ _. False),
      we_config = Map.empty, we_supported = None, we_system_config = None,
      we_tiers = [0 \<mapsto> \<lparr>tc_daily_limit = None, tc_monthly_limit = None, tc_transaction_limit = Some 1000\<rparr>,
                  2 \<mapsto> \<lparr>tc_daily_limit = Some 5000, tc_monthly_limit = Some 20000, tc_transaction_limit = Some 2000\<rparr>],
      we_kyc_tier = (\<lambda>_. 2), we_organisation = (\<lambda>_. None), we_policy = None,
      we_fraud_action = (\<lambda>_ _ _ _. ''allow''), we_rate_variation = 1, we_commission_rate = (\<lambda>_. 1 / 100),
      we_check_hash = (\<lambda>h p. h = p), we_pin_max_attempts = 5, we_pin_lock_minutes = 15,
      we_adjustment_threshold = 1000, we_commit_closes = True\<rparr>"

definition empty_db :: wallet_db where
  "empty_db =
     \<lparr>db_accounts = [], db_transactions = [], db_ledger = [], db_reversals = [], db_audit_logs = [],
      db_commissions = [], db_adjustments = [], db_fx_rates = [], db_users = [], db_next_id = 100\<rparr>"

definition demo_rate :: fx_rate where
  "demo_rate =
     \<lparr>fx_base = ''USD'', fx_quote = ''UGX'', fx_value = 3800, fx_source = ''api_live'', fx_timestamp = 990000000,
      fx_expires_at = 1290000000, fx_spread = 1 / 100\<rparr>"

lemma str_upper_codes [simp]:
  "str_upper ''USD'' = ''USD''" "str_upper ''UGX'' = ''UGX''" "str_upper ''KES'' = ''KES''"
  by (simp_all add: str_upper_def char_upper_def less_eq_char_def)

theorem convert_creates_no_value_witness:
  "\<exists>cache'. convert (\<lambda>_ _. Some 3800) 9 0 300 (2 / 100) 10 ''USD'' ''UGX'' True Map.empty
       = Inr ((37240, 3800, 760), cache')
     \<and> 37240 + 760 \<le> 10 * (3800 :: money)"
proof -
  have "get_rate_from_provider (\<lambda>_ _. Some 3800) 9 ''USD'' ''UGX'' = Inr (Some 3800)"
    using get_rate_from_provider.simps(2) [of "\<lambda>_ _. Some 3800" 8 "''USD''" "''UGX''"] by simp
  then have "convert (\<lambda>_ _. Some 3800) 9 0 300 (2 / 100) 10 ''USD'' ''UGX'' True Map.empty
      = Inr ((37240, 3800, 760), [(''USD'', ''UGX'') \<mapsto> (3800, 0)])"
    by (simp add: convert_def currency_get_rate_def Let_def quantize_to_def round_down_def)
  from convert_creates_no_value [OF this] this show ?thesis by simp
qed

text \<open>
  C11: a rate served by \<open>get_rate_safe\<close> is for supported currencies with a published direct rate, is the published rate
  with the market variation, was not preceded by a cached rate older than two minutes or more than two percent
  away, and is what the cache holds afterwards, dated now; no other pair of the cache and no other table changes.
\<close>

theorem served_rate_is_safe:
  assumes "get_rate_safe env base_cur quote_cur db = Inr (r, db')"
    and "b = str_upper base_cur" and "q = str_upper quote_cur"
  shows "b \<in> set FX_CURRENCIES \<and> q \<in> set FX_CURRENCIES
    \<and> (\<exists>published. map_of mock_rates (b, q) = Some published
         \<and> fx_value r = quantize_to 8 round_half_up (published * we_rate_variation env)
         \<and> (\<forall>c. get_cached_rate db b q = Some c \<longrightarrow>
              we_now env - fx_timestamp c \<le> 120000000
              \<and> calculate_deviation (fx_value c) (published * we_rate_variation env) \<le> 2))
    \<and> fx_timestamp r = we_now env \<and> get_cached_rate db' b q = Some r
    \<and> (\<forall>b' q'. (b', q') \<noteq> (b, q) \<longrightarrow> get_cached_rate db' b' q' = get_cached_rate db b' q')
    \<and> db' = db\<lparr>db_fx_rates := db_fx_rates db'\<rparr>"
proof -
  from assms obtain rate where cur: "b \<in> set FX_CURRENCIES" "q \<in> set FX_CURRENCIES"
    and fresh: "\<forall>c. get_cached_rate db b q = Some c \<longrightarrow> \<not> is_rate_stale (we_now env) c"
    and api: "fetch_from_api_safe env b q = Inr rate"
    and dev: "\<forall>c. get_cached_rate db b q = Some c \<longrightarrow> calculate_deviation (fx_value c) rate \<le> MAX_DEVIATION_PERCENT"
    and upd: "update_rate_cache (we_now env) b q rate db = (r, db')"
    by (auto simp: get_rate_safe_Inr Let_def)
  from api obtain p where p: "map_of mock_rates (b, q) = Some p" "rate = p * we_rate_variation env"
    by (auto simp: fetch_from_api_safe_def split: option.splits if_splits)
  have val: "fx_value r = quantize_to 8 round_half_up rate" "fx_timestamp r = we_now env"
    using upd by (auto simp: update_rate_cache_def store_rate_def Let_def split: option.splits)
  have "get_cached_rate db' b q = Some r"
    using get_cached_rate_update [of "we_now env" b q rate db] upd by simp
  moreover have "\<forall>b' q'. (b', q') \<noteq> (b, q) \<longrightarrow> get_cached_rate db' b' q' = get_cached_rate db b' q'"
    using get_cached_rate_update_other [of _ _ b q "we_now env" rate db] upd by simp
  moreover have "\<forall>c. get_cached_rate db b q = Some c \<longrightarrow> we_now env - fx_timestamp c \<le> 120000000
      \<and> calculate_deviation (fx_value c) rate \<le> 2"
    using fresh dev by (auto simp: is_rate_stale_def rate_age_us_def MAX_RATE_AGE_SECONDS_def MAX_DEVIATION_PERCENT_def)
  ultimately show ?thesis
    using cur p val get_rate_safe_keeps_ledger [OF assms(1)] by auto
qed

theorem served_rate_is_safe_witness:
  "\<exists>r db'. get_rate_safe demo_env ''USD'' ''UGX'' (empty_db\<lparr>db_fx_rates := [demo_rate]\<rparr>) = Inr (r, db')
     \<and> fx_timestamp r = 1000000000 \<and> get_cached_rate db' ''USD'' ''UGX'' = Some r"
proof -
  obtain r db' where run: "get_rate_safe demo_env ''USD'' ''UGX'' (empty_db\<lparr>db_fx_rates := [demo_rate]\<rparr>) = Inr (r, db')"
    by (simp add: get_rate_safe_def fx_validate_currencies_def FX_CURRENCIES_def Let_def get_cached_rate_def
        is_rate_stale_def rate_age_us_def MAX_RATE_AGE_SECONDS_def MAX_DEVIATION_PERCENT_def
        fetch_from_api_safe_def mock_rates_def calculate_deviation_def quantize_to_def round_half_even_def
        demo_env_def demo_rate_def empty_db_def update_rate_cache_def)
  from served_rate_is_safe [OF run refl refl] run show ?thesis
    by (simp add: demo_env_def)
qed

lemma rate_requests_keep_stale:
  assumes "get_cached_rate db b q = Some r" and "is_rate_stale now r"
    and "list_all (\<lambda>(env, _). now \<le> we_now env) reqs"
  shows "get_cached_rate (rate_requests reqs db) b q = Some r"
  using assms(1,3)
proof (induction reqs arbitrary: db)
  case (Cons req reqs)
  obtain env b' q' where req: "req = (env, b', q')" by (cases req)
  have stale: "is_rate_stale (we_now env) r"
    using assms(2) Cons.prems(2) req by (simp add: is_rate_stale_def rate_age_us_def)
  have "get_cached_rate db' b q = Some r" if "get_rate_safe env b' q' db = Inr (r', db')" for r' db'
  proof (cases "(b, q) = (str_upper b', str_upper q')")
    case True
    with that stale Cons.prems(1) show ?thesis by (simp add: get_rate_safe_Inr Let_def)
  next
    case False
    with that Cons.prems(1) show ?thesis
      by (auto simp: get_rate_safe_Inr Let_def
          dest!: arg_cong [where f = snd] simp: get_cached_rate_update_other)
  qed
  with Cons show ?case by (simp add: req split: sum.splits)
qed simp

text \<open>
  A cached rate that has become older than two minutes blocks its pair for good: whatever rates are requested
  afterwards, the stale row stays in the cache and every later request for the pair raises \<open>RateStaleError\<close>,
  because the age is tested before the fresh rate is fetched.
\<close>

theorem stale_rate_never_refreshed:
  assumes "get_cached_rate db (str_upper b) (str_upper q) = Some r" and "is_rate_stale now r"
    and "list_all (\<lambda>(env, _). now \<le> we_now env) reqs" and "now \<le> we_now env"
    and "str_upper b \<in> set FX_CURRENCIES" and "str_upper q \<in> set FX_CURRENCIES"
  shows "get_rate_safe env b q (rate_requests reqs db) = Inl RateStaleError"
proof -
  have "is_rate_stale (we_now env) r"
    using assms(2,4) by (simp add: is_rate_stale_def rate_age_us_def)
  with rate_requests_keep_stale [OF assms(1,2,3)] assms(5,6) show ?thesis
    by (simp add: get_rate_safe_def fx_validate_currencies_def Let_def)
qed

theorem stale_rate_never_refreshed_witness:
  "get_rate_safe (demo_env\<lparr>we_now := 2000000000\<rparr>) ''USD'' ''UGX''
     (rate_requests [(demo_env\<lparr>we_now := 1500000000\<rparr>, ''USD'', ''UGX'')] (empty_db\<lparr>db_fx_rates := [demo_rate]\<rparr>))
   = Inl RateStaleError"
  by (rule stale_rate_never_refreshed [where r = demo_rate and now = 1500000000])
    (simp_all add: get_cached_rate_def demo_rate_def is_rate_stale_def rate_age_us_def MAX_RATE_AGE_SECONDS_def
      FX_CURRENCIES_def demo_env_def)

end
