(* ===== verification/Wallet_Service.thy ===== *)
theory Wallet_Service
  imports Wallet_FX
begin

section \<open>The wallet service\<close>

text \<open>
  Models the money operations of \<open>app/wallet/services/wallet_service.py\<close> with the commission recording of
  \<open>services/commission_service.py\<close> and the transaction PIN of \<open>app/identity/models/user.py\<close>.  Each operation is a function from
  the database to its result or exception and the database that is committed.  The block
  \<open>with self.db.begin()\<close> rolls back on an exception to the last committed state: the state at entry, or, when an exchange
  rate was fetched in between, the state \<open>get_rate_safe\<close> committed.  SQLAlchemy refuses statements after a commit inside
  a managed block; this behaviour of the library is the parameter \<open>we_commit_closes\<close>.  Notifications, logging and the
  free-text descriptions of the audit rows are not modelled; \<open>float(amount)\<close> of an amount in cents is taken as exact.
\<close>

subsection \<open>Arguments and results\<close>

record deposit_args =
  da_account_id :: "uuid option"
  da_amount :: "money option"
  da_currency :: "currency option"
  da_client_request_id :: "string option"
  da_metadata :: "metadata option"
  da_tx_type :: TransactionType
  da_actor_id :: "user_id option"
  da_system_initiated :: bool
  da_user_id :: "user_id option"
  da_reference :: "string option"
  da_idempotency_key :: "string option"

record withdraw_args =
  wa_account_id :: uuid
  wa_amount :: money
  wa_currency :: currency
  wa_client_request_id :: "string option"
  wa_metadata :: "metadata option"
  wa_destination_agent :: "json option"
  wa_tx_type :: TransactionType
  wa_actor_id :: "user_id option"
  wa_agent_on_behalf :: bool
  wa_system_initiated :: bool

record transfer_args =
  ta_from_account_id :: uuid
  ta_to_account_id :: uuid
  ta_amount :: money
  ta_currency :: currency
  ta_client_request_id :: "string option"
  ta_metadata :: "metadata option"
  ta_platform_fee :: "money option"
  ta_fee_currency :: "currency option"
  ta_pin :: "string option"
  ta_system_initiated :: bool

record wallet_result =
  wr_transaction_id :: uuid
  wr_already_processed :: bool
  wr_amount :: money
  wr_currency :: currency
  wr_new_balance :: money
  wr_new_balance_to :: "money option"

subsection \<open>Helpers\<close>

definition is_admin :: "wallet_env \<Rightarrow> bool" where
  "is_admin env =
     (case we_current_user env of
        None \<Rightarrow> False
      | Some u \<Rightarrow> we_has_global_role env u [''owner'', ''super_admin'', ''admin'', ''wallet_admin''])"

definition quantize :: "money \<Rightarrow> money" where
  "quantize v = cents round_down v"

text \<open>\<open>account.user_id != current_user.id and not self._is_admin()\<close>; an anonymous user has no \<open>id\<close>.\<close>

definition check_ownership :: "wallet_env \<Rightarrow> account \<Rightarrow> wallet_error + unit" where
  "check_ownership env a =
     (case we_current_user env of
        None \<Rightarrow> Inl AttributeError
      | Some u \<Rightarrow> check (ac_user_id a = Some u \<or> is_admin env) PermissionError)"

definition get_account :: "wallet_db \<Rightarrow> uuid \<Rightarrow> wallet_error + account" where
  "get_account db i =
     rbind (account_get_by_id db i) (\<lambda>a. case a of None \<Rightarrow> Inl WalletNotFoundError | Some a \<Rightarrow> Inr a)"

definition check_not_frozen :: "account \<Rightarrow> wallet_error + unit" where
  "check_not_frozen a = check (\<not> ac_is_frozen a) (WalletFrozenError (ac_id a) (ac_frozen_reason a))"

definition str_or_else :: "string option \<Rightarrow> string option \<Rightarrow> string option" where
  "str_or_else a b = (case a of Some s \<Rightarrow> if s \<noteq> [] then a else b | None \<Rightarrow> b)"

definition md_or_empty :: "metadata option \<Rightarrow> metadata" where
  "md_or_empty md = (case md of None \<Rightarrow> Map.empty | Some m \<Rightarrow> m)"

text \<open>\<open>metadata.get('agent_id') or metadata.get('agent')\<close>.\<close>

definition metadata_agent :: "metadata option \<Rightarrow> json option" where
  "metadata_agent md =
     (case md of
        None \<Rightarrow> None
      | Some m \<Rightarrow> if json_truthy (m ''agent_id'') then m ''agent_id'' else m ''agent'')"

definition calculate_commission :: "wallet_env \<Rightarrow> money \<Rightarrow> string \<Rightarrow> money option \<Rightarrow> money" where
  "calculate_commission env amount source_type platform_fee =
     quantize_to 6 round_half_even
       (case platform_fee of Some f \<Rightarrow> f | None \<Rightarrow> amount * we_commission_rate env source_type)"

definition record_commission ::
  "json option \<Rightarrow> money \<Rightarrow> currency \<Rightarrow> string \<Rightarrow> uuid \<Rightarrow> user_id option \<Rightarrow> wallet_db \<Rightarrow> wallet_db" where
  "record_commission agent amount cur source_type source_id recipient db =
     (case agent of
        Some a \<Rightarrow>
          if json_truthy agent \<and> amount > 0
          then db\<lparr>db_commissions := db_commissions db @
                 [\<lparr>cm_agent = a, cm_amount = amount, cm_currency = cur, cm_source_type = source_type,
                   cm_source_id = source_id, cm_recipient_id = recipient\<rparr>]\<rparr>
          else db
      | None \<Rightarrow> db)"

text \<open>A ledger entry with a fresh key; the entry is posted by the caller.\<close>

definition make_entry ::
  "time \<Rightarrow> uuid \<Rightarrow> uuid \<Rightarrow> uuid \<Rightarrow> EntryType \<Rightarrow> money \<Rightarrow> currency \<Rightarrow> ledger_entry" where
  "make_entry now i tx acc ty amount cur =
     \<lparr>le_id = i, le_transaction_id = tx, le_account_id = acc, le_entry_type = entry_type_value ty,
      le_amount = amount, le_currency = cur, le_created_at = now\<rparr>"

definition take_ids :: "nat \<Rightarrow> wallet_db \<Rightarrow> wallet_db" where
  "take_ids n db = db\<lparr>db_next_id := db_next_id db + n\<rparr>"

definition add_audit_log ::
  "uuid \<Rightarrow> user_id option \<Rightarrow> string \<Rightarrow> (string \<times> money) list \<Rightarrow> (string \<times> money) list \<Rightarrow> wallet_db \<Rightarrow> wallet_db" where
  "add_audit_log tx actor action before after db =
     db\<lparr>db_audit_logs := db_audit_logs db @
        [\<lparr>al_transaction_id = tx, al_actor_id = actor, al_action = action,
          al_before_state = before, al_after_state = after\<rparr>]\<rparr>"

text \<open>\<open>actor_id or account.user_id\<close>.\<close>

definition actor_or_owner :: "user_id option \<Rightarrow> account \<Rightarrow> user_id option" where
  "actor_or_owner actor a = (if actor \<in> {None, Some 0} then ac_user_id a else actor)"

subsection \<open>Deposit\<close>

text \<open>The account is named by its key, or by its owner in the currency of the deposit (UGX if none is given).\<close>

definition resolve_account :: "deposit_args \<Rightarrow> wallet_db \<Rightarrow> wallet_error + uuid" where
  "resolve_account args db =
     (case da_account_id args of
        Some i \<Rightarrow> Inr i
      | None \<Rightarrow>
          (case da_user_id args of
             None \<Rightarrow> Inl (ValueError ''account_id (or user_id) is required'')
           | Some u \<Rightarrow>
               rbind (account_get_by_user_id db u (the (str_or_else (da_currency args) (Some ''UGX'')))) (\<lambda>a.
               case a of None \<Rightarrow> Inl WalletNotFoundError | Some a \<Rightarrow> Inr (ac_id a))))"

definition deposit_key :: "deposit_args \<Rightarrow> string option" where
  "deposit_key args =
     str_or_else (da_client_request_id args) (str_or_else (da_idempotency_key args) (da_reference args))"

text \<open>The argument checks before the transaction: the account, the amount in cents and the currency.\<close>

definition deposit_validate ::
  "wallet_env \<Rightarrow> deposit_args \<Rightarrow> wallet_db \<Rightarrow> wallet_error + uuid \<times> money \<times> currency" where
  "deposit_validate env args db =
     rbind (resolve_account args db) (\<lambda>account_id.
     if da_amount args = None \<or> da_currency args = None
     then Inl (ValueError ''amount and currency are required'')
     else
       let amount = quantize (the (da_amount args)); cur = the (da_currency args) in
       rbind (check (amount > 0) (ValueError ''Amount must be greater than zero'')) (\<lambda>_.
       rbind (validate_currency env cur) (\<lambda>_.
       rbind (check_transaction_limit env amount ''deposit'') (\<lambda>_.
       Inr (account_id, amount, cur)))))"

definition deposit_open :: "wallet_env \<Rightarrow> deposit_args \<Rightarrow> uuid \<Rightarrow> wallet_db \<Rightarrow> wallet_error + account" where
  "deposit_open env args account_id db =
     rbind (get_account db account_id) (\<lambda>a.
     rbind (if da_system_initiated args then Inr () else check_ownership env a) (\<lambda>_.
     rbind (check_not_frozen a) (\<lambda>_. Inr a)))"

text \<open>
  The automatic conversion to the account's currency.  The second component is the database that is committed
  when the step is over.
\<close>

definition deposit_fx ::
  "wallet_env \<Rightarrow> account \<Rightarrow> money \<Rightarrow> currency \<Rightarrow> metadata option \<Rightarrow> wallet_db \<Rightarrow>
   (wallet_error + money \<times> currency \<times> metadata option) \<times> wallet_db" where
  "deposit_fx env a amount cur md db =
     (if ac_currency a = cur then (Inr (amount, cur, md), db)
      else case get_rate_safe env cur (ac_currency a) db of
        Inl e \<Rightarrow> (Inl e, db)
      | Inr (r, db1) \<Rightarrow>
          if we_commit_closes env then (Inl InvalidRequestError, db1)
          else (Inr (cents round_half_even (amount * fx_value r), ac_currency a,
                     Some ((md_or_empty md)(''cross_border_fx'' \<mapsto> JBool True,
                            ''original_deposit_amount'' \<mapsto> JNum amount,
                            ''original_deposit_currency'' \<mapsto> JStr cur,
                            ''fx_rate_applied'' \<mapsto> JNum (fx_value r)))), db1))"

definition deposit_checks :: "wallet_env \<Rightarrow> account \<Rightarrow> money \<Rightarrow> currency \<Rightarrow> wallet_db \<Rightarrow> wallet_error + unit" where
  "deposit_checks env a amount cur db =
     rbind (check_kyc_limits env db (ac_user_id a) amount ''deposit'' cur None (Some (ac_id a))) (\<lambda>_.
     rbind (check_fraud_risk env (ac_user_id a) amount cur None) (\<lambda>_.
     rbind (check_daily_limit env db (ac_id a) amount cur) (\<lambda>_.
     check_monthly_limit env db (ac_id a) amount cur)))"

definition deposit_post ::
  "wallet_env \<Rightarrow> deposit_args \<Rightarrow> account \<Rightarrow> money \<Rightarrow> currency \<Rightarrow> string option \<Rightarrow> metadata option \<Rightarrow> wallet_db \<Rightarrow>
   wallet_error + wallet_result \<times> wallet_db" where
  "deposit_post env args a amount cur key md db =
     rbind (deposit_checks env a amount cur db) (\<lambda>_.
     rbind (tx_get_or_create (we_now env) key (da_tx_type args) amount cur (ac_user_id a) None (md_or_empty md) db)
       (\<lambda>(tx, db1).
     if tx_status tx = COMPLETED then
       Inr (\<lparr>wr_transaction_id = tx_id tx, wr_already_processed = True, wr_amount = amount, wr_currency = cur,
             wr_new_balance = get_balance db1 (ac_id a) cur None, wr_new_balance_to = None\<rparr>, db1)
     else
       rbind (post_entries [make_entry (we_now env) (db_next_id db1) (tx_id tx) (ac_id a) CREDIT amount cur]
                (take_ids 1 db1)) (\<lambda>db2.
       rbind (update_volume (ac_id a) amount ''daily'' db2) (\<lambda>(_, db3).
       let db4 = record_commission (metadata_agent md) (calculate_commission env amount ''deposit'' None) cur
                   ''deposit'' (tx_id tx) (ac_user_id a) db3;
           balance = get_balance db4 (ac_id a) cur None;
           db5 = add_audit_log (tx_id tx) (actor_or_owner (da_actor_id args) a) ''deposit''
                   [(''balance'', balance - amount)] [(''balance'', balance)] db4
       in rbind (update_status (we_now env) (tx_id tx) COMPLETED None db5) (\<lambda>(_, db6).
       Inr (\<lparr>wr_transaction_id = tx_id tx, wr_already_processed = False, wr_amount = amount, wr_currency = cur,
             wr_new_balance = get_balance db6 (ac_id a) cur None, wr_new_balance_to = None\<rparr>, db6))))))"

definition deposit :: "wallet_env \<Rightarrow> deposit_args \<Rightarrow> wallet_db \<Rightarrow> (wallet_error + wallet_result) \<times> wallet_db" where
  "deposit env args db =
     (case rbind (deposit_validate env args db) (\<lambda>(account_id, amount, cur).
             rbind (deposit_open env args account_id db) (\<lambda>a. Inr (a, amount, cur))) of
        Inl e \<Rightarrow> (Inl e, db)
      | Inr (a, amount, cur) \<Rightarrow>
          (case deposit_fx env a amount cur (da_metadata args) db of
             (Inl e, db1) \<Rightarrow> (Inl e, db1)
           | (Inr (amount', cur', md), db1) \<Rightarrow> atomic (deposit_post env args a amount' cur' (deposit_key args) md) db1))"

subsection \<open>Withdraw\<close>

definition withdraw_validate :: "wallet_env \<Rightarrow> withdraw_args \<Rightarrow> wallet_error + money" where
  "withdraw_validate env args =
     (let amount = quantize (wa_amount args) in
      rbind (check (amount > 0) (ValueError ''Amount must be greater than zero'')) (\<lambda>_.
      rbind (validate_currency env (wa_currency args)) (\<lambda>_.
      rbind (check_transaction_limit env amount ''withdraw'') (\<lambda>_. Inr amount))))"

definition withdraw_checks ::
  "wallet_env \<Rightarrow> withdraw_args \<Rightarrow> money \<Rightarrow> wallet_db \<Rightarrow> wallet_error + account" where
  "withdraw_checks env args amount db =
     (let cur = wa_currency args in
      rbind (get_account db (wa_account_id args)) (\<lambda>a.
      rbind (if wa_system_initiated args \<or> wa_agent_on_behalf args then Inr () else check_ownership env a) (\<lambda>_.
      rbind (check_not_frozen a) (\<lambda>_.
      rbind (check_kyc_limits env db (ac_user_id a) amount ''withdraw'' cur None (Some (ac_id a))) (\<lambda>_.
      rbind (check_fraud_risk env (ac_user_id a) amount cur None) (\<lambda>_.
      let balance = get_balance db (ac_id a) cur None in
      rbind (check (balance \<ge> amount) (InsufficientBalanceError cur amount balance)) (\<lambda>_.
      rbind (check_daily_limit env db (ac_id a) amount cur) (\<lambda>_.
      rbind (check_monthly_limit env db (ac_id a) amount cur) (\<lambda>_. Inr a)))))))))"

definition withdraw_agent :: "withdraw_args \<Rightarrow> json option" where
  "withdraw_agent args =
     (if json_truthy (wa_destination_agent args) then wa_destination_agent args
      else metadata_agent (wa_metadata args))"

definition withdraw_post ::
  "wallet_env \<Rightarrow> withdraw_args \<Rightarrow> account \<Rightarrow> money \<Rightarrow> wallet_db \<Rightarrow> wallet_error + wallet_result \<times> wallet_db" where
  "withdraw_post env args a amount db =
     (let cur = wa_currency args; current_balance = get_balance db (ac_id a) cur None in
     rbind (tx_get_or_create (we_now env) (wa_client_request_id args) (wa_tx_type args) amount cur (ac_user_id a)
              None (md_or_empty (wa_metadata args)) db) (\<lambda>(tx, db1).
     if tx_status tx = COMPLETED then
       Inr (\<lparr>wr_transaction_id = tx_id tx, wr_already_processed = True, wr_amount = amount, wr_currency = cur,
             wr_new_balance = get_balance db1 (ac_id a) cur None, wr_new_balance_to = None\<rparr>, db1)
     else
       rbind (post_entries [make_entry (we_now env) (db_next_id db1) (tx_id tx) (ac_id a) DEBIT amount cur]
                (take_ids 1 db1)) (\<lambda>db2.
       rbind (update_volume (ac_id a) amount ''daily'' db2) (\<lambda>(_, db3).
       let db4 = record_commission (withdraw_agent args) (calculate_commission env amount ''withdraw'' None) cur
                   ''withdraw'' (tx_id tx) (ac_user_id a) db3;
           db5 = add_audit_log (tx_id tx) (actor_or_owner (wa_actor_id args) a) ''withdraw''
                   [(''balance'', current_balance)] [(''balance'', get_balance db4 (ac_id a) cur None)] db4
       in rbind (update_status (we_now env) (tx_id tx) COMPLETED None db5) (\<lambda>(_, db6).
       Inr (\<lparr>wr_transaction_id = tx_id tx, wr_already_processed = False, wr_amount = amount, wr_currency = cur,
             wr_new_balance = get_balance db6 (ac_id a) cur None, wr_new_balance_to = None\<rparr>, db6))))))"

definition withdraw :: "wallet_env \<Rightarrow> withdraw_args \<Rightarrow> wallet_db \<Rightarrow> (wallet_error + wallet_result) \<times> wallet_db" where
  "withdraw env args =
     atomic (\<lambda>db.
       rbind (withdraw_validate env args) (\<lambda>amount.
       rbind (withdraw_checks env args amount db) (\<lambda>a.
       withdraw_post env args a amount db)))"

subsection \<open>The transaction PIN\<close>

definition is_digit :: "char \<Rightarrow> bool" where "is_digit c \<longleftrightarrow> CHR ''0'' \<le> c \<and> c \<le> CHR ''9''"

definition set_transaction_pin :: "(string \<Rightarrow> string) \<Rightarrow> string \<Rightarrow> pin_user \<Rightarrow> wallet_error + pin_user" where
  "set_transaction_pin hash pin u =
     (if pin = [] \<or> \<not> list_all is_digit pin \<or> length pin \<notin> {4, 5, 6}
      then Inl (ValueError ''PIN must be a 4-6 digit numeric string'')
      else Inr (u\<lparr>pu_pin_hash := Some (hash pin), pu_failed_attempts := 0, pu_locked_until := None\<rparr>))"

definition verify_transaction_pin :: "wallet_env \<Rightarrow> string \<Rightarrow> pin_user \<Rightarrow> bool \<times> pin_user" where
  "verify_transaction_pin env pin u =
     (case pu_pin_hash u of
        None \<Rightarrow> (False, u)
      | Some h \<Rightarrow>
          if h = [] then (False, u)
          else if (case pu_locked_until u of Some t \<Rightarrow> we_now env < t | None \<Rightarrow> False) then (False, u)
          else if we_check_hash env h pin then (True, u\<lparr>pu_failed_attempts := 0, pu_locked_until := None\<rparr>)
          else let n = pu_failed_attempts u + 1 in
               (False, if n \<ge> we_pin_max_attempts env
                       then u\<lparr>pu_failed_attempts := n,
                              pu_locked_until := Some (we_now env + we_pin_lock_minutes env * 60000000)\<rparr>
                       else u\<lparr>pu_failed_attempts := n\<rparr>))"

subsection \<open>Transfer\<close>

text \<open>The sender's PIN is set, given and right; the counters of the user are updated.\<close>

definition authorise_pin :: "wallet_env \<Rightarrow> string option \<Rightarrow> pin_user \<Rightarrow> wallet_error + pin_user" where
  "authorise_pin env pin u =
     rbind (check (pu_pin_hash u \<notin> {None, Some []})
              (TransactionPINError ''Set a transaction PIN before sending money'')) (\<lambda>_.
     rbind (check (pin \<notin> {None, Some []}) (TransactionPINError ''Transaction PIN is required'')) (\<lambda>_.
     rbind (check (fst (verify_transaction_pin env (the pin) u)) (TransactionPINError ''Invalid or locked PIN'')) (\<lambda>_.
     Inr (snd (verify_transaction_pin env (the pin) u)))))"

text \<open>
  The PIN step of a user-authorised transfer.  Exceptions other than the three it lets pass are reported as a
  PIN error.
\<close>

definition transfer_pin_body :: "wallet_env \<Rightarrow> transfer_args \<Rightarrow> wallet_db \<Rightarrow> wallet_error + wallet_db" where
  "transfer_pin_body env args db =
     rbind (get_account db (ta_from_account_id args)) (\<lambda>a.
     rbind (check_ownership env a) (\<lambda>_.
     rbind (scalar_one_or_none (filter (\<lambda>u. Some (pu_id u) = ac_user_id a) (db_users db))) (\<lambda>su.
     rbind (case su of
              None \<Rightarrow> Inl (TransactionPINError ''Sender PIN authority could not be verified'')
            | Some u \<Rightarrow> Inr u) (\<lambda>u.
     rbind (authorise_pin env (ta_pin args) u) (\<lambda>u'.
     Inr (db\<lparr>db_users := update_rows (\<lambda>v. pu_id v = pu_id u) (\<lambda>_. u') (db_users db)\<rparr>))))))"

definition transfer_pin :: "wallet_env \<Rightarrow> transfer_args \<Rightarrow> wallet_db \<Rightarrow> wallet_error + wallet_db" where
  "transfer_pin env args db =
     (if ta_system_initiated args then Inr db
      else case transfer_pin_body env args db of
        Inr db' \<Rightarrow> Inr db'
      | Inl (TransactionPINError m) \<Rightarrow> Inl (TransactionPINError m)
      | Inl WalletNotFoundError \<Rightarrow> Inl WalletNotFoundError
      | Inl PermissionError \<Rightarrow> Inl PermissionError
      | Inl _ \<Rightarrow> Inl (TransactionPINError ''AFCON360 could not securely verify your transaction PIN. No transfer was made.''))"

definition transfer_validate :: "wallet_env \<Rightarrow> transfer_args \<Rightarrow> wallet_error + money" where
  "transfer_validate env args =
     (let amount = quantize (ta_amount args) in
      rbind (check (ta_from_account_id args \<noteq> ta_to_account_id args) (ValueError ''Cannot transfer to yourself'')) (\<lambda>_.
      rbind (check (amount > 0) (ValueError ''Amount must be greater than zero'')) (\<lambda>_.
      rbind (validate_currency env (ta_currency args)) (\<lambda>_. Inr amount))))"

text \<open>Both accounts are locked in the order of their keys.\<close>

definition lock_accounts :: "transfer_args \<Rightarrow> wallet_db \<Rightarrow> wallet_error + account \<times> account" where
  "lock_accounts args db =
     (let f = ta_from_account_id args; t = ta_to_account_id args in
      rbind (get_account db (min f t)) (\<lambda>a.
      rbind (get_account db (max f t)) (\<lambda>b.
      Inr (if f \<le> t then (a, b) else (b, a)))))"

definition marketplace_keys :: "string list" where
  "marketplace_keys =
     [''marketplace_invoice_id'', ''service_code'', ''service_reference'', ''settlement_timing'',
      ''escrow_account_id'', ''escrow_service_type'']"

definition md_get :: "metadata \<Rightarrow> string \<Rightarrow> json" where
  "md_get m k = (case m k of None \<Rightarrow> JNull | Some v \<Rightarrow> v)"

definition transfer_terms_match ::
  "transfer_args \<Rightarrow> money \<Rightarrow> account \<Rightarrow> account \<Rightarrow> transaction \<Rightarrow> bool" where
  "transfer_terms_match args amount fa ta tx \<longleftrightarrow>
     tx_type tx = TRANSFER \<and> quantize (tx_amount tx) = quantize amount
     \<and> str_upper (tx_currency tx) = str_upper (ta_currency args)
     \<and> tx_user_id tx = ac_user_id fa \<and> tx_recipient_user_id tx = ac_user_id ta
     \<and> list_all (\<lambda>k. md_get (md_or_empty (ta_metadata args)) k = md_get (tx_metadata tx) k) marketplace_keys"

definition lookup_key :: "wallet_db \<Rightarrow> string option \<Rightarrow> wallet_error + transaction option" where
  "lookup_key db key = (case key of None \<Rightarrow> Inr None | Some k \<Rightarrow> get_by_client_request_id db k)"

definition key_text :: "string option \<Rightarrow> string" where
  "key_text key = (case key of None \<Rightarrow> ''None'' | Some k \<Rightarrow> k)"

text \<open>The replay of a transfer that is already complete; \<open>None\<close> when the key is free.\<close>

definition transfer_replay ::
  "transfer_args \<Rightarrow> money \<Rightarrow> account \<Rightarrow> account \<Rightarrow> wallet_db \<Rightarrow> wallet_error + wallet_result option" where
  "transfer_replay args amount fa ta db =
     rbind (lookup_key db (ta_client_request_id args)) (\<lambda>existing.
     case existing of
       None \<Rightarrow> Inr None
     | Some tx \<Rightarrow>
         rbind (check (transfer_terms_match args amount fa ta tx \<and> tx_status tx = COMPLETED)
                  (DuplicateTransactionError (key_text (ta_client_request_id args)))) (\<lambda>_.
         Inr (Some \<lparr>wr_transaction_id = tx_id tx, wr_already_processed = True,
                    wr_amount = tx_amount tx, wr_currency = tx_currency tx,
                    wr_new_balance = get_balance db (ac_id fa) (str_upper (ac_currency fa)) None,
                    wr_new_balance_to = Some (get_balance db (ac_id ta) (str_upper (ac_currency ta)) None)\<rparr>)))"

text \<open>Everything before the amounts are known: PIN, locks, ownership, replay, limit, freeze, KYC, fraud.\<close>

definition transfer_open ::
  "wallet_env \<Rightarrow> transfer_args \<Rightarrow> money \<Rightarrow> wallet_db \<Rightarrow>
   wallet_error + (wallet_result + account \<times> account) \<times> wallet_db" where
  "transfer_open env args amount db =
     rbind (transfer_pin env args db) (\<lambda>db1.
     rbind (lock_accounts args db1) (\<lambda>(fa, ta).
     rbind (if ta_system_initiated args then Inr () else check_ownership env fa) (\<lambda>_.
     rbind (transfer_replay args amount fa ta db1) (\<lambda>replay.
     case replay of
       Some r \<Rightarrow> Inr (Inl r, db1)
     | None \<Rightarrow>
         rbind (check_transaction_limit env amount ''transfer'') (\<lambda>_.
         rbind (check_not_frozen fa) (\<lambda>_.
         rbind (check_not_frozen ta) (\<lambda>_.
         rbind (check_kyc_limits env db1 (ac_user_id fa) amount ''send'' (ta_currency args) (ac_user_id ta)
                  (Some (ac_id fa))) (\<lambda>_.
         rbind (check_fraud_risk env (ac_user_id fa) amount (ta_currency args) (ac_user_id ta)) (\<lambda>_.
         Inr (Inr (fa, ta), db1))))))))))"

text \<open>The two legs of a transfer: what is debited from the sender and what is credited to the recipient.\<close>

record transfer_legs =
  tl_debit_amount :: money
  tl_debit_currency :: currency
  tl_credit_amount :: money
  tl_credit_currency :: currency

text \<open>
  The amounts of the legs.  A rate is fetched when the accounts have different currencies; the second component
  is then the committed database.
\<close>

definition transfer_legs_of ::
  "wallet_env \<Rightarrow> account \<Rightarrow> account \<Rightarrow> money \<Rightarrow> currency \<Rightarrow> wallet_db \<Rightarrow>
   (wallet_error + transfer_legs) \<times> wallet_db option" where
  "transfer_legs_of env fa ta amount cur db =
     (if ac_currency fa \<noteq> ac_currency ta then
        (let own = (cur = ac_currency fa);
             rate = (if own then get_rate_safe env (ac_currency fa) (ac_currency ta) db
                     else get_rate_safe env cur (ac_currency fa) db)
         in case rate of
              Inl e \<Rightarrow> (Inl e, None)
            | Inr (r, db') \<Rightarrow>
                if we_commit_closes env then (Inl InvalidRequestError, Some db')
                else let converted = cents round_half_even (amount * fx_value r) in
                     (Inr \<lparr>tl_debit_amount = (if own then amount else converted),
                           tl_debit_currency = ac_currency fa,
                           tl_credit_amount = (if own then converted else amount),
                           tl_credit_currency = ac_currency ta\<rparr>, Some db'))
      else
        (Inr \<lparr>tl_debit_amount = amount,
              tl_debit_currency = (if ac_currency fa \<noteq> cur then ac_currency fa else cur),
              tl_credit_amount = amount,
              tl_credit_currency = (if ac_currency fa \<noteq> cur then ac_currency ta else cur)\<rparr>, None))"

definition fee_of :: "transfer_args \<Rightarrow> money" where
  "fee_of args = money_or_0 (ta_platform_fee args)"

definition transfer_checks ::
  "wallet_env \<Rightarrow> transfer_args \<Rightarrow> account \<Rightarrow> transfer_legs \<Rightarrow> wallet_db \<Rightarrow> wallet_error + money" where
  "transfer_checks env args fa legs db =
     (let from_balance = get_balance db (ac_id fa) (tl_debit_currency legs) None;
          total_debit = tl_debit_amount legs + fee_of args in
      rbind (check (from_balance \<ge> total_debit)
               (InsufficientBalanceError (tl_debit_currency legs) total_debit from_balance)) (\<lambda>_.
      rbind (check_daily_limit env db (ac_id fa) (tl_debit_amount legs) (tl_debit_currency legs)) (\<lambda>_.
      rbind (check_monthly_limit env db (ac_id fa) (tl_debit_amount legs) (tl_debit_currency legs)) (\<lambda>_.
      Inr from_balance))))"

text \<open>\<open>fee_currency or currency\<close>.\<close>

definition fee_currency_of :: "transfer_args \<Rightarrow> currency" where
  "fee_currency_of args =
     (case ta_fee_currency args of Some c \<Rightarrow> if c \<noteq> [] then c else ta_currency args | None \<Rightarrow> ta_currency args)"

definition transfer_entries ::
  "wallet_env \<Rightarrow> transfer_args \<Rightarrow> account \<Rightarrow> account \<Rightarrow> transfer_legs \<Rightarrow> uuid \<Rightarrow> uuid \<Rightarrow> ledger_entry list" where
  "transfer_entries env args fa ta legs tx i =
     [make_entry (we_now env) i tx (ac_id fa) DEBIT (tl_debit_amount legs) (tl_debit_currency legs),
      make_entry (we_now env) (i + 1) tx (ac_id ta) CREDIT (tl_credit_amount legs) (tl_credit_currency legs)]
     @ (if fee_of args > 0
        then [make_entry (we_now env) (i + 2) tx (ac_id fa) DEBIT (fee_of args) (fee_currency_of args)]
        else [])"

definition transfer_post ::
  "wallet_env \<Rightarrow> transfer_args \<Rightarrow> account \<Rightarrow> account \<Rightarrow> money \<Rightarrow> transfer_legs \<Rightarrow> wallet_db \<Rightarrow>
   wallet_error + wallet_result \<times> wallet_db" where
  "transfer_post env args fa ta amount legs db =
     (let cur = ta_currency args in
     rbind (transfer_checks env args fa legs db) (\<lambda>from_balance.
     rbind (tx_get_or_create (we_now env) (ta_client_request_id args) TRANSFER amount cur (ac_user_id fa)
              (ac_user_id ta) (md_or_empty (ta_metadata args)) db) (\<lambda>(tx, db1).
     if tx_status tx = COMPLETED then
       rbind (check (transfer_terms_match args amount fa ta tx)
                (DuplicateTransactionError (key_text (ta_client_request_id args)))) (\<lambda>_.
       Inr (\<lparr>wr_transaction_id = tx_id tx, wr_already_processed = True, wr_amount = amount, wr_currency = cur,
             wr_new_balance = get_balance db1 (ac_id fa) (tl_debit_currency legs) None,
             wr_new_balance_to = Some (get_balance db1 (ac_id ta) (tl_credit_currency legs) None)\<rparr>, db1))
     else
       rbind (post_entries (transfer_entries env args fa ta legs (tx_id tx) (db_next_id db1)) (take_ids 3 db1)) (\<lambda>db2.
       let db3 = record_commission (metadata_agent (ta_metadata args))
                   (calculate_commission env amount ''transfer'' (ta_platform_fee args)) (fee_currency_of args)
                   ''transfer'' (tx_id tx) (ac_user_id ta) db2
       in rbind (update_volume (ac_id fa) amount ''daily'' db3) (\<lambda>(_, db4).
       let to_after = get_balance db4 (ac_id ta) cur None;
           db5 = add_audit_log (tx_id tx) (ac_user_id fa) ''transfer''
                   [(''from_balance'', from_balance), (''to_balance'', to_after)]
                   [(''from_balance'', get_balance db4 (ac_id fa) cur None), (''to_balance'', to_after)] db4
       in rbind (update_status (we_now env) (tx_id tx) COMPLETED None db5) (\<lambda>(_, db6).
       Inr (\<lparr>wr_transaction_id = tx_id tx, wr_already_processed = False, wr_amount = amount, wr_currency = cur,
             wr_new_balance = get_balance db6 (ac_id fa) cur None,
             wr_new_balance_to = Some (get_balance db6 (ac_id ta) cur None)\<rparr>, db6)))))))"

definition transfer :: "wallet_env \<Rightarrow> transfer_args \<Rightarrow> wallet_db \<Rightarrow> (wallet_error + wallet_result) \<times> wallet_db" where
  "transfer env args db =
     (case rbind (transfer_validate env args) (\<lambda>amount.
             rbind (transfer_open env args amount db) (\<lambda>r. Inr (amount, r))) of
        Inl e \<Rightarrow> (Inl e, db)
      | Inr (_, Inl replayed, db1) \<Rightarrow> (Inr replayed, db1)
      | Inr (amount, Inr (fa, ta), db1) \<Rightarrow>
          (case transfer_legs_of env fa ta amount (ta_currency args) db1 of
             (Inl e, committed) \<Rightarrow> (Inl e, case committed of None \<Rightarrow> db | Some d \<Rightarrow> d)
           | (Inr legs, committed) \<Rightarrow>
               (case transfer_post env args fa ta amount legs (case committed of None \<Rightarrow> db1 | Some d \<Rightarrow> d) of
                  Inl e \<Rightarrow> (Inl e, case committed of None \<Rightarrow> db | Some d \<Rightarrow> d)
                | Inr (r, db2) \<Rightarrow> (Inr r, db2))))"

subsection \<open>Administration\<close>

text \<open>
  The idempotency key of an admin operation is built from the clock and the account, so it is an argument here;
  the metadata carries the administrator and the reason.
\<close>

definition reason_given :: "string \<Rightarrow> bool" where
  "reason_given reason \<longleftrightarrow> str_strip reason \<noteq> []"

definition admin_metadata :: "wallet_env \<Rightarrow> string \<Rightarrow> metadata" where
  "admin_metadata env reason =
     [''admin_id'' \<mapsto> (case we_current_user env of None \<Rightarrow> JNull | Some u \<Rightarrow> JNum (of_int u)),
      ''adjustment_reason'' \<mapsto> JStr reason, ''type'' \<mapsto> JStr ''admin_adjustment'']"

definition admin_deposit ::
  "wallet_env \<Rightarrow> string \<Rightarrow> uuid \<Rightarrow> money \<Rightarrow> currency \<Rightarrow> string \<Rightarrow> wallet_db \<Rightarrow>
   (wallet_error + wallet_result) \<times> wallet_db" where
  "admin_deposit env key account_id amount cur reason db =
     (if \<not> is_admin env then (Inl PermissionError, db)
      else if \<not> reason_given reason then (Inl (ValueError ''A mandatory reason must be provided''), db)
      else deposit env
        \<lparr>da_account_id = Some account_id, da_amount = Some amount, da_currency = Some cur,
         da_client_request_id = Some key, da_metadata = Some (admin_metadata env reason),
         da_tx_type = ADJUSTMENT, da_actor_id = we_current_user env, da_system_initiated = False,
         da_user_id = None, da_reference = None, da_idempotency_key = None\<rparr> db)"

definition admin_withdraw ::
  "wallet_env \<Rightarrow> string \<Rightarrow> uuid \<Rightarrow> money \<Rightarrow> currency \<Rightarrow> string \<Rightarrow> wallet_db \<Rightarrow>
   (wallet_error + wallet_result) \<times> wallet_db" where
  "admin_withdraw env key account_id amount cur reason db =
     (if \<not> is_admin env then (Inl PermissionError, db)
      else if \<not> reason_given reason then (Inl (ValueError ''A mandatory reason must be provided''), db)
      else withdraw env
        \<lparr>wa_account_id = account_id, wa_amount = amount, wa_currency = cur, wa_client_request_id = Some key,
         wa_metadata = Some (admin_metadata env reason), wa_destination_agent = None,
         wa_tx_type = ADJUSTMENT, wa_actor_id = we_current_user env, wa_agent_on_behalf = False,
         wa_system_initiated = False\<rparr> db)"

definition find_adjustment :: "wallet_db \<Rightarrow> uuid \<Rightarrow> adjustment option" where
  "find_adjustment db rid = find (\<lambda>a. aj_public_id a = rid) (db_adjustments db)"

definition set_adjustment :: "uuid \<Rightarrow> (adjustment \<Rightarrow> adjustment) \<Rightarrow> wallet_db \<Rightarrow> wallet_db" where
  "set_adjustment rid f db =
     db\<lparr>db_adjustments := update_rows (\<lambda>a. aj_public_id a = rid) f (db_adjustments db)\<rparr>"

definition approve_adjustment ::
  "wallet_env \<Rightarrow> string \<Rightarrow> uuid \<Rightarrow> user_id \<Rightarrow> bool \<Rightarrow> wallet_db \<Rightarrow> (wallet_error + uuid) \<times> wallet_db" where
  "approve_adjustment env key rid approved_by auto_approve db =
     (if \<not> auto_approve \<and> \<not> we_has_global_role env approved_by [''owner'', ''super_admin'']
      then (Inl PermissionError, db)
      else case find_adjustment db rid of
        None \<Rightarrow> (Inl (ValueError ''Adjustment request not found''), db)
      | Some req \<Rightarrow>
          if \<not> auto_approve \<and> aj_status req \<noteq> ADJ_PENDING then (Inl (ValueError ''Request is already processed''), db)
          else
            let reason = (if auto_approve then ''Auto-Approved '' else ''Approved '') @ ''Adjustment: '' @ aj_reason req in
            (case (if aj_adjustment_type req = ''deposit''
                   then admin_deposit env key (aj_account_id req) (aj_amount req) (aj_currency req) reason db
                   else admin_withdraw env key (aj_account_id req) (aj_amount req) (aj_currency req) reason db) of
               (Inl e, db1) \<Rightarrow> (Inl e, db1)
             | (Inr r, db1) \<Rightarrow>
                 (Inr (wr_transaction_id r),
                  set_adjustment rid (\<lambda>a. a\<lparr>aj_status := ADJ_APPROVED, aj_approved_by_id := Some approved_by,
                     aj_approved_at := Some (we_now env), aj_transaction_id := Some (wr_transaction_id r)\<rparr>) db1)))"

text \<open>The answer of a request: the transaction when it was approved at once, otherwise nothing yet.\<close>

definition admin_request_adjustment ::
  "wallet_env \<Rightarrow> string \<Rightarrow> uuid \<Rightarrow> money \<Rightarrow> currency \<Rightarrow> string \<Rightarrow> string \<Rightarrow> wallet_db \<Rightarrow>
   (wallet_error + uuid option) \<times> wallet_db" where
  "admin_request_adjustment env key account_id amount cur ty reason db =
     (case rbind (check (is_admin env) PermissionError) (\<lambda>_.
           rbind (check (reason_given reason) (ValueError ''Reason is mandatory for manual adjustments'')) (\<lambda>_.
           rbind (check (quantize amount > 0) (ValueError ''Amount must be positive'')) (\<lambda>_.
           rbind (get_account db account_id) (\<lambda>_.
           case we_current_user env of None \<Rightarrow> Inl AttributeError | Some u \<Rightarrow> Inr u)))) of
        Inl e \<Rightarrow> (Inl e, db)
      | Inr u \<Rightarrow>
          (let am = quantize amount;
               auto_approve = (cur = ''UGX'' \<and> am < we_adjustment_threshold env);
               rid = db_next_id db;
               req = \<lparr>aj_public_id = rid, aj_account_id = account_id, aj_amount = am, aj_currency = cur,
                      aj_adjustment_type = ty, aj_reason = reason,
                      aj_status = (if auto_approve then ADJ_APPROVED else ADJ_PENDING),
                      aj_requested_by_id = u, aj_approved_by_id = None, aj_approved_at = None,
                      aj_rejected_by_id = None, aj_rejected_at = None, aj_rejection_reason = None,
                      aj_transaction_id = None\<rparr>;
               db1 = take_ids 1 (db\<lparr>db_adjustments := db_adjustments db @ [req]\<rparr>)
           in if auto_approve
              then (case approve_adjustment env key rid u True db1 of
                      (Inl e, db2) \<Rightarrow> (Inl e, db2) | (Inr t, db2) \<Rightarrow> (Inr (Some t), db2))
              else (Inr None, db1)))"

definition reject_adjustment ::
  "wallet_env \<Rightarrow> uuid \<Rightarrow> user_id \<Rightarrow> string \<Rightarrow> wallet_db \<Rightarrow> (wallet_error + unit) \<times> wallet_db" where
  "reject_adjustment env rid rejected_by reason db =
     (case find_adjustment db rid of
        None \<Rightarrow> (Inl (ValueError ''Adjustment request not found''), db)
      | Some req \<Rightarrow>
          if \<not> (we_has_global_role env rejected_by [''owner'', ''super_admin'']
                 \<or> aj_requested_by_id req = rejected_by) then (Inl PermissionError, db)
          else if aj_status req \<noteq> ADJ_PENDING then (Inl (ValueError ''Request is already processed''), db)
          else (Inr (), set_adjustment rid (\<lambda>a. a\<lparr>aj_status := ADJ_REJECTED, aj_rejected_by_id := Some rejected_by,
                 aj_rejected_at := Some (we_now env), aj_rejection_reason := Some reason\<rparr>) db))"

definition approve_transaction :: "uuid \<Rightarrow> wallet_db \<Rightarrow> bool \<times> wallet_db" where
  "approve_transaction i db =
     (if list_ex (\<lambda>t. tx_id t = i \<and> tx_status t = PENDING) (db_transactions db)
      then (True, db\<lparr>db_transactions := update_rows (\<lambda>t. tx_id t = i) (\<lambda>t. t\<lparr>tx_status := COMPLETED\<rparr>) (db_transactions db)\<rparr>)
      else (False, db))"

definition reject_transaction :: "uuid \<Rightarrow> string \<Rightarrow> wallet_db \<Rightarrow> bool \<times> wallet_db" where
  "reject_transaction i reason db =
     (if list_ex (\<lambda>t. tx_id t = i \<and> tx_status t = PENDING) (db_transactions db)
      then (True, db\<lparr>db_transactions := update_rows (\<lambda>t. tx_id t = i)
              (\<lambda>t. t\<lparr>tx_status := FAILED, tx_failure_reason := Some reason\<rparr>) (db_transactions db)\<rparr>)
      else (False, db))"

end
