(* ===== verification/Wallet_Correct.thy ===== *)
theory Wallet_Correct
  imports Wallet_Service
begin

section \<open>Correctness of the wallet service\<close>

text \<open>
  The database invariant is kept by every operation; a successful operation moves exactly the balances it
  names and by the amounts it names; a key that is completed is never posted again; an operation that raises
  leaves the money tables as they were; no withdrawal and no ordinary transfer overdraws an account.
\<close>

text \<open>A small database for the worked examples: two USD accounts, 100 USD on the first one.\<close>

definition demo_account :: "uuid \<Rightarrow> user_id \<Rightarrow> currency \<Rightarrow> account" where
  "demo_account i u cur =
     \<lparr>ac_id = i, ac_account_number = None, ac_owner_type = USER, ac_user_id = Some u, ac_organisation_id = None,
      ac_platform_account = False, ac_account_type = USER_WALLET, ac_status = ACTIVE, ac_currency = cur,
      ac_is_frozen = False, ac_frozen_reason = None, ac_frozen_at = None, ac_frozen_by = None,
      ac_daily_volume = 0, ac_daily_volume_reset_at = None, ac_monthly_volume = 0,
      ac_monthly_volume_reset_at = None, ac_monthly_volume_limit = None\<rparr>"

definition demo_opening :: transaction where
  "demo_opening =
     \<lparr>tx_id = 10, tx_client_request_id = ''opening'', tx_type = DEPOSIT, tx_status = COMPLETED, tx_amount = 100,
      tx_currency = ''USD'', tx_user_id = Some 1, tx_recipient_user_id = None, tx_metadata = Map.empty,
      tx_external_reference = None, tx_created_at = 5, tx_completed_at = Some 5, tx_failed_at = None,
      tx_failure_reason = None\<rparr>"

definition demo_db :: wallet_db where
  "demo_db =
     empty_db\<lparr>db_accounts := [demo_account 1 1 ''USD'', demo_account 2 2 ''USD''],
              db_transactions := [demo_opening],
              db_ledger := [make_entry 5 11 10 1 CREDIT 100 ''USD''],
              db_users := [\<lparr>pu_id = 1, pu_pin_hash = Some ''1234'', pu_failed_attempts = 0, pu_locked_until = None\<rparr>]\<rparr>"

definition demo_deposit :: deposit_args where
  "demo_deposit =
     \<lparr>da_account_id = Some 1, da_amount = Some 25, da_currency = Some ''USD'', da_client_request_id = Some ''dep-1'',
      da_metadata = None, da_tx_type = DEPOSIT, da_actor_id = None, da_system_initiated = False,
      da_user_id = None, da_reference = None, da_idempotency_key = None\<rparr>"

definition demo_withdraw :: withdraw_args where
  "demo_withdraw =
     \<lparr>wa_account_id = 1, wa_amount = 40, wa_currency = ''USD'', wa_client_request_id = Some ''wd-1'',
      wa_metadata = None, wa_destination_agent = None, wa_tx_type = WITHDRAW, wa_actor_id = None,
      wa_agent_on_behalf = False, wa_system_initiated = False\<rparr>"

definition demo_transfer :: transfer_args where
  "demo_transfer =
     \<lparr>ta_from_account_id = 1, ta_to_account_id = 2, ta_amount = 30, ta_currency = ''USD'',
      ta_client_request_id = Some ''tr-1'', ta_metadata = None, ta_platform_fee = None, ta_fee_currency = None,
      ta_pin = Some ''1234'', ta_system_initiated = False\<rparr>"

subsection \<open>What the building blocks change\<close>

lemma modify_account_Inr:
  assumes "modify_account f i db = Inr (ok, db')" and "\<And>a. ac_id (f a) = ac_id a"
  shows "\<exists>accs. db' = db\<lparr>db_accounts := accs\<rparr> \<and> map ac_id accs = map ac_id (db_accounts db)"
proof -
  have "map ac_id (update_rows p f rows) = map ac_id rows" for p rows
    using assms(2) by (rule map_update_rows)
  then show ?thesis
    using assms(1) by (auto simp: modify_account_def split: option.splits intro: exI [of _ "db_accounts db"])
qed

lemma update_volume_Inr:
  assumes "update_volume i am ty db = Inr (ok, db')"
  shows "\<exists>accs. db' = db\<lparr>db_accounts := accs\<rparr> \<and> map ac_id accs = map ac_id (db_accounts db)"
  using assms unfolding update_volume_def by (rule modify_account_Inr) simp

definition complete_tx :: "time \<Rightarrow> transaction \<Rightarrow> transaction" where
  "complete_tx now t = t\<lparr>tx_status := COMPLETED, tx_completed_at := Some now\<rparr>"

lemma complete_tx_simps [simp]:
  "tx_id (complete_tx now t) = tx_id t" "tx_client_request_id (complete_tx now t) = tx_client_request_id t"
  "tx_amount (complete_tx now t) = tx_amount t" "tx_status (complete_tx now t) = COMPLETED"
  by (simp_all add: complete_tx_def)

lemma update_status_completed:
  assumes "update_status now i COMPLETED None db = Inr (ok, db')"
  shows "db' = db\<lparr>db_transactions := update_rows (\<lambda>t. tx_id t = i) (complete_tx now) (db_transactions db)\<rparr>"
proof -
  have "scalar_one_or_none (filter (\<lambda>t. tx_id t = i) rows) = Inr None \<Longrightarrow>
      update_rows (\<lambda>t. tx_id t = i) (complete_tx now) rows = rows" for rows
  proof -
    assume "scalar_one_or_none (filter (\<lambda>t. tx_id t = i) rows) = Inr None"
    then have "filter (\<lambda>t. tx_id t = i) rows = []"
      by (cases "filter (\<lambda>t. tx_id t = i) rows" rule: scalar_one_or_none.cases) auto
    then show ?thesis by (intro update_rows_none) (auto simp: filter_empty_conv)
  qed
  then show ?thesis
    using assms
    by (auto simp: update_status_def tx_get_by_id_def complete_tx_def [abs_def] Let_def split: option.splits)
qed

lemma record_commission_frame [frame_simps]:
  "\<exists>cs. record_commission agent am cur ty i rcp db = db\<lparr>db_commissions := cs\<rparr>"
  by (auto simp: record_commission_def split: option.splits intro: exI [of _ "db_commissions db"])

lemma record_commission_simps [simp]:
  "db_ledger (record_commission agent am cur ty i rcp db) = db_ledger db"
  "db_transactions (record_commission agent am cur ty i rcp db) = db_transactions db"
  "db_accounts (record_commission agent am cur ty i rcp db) = db_accounts db"
  "db_next_id (record_commission agent am cur ty i rcp db) = db_next_id db"
  "db_audit_logs (record_commission agent am cur ty i rcp db) = db_audit_logs db"
  by (auto simp: record_commission_def split: option.splits)

lemma add_audit_log_simps [simp]:
  "db_ledger (add_audit_log t u a b c db) = db_ledger db"
  "db_transactions (add_audit_log t u a b c db) = db_transactions db"
  "db_accounts (add_audit_log t u a b c db) = db_accounts db"
  "db_next_id (add_audit_log t u a b c db) = db_next_id db"
  "length (db_audit_logs (add_audit_log t u a b c db)) = Suc (length (db_audit_logs db))"
  by (simp_all add: add_audit_log_def)

lemma take_ids_simps [simp]:
  "db_ledger (take_ids n db) = db_ledger db" "db_transactions (take_ids n db) = db_transactions db"
  "db_accounts (take_ids n db) = db_accounts db" "db_next_id (take_ids n db) = db_next_id db + n"
  "db_audit_logs (take_ids n db) = db_audit_logs db"
  by (simp_all add: take_ids_def)

lemma make_entry_simps [simp]:
  "le_transaction_id (make_entry now i tx acc ty am cur) = tx" "le_account_id (make_entry now i tx acc ty am cur) = acc"
  "le_amount (make_entry now i tx acc ty am cur) = am" "le_currency (make_entry now i tx acc ty am cur) = cur"
  "le_entry_type (make_entry now i tx acc ty am cur) = entry_type_value ty"
  "le_created_at (make_entry now i tx acc ty am cur) = now"
  by (simp_all add: make_entry_def)

lemma entry_effect_make_entry [ledger_simps]:
  "entry_effect a c (make_entry now i tx acc DEBIT am cur) = (if acc = a \<and> cur = c then - am else 0)"
  "entry_effect a c (make_entry now i tx acc CREDIT am cur) = (if acc = a \<and> cur = c then am else 0)"
  by (simp_all add: entry_effect_def credit_of_def debit_of_def)

lemma valid_make_entry [simp]: "valid_entry (make_entry now i tx acc ty am cur) \<longleftrightarrow> am > 0"
  by (cases ty) (simp_all add: valid_entry_def)

subsection \<open>The invariant under the building blocks\<close>

lemma wallet_inv_cong:
  assumes "wallet_inv db" and "db_transactions db' = db_transactions db" and "db_ledger db' = db_ledger db"
    and "map ac_id (db_accounts db') = map ac_id (db_accounts db)" and "db_next_id db \<le> db_next_id db'"
  shows "wallet_inv db'"
  using assms by (auto simp: wallet_inv_def list_all_iff intro: less_le_trans)

lemma wallet_inv_update_tx:
  assumes "wallet_inv db" and "\<And>t. tx_id (f t) = tx_id t"
    and "\<And>t. tx_client_request_id (f t) = tx_client_request_id t" and "\<And>t. tx_amount (f t) = tx_amount t"
  shows "wallet_inv (db\<lparr>db_transactions := update_rows p f (db_transactions db)\<rparr>)"
proof -
  have ids: "map tx_id (update_rows p f rows) = map tx_id rows" for rows
    by (rule map_update_rows) (rule assms(2))
  have keys: "map tx_client_request_id (update_rows p f rows) = map tx_client_request_id rows" for rows
    by (rule map_update_rows) (rule assms(3))
  show ?thesis
    using assms(1) unfolding wallet_inv_def
    by (auto simp: ids keys assms(2,4) simp del: set_map intro: list_all_update_rows)
qed

lemma wallet_inv_post:
  assumes "wallet_inv db" and "list_all valid_entry es"
    and "\<And>e. e \<in> set es \<Longrightarrow> le_transaction_id e \<in> set (map tx_id (db_transactions db))"
  shows "wallet_inv (db\<lparr>db_ledger := db_ledger db @ es\<rparr>)"
  using assms unfolding wallet_inv_def by (auto simp: list_all_iff)

lemma find_tx_complete_other:
  assumes "wallet_inv db" and "find_tx db k = Some tx" and "k' \<noteq> k"
  shows "find_tx (db\<lparr>db_transactions := update_rows (\<lambda>t. tx_id t = tx_id tx) (complete_tx now) (db_transactions db)\<rparr>) k'
    = find_tx db k'"
proof (cases "find_tx db k'")
  case None
  then show ?thesis by (simp add: find_tx_def find_update_rows)
next
  case (Some t)
  then have t: "t \<in> set (db_transactions db)" "tx_client_request_id t = k'"
    and tx: "tx \<in> set (db_transactions db)" "tx_client_request_id tx = k"
    using assms(2) by (auto simp: find_tx_def dest: find_Some_key)
  have "tx_id t \<noteq> tx_id tx"
  proof
    assume "tx_id t = tx_id tx"
    moreover have "inj_on tx_id (set (db_transactions db))"
      using assms(1) by (simp add: wallet_inv_def distinct_map)
    ultimately show False using t tx assms(3) by (auto dest: inj_onD)
  qed
  with Some show ?thesis by (simp add: find_tx_def find_update_rows)
qed

text \<open>
  The common part of the three money operations: take a key, post the entries of the transaction, do things
  that touch neither ledger nor transactions, and complete the transaction.
\<close>

lemma posting_effect:
  assumes inv: "wallet_inv db"
    and goc: "tx_get_or_create now key ty am cur u rcp md db = Inr (tx, db1)"
    and post: "post_entries es (take_ids n db1) = Inr db2"
    and es: "\<And>e. e \<in> set es \<Longrightarrow> le_transaction_id e = tx_id tx"
    and rest: "db_ledger db5 = db_ledger db2" "db_transactions db5 = db_transactions db2"
      "map ac_id (db_accounts db5) = map ac_id (db_accounts db2)" "db_next_id db5 = db_next_id db2"
    and st: "update_status now (tx_id tx) COMPLETED None db5 = Inr (ok, db6)"
  shows "\<exists>k t. key = Some k \<and> wallet_inv db6 \<and> db_ledger db6 = db_ledger db @ es \<and> list_all valid_entry es
    \<and> find_tx db6 k = Some t \<and> tx_status t = COMPLETED \<and> tx_id t = tx_id tx
    \<and> (\<forall>k'. k' \<noteq> k \<longrightarrow> find_tx db6 k' = find_tx db k')
    \<and> map ac_id (db_accounts db6) = map ac_id (db_accounts db)"
proof -
  obtain k where key: "key = Some k" using goc by (cases key) (simp_all add: tx_get_or_create_def)
  note step = goc [unfolded key]
  have keystep: "(\<lambda>(now, ty, am, cur, u, r, md) k. tx_get_or_create now (Some k) ty am cur u r md)
      (now, ty, am, cur, u, rcp, md) k db = Inr (tx, db1)" using step by simp
  have inv1: "wallet_inv db1" by (rule tx_get_or_create_inv [OF inv step])
  have stored: "find_tx db1 k = Some tx" by (rule tx_keys.ensure_stored [OF inv keystep])
  have led1: "db_ledger db1 = db_ledger db" "map ac_id (db_accounts db1) = map ac_id (db_accounts db)"
    using inv step by (cases rule: tx_get_or_create_cases; simp)+
  have txin: "tx \<in> set (db_transactions db1)"
    using stored by (auto simp: find_tx_def dest: find_Some_key)
  have db2: "db2 = (take_ids n db1)\<lparr>db_ledger := db_ledger db1 @ es\<rparr>" and val: "list_all valid_entry es"
    using post by (auto simp: post_entries_Inr)
  have "wallet_inv (take_ids n db1)" by (rule wallet_inv_cong [OF inv1]) simp_all
  then have inv2: "wallet_inv db2"
    unfolding db2 using wallet_inv_post [of "take_ids n db1" es] val es txin by auto
  have inv5: "wallet_inv db5" by (rule wallet_inv_cong [OF inv2]) (use rest in simp_all)
  have find5: "find_tx db5 k' = find_tx db1 k'" for k' using rest(2) db2 by (simp add: find_tx_def)
  have db6: "db6 = db5\<lparr>db_transactions := update_rows (\<lambda>t. tx_id t = tx_id tx) (complete_tx now) (db_transactions db5)\<rparr>"
    by (rule update_status_completed [OF st])
  have inv6: "wallet_inv db6" unfolding db6 by (rule wallet_inv_update_tx [OF inv5]) simp_all
  have found6: "find_tx db6 k = Some (complete_tx now tx)"
    using find5 [of k] stored unfolding db6 by (simp add: find_tx_def find_update_rows)
  have other: "find_tx db6 k' = find_tx db k'" if "k' \<noteq> k" for k'
  proof -
    have "find_tx db6 k' = find_tx db5 k'"
      unfolding db6 by (rule find_tx_complete_other [OF inv5 _ that]) (simp add: find5 stored)
    also have "\<dots> = find_tx db k'" using tx_keys.ensure_others [OF inv keystep that] by (simp add: find5)
    finally show ?thesis .
  qed
  have "db_ledger db6 = db_ledger db @ es" and "map ac_id (db_accounts db6) = map ac_id (db_accounts db)"
    using rest db2 led1 by (simp_all add: db6)
  with key inv6 val found6 other show ?thesis by auto
qed

subsection \<open>The three money operations\<close>

lemma get_account_Inr: "get_account db i = Inr a \<Longrightarrow> a \<in> set (db_accounts db) \<and> ac_id a = i"
proof -
  assume *: "get_account db i = Inr a"
  then have "scalar_one_or_none (filter (\<lambda>a. ac_id a = i) (db_accounts db)) = Inr (Some a)"
    by (auto simp: get_account_def account_get_by_id_def split: option.splits)
  then have "filter (\<lambda>a. ac_id a = i) (db_accounts db) = [a]"
    by (cases "filter (\<lambda>a. ac_id a = i) (db_accounts db)" rule: scalar_one_or_none.cases) auto
  then have "a \<in> set (filter (\<lambda>a. ac_id a = i) (db_accounts db))" by simp
  then show ?thesis by simp
qed

text \<open>
  What a step of the service can have done to the money tables: nothing, or one posting of the entries \<open>es\<close>
  under the key \<open>k\<close>, which is completed afterwards and was not completed before.
\<close>

definition posted :: "wallet_db \<Rightarrow> string option \<Rightarrow> uuid \<Rightarrow> ledger_entry list \<Rightarrow> wallet_db \<Rightarrow> bool" where
  "posted db key i es db' \<longleftrightarrow>
     wallet_inv db' \<and> db_ledger db' = db_ledger db @ es \<and> list_all valid_entry es
     \<and> map ac_id (db_accounts db') = map ac_id (db_accounts db)
     \<and> (case key of
          None \<Rightarrow> False
        | Some k \<Rightarrow>
            (case find_tx db k of None \<Rightarrow> True | Some t \<Rightarrow> tx_status t \<noteq> COMPLETED)
            \<and> (case find_tx db' k of None \<Rightarrow> False | Some t \<Rightarrow> tx_status t = COMPLETED \<and> tx_id t = i)
            \<and> (\<forall>k'. k' \<noteq> k \<longrightarrow> find_tx db' k' = find_tx db k'))"

lemma posted_balance: "posted db key i es db' \<Longrightarrow>
  get_balance db' a c None = get_balance db a c None + sum_list (map (entry_effect a c) es)"
  by (simp add: posted_def get_balance_sum)

lemma replayed_key:
  assumes "wallet_inv db" and "tx_get_or_create now key ty am cur u rcp md db = Inr (tx, db1)"
    and "tx_status tx = COMPLETED"
  shows "db1 = db \<and> (\<exists>k. key = Some k \<and> find_tx db k = Some tx)"
  using assms(1,2)
proof (cases rule: tx_get_or_create_cases)
  case new
  with assms(3) show ?thesis by simp
qed auto

lemma fresh_key:
  assumes "wallet_inv db" and "tx_get_or_create now (Some k) ty am cur u rcp md db = Inr (tx, db1)"
    and "tx_status tx \<noteq> COMPLETED"
  shows "case find_tx db k of None \<Rightarrow> True | Some t \<Rightarrow> tx_status t \<noteq> COMPLETED"
  using assms(1,2) by (cases rule: tx_get_or_create_cases) (use assms(3) in auto)

lemma posting_posted:
  assumes inv: "wallet_inv db"
    and goc: "tx_get_or_create now key ty am cur u rcp md db = Inr (tx, db1)" and fresh: "tx_status tx \<noteq> COMPLETED"
    and post: "post_entries es (take_ids n db1) = Inr db2"
    and es: "\<And>e. e \<in> set es \<Longrightarrow> le_transaction_id e = tx_id tx"
    and rest: "db_ledger db5 = db_ledger db2" "db_transactions db5 = db_transactions db2"
      "map ac_id (db_accounts db5) = map ac_id (db_accounts db2)" "db_next_id db5 = db_next_id db2"
    and st: "update_status now (tx_id tx) COMPLETED None db5 = Inr (ok, db6)"
  shows "posted db key (tx_id tx) es db6"
proof -
  from posting_effect [OF inv goc post es rest st] obtain k t where key: "key = Some k"
    and eff: "wallet_inv db6" "db_ledger db6 = db_ledger db @ es" "list_all valid_entry es"
      "find_tx db6 k = Some t" "tx_status t = COMPLETED" "tx_id t = tx_id tx"
      "\<forall>k'. k' \<noteq> k \<longrightarrow> find_tx db6 k' = find_tx db k'" "map ac_id (db_accounts db6) = map ac_id (db_accounts db)"
    by blast
  from fresh_key [OF inv goc [unfolded key] fresh] eff key show ?thesis by (simp add: posted_def)
qed

lemma deposit_post_cases:
  assumes inv: "wallet_inv db" and ok: "deposit_post env args a am cur key md db = Inr (r, db')"
  obtains (replayed) tx k where "key = Some k" "find_tx db k = Some tx" "tx_status tx = COMPLETED" "db' = db"
      "wr_already_processed r" "wr_transaction_id r = tx_id tx"
    | (new) i es where "es = [make_entry (we_now env) i (wr_transaction_id r) (ac_id a) CREDIT am cur]"
      "posted db key (wr_transaction_id r) es db'" "\<not> wr_already_processed r" "wr_amount r = am" "wr_currency r = cur"
      "wr_new_balance r = get_balance db' (ac_id a) cur None" "deposit_checks env a am cur db = Inr ()"
proof -
  from ok obtain tx db1 where chk: "deposit_checks env a am cur db = Inr ()"
    and goc: "tx_get_or_create (we_now env) key (da_tx_type args) am cur (ac_user_id a) None (md_or_empty md) db = Inr (tx, db1)"
    by (auto simp: deposit_post_def)
  show ?thesis
  proof (cases "tx_status tx = COMPLETED")
    case True
    from replayed_key [OF inv goc True] obtain k where "key = Some k" "find_tx db k = Some tx" "db1 = db" by blast
    with ok chk goc True show ?thesis
      by (intro replayed [of k tx]) (auto simp: deposit_post_def)
  next
    case False
    let ?es = "[make_entry (we_now env) (db_next_id db1) (tx_id tx) (ac_id a) CREDIT am cur]"
    let ?rc = "record_commission (metadata_agent md) (calculate_commission env am ''deposit'' None) cur
        ''deposit'' (tx_id tx) (ac_user_id a)"
    let ?fin = "\<lambda>db3. add_audit_log (tx_id tx) (actor_or_owner (da_actor_id args) a) ''deposit''
        [(''balance'', get_balance (?rc db3) (ac_id a) cur None - am)]
        [(''balance'', get_balance (?rc db3) (ac_id a) cur None)] (?rc db3)"
    from ok chk goc False obtain db2 db3 b ok6 where
      post: "post_entries ?es (take_ids 1 db1) = Inr db2"
      and vol: "update_volume (ac_id a) am ''daily'' db2 = Inr (b, db3)"
      and st: "update_status (we_now env) (tx_id tx) COMPLETED None (?fin db3) = Inr (ok6, db')"
      and r: "r = \<lparr>wr_transaction_id = tx_id tx, wr_already_processed = False, wr_amount = am, wr_currency = cur,
             wr_new_balance = get_balance db' (ac_id a) cur None, wr_new_balance_to = None\<rparr>"
      by (auto simp: deposit_post_def Let_def)
    from update_volume_Inr [OF vol] obtain accs where db3: "db3 = db2\<lparr>db_accounts := accs\<rparr>"
      "map ac_id accs = map ac_id (db_accounts db2)" by blast
    have "posted db key (tx_id tx) ?es db'"
      by (rule posting_posted [OF inv goc False post _ _ _ _ _ st]) (auto simp: db3)
    with r chk show ?thesis by (intro new [of ?es]) auto
  qed
qed

lemma withdraw_post_cases:
  assumes inv: "wallet_inv db" and ok: "withdraw_post env args a am db = Inr (r, db')"
  obtains (replayed) tx k where "wa_client_request_id args = Some k" "find_tx db k = Some tx"
      "tx_status tx = COMPLETED" "db' = db" "wr_already_processed r" "wr_transaction_id r = tx_id tx"
    | (new) i es where "es = [make_entry (we_now env) i (wr_transaction_id r) (ac_id a) DEBIT am (wa_currency args)]"
      "posted db (wa_client_request_id args) (wr_transaction_id r) es db'" "\<not> wr_already_processed r"
      "wr_amount r = am" "wr_currency r = wa_currency args"
      "wr_new_balance r = get_balance db' (ac_id a) (wa_currency args) None"
proof -
  from ok obtain tx db1 where
    goc: "tx_get_or_create (we_now env) (wa_client_request_id args) (wa_tx_type args) am (wa_currency args)
            (ac_user_id a) None (md_or_empty (wa_metadata args)) db = Inr (tx, db1)"
    by (auto simp: withdraw_post_def Let_def)
  show ?thesis
  proof (cases "tx_status tx = COMPLETED")
    case True
    from replayed_key [OF inv goc True] obtain k where
      "wa_client_request_id args = Some k" "find_tx db k = Some tx" "db1 = db" by blast
    with ok goc True show ?thesis
      by (intro replayed [of k tx]) (auto simp: withdraw_post_def Let_def)
  next
    case False
    let ?es = "[make_entry (we_now env) (db_next_id db1) (tx_id tx) (ac_id a) DEBIT am (wa_currency args)]"
    let ?rc = "record_commission (withdraw_agent args) (calculate_commission env am ''withdraw'' None)
        (wa_currency args) ''withdraw'' (tx_id tx) (ac_user_id a)"
    let ?fin = "\<lambda>db3. add_audit_log (tx_id tx) (actor_or_owner (wa_actor_id args) a) ''withdraw''
        [(''balance'', get_balance db (ac_id a) (wa_currency args) None)]
        [(''balance'', get_balance (?rc db3) (ac_id a) (wa_currency args) None)] (?rc db3)"
    from ok goc False obtain db2 db3 b ok6 where
      post: "post_entries ?es (take_ids 1 db1) = Inr db2"
      and vol: "update_volume (ac_id a) am ''daily'' db2 = Inr (b, db3)"
      and st: "update_status (we_now env) (tx_id tx) COMPLETED None (?fin db3) = Inr (ok6, db')"
      and r: "r = \<lparr>wr_transaction_id = tx_id tx, wr_already_processed = False, wr_amount = am,
             wr_currency = wa_currency args,
             wr_new_balance = get_balance db' (ac_id a) (wa_currency args) None, wr_new_balance_to = None\<rparr>"
      by (auto simp: withdraw_post_def Let_def)
    from update_volume_Inr [OF vol] obtain accs where db3: "db3 = db2\<lparr>db_accounts := accs\<rparr>"
      "map ac_id accs = map ac_id (db_accounts db2)" by blast
    have "posted db (wa_client_request_id args) (tx_id tx) ?es db'"
      by (rule posting_posted [OF inv goc False post _ _ _ _ _ st]) (auto simp: db3)
    with r show ?thesis by (intro new [of ?es]) auto
  qed
qed

lemma transfer_post_cases:
  assumes inv: "wallet_inv db" and ok: "transfer_post env args fa ta am legs db = Inr (r, db')"
  obtains (replayed) tx k where "ta_client_request_id args = Some k" "find_tx db k = Some tx"
      "tx_status tx = COMPLETED" "db' = db" "wr_already_processed r" "wr_transaction_id r = tx_id tx"
    | (new) i where
      "posted db (ta_client_request_id args) (wr_transaction_id r)
         (transfer_entries env args fa ta legs (wr_transaction_id r) i) db'"
      "\<not> wr_already_processed r" "wr_amount r = am" "wr_currency r = ta_currency args"
      "get_balance db (ac_id fa) (tl_debit_currency legs) None \<ge> tl_debit_amount legs + fee_of args"
proof -
  from ok obtain tx db1 bal where chk: "transfer_checks env args fa legs db = Inr bal"
    and goc: "tx_get_or_create (we_now env) (ta_client_request_id args) TRANSFER am (ta_currency args)
            (ac_user_id fa) (ac_user_id ta) (md_or_empty (ta_metadata args)) db = Inr (tx, db1)"
    by (auto simp: transfer_post_def Let_def)
  from chk have enough: "get_balance db (ac_id fa) (tl_debit_currency legs) None \<ge> tl_debit_amount legs + fee_of args"
    by (auto simp: transfer_checks_def Let_def)
  show ?thesis
  proof (cases "tx_status tx = COMPLETED")
    case True
    from replayed_key [OF inv goc True] obtain k where
      "ta_client_request_id args = Some k" "find_tx db k = Some tx" "db1 = db" by blast
    with ok chk goc True show ?thesis
      by (intro replayed [of k tx]) (auto simp: transfer_post_def Let_def)
  next
    case False
    let ?es = "transfer_entries env args fa ta legs (tx_id tx) (db_next_id db1)"
    let ?rc = "record_commission (metadata_agent (ta_metadata args))
        (calculate_commission env am ''transfer'' (ta_platform_fee args)) (fee_currency_of args)
        ''transfer'' (tx_id tx) (ac_user_id ta)"
    let ?fin = "\<lambda>db4. add_audit_log (tx_id tx) (ac_user_id fa) ''transfer''
        [(''from_balance'', bal), (''to_balance'', get_balance db4 (ac_id ta) (ta_currency args) None)]
        [(''from_balance'', get_balance db4 (ac_id fa) (ta_currency args) None),
         (''to_balance'', get_balance db4 (ac_id ta) (ta_currency args) None)] db4"
    from ok chk goc False obtain db2 db4 b ok6 where
      post: "post_entries ?es (take_ids 3 db1) = Inr db2"
      and vol: "update_volume (ac_id fa) am ''daily'' (?rc db2) = Inr (b, db4)"
      and st: "update_status (we_now env) (tx_id tx) COMPLETED None (?fin db4) = Inr (ok6, db')"
      and r: "wr_transaction_id r = tx_id tx" "\<not> wr_already_processed r" "wr_amount r = am"
        "wr_currency r = ta_currency args"
      by (auto simp: transfer_post_def Let_def)
    from update_volume_Inr [OF vol] obtain accs where db4: "db4 = (?rc db2)\<lparr>db_accounts := accs\<rparr>"
      "map ac_id accs = map ac_id (db_accounts db2)" by auto
    have "posted db (ta_client_request_id args) (tx_id tx) ?es db'"
      by (rule posting_posted [OF inv goc False post _ _ _ _ _ st])
        (auto simp: db4 transfer_entries_def split: if_splits)
    with r enough show ?thesis by (intro new [of "db_next_id db1"]) auto
  qed
qed

subsection \<open>From the operations to their postings\<close>

lemma str_upper_ops [simp]:
  "str_upper ''deposit'' = ''DEPOSIT''" "str_upper ''withdraw'' = ''WITHDRAW''" "str_upper ''transfer'' = ''TRANSFER''"
  by code_simp+

text \<open>The money tables are as they were; caches, PIN counters and counters of keys may have changed.\<close>

definition quiet :: "wallet_db \<Rightarrow> wallet_db \<Rightarrow> bool" where
  "quiet db db' \<longleftrightarrow>
     db_ledger db' = db_ledger db \<and> db_transactions db' = db_transactions db
     \<and> db_accounts db' = db_accounts db \<and> db_audit_logs db' = db_audit_logs db
     \<and> db_commissions db' = db_commissions db \<and> db_adjustments db' = db_adjustments db
     \<and> db_next_id db' = db_next_id db"

lemma quiet_refl [simp]: "quiet db db"
  by (simp add: quiet_def)

lemma quiet_trans: "quiet db db1 \<Longrightarrow> quiet db1 db2 \<Longrightarrow> quiet db db2"
  by (simp add: quiet_def)

lemma quiet_inv: "quiet db db' \<Longrightarrow> wallet_inv db \<Longrightarrow> wallet_inv db'"
  by (rule wallet_inv_cong) (auto simp: quiet_def)

lemma quiet_balance: "quiet db db' \<Longrightarrow> get_balance db' a c t = get_balance db a c t"
  by (simp add: quiet_def get_balance_def)

lemma quiet_find_tx: "quiet db db' \<Longrightarrow> find_tx db' k = find_tx db k"
  by (simp add: quiet_def find_tx_def)

lemma quiet_posted: "quiet db db1 \<Longrightarrow> posted db1 key i es db2 \<Longrightarrow> posted db key i es db2"
  unfolding posted_def quiet_def find_tx_def by (cases key) auto

lemma fx_quiet: "db1 = db\<lparr>db_fx_rates := x\<rparr> \<Longrightarrow> quiet db db1"
  by (simp add: quiet_def)

lemma deposit_fx_frame: "db\<lparr>db_fx_rates := db_fx_rates (snd (deposit_fx env a am cur md db))\<rparr>
    = snd (deposit_fx env a am cur md db)"
proof (cases "get_rate_safe env cur (ac_currency a) db")
  case (Inr p)
  then show ?thesis
    using get_rate_safe_keeps_ledger [of env cur "ac_currency a" db "fst p" "snd p"]
    by (cases p) (auto simp: deposit_fx_def)
qed (simp add: deposit_fx_def)

lemma deposit_Inr:
  assumes "deposit env args db = (Inr r, db')"
  obtains i am cur a am' cur' md db1 where "deposit_validate env args db = Inr (i, am, cur)"
    and "deposit_open env args i db = Inr a"
    and "deposit_fx env a am cur (da_metadata args) db = (Inr (am', cur', md), db1)"
    and "deposit_post env args a am' cur' (deposit_key args) md db1 = Inr (r, db')" and "quiet db db1"
proof -
  from assms obtain i am cur a where 1: "deposit_validate env args db = Inr (i, am, cur)"
    "deposit_open env args i db = Inr a"
    by (auto simp: deposit_def split: sum.splits)
  with assms obtain am' cur' md db1 where 2: "deposit_fx env a am cur (da_metadata args) db = (Inr (am', cur', md), db1)"
    and 3: "deposit_post env args a am' cur' (deposit_key args) md db1 = Inr (r, db')"
    by (auto simp: deposit_def atomic_Inr split: prod.splits sum.splits)
  have "quiet db db1"
    using deposit_fx_frame [of env a am cur "da_metadata args" db] 2 by (intro fx_quiet) (auto dest: sym)
  with 1 2 3 that show ?thesis by blast
qed

lemma deposit_Inl:
  assumes "deposit env args db = (Inl e, db')"
  shows "db' = db\<lparr>db_fx_rates := db_fx_rates db'\<rparr>"
proof -
  have "db\<lparr>db_fx_rates := db_fx_rates db1\<rparr> = db1" if "deposit_fx env a am cur md db = (x, db1)" for a am cur md x db1
    using deposit_fx_frame [of env a am cur md db] that by simp
  note fx = this
  from assms show ?thesis
    by (auto simp: deposit_def atomic_def split: sum.splits prod.splits dest!: fx)
qed

lemma deposit_open_Inr:
  "deposit_open env args i db = Inr a \<Longrightarrow> a \<in> set (db_accounts db) \<and> ac_id a = i \<and> \<not> ac_is_frozen a
   \<and> (da_system_initiated args \<or> (\<exists>u. we_current_user env = Some u \<and> (ac_user_id a = Some u \<or> is_admin env)))"
  by (auto simp: deposit_open_def check_not_frozen_def check_ownership_def dest: get_account_Inr
      split: if_splits option.splits)

lemma deposit_fx_Inr:
  "deposit_fx env a am cur md db = (Inr (am', cur', md'), db1) \<Longrightarrow>
   cur' = ac_currency a \<and> (ac_currency a = cur \<longrightarrow> am' = am)"
  by (auto simp: deposit_fx_def split: if_splits sum.splits)

lemma deposit_validate_Inr:
  "deposit_validate env args db = Inr (i, am, cur) \<Longrightarrow>
   resolve_account args db = Inr i \<and> da_currency args = Some cur \<and> am = quantize (the (da_amount args)) \<and> 0 < am
   \<and> am \<le> config_get env ''WALLET_MAX_DEPOSIT'' 10000"
  by (auto simp: deposit_validate_def check_transaction_limit_def Let_def split: if_splits)

lemma withdraw_Inr:
  assumes "withdraw env args db = (Inr r, db')"
  obtains am a where "withdraw_validate env args = Inr am" and "withdraw_checks env args am db = Inr a"
    and "withdraw_post env args a am db = Inr (r, db')"
  using assms by (auto simp: withdraw_def atomic_Inr)

lemma withdraw_Inl: "withdraw env args db = (Inl e, db') \<Longrightarrow> db' = db"
  by (auto simp: withdraw_def atomic_def split: sum.splits)

lemma withdraw_checks_Inr:
  "withdraw_checks env args am db = Inr a \<Longrightarrow> a \<in> set (db_accounts db) \<and> ac_id a = wa_account_id args
   \<and> \<not> ac_is_frozen a \<and> am \<le> get_balance db (ac_id a) (wa_currency args) None
   \<and> check_daily_limit env db (ac_id a) am (wa_currency args) = Inr ()
   \<and> check_monthly_limit env db (ac_id a) am (wa_currency args) = Inr ()
   \<and> check_kyc_limits env db (ac_user_id a) am ''withdraw'' (wa_currency args) None (Some (ac_id a)) = Inr ()
   \<and> (wa_system_initiated args \<or> wa_agent_on_behalf args
      \<or> (\<exists>u. we_current_user env = Some u \<and> (ac_user_id a = Some u \<or> is_admin env)))"
  by (auto simp: withdraw_checks_def check_not_frozen_def check_ownership_def Let_def dest: get_account_Inr
      split: if_splits option.splits)

lemma withdraw_validate_Inr:
  "withdraw_validate env args = Inr am \<Longrightarrow>
   am = quantize (wa_amount args) \<and> 0 < am \<and> am \<le> config_get env ''WALLET_MAX_WITHDRAW'' 10000"
  by (auto simp: withdraw_validate_def validate_currency_def check_transaction_limit_def Let_def)

lemma transfer_pin_quiet: "transfer_pin env args db = Inr db1 \<Longrightarrow> db1 = db\<lparr>db_users := db_users db1\<rparr>"
proof -
  have body: "transfer_pin_body env args db = Inr db1 \<Longrightarrow> db1 = db\<lparr>db_users := db_users db1\<rparr>"
    by (auto simp: transfer_pin_body_def)
  assume pin: "transfer_pin env args db = Inr db1"
  show ?thesis
  proof (cases "ta_system_initiated args")
    case True
    with pin show ?thesis by (simp add: transfer_pin_def)
  next
    case False
    with pin have "transfer_pin_body env args db = Inr db1"
      by (simp add: transfer_pin_def split: sum.splits wallet_error.splits)
    then show ?thesis by (rule body)
  qed
qed

lemma lock_accounts_Inr:
  assumes "lock_accounts args db = Inr (fa, ta)"
  shows "fa \<in> set (db_accounts db)" "ac_id fa = ta_from_account_id args"
    "ta \<in> set (db_accounts db)" "ac_id ta = ta_to_account_id args"
  using assms by (auto simp: lock_accounts_def Let_def min_def max_def dest!: get_account_Inr split: if_splits)

lemma transfer_open_Inr:
  assumes "transfer_open env args am db = Inr (x, db1)"
  obtains fa ta where "transfer_pin env args db = Inr db1" and "lock_accounts args db1 = Inr (fa, ta)"
    and "ta_system_initiated args \<or> check_ownership env fa = Inr ()"
    and "case x of
       Inl r \<Rightarrow> transfer_replay args am fa ta db1 = Inr (Some r)
     | Inr (f, t) \<Rightarrow> f = fa \<and> t = ta \<and> transfer_replay args am fa ta db1 = Inr None
         \<and> check_transaction_limit env am ''transfer'' = Inr () \<and> \<not> ac_is_frozen fa \<and> \<not> ac_is_frozen ta
         \<and> check_kyc_limits env db1 (ac_user_id fa) am ''send'' (ta_currency args) (ac_user_id ta) (Some (ac_id fa)) = Inr ()"
  using assms
  by (auto simp: transfer_open_def check_not_frozen_def split: option.splits if_splits sum.splits)

lemma transfer_legs_committed:
  "transfer_legs_of env fa ta am cur db = (x, Some d) \<Longrightarrow> d = db\<lparr>db_fx_rates := db_fx_rates d\<rparr>"
  by (auto simp: transfer_legs_of_def Let_def split: if_splits sum.splits dest: get_rate_safe_keeps_ledger)

lemma users_quiet: "db1 = db\<lparr>db_users := x\<rparr> \<Longrightarrow> quiet db db1"
  by (simp add: quiet_def)

lemma transfer_open_quiet: "transfer_open env args am db = Inr (x, db1) \<Longrightarrow> quiet db db1"
  by (erule transfer_open_Inr) (auto dest!: transfer_pin_quiet users_quiet)

lemma transfer_Inr:
  assumes "transfer env args db = (Inr r, db')"
  obtains (replayed) am fa ta where "transfer_validate env args = Inr am"
      and "transfer_open env args am db = Inr (Inl r, db')" and "quiet db db'"
      and "lock_accounts args db' = Inr (fa, ta)" and "transfer_replay args am fa ta db' = Inr (Some r)"
    | (moved) am fa ta db1 legs c db2 where "transfer_validate env args = Inr am"
      and "transfer_open env args am db = Inr (Inr (fa, ta), db1)"
      and "transfer_legs_of env fa ta am (ta_currency args) db1 = (Inr legs, c)"
      and "transfer_post env args fa ta am legs db2 = Inr (r, db')" and "quiet db db2"
      and "db2 = (case c of None \<Rightarrow> db1 | Some d \<Rightarrow> d)"
proof -
  from assms obtain am x db1 where val: "transfer_validate env args = Inr am"
    and op: "transfer_open env args am db = Inr (x, db1)"
    by (auto simp: transfer_def split: sum.splits prod.splits)
  note q1 = transfer_open_quiet [OF op]
  show ?thesis
  proof (cases x)
    case (Inl r')
    with assms val op have eq: "r' = r" "db1 = db'" by (auto simp: transfer_def)
    from op show ?thesis
      by (rule transfer_open_Inr) (use Inl eq op val q1 replayed in auto)
  next
    case (Inr p)
    obtain fa ta where p: "p = (fa, ta)" by (cases p)
    obtain y c where lg: "transfer_legs_of env fa ta am (ta_currency args) db1 = (y, c)" by fastforce
    from assms val op Inr p lg obtain legs where y: "y = Inr legs"
      and post: "transfer_post env args fa ta am legs (case c of None \<Rightarrow> db1 | Some d \<Rightarrow> d) = Inr (r, db')"
      by (auto simp: transfer_def split: sum.splits)
    have "quiet db (case c of None \<Rightarrow> db1 | Some d \<Rightarrow> d)"
      using q1 lg by (auto split: option.splits dest!: transfer_legs_committed fx_quiet intro: quiet_trans)
    with val op Inr p lg y post moved show ?thesis by blast
  qed
qed

lemma transfer_Inl:
  assumes "transfer env args db = (Inl e, db')"
  shows "quiet db db'"
proof -
  have "quiet db d" if op: "transfer_open env args am db = Inr (Inr (fa, ta), db1)"
    and lg: "transfer_legs_of env fa ta am cur db1 = (x, Some d)" for am fa ta db1 cur x d
    using transfer_open_quiet [OF op] fx_quiet [OF transfer_legs_committed [OF lg]] by (rule quiet_trans)
  note committed = this
  from assms show ?thesis
    unfolding transfer_def
    by (auto split: sum.splits option.splits prod.splits dest: committed)
qed

subsection \<open>Evaluation of the worked examples\<close>

lemmas demo_defs = demo_db_def demo_account_def demo_opening_def empty_db_def demo_env_def

lemmas limit_eval = check_kyc_limits_def check_transaction_allowed_def get_limits_def operational_per_txn_ceiling_def
  allowed_feature_def TIER_FEATURES_def get_config_def default_system_config_def money_or_0_def
  check_regulatory_cumulative_limits_def reg_check_daily_limit_def reg_check_monthly_limit_def
  reg_daily_volume_def reg_monthly_volume_def window_volume_def eligible_entry_def completed_tx_def
  check_fraud_risk_def check_daily_limit_def check_monthly_limit_def get_daily_volume_def get_monthly_volume_def
  debit_volume_def check_transaction_limit_def config_get_def validate_currency_def currency_supported_def
  get_supported_currencies_def

lemmas op_eval = quantize_def quantize_to_def round_down_def get_account_def account_get_by_id_def
  check_not_frozen_def check_ownership_def tx_get_or_create_def get_balance_def credit_of_def debit_of_def
  post_entries_def update_volume_def modify_account_def record_commission_def metadata_agent_def add_audit_log_def
  update_status_def tx_get_by_id_def make_entry_def valid_entry_def take_ids_def md_or_empty_def str_or_else_def

lemmas deposit_eval = deposit_def atomic_def deposit_validate_def deposit_open_def deposit_fx_def deposit_checks_def
  deposit_post_def resolve_account_def deposit_key_def

lemmas withdraw_eval = withdraw_def atomic_def withdraw_validate_def withdraw_checks_def withdraw_post_def
  withdraw_agent_def

lemmas transfer_eval = transfer_def transfer_validate_def transfer_open_def transfer_pin_def transfer_pin_body_def
  authorise_pin_def verify_transaction_pin_def lock_accounts_def transfer_replay_def lookup_key_def
  get_by_client_request_id_def transfer_legs_of_def transfer_checks_def transfer_post_def transfer_entries_def
  fee_of_def fee_currency_of_def

lemma demo_inv: "wallet_inv demo_db"
  by (simp add: wallet_inv_def demo_defs make_entry_def valid_entry_def)

lemma demo_deposit_ok: "\<exists>r db'. deposit demo_env demo_deposit demo_db = (Inr r, db') \<and> \<not> wr_already_processed r"
  by (simp add: deposit_eval demo_deposit_def demo_defs limit_eval op_eval Let_def)

lemma demo_withdraw_ok: "\<exists>r db'. withdraw demo_env demo_withdraw demo_db = (Inr r, db') \<and> \<not> wr_already_processed r"
  by (simp add: withdraw_eval demo_withdraw_def demo_defs limit_eval op_eval Let_def)

lemma demo_transfer_ok: "\<exists>r db'. transfer demo_env demo_transfer demo_db = (Inr r, db') \<and> \<not> wr_already_processed r"
  by (simp add: transfer_eval demo_transfer_def demo_defs limit_eval op_eval Let_def)

lemma demo_accounts: "db_accounts demo_db = [demo_account 1 1 ''USD'', demo_account 2 2 ''USD'']"
  by (simp add: demo_db_def)

lemma demo_account_simps [simp]:
  "ac_id (demo_account i u c) = i" "ac_currency (demo_account i u c) = c" "ac_user_id (demo_account i u c) = Some u"
  by (simp_all add: demo_account_def)

lemma demo_balance: "get_balance demo_db i c None = (if i = 1 \<and> c = ''USD'' then 100 else 0)"
  by (simp add: get_balance_sum demo_defs entry_effect_make_entry)

subsection \<open>Properties of single operations\<close>

text \<open>
  C7: a successful deposit that is not a replay credits exactly one account, in its own currency, with a positive
  amount (the requested amount in cents when no conversion is needed); the account exists, is not frozen and, unless
  the deposit is system-initiated, belongs to the caller or the caller is an administrator; every other
  balance is unchanged, the returned balance is the new one and the integrity of the tables is kept.
\<close>

theorem deposit_effect:
  assumes "wallet_inv db" and "deposit env args db = (Inr r, db')" and "\<not> wr_already_processed r"
  shows "\<exists>a. a \<in> set (db_accounts db) \<and> resolve_account args db = Inr (ac_id a) \<and> \<not> ac_is_frozen a
    \<and> (da_system_initiated args \<or> (\<exists>u. we_current_user env = Some u \<and> (ac_user_id a = Some u \<or> is_admin env)))
    \<and> wr_currency r = ac_currency a \<and> 0 < wr_amount r
    \<and> (da_currency args = Some (ac_currency a) \<longrightarrow> wr_amount r = quantize (the (da_amount args)))
    \<and> wr_new_balance r = get_balance db (ac_id a) (ac_currency a) None + wr_amount r
    \<and> (\<forall>i c. get_balance db' i c None = get_balance db i c None
          + (if i = ac_id a \<and> c = ac_currency a then wr_amount r else 0))
    \<and> wallet_inv db'"
proof -
  from assms(2) obtain i am cur a am' cur' md db1 where val: "deposit_validate env args db = Inr (i, am, cur)"
    and op: "deposit_open env args i db = Inr a"
    and fx: "deposit_fx env a am cur (da_metadata args) db = (Inr (am', cur', md), db1)"
    and post: "deposit_post env args a am' cur' (deposit_key args) md db1 = Inr (r, db')" and q: "quiet db db1"
    by (rule deposit_Inr)
  from quiet_inv [OF q assms(1)] post show ?thesis
  proof (cases rule: deposit_post_cases)
    case (new k es)
    note open' = deposit_open_Inr [OF op] and val' = deposit_validate_Inr [OF val] and fx' = deposit_fx_Inr [OF fx]
    have am0: "0 < am'" using new(1,2) by (simp add: posted_def)
    have bal: "get_balance db' j c None = get_balance db j c None
        + (if j = ac_id a \<and> c = ac_currency a then wr_amount r else 0)" for j c
      using posted_balance [OF new(2), of j c] new(1,4) fx'
      by (simp add: entry_effect_make_entry quiet_balance [OF q])
    show ?thesis
      by (rule exI [of _ a]) (use open' val' fx' new am0 bal in \<open>auto simp: posted_def\<close>)
  qed (use assms(3) in simp)
qed

theorem deposit_effect_witness:
  "\<exists>r db'. deposit demo_env demo_deposit demo_db = (Inr r, db') \<and> wr_new_balance r = 125
     \<and> get_balance db' 1 ''USD'' None = 125 \<and> get_balance db' 2 ''USD'' None = 0 \<and> wallet_inv db'"
proof -
  obtain r db' where run: "deposit demo_env demo_deposit demo_db = (Inr r, db')" and new: "\<not> wr_already_processed r"
    using demo_deposit_ok by blast
  show ?thesis
    using deposit_effect [OF demo_inv run new] run
    by (auto simp: demo_balance demo_deposit_def resolve_account_def demo_accounts quantize_def
        quantize_to_def round_down_def)
qed

text \<open>
  C6: a successful withdrawal that is not a replay debits exactly one account with the requested amount in cents,
  which was covered by its balance in that currency, so the balance stays non-negative; the account is not frozen, the
  amount is within the per-transaction and daily ceilings, and every other balance is unchanged.
\<close>

theorem withdraw_effect:
  assumes "wallet_inv db" and "withdraw env args db = (Inr r, db')" and "\<not> wr_already_processed r"
  shows "\<exists>a. a \<in> set (db_accounts db) \<and> ac_id a = wa_account_id args \<and> \<not> ac_is_frozen a
    \<and> wr_amount r = quantize (wa_amount args) \<and> 0 < wr_amount r
    \<and> wr_amount r \<le> get_balance db (wa_account_id args) (wa_currency args) None
    \<and> wr_amount r \<le> config_get env ''WALLET_MAX_WITHDRAW'' 10000
    \<and> check_daily_limit env db (ac_id a) (wr_amount r) (wa_currency args) = Inr ()
    \<and> 0 \<le> wr_new_balance r
    \<and> (\<forall>i c. get_balance db' i c None = get_balance db i c None
          - (if i = wa_account_id args \<and> c = wa_currency args then wr_amount r else 0))
    \<and> wallet_inv db'"
proof -
  from assms(2) obtain am a where val: "withdraw_validate env args = Inr am"
    and chk: "withdraw_checks env args am db = Inr a" and post: "withdraw_post env args a am db = Inr (r, db')"
    by (rule withdraw_Inr)
  from assms(1) post show ?thesis
  proof (cases rule: withdraw_post_cases)
    case (new k es)
    note chk' = withdraw_checks_Inr [OF chk] and val' = withdraw_validate_Inr [OF val]
    have bal: "get_balance db' j c None = get_balance db j c None
        - (if j = wa_account_id args \<and> c = wa_currency args then wr_amount r else 0)" for j c
      using posted_balance [OF new(2), of j c] new(1,4) chk' by (simp add: entry_effect_make_entry)
    show ?thesis
      by (rule exI [of _ a]) (use chk' val' new bal in \<open>auto simp: posted_def\<close>)
  qed (use assms(3) in simp)
qed

theorem withdraw_effect_witness:
  "\<exists>r db'. withdraw demo_env demo_withdraw demo_db = (Inr r, db') \<and> wr_amount r = 40
     \<and> get_balance db' 1 ''USD'' None = 60 \<and> get_balance db' 2 ''USD'' None = 0 \<and> wallet_inv db'"
proof -
  obtain r db' where run: "withdraw demo_env demo_withdraw demo_db = (Inr r, db')" and new: "\<not> wr_already_processed r"
    using demo_withdraw_ok by blast
  show ?thesis
    using withdraw_effect [OF demo_inv run new] run
    by (auto simp: demo_balance demo_withdraw_def quantize_def quantize_to_def round_down_def)
qed

lemma transfer_validate_Inr:
  "transfer_validate env args = Inr am \<Longrightarrow>
   am = quantize (ta_amount args) \<and> 0 < am \<and> ta_from_account_id args \<noteq> ta_to_account_id args"
  by (auto simp: transfer_validate_def Let_def)

lemma transfer_legs_same_currency:
  "transfer_legs_of env fa ta am cur db = (Inr legs, c) \<Longrightarrow> ac_currency fa = ac_currency ta \<Longrightarrow>
   tl_debit_amount legs = am \<and> tl_credit_amount legs = am \<and> tl_debit_currency legs = ac_currency fa
   \<and> tl_credit_currency legs = ac_currency fa \<and> c = None"
  by (auto simp: transfer_legs_of_def split: if_splits)

lemma transfer_entries_effect [ledger_simps]:
  "sum_list (map (entry_effect i c) (transfer_entries env args fa ta legs tx n)) =
     (if i = ac_id ta \<and> c = tl_credit_currency legs then tl_credit_amount legs else 0)
     - (if i = ac_id fa \<and> c = tl_debit_currency legs then tl_debit_amount legs else 0)
     - (if i = ac_id fa \<and> c = fee_currency_of args then max 0 (fee_of args) else 0)"
  by (auto simp: transfer_entries_def entry_effect_make_entry)

text \<open>Everything known after a transfer that moved money.\<close>

lemma transfer_moved:
  assumes "wallet_inv db" and "transfer env args db = (Inr r, db')" and "\<not> wr_already_processed r"
  obtains am fa ta legs n db1 where "transfer_validate env args = Inr am"
    and "fa \<in> set (db_accounts db)" "ac_id fa = ta_from_account_id args"
    and "ta \<in> set (db_accounts db)" "ac_id ta = ta_to_account_id args"
    and "\<not> ac_is_frozen fa" "\<not> ac_is_frozen ta"
    and "transfer_pin env args db = Inr db1"
    and "ta_system_initiated args \<or> check_ownership env fa = Inr ()"
    and "\<exists>db2 c. transfer_legs_of env fa ta am (ta_currency args) db2 = (Inr legs, c)"
    and "tl_debit_amount legs + fee_of args \<le> get_balance db (ac_id fa) (tl_debit_currency legs) None"
    and "posted db (ta_client_request_id args) (wr_transaction_id r)
           (transfer_entries env args fa ta legs (wr_transaction_id r) n) db'"
    and "wr_amount r = am"
proof -
  from assms(2) show ?thesis
  proof (cases rule: transfer_Inr)
    case (replayed am fa ta)
    then have "wr_already_processed r" by (auto simp: transfer_replay_def split: option.splits)
    with assms(3) show ?thesis by simp
  next
    case (moved am fa ta db1 legs c db2)
    from moved(2) obtain fa' ta' where pin: "transfer_pin env args db = Inr db1"
      and lock: "lock_accounts args db1 = Inr (fa', ta')"
      and own: "ta_system_initiated args \<or> check_ownership env fa' = Inr ()"
      and ft: "fa = fa'" "ta = ta'" "\<not> ac_is_frozen fa" "\<not> ac_is_frozen ta"
      by (rule transfer_open_Inr) auto
    have acc: "db_accounts db1 = db_accounts db" using transfer_open_quiet [OF moved(2)] by (simp add: quiet_def)
    from quiet_inv [OF moved(5) assms(1)] moved(4) show ?thesis
    proof (cases rule: transfer_post_cases)
      case (new n)
      have "tl_debit_amount legs + fee_of args \<le> get_balance db (ac_id fa) (tl_debit_currency legs) None"
        using new(5) by (simp add: quiet_balance [OF moved(5)])
      then show ?thesis
        by (rule that [of am fa ta db1 legs n, rotated -3])
          (use moved(1,3) new(3) pin own ft lock_accounts_Inr [OF lock] acc quiet_posted [OF moved(5) new(1)]
            in auto)
    qed (use assms(3) in simp)
  qed
qed

text \<open>
  C5: a successful transfer that is not a replay debits the sender and credits the recipient, two different existing
  accounts that are not frozen, and leaves every other balance as it was; the debit and the platform fee together were
  covered by the sender's balance in the debited currency, and between accounts of the same currency both legs
  are the requested amount in cents.
\<close>

theorem transfer_effect:
  assumes "wallet_inv db" and "transfer env args db = (Inr r, db')" and "\<not> wr_already_processed r"
  shows "\<exists>fa ta legs. fa \<in> set (db_accounts db) \<and> ac_id fa = ta_from_account_id args \<and> \<not> ac_is_frozen fa
    \<and> ta \<in> set (db_accounts db) \<and> ac_id ta = ta_to_account_id args \<and> \<not> ac_is_frozen ta
    \<and> ta_from_account_id args \<noteq> ta_to_account_id args
    \<and> wr_amount r = quantize (ta_amount args) \<and> 0 < wr_amount r
    \<and> (ac_currency fa = ac_currency ta \<longrightarrow>
         legs = \<lparr>tl_debit_amount = wr_amount r, tl_debit_currency = ac_currency fa,
                 tl_credit_amount = wr_amount r, tl_credit_currency = ac_currency fa\<rparr>)
    \<and> tl_debit_amount legs + fee_of args \<le> get_balance db (ac_id fa) (tl_debit_currency legs) None
    \<and> (\<forall>i c. get_balance db' i c None = get_balance db i c None
          + (if i = ac_id ta \<and> c = tl_credit_currency legs then tl_credit_amount legs else 0)
          - (if i = ac_id fa \<and> c = tl_debit_currency legs then tl_debit_amount legs else 0)
          - (if i = ac_id fa \<and> c = fee_currency_of args then max 0 (fee_of args) else 0))
    \<and> wallet_inv db'"
  using assms
proof (rule transfer_moved)
  fix am fa ta legs n db1
  assume *: "transfer_validate env args = Inr am" "fa \<in> set (db_accounts db)" "ac_id fa = ta_from_account_id args"
    "ta \<in> set (db_accounts db)" "ac_id ta = ta_to_account_id args" "\<not> ac_is_frozen fa" "\<not> ac_is_frozen ta"
    "tl_debit_amount legs + fee_of args \<le> get_balance db (ac_id fa) (tl_debit_currency legs) None" "wr_amount r = am"
    and legs: "\<exists>db2 c. transfer_legs_of env fa ta am (ta_currency args) db2 = (Inr legs, c)"
    and post: "posted db (ta_client_request_id args) (wr_transaction_id r)
           (transfer_entries env args fa ta legs (wr_transaction_id r) n) db'"
  from legs have same: "ac_currency fa = ac_currency ta \<Longrightarrow>
      legs = \<lparr>tl_debit_amount = wr_amount r, tl_debit_currency = ac_currency fa,
              tl_credit_amount = wr_amount r, tl_credit_currency = ac_currency fa\<rparr>"
    using \<open>wr_amount r = am\<close> by (auto dest!: transfer_legs_same_currency)
  have bal: "get_balance db' i c None = get_balance db i c None
          + (if i = ac_id ta \<and> c = tl_credit_currency legs then tl_credit_amount legs else 0)
          - (if i = ac_id fa \<and> c = tl_debit_currency legs then tl_debit_amount legs else 0)
          - (if i = ac_id fa \<and> c = fee_currency_of args then max 0 (fee_of args) else 0)" for i c
    using posted_balance [OF post, of i c] unfolding transfer_entries_effect by simp
  have "wallet_inv db'" using post by (simp add: posted_def)
  with * same bal transfer_validate_Inr [OF *(1)] show ?thesis
    by (intro exI [of _ fa] exI [of _ ta] exI [of _ legs]) simp
qed

theorem transfer_effect_witness:
  "\<exists>r db'. transfer demo_env demo_transfer demo_db = (Inr r, db')
     \<and> get_balance db' 1 ''USD'' None = 70 \<and> get_balance db' 2 ''USD'' None = 30 \<and> wallet_inv db'"
proof -
  obtain r db' where run: "transfer demo_env demo_transfer demo_db = (Inr r, db')" and new: "\<not> wr_already_processed r"
    using demo_transfer_ok by blast
  show ?thesis
    using transfer_effect [OF demo_inv run new] run
    by (auto simp: demo_balance demo_transfer_def demo_accounts quantize_def quantize_to_def
        round_down_def fee_of_def money_or_0_def)
qed

text \<open>
  Between two accounts of the same currency a transfer without a platform fee conserves money: in every currency the
  balances of the two accounts have the same sum before and after, and with a fee charged in that currency the
  sum goes down by exactly the fee.
\<close>

theorem transfer_conserves:
  assumes "wallet_inv db" and "transfer env args db = (Inr r, db')" and "\<not> wr_already_processed r"
    and "\<And>a b. a \<in> set (db_accounts db) \<Longrightarrow> b \<in> set (db_accounts db) \<Longrightarrow>
           ac_id a = ta_from_account_id args \<Longrightarrow> ac_id b = ta_to_account_id args \<Longrightarrow> ac_currency a = ac_currency b"
  shows "get_balance db' (ta_from_account_id args) c None + get_balance db' (ta_to_account_id args) c None
    = get_balance db (ta_from_account_id args) c None + get_balance db (ta_to_account_id args) c None
      - (if c = fee_currency_of args then max 0 (fee_of args) else 0)"
  using assms(1-3)
proof (rule transfer_moved)
  fix am fa ta legs n db1
  assume *: "transfer_validate env args = Inr am" "fa \<in> set (db_accounts db)" "ac_id fa = ta_from_account_id args"
    "ta \<in> set (db_accounts db)" "ac_id ta = ta_to_account_id args"
    and legs: "\<exists>db2 c. transfer_legs_of env fa ta am (ta_currency args) db2 = (Inr legs, c)"
    and post: "posted db (ta_client_request_id args) (wr_transaction_id r)
           (transfer_entries env args fa ta legs (wr_transaction_id r) n) db'"
  have "ac_currency fa = ac_currency ta" using assms(4) * by blast
  with legs have "tl_debit_amount legs = am" "tl_credit_amount legs = am"
    "tl_debit_currency legs = ac_currency fa" "tl_credit_currency legs = ac_currency fa"
    by (auto dest!: transfer_legs_same_currency)
  with transfer_validate_Inr [OF *(1)] * show ?thesis
    using posted_balance [OF post] by (simp add: transfer_entries_effect)
qed

theorem transfer_conserves_witness:
  "\<exists>r db'. transfer demo_env demo_transfer demo_db = (Inr r, db')
     \<and> get_balance db' 1 ''USD'' None + get_balance db' 2 ''USD'' None = 100"
proof -
  obtain r db' where run: "transfer demo_env demo_transfer demo_db = (Inr r, db')" and new: "\<not> wr_already_processed r"
    using demo_transfer_ok by blast
  have cur: "ac_currency a = ac_currency b"
    if "a \<in> set (db_accounts demo_db)" "b \<in> set (db_accounts demo_db)"
      "ac_id a = ta_from_account_id demo_transfer" "ac_id b = ta_to_account_id demo_transfer" for a b
    using that by (auto simp: demo_accounts)
  have "get_balance db' 1 ''USD'' None + get_balance db' 2 ''USD'' None = 100"
    using transfer_conserves [OF demo_inv run new cur, of "''USD''"]
    by (simp add: demo_balance demo_transfer_def fee_of_def money_or_0_def)
  with run show ?thesis by blast
qed

end
