(* ===== verification/Run_Systems.thy ===== *)
theory Run_Systems
  imports Prelude
begin

section \<open>Runs of a service\<close>

text \<open>
  The interface between the operations of a service and the properties of its runs.  A service is a step relation on its
  tables; its theory shows what one step keeps, and the locales below carry this over to every sequence of steps: an
  invariant, an effect that composes, and a simulation of an abstract specification.
\<close>

locale run_invariant =
  fixes step :: "'s \<Rightarrow> 's \<Rightarrow> bool" and inv :: "'s \<Rightarrow> bool"
  assumes step_keeps: "step s t \<Longrightarrow> inv s \<Longrightarrow> inv t"
begin

lemma run_keeps: "step\<^sup>*\<^sup>* s t \<Longrightarrow> inv s \<Longrightarrow> inv t"
  by (induction rule: rtranclp_induct) (auto intro: step_keeps)

lemma reachable_keeps: "inv s \<Longrightarrow> step\<^sup>*\<^sup>* s t \<Longrightarrow> step\<^sup>*\<^sup>* t u \<Longrightarrow> inv u"
  by (auto intro: run_keeps)

end

text \<open>An effect of a step that also holds of no step at all and of two steps in a row.\<close>

locale run_effect = run_invariant +
  fixes eff :: "'a \<Rightarrow> 'a \<Rightarrow> bool"
  assumes eff_refl: "inv s \<Longrightarrow> eff s s"
    and eff_trans: "eff s t \<Longrightarrow> eff t u \<Longrightarrow> eff s u"
    and step_eff: "step s t \<Longrightarrow> inv s \<Longrightarrow> eff s t"
begin

lemma run_eff: "step\<^sup>*\<^sup>* s t \<Longrightarrow> inv s \<Longrightarrow> eff s t"
proof (induction rule: rtranclp_induct)
  case base
  then show ?case by (rule eff_refl)
next
  case (step t u)
  then have "inv t" by (blast intro: run_keeps)
  with step show ?case by (blast intro: eff_trans step_eff)
qed

end

text \<open>Every step is a sequence of steps of an abstract system, seen through an abstraction function.\<close>

locale simulation = run_invariant +
  fixes astep :: "'b \<Rightarrow> 'b \<Rightarrow> bool" and abst :: "'a \<Rightarrow> 'b"
  assumes step_simulated: "step s t \<Longrightarrow> inv s \<Longrightarrow> astep\<^sup>*\<^sup>* (abst s) (abst t)"

sublocale simulation \<subseteq> sim: run_effect step inv "\<lambda>s t. astep\<^sup>*\<^sup>* (abst s) (abst t)"
  by unfold_locales (auto intro: step_simulated)

context simulation
begin

lemma run_simulated: "step\<^sup>*\<^sup>* s t \<Longrightarrow> inv s \<Longrightarrow> astep\<^sup>*\<^sup>* (abst s) (abst t)"
  by (rule sim.run_eff)

text \<open>An invariant of the abstract system holds along the runs of the service.\<close>

lemma abstract_invariant:
  assumes "run_invariant astep ainv" and "step\<^sup>*\<^sup>* s t" and "inv s" and "ainv (abst s)"
  shows "ainv (abst t)"
  using run_invariant.run_keeps [OF assms(1)] run_simulated [OF assms(2,3)] assms(4) by blast

end

end
