(* ===== verification/Wallet_Runs.thy ===== *)
theory Wallet_Runs
  imports Wallet_Correct Run_Systems
begin

section \<open>Runs of the wallet service\<close>

text \<open>
  Sequences of operations of \<open>WalletService\<close> and of the account repository as a step relation on the
  database.  The integrity of the tables and the completion of a transaction are invariant; a completed
  idempotency key never moves money again.
\<close>

text \<open>One call of an operation, whatever its outcome, is a step to the committed database.\<close>

inductive wallet_step :: "wallet_db \<Rightarrow> wallet_db \<Rightarrow> bool" where
  Deposit: "wallet_step db (snd (deposit env dargs db))"
| Withdraw: "wallet_step db (snd (withdraw env wargs db))"
| Transfer: "wallet_step db (snd (transfer env targs db))"
| Request: "wallet_step db (snd (admin_request_adjustment env key acc am cur ty reason db))"
| Approve: "wallet_step db (snd (approve_adjustment env key rid uid False db))"
| Reject: "wallet_step db (snd (reject_adjustment env rid uid reason db))"
| Approve_tx: "wallet_step db (snd (approve_transaction i db))"
| Reject_tx: "wallet_step db (snd (reject_transaction i reason db))"
| Freeze: "freeze_account now acc reason db = Inr (ok, db') \<Longrightarrow> wallet_step db db'"
| Unfreeze: "unfreeze_account acc db = Inr (ok, db') \<Longrightarrow> wallet_step db db'"
| Reset_daily: "reset_daily_volume now acc db = Inr (ok, db') \<Longrightarrow> wallet_step db db'"
| Reset_monthly: "reset_monthly_volume now acc db = Inr (ok, db') \<Longrightarrow> wallet_step db db'"

inductive_cases wallet_stepE: "wallet_step db db'"

text \<open>The entries of a transaction, and the transactions that are complete.\<close>

definition entries_of :: "wallet_db \<Rightarrow> uuid \<Rightarrow> ledger_entry list" where
  "entries_of db i = filter (\<lambda>e. le_transaction_id e = i) (db_ledger db)"

definition completed_row :: "wallet_db \<Rightarrow> string \<Rightarrow> transaction \<Rightarrow> bool" where
  "completed_row db k t \<longleftrightarrow> find_tx db k = Some t \<and> tx_status t = COMPLETED"

definition completed_key :: "wallet_db \<Rightarrow> string \<Rightarrow> uuid \<Rightarrow> bool" where
  "completed_key db k i \<longleftrightarrow>
     (case find_tx db k of None \<Rightarrow> False | Some t \<Rightarrow> tx_status t = COMPLETED \<and> tx_id t = i)"

text \<open>What any step does to the money tables, as seen from a completed key.\<close>

definition step_ok :: "wallet_db \<Rightarrow> wallet_db \<Rightarrow> bool" where
  "step_ok db db' \<longleftrightarrow>
     wallet_inv db'
     \<and> (\<forall>k t. completed_row db k t \<longrightarrow> completed_row db' k t \<and> entries_of db' (tx_id t) = entries_of db (tx_id t))"

text \<open>The three money operations and their idempotency keys.\<close>

datatype money_call = Call_deposit deposit_args | Call_withdraw withdraw_args | Call_transfer transfer_args

fun money_exec :: "wallet_env \<Rightarrow> money_call \<Rightarrow> wallet_db \<Rightarrow> (wallet_error + wallet_result) \<times> wallet_db" where
  "money_exec env (Call_deposit a) = deposit env a"
| "money_exec env (Call_withdraw a) = withdraw env a"
| "money_exec env (Call_transfer a) = transfer env a"

fun call_key :: "money_call \<Rightarrow> string option" where
  "call_key (Call_deposit a) = deposit_key a"
| "call_key (Call_withdraw a) = wa_client_request_id a"
| "call_key (Call_transfer a) = ta_client_request_id a"

subsection \<open>One step\<close>

lemma step_ok_refl: "wallet_inv db \<Longrightarrow> step_ok db db"
  by (simp add: step_ok_def)

lemma step_ok_trans: "step_ok db db1 \<Longrightarrow> step_ok db1 db2 \<Longrightarrow> step_ok db db2"
  unfolding step_ok_def by metis

lemma quiet_step_ok: "wallet_inv db \<Longrightarrow> quiet db db' \<Longrightarrow> step_ok db db'"
  by (auto simp: step_ok_def completed_row_def quiet_find_tx entries_of_def dest: quiet_inv)
    (simp add: quiet_def)

lemma same_id_same_key:
  assumes "wallet_inv db" and "find_tx db k = Some t" and "find_tx db k' = Some t'" and "tx_id t = tx_id t'"
  shows "k = k'"
proof -
  have "t \<in> set (db_transactions db)" "tx_client_request_id t = k" "t' \<in> set (db_transactions db)"
    "tx_client_request_id t' = k'"
    using assms(2,3) by (auto simp: find_tx_def dest: find_Some_key)
  moreover have "inj_on tx_id (set (db_transactions db))"
    using assms(1) by (simp add: wallet_inv_def distinct_map)
  ultimately show ?thesis using assms(4) by (auto dest: inj_onD)
qed

lemma posted_step_ok:
  assumes "wallet_inv db" and "posted db key i es db'" and "\<And>e. e \<in> set es \<Longrightarrow> le_transaction_id e = i"
  shows "step_ok db db'"
proof -
  from assms(2) obtain k t where key: "key = Some k" and inv': "wallet_inv db'"
    and led: "db_ledger db' = db_ledger db @ es" and t: "find_tx db' k = Some t" "tx_id t = i"
    and was: "case find_tx db k of None \<Rightarrow> True | Some t \<Rightarrow> tx_status t \<noteq> COMPLETED"
    and others: "\<And>k'. k' \<noteq> k \<Longrightarrow> find_tx db' k' = find_tx db k'"
    by (auto simp: posted_def split: option.splits)
  have "completed_row db' k' u \<and> entries_of db' (tx_id u) = entries_of db (tx_id u)" if ck: "completed_row db k' u" for k' u
  proof -
    from ck was have "k' \<noteq> k" by (auto simp: completed_row_def split: option.splits)
    then have f: "find_tx db' k' = find_tx db k'" by (rule others)
    with ck have u: "find_tx db' k' = Some u" by (simp add: completed_row_def)
    have "tx_id u \<noteq> i" using same_id_same_key [OF inv' u t(1)] t \<open>k' \<noteq> k\<close> by auto
    then have "filter (\<lambda>e. le_transaction_id e = tx_id u) es = []"
      using assms(3) by (auto simp: filter_empty_conv)
    with ck f led show ?thesis by (simp add: completed_row_def entries_of_def)
  qed
  with inv' show ?thesis by (simp add: step_ok_def)
qed

lemma deposit_step_ok:
  assumes "wallet_inv db"
  shows "step_ok db (snd (deposit env args db))"
proof (cases "deposit env args db")
  case (Pair x db')
  show ?thesis
  proof (cases x)
    case (Inl e)
    with Pair have "quiet db db'" by (metis deposit_Inl fx_quiet)
    with Pair assms show ?thesis by (simp add: quiet_step_ok)
  next
    case (Inr r)
    from Pair Inr have "deposit env args db = (Inr r, db')" by simp
    then show ?thesis
    proof (rule deposit_Inr)
      fix i am cur a am' cur' md db1
      assume post: "deposit_post env args a am' cur' (deposit_key args) md db1 = Inr (r, db')" and q: "quiet db db1"
      from quiet_inv [OF q assms] post show ?thesis
      proof (cases rule: deposit_post_cases)
        case replayed
        with q Pair assms show ?thesis by (simp add: quiet_step_ok)
      next
        case (new n es)
        with Pair show ?thesis
          using posted_step_ok [OF assms quiet_posted [OF q new(2)]] by simp
      qed
    qed
  qed
qed

lemma withdraw_step_ok:
  assumes "wallet_inv db"
  shows "step_ok db (snd (withdraw env args db))"
proof (cases "withdraw env args db")
  case (Pair x db')
  show ?thesis
  proof (cases x)
    case (Inl e)
    with Pair assms show ?thesis by (auto dest: withdraw_Inl intro: step_ok_refl)
  next
    case (Inr r)
    from Pair Inr have "withdraw env args db = (Inr r, db')" by simp
    then show ?thesis
    proof (rule withdraw_Inr)
      fix am a
      assume post: "withdraw_post env args a am db = Inr (r, db')"
      from assms post show ?thesis
      proof (cases rule: withdraw_post_cases)
        case replayed
        with Pair assms show ?thesis by (simp add: step_ok_refl)
      next
        case (new n es)
        with Pair show ?thesis using posted_step_ok [OF assms new(2)] by simp
      qed
    qed
  qed
qed

lemma transfer_entries_tx: "e \<in> set (transfer_entries env args fa ta legs i n) \<Longrightarrow> le_transaction_id e = i"
  by (auto simp: transfer_entries_def split: if_splits)

lemma transfer_step_ok:
  assumes "wallet_inv db"
  shows "step_ok db (snd (transfer env args db))"
proof (cases "transfer env args db")
  case (Pair x db')
  show ?thesis
  proof (cases x)
    case (Inl e)
    with Pair have "quiet db db'" by (auto intro: transfer_Inl)
    with Pair assms show ?thesis by (simp add: quiet_step_ok)
  next
    case (Inr r)
    from Pair Inr have "transfer env args db = (Inr r, db')" by simp
    then show ?thesis
    proof (cases rule: transfer_Inr)
      case replayed
      with Pair assms show ?thesis by (simp add: quiet_step_ok)
    next
      case (moved am fa ta db1 legs c db2)
      from quiet_inv [OF moved(5) assms] moved(4) show ?thesis
      proof (cases rule: transfer_post_cases)
        case replayed
        with moved(5) Pair assms show ?thesis by (simp add: quiet_step_ok)
      next
        case (new n)
        with Pair show ?thesis
          using posted_step_ok [OF assms quiet_posted [OF moved(5) new(1)]] transfer_entries_tx by simp
      qed
    qed
  qed
qed

lemma frame_step_ok:
  assumes "wallet_inv db" and "db_transactions db' = db_transactions db" and "db_ledger db' = db_ledger db"
    and "map ac_id (db_accounts db') = map ac_id (db_accounts db)" and "db_next_id db \<le> db_next_id db'"
  shows "step_ok db db'"
  using wallet_inv_cong [OF assms] assms(2,3)
  by (simp add: step_ok_def completed_row_def find_tx_def entries_of_def)

lemma modify_account_step_ok:
  assumes "wallet_inv db" and "modify_account f i db = Inr (ok, db')" and "\<And>a. ac_id (f a) = ac_id a"
  shows "step_ok db db'"
  using modify_account_Inr [OF assms(2,3)] assms(1) by (auto intro: frame_step_ok)

lemma set_adjustment_step_ok: "wallet_inv db \<Longrightarrow> step_ok db (set_adjustment rid f db)"
  by (rule frame_step_ok) (simp_all add: set_adjustment_def)

lemma admin_deposit_step_ok: "wallet_inv db \<Longrightarrow> step_ok db (snd (admin_deposit env key acc am cur reason db))"
  by (simp add: admin_deposit_def step_ok_refl deposit_step_ok)

lemma admin_withdraw_step_ok: "wallet_inv db \<Longrightarrow> step_ok db (snd (admin_withdraw env key acc am cur reason db))"
  by (simp add: admin_withdraw_def step_ok_refl withdraw_step_ok)

lemma approve_adjustment_step_ok:
  assumes "wallet_inv db"
  shows "step_ok db (snd (approve_adjustment env key rid uid aa db))"
proof -
  have fin: "step_ok db (set_adjustment rid f db1)" if "step_ok db db1" for f db1
    using that set_adjustment_step_ok [of db1 rid f] step_ok_trans unfolding step_ok_def by blast
  have "step_ok db db1" if "admin_deposit env key acc am cur reason db = (x, db1)" for acc am cur reason x db1
    using admin_deposit_step_ok [OF assms, of env key acc am cur reason] that by simp
  moreover have "step_ok db db1" if "admin_withdraw env key acc am cur reason db = (x, db1)" for acc am cur reason x db1
    using admin_withdraw_step_ok [OF assms, of env key acc am cur reason] that by simp
  ultimately show ?thesis
    using step_ok_refl [OF assms]
    by (auto simp: approve_adjustment_def Let_def intro: fin split: option.splits prod.splits sum.splits)
qed

lemma request_adjustment_step_ok:
  assumes "wallet_inv db"
  shows "step_ok db (snd (admin_request_adjustment env key acc am cur ty reason db))"
proof -
  have req: "step_ok db (take_ids 1 (db\<lparr>db_adjustments := xs\<rparr>))" for xs
    by (rule frame_step_ok [OF assms]) simp_all
  have app: "step_ok db db2"
    if "approve_adjustment env key rid uid True (take_ids 1 (db\<lparr>db_adjustments := xs\<rparr>)) = (x, db2)" for rid uid xs x db2
  proof -
    have "wallet_inv (take_ids 1 (db\<lparr>db_adjustments := xs\<rparr>))" using req [of xs] by (simp add: step_ok_def)
    from approve_adjustment_step_ok [OF this, of env key rid uid True] that
    show ?thesis by (intro step_ok_trans [OF req [of xs]]) simp
  qed
  show ?thesis
    using step_ok_refl [OF assms] req
    by (auto simp: admin_request_adjustment_def Let_def split: sum.splits prod.splits dest: app [unfolded One_nat_def])
qed

lemma reject_adjustment_step_ok: "wallet_inv db \<Longrightarrow> step_ok db (snd (reject_adjustment env rid uid reason db))"
  by (auto simp: reject_adjustment_def step_ok_refl set_adjustment_step_ok split: option.splits)

text \<open>Changing a transaction that is pending leaves the completed ones alone.\<close>

lemma pending_update_step_ok:
  assumes inv: "wallet_inv db" and pend: "list_ex (\<lambda>t. tx_id t = i \<and> tx_status t = PENDING) (db_transactions db)"
    and f: "\<And>t. tx_id (f t) = tx_id t" "\<And>t. tx_client_request_id (f t) = tx_client_request_id t"
      "\<And>t. tx_amount (f t) = tx_amount t"
  shows "step_ok db (db\<lparr>db_transactions := update_rows (\<lambda>t. tx_id t = i) f (db_transactions db)\<rparr>)" (is "step_ok db ?db'")
proof -
  from pend obtain p where p: "p \<in> set (db_transactions db)" "tx_id p = i" "tx_status p = PENDING"
    by (auto simp: list_ex_iff)
  have "completed_row ?db' k t" if ck: "completed_row db k t" for k t
  proof -
    from ck have t: "find_tx db k = Some t" "tx_status t = COMPLETED" by (simp_all add: completed_row_def)
    then have "t \<in> set (db_transactions db)" by (auto simp: find_tx_def dest: find_Some_key)
    moreover have "inj_on tx_id (set (db_transactions db))"
      using inv by (simp add: wallet_inv_def distinct_map)
    ultimately have ne: "tx_id t \<noteq> i" using p t(2) inj_onD [of tx_id "set (db_transactions db)" t p] by auto
    have "find_tx ?db' k = map_option (\<lambda>t. if tx_id t = i then f t else t) (find_tx db k)"
      using find_update_rows [of "\<lambda>t. tx_client_request_id t = k" f "\<lambda>t. tx_id t = i" "db_transactions db"]
      by (simp add: find_tx_def f(2))
    with t ne show ?thesis by (simp add: completed_row_def)
  qed
  moreover have "wallet_inv ?db'" by (rule wallet_inv_update_tx [OF inv]) (simp_all add: f)
  ultimately show ?thesis by (simp add: step_ok_def entries_of_def)
qed

lemma approve_transaction_step_ok: "wallet_inv db \<Longrightarrow> step_ok db (snd (approve_transaction i db))"
  by (simp add: approve_transaction_def step_ok_refl pending_update_step_ok)

lemma reject_transaction_step_ok: "wallet_inv db \<Longrightarrow> step_ok db (snd (reject_transaction i reason db))"
  by (simp add: reject_transaction_def step_ok_refl pending_update_step_ok)

lemmas volume_ops = freeze_account_def unfreeze_account_def reset_daily_volume_def reset_monthly_volume_def

lemma wallet_step_ok: "wallet_step db db' \<Longrightarrow> wallet_inv db \<Longrightarrow> step_ok db db'"
  by (cases rule: wallet_step.cases)
    (auto simp: volume_ops intro: deposit_step_ok withdraw_step_ok transfer_step_ok request_adjustment_step_ok
      approve_adjustment_step_ok reject_adjustment_step_ok approve_transaction_step_ok reject_transaction_step_ok
      modify_account_step_ok)

interpretation wallet: run_effect wallet_step wallet_inv step_ok
proof
  show "wallet_inv db'" if "wallet_step db db'" "wallet_inv db" for db db'
    using wallet_step_ok [OF that] by (simp add: step_ok_def)
qed (auto intro: step_ok_refl step_ok_trans wallet_step_ok)

subsection \<open>Ordinary steps\<close>

definition solvent :: "wallet_db \<Rightarrow> bool" where
  "solvent db \<longleftrightarrow> (\<forall>i c. 0 \<le> get_balance db i c None)"

text \<open>The platform fee of a transfer is not negative and, if there is one, in the currency of the sender's account.\<close>

definition fee_in_sender_currency :: "transfer_args \<Rightarrow> wallet_db \<Rightarrow> bool" where
  "fee_in_sender_currency args db \<longleftrightarrow>
     0 \<le> fee_of args
     \<and> (fee_of args = 0 \<or> list_all (\<lambda>a. ac_id a = ta_from_account_id args \<longrightarrow> ac_currency a = fee_currency_of args)
                            (db_accounts db))"

text \<open>The steps of \<open>wallet_step\<close>, transfers restricted to such fees.\<close>

inductive ordinary_step :: "wallet_db \<Rightarrow> wallet_db \<Rightarrow> bool" where
  Transfer: "fee_in_sender_currency args db \<Longrightarrow> ordinary_step db (snd (transfer env args db))"
| Deposit: "ordinary_step db (snd (deposit env dargs db))"
| Withdraw: "ordinary_step db (snd (withdraw env wargs db))"
| Request: "ordinary_step db (snd (admin_request_adjustment env key acc am cur ty reason db))"
| Approve: "ordinary_step db (snd (approve_adjustment env key rid uid False db))"
| Reject: "ordinary_step db (snd (reject_adjustment env rid uid reason db))"

inductive_cases ordinary_stepE: "ordinary_step db db'"

lemma ordinary_is_step: "ordinary_step db db' \<Longrightarrow> wallet_step db db'"
  by (cases rule: ordinary_step.cases) (auto intro: wallet_step.intros)

lemma transfer_debit_currency:
  "transfer_legs_of env fa ta am cur db = (Inr legs, c) \<Longrightarrow> tl_debit_currency legs = ac_currency fa"
  by (auto simp: transfer_legs_of_def Let_def split: if_splits sum.splits)

text \<open>A transfer that raises, or that replays, moves nothing.\<close>

lemma transfer_idle:
  assumes "wallet_inv db" and "transfer env args db = (x, db')" and "\<nexists>r. x = Inr r \<and> \<not> wr_already_processed r"
  shows "quiet db db'"
proof (cases x)
  case (Inl e)
  with assms(2) show ?thesis by (auto intro: transfer_Inl)
next
  case (Inr r)
  with assms have "transfer env args db = (Inr r, db')" "wr_already_processed r" by auto
  from this(1) show ?thesis
  proof (cases rule: transfer_Inr)
    case (moved am fa ta db1 legs c db2)
    from quiet_inv [OF moved(5) assms(1)] moved(4) show ?thesis
      by (cases rule: transfer_post_cases) (use moved(5) \<open>wr_already_processed r\<close> in auto)
  qed
qed

subsection \<open>Properties of runs\<close>

text \<open>
  C1: the integrity of the wallet tables is an invariant of every run: idempotency keys, transaction keys and account
  keys stay unique, amounts stay positive, and every ledger entry belongs to a transaction.  The row of a transaction
  that is complete never changes again, and no later step adds a ledger entry to it: each idempotency key moves
  money at most once.
\<close>

theorem wallet_integrity:
  assumes "wallet_step\<^sup>*\<^sup>* db db'" and "wallet_inv db"
  shows "wallet_inv db'
    \<and> (\<forall>k t. completed_row db k t \<longrightarrow> completed_row db' k t \<and> entries_of db' (tx_id t) = entries_of db (tx_id t))"
  using wallet.run_eff [OF assms] by (simp add: step_ok_def)

theorem wallet_integrity_witness:
  "\<exists>db'. wallet_step\<^sup>*\<^sup>* demo_db db' \<and> db_ledger db' \<noteq> db_ledger demo_db \<and> wallet_inv db'
     \<and> entries_of db' 10 = entries_of demo_db 10"
proof -
  obtain r db' where run: "deposit demo_env demo_deposit demo_db = (Inr r, db')" and "db_ledger db' \<noteq> db_ledger demo_db"
    by (simp add: deposit_eval demo_deposit_def demo_defs limit_eval op_eval Let_def)
  have steps: "wallet_step\<^sup>*\<^sup>* demo_db db'"
    using wallet_step.Deposit [of demo_db demo_env demo_deposit] run by (auto intro: r_into_rtranclp)
  have "completed_row demo_db ''opening'' demo_opening" "tx_id demo_opening = 10"
    by (simp_all add: completed_row_def find_tx_def demo_defs)
  with wallet_integrity [OF steps demo_inv] steps \<open>db_ledger db' \<noteq> _\<close> show ?thesis by metis
qed

subsection \<open>Replays\<close>

lemma posted_not_completed: "posted db (Some k) i es db' \<Longrightarrow> \<not> completed_key db k j"
  by (auto simp: posted_def completed_key_def split: option.splits)

lemma transfer_replay_Some:
  assumes "wallet_inv db" and "transfer_replay args am fa ta db = Inr (Some r)" and "ta_client_request_id args = Some k"
  shows "\<exists>t. find_tx db k = Some t \<and> transfer_terms_match args am fa ta t \<and> tx_status t = COMPLETED
    \<and> wr_already_processed r \<and> wr_transaction_id r = tx_id t"
proof -
  have "get_by_client_request_id db k = Inr (find_tx db k)"
    using assms(1) by (simp add: wallet_inv_def get_by_client_request_id_def find_tx_def scalar_one_or_none_key)
  with assms(2,3) show ?thesis
    by (auto simp: transfer_replay_def lookup_key_def split: option.splits)
qed

lemma transfer_replay_None:
  assumes "wallet_inv db" and "transfer_replay args am fa ta db = Inr None" and "ta_client_request_id args = Some k"
  shows "find_tx db k = None"
proof -
  have "get_by_client_request_id db k = Inr (find_tx db k)"
    using assms(1) by (simp add: wallet_inv_def get_by_client_request_id_def find_tx_def scalar_one_or_none_key)
  with assms(2,3) show ?thesis
    by (auto simp: transfer_replay_def lookup_key_def split: option.splits)
qed

lemma deposit_completed_key:
  assumes "wallet_inv db" and "completed_key db k i" and "deposit_key args = Some k" and "deposit env args db = (Inr r, db')"
  shows "wr_already_processed r \<and> wr_transaction_id r = i \<and> quiet db db'"
  using assms(4)
proof (rule deposit_Inr)
  fix j am cur a am' cur' md db1
  assume post: "deposit_post env args a am' cur' (deposit_key args) md db1 = Inr (r, db')" and q: "quiet db db1"
  from quiet_inv [OF q assms(1)] post show ?thesis
  proof (cases rule: deposit_post_cases)
    case replayed
    with q assms(2,3) quiet_find_tx [OF q] show ?thesis by (simp add: completed_key_def)
  next
    case (new n es)
    from quiet_posted [OF q new(2)] have "posted db (Some k) (wr_transaction_id r) es db'" by (simp add: assms(3))
    from posted_not_completed [OF this] assms(2) show ?thesis by blast
  qed
qed

lemma withdraw_completed_key:
  assumes "wallet_inv db" and "completed_key db k i" and "wa_client_request_id args = Some k" and "withdraw env args db = (Inr r, db')"
  shows "wr_already_processed r \<and> wr_transaction_id r = i \<and> quiet db db'"
  using assms(4)
proof (rule withdraw_Inr)
  fix am a
  assume post: "withdraw_post env args a am db = Inr (r, db')"
  from assms(1) post show ?thesis
  proof (cases rule: withdraw_post_cases)
    case replayed
    with assms(2,3) show ?thesis by (simp add: completed_key_def)
  next
    case (new n es)
    then have "posted db (Some k) (wr_transaction_id r) es db'" by (simp add: assms(3))
    from posted_not_completed [OF this] assms(2) show ?thesis by blast
  qed
qed

lemma transfer_completed_key:
  assumes "wallet_inv db" and "completed_key db k i" and "ta_client_request_id args = Some k" and "transfer env args db = (Inr r, db')"
  shows "wr_already_processed r \<and> wr_transaction_id r = i \<and> quiet db db'"
  using assms(4)
proof (cases rule: transfer_Inr)
  case (replayed am fa ta)
  from transfer_replay_Some [OF quiet_inv [OF replayed(3) assms(1)] replayed(5), of k] assms(2,3)
  show ?thesis using replayed(3) quiet_find_tx [OF replayed(3)]
    by (auto simp: completed_key_def split: option.splits)
next
  case (moved am fa ta db1 legs x db2)
  from moved(2) have "transfer_replay args am fa ta db1 = Inr None"
    by (rule transfer_open_Inr) simp
  moreover have q1: "quiet db db1" by (rule transfer_open_quiet [OF moved(2)])
  ultimately have "find_tx db k = None"
    using transfer_replay_None [OF quiet_inv [OF q1 assms(1)]] assms(3) quiet_find_tx [OF q1] by simp
  with assms(2) show ?thesis by (simp add: completed_key_def)
qed

lemma completed_key_replay:
  assumes "wallet_inv db" and "completed_key db k i" and "call_key c = Some k"
    and "money_exec env c db = (Inr r, db')"
  shows "wr_already_processed r \<and> wr_transaction_id r = i \<and> quiet db db'"
  using assms deposit_completed_key withdraw_completed_key transfer_completed_key by (cases c) simp_all

text \<open>A money operation that raises has at most fetched an exchange rate or recorded an authorisation.\<close>

lemma failure_quiet: "money_exec env c db = (Inl e, db') \<Longrightarrow> quiet db db'"
  by (cases c) (auto dest: deposit_Inl withdraw_Inl transfer_Inl intro: fx_quiet)

text \<open>
  C4: a replay is harmless.  Whatever money operation is called with an idempotency key whose transaction is complete, and
  whether it returns or raises, no account, ledger entry, transaction, audit row, commission, adjustment or key changes;
  and if it returns, it reports the key as already processed with the transaction that owns it.  It may raise: the checks
  of balances and limits come before the key is looked up, so a withdrawal whose account no longer covers it is refused.
\<close>

theorem replay_is_harmless:
  assumes "wallet_inv db" and "completed_key db k i" and "call_key c = Some k" and "money_exec env c db = (res, db')"
  shows "quiet db db' \<and> (case res of Inl e \<Rightarrow> True | Inr r \<Rightarrow> wr_already_processed r \<and> wr_transaction_id r = i)"
proof (cases res)
  case (Inl e)
  with failure_quiet assms(4) show ?thesis by auto
next
  case (Inr r)
  with completed_key_replay [OF assms(1-3)] assms(4) show ?thesis by simp
qed

theorem replay_is_harmless_witness:
  "\<exists>r db'. money_exec demo_env (Call_deposit (demo_deposit\<lparr>da_client_request_id := Some ''opening''\<rparr>)) demo_db = (Inr r, db')
     \<and> wr_transaction_id r = 10 \<and> db_ledger db' = db_ledger demo_db"
proof -
  let ?c = "Call_deposit (demo_deposit\<lparr>da_client_request_id := Some ''opening''\<rparr>)"
  obtain r db' where run: "money_exec demo_env ?c demo_db = (Inr r, db')"
    by (simp add: deposit_eval demo_deposit_def demo_defs limit_eval op_eval Let_def get_by_client_request_id_def)
  have "completed_key demo_db ''opening'' 10" by (simp add: completed_key_def find_tx_def demo_defs)
  moreover have "call_key ?c = Some ''opening''" by (simp add: deposit_key_def str_or_else_def)
  ultimately have "wr_transaction_id r = 10" "quiet demo_db db'"
    using replay_is_harmless [OF demo_inv _ _ run] by simp_all
  with run show ?thesis unfolding quiet_def by blast
qed

text \<open>
  An idempotency key cannot be reused for a different transfer: if a transfer returns although its key already had
  a transaction, that transaction was a completed transfer of the same amount in cents and the same currency,
  between the same users and for the same marketplace references.
\<close>

theorem transfer_key_reuse:
  assumes "wallet_inv db" and "transfer env args db = (Inr r, db')"
    and "ta_client_request_id args = Some k" and "find_tx db k = Some t"
  shows "\<exists>fa ta. ac_id fa = ta_from_account_id args \<and> ac_id ta = ta_to_account_id args
    \<and> transfer_terms_match args (quantize (ta_amount args)) fa ta t
    \<and> tx_status t = COMPLETED \<and> wr_transaction_id r = tx_id t"
  using assms(2)
proof (cases rule: transfer_Inr)
  case (replayed am fa ta)
  from transfer_replay_Some [OF quiet_inv [OF replayed(3) assms(1)] replayed(5) assms(3)]
    lock_accounts_Inr [OF replayed(4)] transfer_validate_Inr [OF replayed(1)] assms(4) quiet_find_tx [OF replayed(3)]
  show ?thesis by auto
next
  case (moved am fa ta db1 legs x db2)
  from moved(2) have "transfer_replay args am fa ta db1 = Inr None"
    by (rule transfer_open_Inr) simp
  moreover have q1: "quiet db db1" by (rule transfer_open_quiet [OF moved(2)])
  ultimately have "find_tx db k = None"
    using transfer_replay_None [OF quiet_inv [OF q1 assms(1)] _ assms(3)] quiet_find_tx [OF q1] by simp
  with assms(4) show ?thesis by simp
qed

theorem transfer_key_reuse_witness:
  "\<exists>db t r db'. transfer demo_env demo_transfer db = (Inr r, db') \<and> find_tx db ''tr-1'' = Some t
     \<and> wr_transaction_id r = tx_id t \<and> tx_type t = TRANSFER"
proof -
  let ?t = "\<lparr>tx_id = 30, tx_client_request_id = ''tr-1'', tx_type = TRANSFER, tx_status = COMPLETED, tx_amount = 30,
    tx_currency = ''USD'', tx_user_id = Some 1, tx_recipient_user_id = Some 2, tx_metadata = Map.empty,
    tx_external_reference = None, tx_created_at = 0, tx_completed_at = Some 0,
    tx_failed_at = None, tx_failure_reason = None\<rparr>"
  let ?db = "demo_db\<lparr>db_transactions := db_transactions demo_db @ [?t], db_next_id := 31\<rparr>"
  have inv: "wallet_inv ?db" using demo_inv by (auto simp: wallet_inv_def demo_defs)
  obtain r db' where run: "transfer demo_env demo_transfer ?db = (Inr r, db')"
    by (simp add: transfer_eval demo_transfer_def demo_defs limit_eval op_eval Let_def
        transfer_terms_match_def marketplace_keys_def md_get_def md_or_empty_def)
  have key: "find_tx ?db ''tr-1'' = Some ?t" by (simp add: find_tx_def demo_defs)
  have "wr_transaction_id r = 30"
    using transfer_key_reuse [OF inv run _ key] by (auto simp: demo_transfer_def)
  with run key show ?thesis by force
qed

end
