(* ===== verification/Wallet_Errors.thy ===== *)
theory Wallet_Errors
  imports Wallet_Runs
begin

section \<open>Authorisation, ceilings and failures of the wallet service\<close>

text \<open>
  Who may move money with \<open>WalletService\<close>, that an adjustment is decided once, which volume ceilings a withdrawal
  respects, and the places where the service does not deliver what it promises: the PIN lockout,
  conversions inside a transaction, fees in a second currency, manual approval of pending transactions and adjustments
  that fail after they were approved.
\<close>

subsection \<open>Authorisation of transfers\<close>

lemma authorise_pin_Inr:
  assumes "authorise_pin env pin u = Inr u'"
  shows "\<exists>h p. pu_pin_hash u = Some h \<and> h \<noteq> [] \<and> pin = Some p \<and> p \<noteq> [] \<and> we_check_hash env h p
    \<and> (\<forall>t. pu_locked_until u = Some t \<longrightarrow> t \<le> we_now env)
    \<and> u' = u\<lparr>pu_failed_attempts := 0, pu_locked_until := None\<rparr>"
  using assms
  by (cases "pu_pin_hash u"; cases pin)
    (auto simp: authorise_pin_def verify_transaction_pin_def Let_def not_less split: if_splits option.splits)

lemma transfer_pin_Inr:
  assumes "transfer_pin env args db = Inr db1"
  obtains "ta_system_initiated args" and "db1 = db"
  | a u u' where "\<not> ta_system_initiated args" and "a \<in> set (db_accounts db)" and "ac_id a = ta_from_account_id args"
    and "check_ownership env a = Inr ()" and "u \<in> set (db_users db)" and "Some (pu_id u) = ac_user_id a"
    and "authorise_pin env (ta_pin args) u = Inr u'"
    and "db1 = db\<lparr>db_users := update_rows (\<lambda>v. pu_id v = pu_id u) (\<lambda>_. u') (db_users db)\<rparr>"
proof (cases "ta_system_initiated args")
  case True
  with assms that(1) show thesis by (simp add: transfer_pin_def)
next
  case False
  with assms have body: "transfer_pin_body env args db = Inr db1"
    by (simp add: transfer_pin_def split: sum.splits wallet_error.splits)
  have one: "u \<in> set (db_users db) \<and> Some (pu_id u) = ac_user_id a"
    if "scalar_one_or_none (filter (\<lambda>u. Some (pu_id u) = ac_user_id a) (db_users db)) = Inr (Some u)" for u a
  proof -
    from that have "filter (\<lambda>u. Some (pu_id u) = ac_user_id a) (db_users db) = [u]"
      by (cases "filter (\<lambda>u. Some (pu_id u) = ac_user_id a) (db_users db)" rule: scalar_one_or_none.cases) auto
    then have "u \<in> set (filter (\<lambda>u. Some (pu_id u) = ac_user_id a) (db_users db))" by simp
    then show ?thesis by simp
  qed
  from body show thesis
    by (auto simp: transfer_pin_body_def split: option.splits dest!: get_account_Inr one intro: that(2) [OF False])
qed

text \<open>
  C8: a transfer that is not system-initiated only returns when the sender account belongs to the caller or the caller
  is an administrator, its owner has a transaction PIN, the given PIN matches the stored hash and the PIN is not
  locked.
\<close>

theorem transfer_authorised:
  assumes "transfer env args db = (Inr r, db')" and "\<not> ta_system_initiated args"
  shows "\<exists>a u h p. a \<in> set (db_accounts db) \<and> ac_id a = ta_from_account_id args
    \<and> (we_current_user env = ac_user_id a \<or> is_admin env)
    \<and> u \<in> set (db_users db) \<and> Some (pu_id u) = ac_user_id a
    \<and> pu_pin_hash u = Some h \<and> ta_pin args = Some p \<and> we_check_hash env h p
    \<and> (\<forall>t. pu_locked_until u = Some t \<longrightarrow> t \<le> we_now env)"
proof -
  obtain am x db1 where "transfer_open env args am db = Inr (x, db1)"
    using assms(1) by (cases rule: transfer_Inr) blast+
  then obtain fa ta where "transfer_pin env args db = Inr db1" by (rule transfer_open_Inr)
  then show ?thesis
  proof (cases rule: transfer_pin_Inr)
    case (2 a u u')
    from authorise_pin_Inr [OF 2(7)] obtain h p where pin: "pu_pin_hash u = Some h" "ta_pin args = Some p"
      "we_check_hash env h p" "\<forall>t. pu_locked_until u = Some t \<longrightarrow> t \<le> we_now env" by blast
    from 2(4) have "we_current_user env = ac_user_id a \<or> is_admin env"
      by (auto simp: check_ownership_def split: option.splits if_splits)
    with 2 pin show ?thesis by blast
  qed (use assms(2) in simp)
qed

theorem transfer_authorised_witness:
  "\<exists>r db'. transfer demo_env demo_transfer demo_db = (Inr r, db') \<and> (\<exists>u\<in>set (db_users demo_db). pu_pin_hash u = ta_pin demo_transfer)"
proof -
  obtain r db' where run: "transfer demo_env demo_transfer demo_db = (Inr r, db')"
    using demo_transfer_ok by blast
  have "\<not> ta_system_initiated demo_transfer" by (simp add: demo_transfer_def)
  from transfer_authorised [OF run this]
  have "\<exists>u\<in>set (db_users demo_db). pu_pin_hash u = ta_pin demo_transfer"
    by (auto simp: demo_defs demo_transfer_def)
  with run show ?thesis by blast
qed

subsection \<open>What posting leaves alone\<close>

text \<open>The users, the adjustment requests and the key counter, across one operation.\<close>

definition side_kept :: "wallet_db \<Rightarrow> wallet_db \<Rightarrow> bool" where
  "side_kept db db' \<longleftrightarrow>
     db_users db' = db_users db \<and> db_adjustments db' = db_adjustments db \<and> db_next_id db \<le> db_next_id db'"

lemma side_kept_refl [simp]: "side_kept db db"
  by (simp add: side_kept_def)

lemma side_kept_trans [trans]: "side_kept db db1 \<Longrightarrow> side_kept db1 db2 \<Longrightarrow> side_kept db db2"
  by (simp add: side_kept_def)

lemma post_entries_side: "post_entries es db = Inr db' \<Longrightarrow> side_kept db db'"
  by (auto simp: post_entries_def side_kept_def split: if_splits)

lemma update_volume_side: "update_volume i am ty db = Inr (ok, db') \<Longrightarrow> side_kept db db'"
  by (auto simp: side_kept_def dest!: update_volume_Inr)

lemma update_status_side: "update_status now i COMPLETED None db = Inr (ok, db') \<Longrightarrow> side_kept db db'"
  by (auto simp: side_kept_def dest!: update_status_completed)

lemma get_or_create_side:
  "tx_get_or_create now key ty am cur u rcp md db = Inr (tx, db') \<Longrightarrow> side_kept db db'"
  by (auto simp: tx_get_or_create_def side_kept_def Let_def split: option.splits if_splits)

lemma take_ids_side: "side_kept (take_ids n db) db' \<Longrightarrow> side_kept db db'"
  by (simp add: take_ids_def side_kept_def)

lemma record_commission_side [simp]:
  "side_kept (record_commission ag am cur ty i rcp db) db' = side_kept db db'"
  by (simp add: record_commission_def side_kept_def split: option.splits)

lemma add_audit_log_side [simp]: "side_kept (add_audit_log tx ac act bf af db) db' = side_kept db db'"
  by (simp add: add_audit_log_def side_kept_def)

lemmas side = post_entries_side update_volume_side update_status_side get_or_create_side

lemma deposit_post_side:
  assumes "deposit_post env args a am cur key md db = Inr (r, db')"
  shows "side_kept db db'"
  using assms
  by (auto simp: deposit_post_def Let_def split: if_splits dest!: side take_ids_side) (meson side_kept_trans)

lemma withdraw_post_side:
  assumes "withdraw_post env args a am db = Inr (r, db')"
  shows "side_kept db db'"
  using assms
  by (auto simp: withdraw_post_def Let_def split: if_splits dest!: side take_ids_side) (meson side_kept_trans)

lemma transfer_post_side:
  assumes "transfer_post env args fa ta am legs db = Inr (r, db')"
  shows "side_kept db db'"
  using assms
  by (auto simp: transfer_post_def Let_def split: if_splits dest!: side take_ids_side) (meson side_kept_trans)

lemma fx_side: "db1 = db\<lparr>db_fx_rates := x\<rparr> \<Longrightarrow> side_kept db db1"
  by (simp add: side_kept_def)

lemma deposit_side: "side_kept db (snd (deposit env args db))"
proof (cases "deposit env args db")
  case (Pair x db')
  show ?thesis
  proof (cases x)
    case (Inl e)
    with Pair have "deposit env args db = (Inl e, db')" by simp
    from fx_side [OF deposit_Inl [OF this]] Pair show ?thesis by simp
  next
    case (Inr r)
    with Pair have "deposit env args db = (Inr r, db')" by simp
    then show ?thesis
    proof (rule deposit_Inr)
      fix i am cur a am' cur' md db1
      assume fx: "deposit_fx env a am cur (da_metadata args) db = (Inr (am', cur', md), db1)"
        and post: "deposit_post env args a am' cur' (deposit_key args) md db1 = Inr (r, db')"
      have "side_kept db db1"
        using deposit_fx_frame [of env a am cur "da_metadata args" db] fx fx_side by (metis snd_conv)
      from side_kept_trans [OF this deposit_post_side [OF post]] Pair show ?thesis by simp
    qed
  qed
qed

lemma withdraw_side: "side_kept db (snd (withdraw env args db))"
proof (cases "withdraw env args db")
  case (Pair x db')
  show ?thesis
  proof (cases x)
    case (Inl e)
    with Pair show ?thesis by (auto dest: withdraw_Inl)
  next
    case (Inr r)
    with Pair have "withdraw env args db = (Inr r, db')" by simp
    then show ?thesis by (rule withdraw_Inr) (use Pair in \<open>auto dest: withdraw_post_side\<close>)
  qed
qed

lemma transfer_side:
  obtains "side_kept db (snd (transfer env args db))"
  | db1 where "transfer_pin env args db = Inr db1" and "side_kept db1 (snd (transfer env args db))"
proof (cases "rbind (transfer_validate env args) (\<lambda>amount. rbind (transfer_open env args amount db) (\<lambda>r. Inr (amount, r)))")
  case (Inl e)
  then show thesis using that(1) by (simp add: transfer_def)
next
  case (Inr p)
  then obtain am x db1 where p: "p = (am, x, db1)" and op: "transfer_open env args am db = Inr (x, db1)"
    by auto
  from op have pin: "transfer_pin env args db = Inr db1" by (rule transfer_open_Inr)
  show thesis
  proof (cases x)
    case (Inl r)
    with Inr p pin that(2) show thesis by (simp add: transfer_def)
  next
    case (Inr q)
    obtain fa ta where q: "q = (fa, ta)" by (cases q)
    obtain y c where lg: "transfer_legs_of env fa ta am (ta_currency args) db1 = (y, c)" by fastforce
    have d: "side_kept db1 (case c of None \<Rightarrow> db1 | Some d \<Rightarrow> d)"
      using lg by (auto split: option.splits dest!: transfer_legs_committed fx_side)
    let ?c = "case c of None \<Rightarrow> db | Some d \<Rightarrow> d"
    have run: "snd (transfer env args db) =
        (case y of
           Inl e \<Rightarrow> ?c
         | Inr legs \<Rightarrow>
             (case transfer_post env args fa ta am legs (case c of None \<Rightarrow> db1 | Some d \<Rightarrow> d) of
                Inl e \<Rightarrow> ?c | Inr (r, db2) \<Rightarrow> db2))"
      using \<open>rbind _ _ = Inr p\<close> p Inr q lg by (simp add: transfer_def split: sum.splits)
    have c: "?c = db \<or> side_kept db1 ?c" using d by (cases c) auto
    from run c d have "snd (transfer env args db) = db \<or> side_kept db1 (snd (transfer env args db))"
      by (auto split: sum.splits dest!: transfer_post_side intro: side_kept_trans)
    with pin that show thesis by auto
  qed
qed

subsection \<open>PIN counters and decided requests along a run\<close>

definition pins_fresh :: "wallet_db \<Rightarrow> bool" where
  "pins_fresh db \<longleftrightarrow> list_all (\<lambda>u. pu_failed_attempts u = 0 \<and> pu_locked_until u = None) (db_users db)"

definition requests_bounded :: "wallet_db \<Rightarrow> bool" where
  "requests_bounded db \<longleftrightarrow> list_all (\<lambda>a. aj_public_id a < db_next_id db) (db_adjustments db)"

text \<open>The adjustment request with this public key is approved or rejected.\<close>

definition decided :: "wallet_db \<Rightarrow> uuid \<Rightarrow> adjustment \<Rightarrow> bool" where
  "decided db rid a \<longleftrightarrow> find_adjustment db rid = Some a \<and> aj_status a \<noteq> ADJ_PENDING"

definition side_ok :: "wallet_db \<Rightarrow> wallet_db \<Rightarrow> bool" where
  "side_ok db db' \<longleftrightarrow>
     (pins_fresh db \<longrightarrow> pins_fresh db')
     \<and> (requests_bounded db \<longrightarrow> requests_bounded db' \<and> (\<forall>rid a. decided db rid a \<longrightarrow> decided db' rid a))"

lemma side_ok_refl [simp]: "side_ok db db"
  by (simp add: side_ok_def)

lemma side_ok_trans: "side_ok db db1 \<Longrightarrow> side_ok db1 db2 \<Longrightarrow> side_ok db db2"
  by (simp add: side_ok_def)

lemma side_kept_ok: "side_kept db db' \<Longrightarrow> side_ok db db'"
  by (auto simp: side_ok_def side_kept_def pins_fresh_def requests_bounded_def decided_def find_adjustment_def
      list_all_iff intro: less_le_trans)

lemma users_side_ok: "(pins_fresh db \<Longrightarrow> pins_fresh (db\<lparr>db_users := x\<rparr>)) \<Longrightarrow> side_ok db (db\<lparr>db_users := x\<rparr>)"
  by (auto simp: side_ok_def requests_bounded_def decided_def find_adjustment_def)

lemma transfer_pin_side_ok:
  assumes "transfer_pin env args db = Inr db1"
  shows "side_ok db db1"
  using assms
proof (cases rule: transfer_pin_Inr)
  case (2 a u u')
  from authorise_pin_Inr [OF 2(7)] have "pu_failed_attempts u' = 0 \<and> pu_locked_until u' = None" by auto
  then show ?thesis
    unfolding 2(8) by (intro users_side_ok) (auto simp: pins_fresh_def intro: list_all_update_rows)
qed simp

lemma transfer_side_ok: "side_ok db (snd (transfer env args db))"
  by (cases rule: transfer_side [of db env args])
    (auto dest: transfer_pin_side_ok side_kept_ok intro: side_ok_trans)

lemma find_adjustment_set:
  assumes "\<And>a. aj_public_id (f a) = aj_public_id a"
  shows "find_adjustment (set_adjustment rid f db) r
    = map_option (\<lambda>a. if aj_public_id a = rid then f a else a) (find_adjustment db r)"
  unfolding find_adjustment_def set_adjustment_def using assms by (simp add: find_update_rows)

lemma find_adjustment_key: "find_adjustment db rid = Some a \<Longrightarrow> aj_public_id a = rid \<and> a \<in> set (db_adjustments db)"
  by (auto simp: find_adjustment_def find_Some_iff)

lemma set_adjustment_side_ok:
  assumes "\<And>a. aj_public_id (f a) = aj_public_id a" and "\<And>a. \<not> decided db rid a"
  shows "side_ok db (set_adjustment rid f db)"
proof -
  have "decided (set_adjustment rid f db) r a" if "decided db r a" for r a
    using that assms(2) find_adjustment_key unfolding decided_def
    by (auto simp: find_adjustment_set [OF assms(1)])
  moreover have "requests_bounded db \<Longrightarrow> requests_bounded (set_adjustment rid f db)"
    using assms(1) by (auto simp: requests_bounded_def set_adjustment_def intro: list_all_update_rows)
  ultimately show ?thesis by (simp add: side_ok_def pins_fresh_def set_adjustment_def)
qed

lemma admin_side:
  "side_kept db (snd (admin_deposit env key acc am cur reason db))"
  "side_kept db (snd (admin_withdraw env key acc am cur reason db))"
  by (simp_all add: admin_deposit_def admin_withdraw_def deposit_side withdraw_side)

lemma approve_adjustment_side:
  obtains "side_kept db (snd (approve_adjustment env key rid uid aa db))"
  | db1 f where "side_kept db db1" and "\<And>a. aj_public_id (f a) = aj_public_id a"
    and "snd (approve_adjustment env key rid uid aa db) = set_adjustment rid f db1"
    and "aa \<or> (\<forall>a. \<not> decided db rid a)"
proof (cases "find_adjustment db rid")
  case None
  with that(1) show thesis by (simp add: approve_adjustment_def)
next
  case (Some req)
  let ?reason = "(if aa then ''Auto-Approved '' else ''Approved '') @ ''Adjustment: '' @ aj_reason req"
  obtain x db1 where run: "(if aj_adjustment_type req = ''deposit''
      then admin_deposit env key (aj_account_id req) (aj_amount req) (aj_currency req) ?reason db
      else admin_withdraw env key (aj_account_id req) (aj_amount req) (aj_currency req) ?reason db) = (x, db1)"
    by fastforce
  have kept: "side_kept db db1"
    using run admin_side [of db env key "aj_account_id req" "aj_amount req" "aj_currency req" ?reason]
    by (auto split: if_splits)
  define f :: "wallet_result \<Rightarrow> adjustment \<Rightarrow> adjustment" where "f r = (\<lambda>a. a\<lparr>aj_status := ADJ_APPROVED, aj_approved_by_id := Some uid,
      aj_approved_at := Some (we_now env), aj_transaction_id := Some (wr_transaction_id r)\<rparr>)" for r
  have eq: "snd (approve_adjustment env key rid uid aa db) =
      (if \<not> aa \<and> (\<not> we_has_global_role env uid [''owner'', ''super_admin''] \<or> aj_status req \<noteq> ADJ_PENDING) then db
       else case x of Inl e \<Rightarrow> db1 | Inr r \<Rightarrow> set_adjustment rid (f r) db1)"
    using Some run unfolding approve_adjustment_def Let_def f_def by (simp split: sum.splits)
  show thesis
  proof (cases "\<not> aa \<and> (\<not> we_has_global_role env uid [''owner'', ''super_admin''] \<or> aj_status req \<noteq> ADJ_PENDING)")
    case True
    with eq that(1) show thesis by simp
  next
    case False
    show thesis
    proof (cases x)
      case (Inl e)
      with eq False kept that(1) show thesis by auto
    next
      case (Inr r)
      from False Some have "aa \<or> (\<forall>a. \<not> decided db rid a)" by (auto simp: decided_def)
      moreover have "aj_public_id (f r a) = aj_public_id a" for a by (simp add: f_def)
      ultimately show thesis using that(2) [OF kept, of "f r"] eq False Inr by auto
    qed
  qed
qed

lemma approve_adjustment_side_ok: "side_ok db (snd (approve_adjustment env key rid uid False db))"
proof (cases rule: approve_adjustment_side [of db env key rid uid False])
  case 1
  then show ?thesis by (rule side_kept_ok)
next
  case (2 db1 f)
  then have "\<not> decided db1 rid a" for a
    by (simp add: decided_def find_adjustment_def side_kept_def)
  with 2 show ?thesis using side_ok_trans [OF side_kept_ok set_adjustment_side_ok] by metis
qed

lemma appended_request_side_ok:
  assumes "aj_public_id req = db_next_id db"
    and "side_kept (take_ids 1 (db\<lparr>db_adjustments := db_adjustments db @ [req]\<rparr>)) db1"
    and "\<And>a. aj_public_id (f a) = aj_public_id a"
  shows "side_ok db db1" and "side_ok db (set_adjustment (db_next_id db) f db1)"
proof -
  from assms(2) have db1: "db_users db1 = db_users db" "db_adjustments db1 = db_adjustments db @ [req]"
    "db_next_id db < db_next_id db1" by (auto simp: side_kept_def take_ids_def)
  have old: "decided db1 r a \<and> r \<noteq> db_next_id db" if "requests_bounded db" "decided db r a" for r a
  proof -
    from that(2) have find: "find (\<lambda>a. aj_public_id a = r) (db_adjustments db) = Some a"
      by (simp add: decided_def find_adjustment_def)
    then have "r < db_next_id db" using that(1) find_adjustment_key [of db r a]
      by (auto simp: find_adjustment_def requests_bounded_def list_all_iff)
    with that(2) find db1 show ?thesis
      by (auto simp: decided_def find_adjustment_def find_append)
  qed
  have bounded: "requests_bounded db1" if "requests_bounded db"
    using that db1 assms(1) by (auto simp: requests_bounded_def list_all_iff)
  with old db1 show "side_ok db db1" by (auto simp: side_ok_def pins_fresh_def)
  have "decided (set_adjustment (db_next_id db) f db1) r a" if "requests_bounded db" "decided db r a" for r a
    using old [OF that] find_adjustment_key unfolding decided_def
    by (auto simp: find_adjustment_set [OF assms(3)])
  moreover have "requests_bounded (set_adjustment (db_next_id db) f db1)" if "requests_bounded db"
    using bounded [OF that] assms(3) by (auto simp: requests_bounded_def set_adjustment_def intro: list_all_update_rows)
  ultimately show "side_ok db (set_adjustment (db_next_id db) f db1)"
    using db1 by (simp add: side_ok_def pins_fresh_def set_adjustment_def)
qed

lemma request_adjustment_snd:
  obtains "snd (admin_request_adjustment env key acc am cur ty reason db) = db"
  | req where "aj_public_id req = db_next_id db"
    and "snd (admin_request_adjustment env key acc am cur ty reason db)
         = take_ids 1 (db\<lparr>db_adjustments := db_adjustments db @ [req]\<rparr>)"
  | req u where "aj_public_id req = db_next_id db"
    and "snd (admin_request_adjustment env key acc am cur ty reason db)
         = snd (approve_adjustment env key (db_next_id db) u True
                  (take_ids 1 (db\<lparr>db_adjustments := db_adjustments db @ [req]\<rparr>)))"
proof -
  let ?guard = "rbind (check (is_admin env) PermissionError) (\<lambda>_.
     rbind (check (reason_given reason) (ValueError ''Reason is mandatory for manual adjustments'')) (\<lambda>_.
     rbind (check (quantize am > 0) (ValueError ''Amount must be positive'')) (\<lambda>_.
     rbind (get_account db acc) (\<lambda>_.
     case we_current_user env of None \<Rightarrow> Inl AttributeError | Some u \<Rightarrow> Inr u))))"
  show thesis
  proof (cases ?guard)
    case (Inl e)
    have "snd (admin_request_adjustment env key acc am cur ty reason db) = db"
      unfolding admin_request_adjustment_def Inl by simp
    then show thesis by (rule that(1))
  next
    case (Inr u)
    define aa where "aa \<longleftrightarrow> cur = ''UGX'' \<and> quantize am < we_adjustment_threshold env"
    have "\<exists>req. admin_request_adjustment env key acc am cur ty reason db =
        (let db1 = take_ids 1 (db\<lparr>db_adjustments := db_adjustments db @ [req]\<rparr>) in
         if aa then (case approve_adjustment env key (db_next_id db) u True db1 of
                       (Inl e, db2) \<Rightarrow> (Inl e, db2) | (Inr t, db2) \<Rightarrow> (Inr (Some t), db2))
         else (Inr None, db1)) \<and> aj_public_id req = db_next_id db"
      unfolding admin_request_adjustment_def Inr aa_def Let_def sum.case
      by (rule exI, rule conjI, rule refl, simp)
    then obtain req where req: "aj_public_id req = db_next_id db"
      and run: "admin_request_adjustment env key acc am cur ty reason db =
        (let db1 = take_ids 1 (db\<lparr>db_adjustments := db_adjustments db @ [req]\<rparr>) in
         if aa then (case approve_adjustment env key (db_next_id db) u True db1 of
                       (Inl e, db2) \<Rightarrow> (Inl e, db2) | (Inr t, db2) \<Rightarrow> (Inr (Some t), db2))
         else (Inr None, db1))" by blast
    show thesis
    proof (cases aa)
      case True
      with run have "snd (admin_request_adjustment env key acc am cur ty reason db)
          = snd (approve_adjustment env key (db_next_id db) u True
                  (take_ids 1 (db\<lparr>db_adjustments := db_adjustments db @ [req]\<rparr>)))"
        by (simp add: Let_def split: prod.splits sum.splits)
      with req show thesis by (rule that(3))
    next
      case False
      with run have "snd (admin_request_adjustment env key acc am cur ty reason db)
          = take_ids 1 (db\<lparr>db_adjustments := db_adjustments db @ [req]\<rparr>)" by (simp add: Let_def)
      with req show thesis by (rule that(2))
    qed
  qed
qed

lemma request_adjustment_side_ok: "side_ok db (snd (admin_request_adjustment env key acc am cur ty reason db))"
proof (cases rule: request_adjustment_snd [of env key acc am cur ty reason db])
  case 1
  then show ?thesis by simp
next
  case (2 req)
  from appended_request_side_ok(1) [OF 2(1) side_kept_refl, of id] 2(2) show ?thesis by simp
next
  case (3 req u)
  let ?db1 = "take_ids 1 (db\<lparr>db_adjustments := db_adjustments db @ [req]\<rparr>)"
  show ?thesis unfolding 3(2)
  proof (cases rule: approve_adjustment_side [of ?db1 env key "db_next_id db" u True])
    case 1
    then show "side_ok db (snd (approve_adjustment env key (db_next_id db) u True ?db1))"
      by (rule appended_request_side_ok(1) [OF 3(1), of _ id]) simp
  next
    case (2 db2 f)
    from appended_request_side_ok(2) [OF 3(1) 2(1,2)] 2(3)
    show "side_ok db (snd (approve_adjustment env key (db_next_id db) u True ?db1))" by simp
  qed
qed

lemma reject_adjustment_side_ok: "side_ok db (snd (reject_adjustment env rid uid reason db))"
  by (auto simp: reject_adjustment_def decided_def split: option.splits intro!: set_adjustment_side_ok)

lemma modify_account_side: "modify_account f i db = Inr (ok, db') \<Longrightarrow> side_kept db db'"
  by (auto simp: modify_account_def side_kept_def split: option.splits)

lemma decide_transaction_side:
  "side_kept db (snd (approve_transaction i db))" "side_kept db (snd (reject_transaction i reason db))"
  by (simp_all add: approve_transaction_def reject_transaction_def side_kept_def)

lemma wallet_step_side_ok: "wallet_step db db' \<Longrightarrow> side_ok db db'"
  by (erule wallet_stepE)
    (auto simp: deposit_side withdraw_side transfer_side_ok request_adjustment_side_ok approve_adjustment_side_ok
      reject_adjustment_side_ok freeze_account_def unfreeze_account_def reset_daily_volume_def reset_monthly_volume_def
      decide_transaction_side intro: side_kept_ok dest!: modify_account_side)

interpretation sides: run_effect wallet_step "\<lambda>_. True" side_ok
proof
  show "side_ok db db" for db by (simp add: side_ok_def)
qed (auto intro: side_ok_trans wallet_step_side_ok)

text \<open>
  The PIN lockout never engages.  From a database in which no PIN has failed attempts, no run of wallet operations,
  whatever PINs are tried, ever records a failed attempt or locks a PIN: the counter is written in the transaction
  that the resulting \<open>TransactionPINError\<close> rolls back.
\<close>

theorem pin_lockout_never_engages:
  assumes "wallet_step\<^sup>*\<^sup>* db db'" and "pins_fresh db"
  shows "pins_fresh db'"
  using sides.run_eff [OF assms(1) TrueI] assms(2) by (simp add: side_ok_def)

theorem pin_lockout_never_engages_witness:
  "\<exists>db'. transfer demo_env (demo_transfer\<lparr>ta_pin := Some ''0000''\<rparr>) demo_db
          = (Inl (TransactionPINError ''Invalid or locked PIN''), db') \<and> pins_fresh db'"
proof -
  let ?args = "demo_transfer\<lparr>ta_pin := Some ''0000''\<rparr>"
  obtain db' where run: "transfer demo_env ?args demo_db = (Inl (TransactionPINError ''Invalid or locked PIN''), db')"
    by (simp add: transfer_eval demo_transfer_def demo_defs limit_eval op_eval Let_def)
  have step: "wallet_step\<^sup>*\<^sup>* demo_db db'"
    using wallet_step.Transfer [of demo_db demo_env ?args] run by (auto intro: r_into_rtranclp)
  have "pins_fresh demo_db" by (simp add: pins_fresh_def demo_defs)
  from pin_lockout_never_engages [OF step this] run show ?thesis by blast
qed

text \<open>
  C10: an adjustment request is decided at most once.  When the keys of the requests come from the counter, a request
  that is approved or rejected keeps its status, its decider, its times and its transaction along every later run of
  wallet operations, so it never posts a second adjustment.
\<close>

theorem adjustment_decided_once:
  assumes "wallet_step\<^sup>*\<^sup>* db db'" and "requests_bounded db" and "decided db rid a"
  shows "decided db' rid a"
  using sides.run_eff [OF assms(1) TrueI] assms(2,3) by (simp add: side_ok_def)

definition demo_request :: adjustment where
  "demo_request =
     \<lparr>aj_public_id = 20, aj_account_id = 1, aj_amount = 5, aj_currency = ''USD'', aj_adjustment_type = ''deposit'',
      aj_reason = ''goodwill'', aj_status = ADJ_PENDING, aj_requested_by_id = 1, aj_approved_by_id = None,
      aj_approved_at = None, aj_rejected_by_id = None, aj_rejected_at = None, aj_rejection_reason = None,
      aj_transaction_id = None\<rparr>"

theorem adjustment_decided_once_witness:
  "\<exists>db'. decided (snd (reject_adjustment demo_env 20 1 ''withdrawn'' (demo_db\<lparr>db_adjustments := [demo_request]\<rparr>))) 20
       (demo_request\<lparr>aj_status := ADJ_REJECTED, aj_rejected_by_id := Some 1, aj_rejected_at := Some 1000000000,
                     aj_rejection_reason := Some ''withdrawn''\<rparr>)
     \<and> db' = snd (approve_adjustment (demo_env\<lparr>we_has_global_role := \<lambda>_ _. True\<rparr>) ''k'' 20 1 False
                    (snd (reject_adjustment demo_env 20 1 ''withdrawn'' (demo_db\<lparr>db_adjustments := [demo_request]\<rparr>))))
     \<and> (\<exists>a. decided db' 20 a \<and> aj_status a = ADJ_REJECTED)"
proof -
  let ?db = "snd (reject_adjustment demo_env 20 1 ''withdrawn'' (demo_db\<lparr>db_adjustments := [demo_request]\<rparr>))"
  let ?a = "demo_request\<lparr>aj_status := ADJ_REJECTED, aj_rejected_by_id := Some 1, aj_rejected_at := Some 1000000000,
                     aj_rejection_reason := Some ''withdrawn''\<rparr>"
  let ?env = "demo_env\<lparr>we_has_global_role := \<lambda>_ _. True\<rparr>"
  have dec: "decided ?db 20 ?a" and bounded: "requests_bounded ?db"
    by (simp_all add: decided_def requests_bounded_def reject_adjustment_def find_adjustment_def set_adjustment_def
        demo_request_def demo_defs)
  have "wallet_step\<^sup>*\<^sup>* ?db (snd (approve_adjustment ?env ''k'' 20 1 False ?db))"
    by (rule r_into_rtranclp) (rule wallet_step.Approve)
  from adjustment_decided_once [OF this bounded dec] dec show ?thesis by (auto simp: demo_request_def)
qed

subsection \<open>Ceilings\<close>

text \<open>The operational daily ceiling that \<open>_check_daily_limit\<close> applies in a currency.\<close>

definition daily_ceiling :: "wallet_env \<Rightarrow> currency \<Rightarrow> money" where
  "daily_ceiling env cur =
     (case sc_max_daily_amount (get_config (we_system_config env)) of
        Some v \<Rightarrow> v
      | None \<Rightarrow> config_get env (''WALLET_DAILY_LIMIT_'' @ (if cur = ''USD'' then ''HOME'' else ''LOCAL'')) 10000)"

lemma check_daily_limit_Inr:
  "check_daily_limit env db acc am cur = Inr () \<Longrightarrow>
   get_daily_volume db (we_now env) acc cur None + am \<le> daily_ceiling env cur"
  by (simp add: check_daily_limit_def daily_ceiling_def Let_def split: option.splits)

text \<open>
  The limit per transaction is that of the level of the caller, which for an organisation is its KYB level; the cumulative limits
  are those of the KYC tier of the user, also for an organisation.
\<close>

lemma check_transaction_allowed_Inr:
  assumes "check_transaction_allowed env u am action cur rcp = Inr (Allowed lv)"
  shows "(lv = None \<or> lv = Some (we_kyc_tier env u))
    \<and> (\<exists>lims. get_limits env (effective_level env u) = Inr lims \<and> allowed_feature (kl_features lims) action = Some True
        \<and> am \<le> kl_per_txn_limit lims \<and> am \<le> operational_per_txn_ceiling (get_config (we_system_config env)) action)
    \<and> (case we_organisation env u of None \<Rightarrow> True
       | Some org \<Rightarrow> kb_is_operational org \<and> (kb_is_full org \<or> \<not> kb_requires_full org am cur rcp))"
proof (cases "we_organisation env u")
  case None
  with assms obtain lims where lims: "get_limits env (we_kyc_tier env u) = Inr lims"
    by (auto simp: check_transaction_allowed_def Let_def)
  with assms None have "allowed_feature (kl_features lims) action = Some True \<and> lv = Some (we_kyc_tier env u)
      \<and> am \<le> min (kl_per_txn_limit lims) (operational_per_txn_ceiling (get_config (we_system_config env)) action)"
    unfolding check_transaction_allowed_def Let_def
    by (cases "allowed_feature (kl_features lims) action") (simp_all add: not_less split: if_split_asm)
  with None lims show ?thesis by (simp add: effective_level_def)
next
  case (Some org)
  with assms have ans: "check_org_transaction_allowed env org am action cur rcp = Inr (Allowed lv)"
    by (simp add: check_transaction_allowed_def)
  then have org: "kb_is_operational org" "kb_is_full org \<or> \<not> kb_requires_full org am cur rcp"
    by (auto simp: check_org_transaction_allowed_def split: if_split_asm)
  with ans obtain lims where lims: "get_limits env (kb_level org) = Inr lims"
    by (auto simp: check_org_transaction_allowed_def Let_def)
  with ans org have "allowed_feature (kl_features lims) action = Some True \<and> lv = None
      \<and> am \<le> min (kl_per_txn_limit lims) (operational_per_txn_ceiling (get_config (we_system_config env)) action)"
    unfolding check_org_transaction_allowed_def Let_def
    by (cases "allowed_feature (kl_features lims) action") (auto simp: not_less split: if_split_asm)
  with Some lims org show ?thesis by (simp add: effective_level_def)
qed

lemma check_kyc_limits_Inr:
  assumes "check_kyc_limits env db u am action cur rcp (Some acc) = Inr ()"
  obtains lims cum where "get_limits env (effective_level env u) = Inr lims" and "get_limits env (we_kyc_tier env u) = Inr cum"
    and "allowed_feature (TIER_FEATURES (effective_level env u)) action = Some True"
    and "am \<le> kl_per_txn_limit lims" and "am \<le> operational_per_txn_ceiling (get_config (we_system_config env)) action"
    and "kl_daily_limit cum \<le> 0 \<or> reg_daily_volume env db acc cur + am \<le> kl_daily_limit cum"
    and "kl_monthly_limit cum \<le> 0 \<or> reg_monthly_volume env db acc cur + am \<le> kl_monthly_limit cum"
    and "case we_organisation env u of None \<Rightarrow> True
         | Some org \<Rightarrow> kb_is_operational org \<and> (kb_is_full org \<or> \<not> kb_requires_full org am cur rcp)"
proof -
  from assms obtain lv where ans: "check_transaction_allowed env u am action cur rcp = Inr (Allowed lv)"
    by (simp add: check_kyc_limits_def split: sum.splits kyc_answer.splits) (metis kyc_answer.exhaust sum.exhaust)
  note allowed = check_transaction_allowed_Inr [OF ans]
  then obtain lims where lims: "get_limits env (effective_level env u) = Inr lims"
    and "allowed_feature (kl_features lims) action = Some True" "am \<le> kl_per_txn_limit lims"
      "am \<le> operational_per_txn_ceiling (get_config (we_system_config env)) action" by blast
  moreover from lims have "kl_features lims = TIER_FEATURES (effective_level env u)"
    by (auto simp: get_limits_def Let_def split: option.splits)
  ultimately have 1: "allowed_feature (TIER_FEATURES (effective_level env u)) action = Some True"
    "am \<le> kl_per_txn_limit lims" "am \<le> operational_per_txn_ceiling (get_config (we_system_config env)) action" by simp_all
  have "(case lv of Some l \<Rightarrow> l | None \<Rightarrow> we_kyc_tier env u) = we_kyc_tier env u" using allowed by auto
  with assms ans have cum: "check_regulatory_cumulative_limits env db acc cur am (we_kyc_tier env u) = Inr None"
    by (auto simp: check_kyc_limits_def split: option.splits)
  from cum obtain clims where clims: "get_limits env (we_kyc_tier env u) = Inr clims"
    by (auto simp: check_regulatory_cumulative_limits_def Let_def split: option.splits)
  with cum have
    "kl_daily_limit clims \<le> 0 \<or> reg_daily_volume env db acc cur + am \<le> kl_daily_limit clims"
    "kl_monthly_limit clims \<le> 0 \<or> reg_monthly_volume env db acc cur + am \<le> kl_monthly_limit clims"
    by (auto simp: check_regulatory_cumulative_limits_def reg_check_daily_limit_def reg_check_monthly_limit_def Let_def
        split: option.splits if_splits)
  with lims clims 1 allowed that show thesis by blast
qed

lemma can_withdraw_tier: "allowed_feature (TIER_FEATURES level) ''withdraw'' = Some True \<Longrightarrow> level \<in> {1..5}"
  by (auto simp: allowed_feature_def TIER_FEATURES_def split: if_splits)

lemma debit_volume_append:
  "db_ledger db' = db_ledger db @ [make_entry now i tx acc DEBIT am cur] \<Longrightarrow> since \<le> now \<Longrightarrow>
   debit_volume db' acc cur since = debit_volume db acc cur since + am"
  by (simp add: debit_volume_def sum_where_def make_entry_def)

text \<open>
  C9: a withdrawal respects every ceiling.  After a withdrawal that returns, also as a replay and also for an organisation, the
  volume of the last 24 hours is within the operational daily ceiling.  The amount asked for is within the limit per
  transaction of a verified level (1 to 5; the KYB level of an organisation) and the operational ceiling of a withdrawal, and
  together with the regulatory volume so far within the daily and monthly limits, where they are set, of the user's KYC
  tier.  An organisation is operational, and fully verified where the amount needs that.
\<close>

theorem withdraw_respects_ceilings:
  assumes "wallet_inv db" and "withdraw env args db = (Inr r, db')" and "find_account db (wa_account_id args) = Some a"
    and "am = quantize (wa_amount args)"
  shows "get_daily_volume db' (we_now env) (ac_id a) (wa_currency args) None \<le> daily_ceiling env (wa_currency args)
    \<and> effective_level env (ac_user_id a) \<in> {1..5}
    \<and> am \<le> sc_max_withdrawal_amount (get_config (we_system_config env))
    \<and> (\<exists>lims cum. get_limits env (effective_level env (ac_user_id a)) = Inr lims
        \<and> get_limits env (we_kyc_tier env (ac_user_id a)) = Inr cum \<and> am \<le> kl_per_txn_limit lims
        \<and> (kl_daily_limit cum \<le> 0 \<or> reg_daily_volume env db (ac_id a) (wa_currency args) + am \<le> kl_daily_limit cum)
        \<and> (kl_monthly_limit cum \<le> 0 \<or> reg_monthly_volume env db (ac_id a) (wa_currency args) + am \<le> kl_monthly_limit cum))
    \<and> (case we_organisation env (ac_user_id a) of None \<Rightarrow> True
       | Some org \<Rightarrow> kb_is_operational org \<and> (kb_is_full org \<or> \<not> kb_requires_full org am (wa_currency args) None))"
  using assms(2)
proof (rule withdraw_Inr)
  fix m b
  assume val: "withdraw_validate env args = Inr m" and chk: "withdraw_checks env args m db = Inr b"
    and post: "withdraw_post env args b m db = Inr (r, db')"
  from withdraw_validate_Inr [OF val] assms(4) have m: "m = am" "0 < am" by auto
  note c = withdraw_checks_Inr [OF chk [unfolded m(1)]]
  have ab: "b = a"
  proof -
    from assms(3) have "a \<in> set (db_accounts db)" "ac_id a = wa_account_id args"
      by (auto simp: find_account_def find_Some_iff)
    with c assms(1) show ?thesis by (auto simp: wallet_inv_def distinct_map inj_on_def)
  qed
  have "get_daily_volume db' (we_now env) (ac_id b) (wa_currency args) None
      \<le> get_daily_volume db (we_now env) (ac_id b) (wa_currency args) None + am"
    using assms(1) post [unfolded m(1)]
  proof (cases rule: withdraw_post_cases)
    case replayed
    with m(2) show ?thesis by simp
  next
    case (new i es)
    then show ?thesis by (simp add: get_daily_volume_def posted_def debit_volume_append day_us_def hour_us_def)
  qed
  moreover from c ab have "check_daily_limit env db (ac_id b) am (wa_currency args) = Inr ()" by blast
  ultimately have daily: "get_daily_volume db' (we_now env) (ac_id a) (wa_currency args) None \<le> daily_ceiling env (wa_currency args)"
    using ab by (auto dest!: check_daily_limit_Inr)
  from c ab have "check_kyc_limits env db (ac_user_id a) am ''withdraw'' (wa_currency args) None (Some (ac_id a)) = Inr ()"
    by blast
  then show ?thesis
  proof (rule check_kyc_limits_Inr)
    fix lims cum
    assume feature: "allowed_feature (TIER_FEATURES (effective_level env (ac_user_id a))) ''withdraw'' = Some True"
      and ceiling: "am \<le> operational_per_txn_ceiling (get_config (we_system_config env)) ''withdraw''"
      and rest: "get_limits env (effective_level env (ac_user_id a)) = Inr lims"
        "get_limits env (we_kyc_tier env (ac_user_id a)) = Inr cum" "am \<le> kl_per_txn_limit lims"
        "kl_daily_limit cum \<le> 0 \<or> reg_daily_volume env db (ac_id a) (wa_currency args) + am \<le> kl_daily_limit cum"
        "kl_monthly_limit cum \<le> 0 \<or> reg_monthly_volume env db (ac_id a) (wa_currency args) + am \<le> kl_monthly_limit cum"
        "case we_organisation env (ac_user_id a) of None \<Rightarrow> True
         | Some org \<Rightarrow> kb_is_operational org \<and> (kb_is_full org \<or> \<not> kb_requires_full org am (wa_currency args) None)"
    from ceiling have "am \<le> sc_max_withdrawal_amount (get_config (we_system_config env))"
      by (simp add: operational_per_txn_ceiling_def)
    with daily can_withdraw_tier [OF feature] rest show ?thesis by blast
  qed
qed

text \<open>A withdrawal of 40 USD by an organisation that is operational on level 2 but not fully verified.\<close>

definition org_env :: wallet_env where
  "org_env = demo_env\<lparr>we_organisation := \<lambda>_. Some \<lparr>kb_is_operational = True, kb_is_full = False, kb_level = 2,
     kb_requires_full = (\<lambda>am _ _. am > 1000)\<rparr>\<rparr>"

lemma org_withdraw_ok: "\<exists>r db'. withdraw org_env demo_withdraw demo_db = (Inr r, db')"
  by (simp add: withdraw_eval demo_withdraw_def org_env_def check_org_transaction_allowed_def demo_defs limit_eval op_eval Let_def)

theorem withdraw_respects_ceilings_witness:
  "\<exists>r db'. withdraw org_env demo_withdraw demo_db = (Inr r, db')
     \<and> get_daily_volume db' 1000000000 1 ''USD'' None \<le> daily_ceiling org_env ''USD''"
proof -
  obtain r db' where run: "withdraw org_env demo_withdraw demo_db = (Inr r, db')"
    using org_withdraw_ok by blast
  have "find_account demo_db (wa_account_id demo_withdraw) = Some (demo_account 1 1 ''USD'')"
    by (simp add: find_account_def demo_withdraw_def demo_defs)
  from withdraw_respects_ceilings [OF demo_inv run this refl] run show ?thesis
    by (auto simp: org_env_def demo_env_def demo_withdraw_def)
qed

subsection \<open>Where the service does not deliver\<close>

text \<open>A deposit or a transfer that has to convert.\<close>

definition converts :: "wallet_db \<Rightarrow> money_call \<Rightarrow> bool" where
  "converts db c \<longleftrightarrow>
     (case c of
        Call_deposit args \<Rightarrow>
          list_ex (\<lambda>a. da_account_id args = Some (ac_id a) \<and> da_currency args \<noteq> None
                       \<and> da_currency args \<noteq> Some (ac_currency a)) (db_accounts db)
      | Call_withdraw args \<Rightarrow> False
      | Call_transfer args \<Rightarrow>
          list_ex (\<lambda>a. list_ex (\<lambda>b. ac_id a = ta_from_account_id args \<and> ac_id b = ta_to_account_id args
                       \<and> ac_currency a \<noteq> ac_currency b) (db_accounts db)) (db_accounts db))"

lemma converted_call_is_replay:
  assumes "we_commit_closes env" and "wallet_inv db" and "money_exec env c db = (Inr r, db')" and "converts db c"
  shows "wr_already_processed r \<and> quiet db db'"
proof -
  have same: "a = b" if "a \<in> set (db_accounts db)" "b \<in> set (db_accounts db)" "ac_id a = ac_id b" for a b
    using that assms(2) by (auto simp: wallet_inv_def distinct_map inj_on_def)
  show ?thesis
  proof (cases c)
    case (Call_deposit args)
    with assms(4) obtain a cur where a: "da_account_id args = Some (ac_id a)" "a \<in> set (db_accounts db)"
      "da_currency args = Some cur" "ac_currency a \<noteq> cur" by (auto simp: converts_def list_ex_iff)
    from Call_deposit assms(3) have "deposit env args db = (Inr r, db')" by simp
    then show ?thesis
    proof (rule deposit_Inr)
      fix i am cur' b am' cur'' md db1
      assume val: "deposit_validate env args db = Inr (i, am, cur')" and opn: "deposit_open env args i db = Inr b"
        and fx: "deposit_fx env b am cur' (da_metadata args) db = (Inr (am', cur'', md), db1)"
      from deposit_validate_Inr [OF val] a have "i = ac_id a" "cur' = cur" by (auto simp: resolve_account_def)
      with deposit_open_Inr [OF opn] same a have "b = a" by auto
      with fx a \<open>cur' = cur\<close> assms(1) show ?thesis by (auto simp: deposit_fx_def split: sum.splits)
    qed
  next
    case (Call_transfer args)
    with assms(4) obtain a b where ab: "a \<in> set (db_accounts db)" "b \<in> set (db_accounts db)"
      "ac_id a = ta_from_account_id args" "ac_id b = ta_to_account_id args" "ac_currency a \<noteq> ac_currency b"
      by (auto simp: converts_def list_ex_iff)
    from Call_transfer assms(3) have "transfer env args db = (Inr r, db')" by simp
    then show ?thesis
    proof (cases rule: transfer_Inr)
      case (replayed am fa ta)
      then show ?thesis by (auto simp: transfer_replay_def split: option.splits)
    next
      case (moved am fa ta db1 legs x db2)
      from moved(2) have lock: "lock_accounts args db1 = Inr (fa, ta)" by (rule transfer_open_Inr) simp
      have "db_accounts db1 = db_accounts db" using transfer_open_quiet [OF moved(2)] by (simp add: quiet_def)
      with lock_accounts_Inr [OF lock] same ab have "fa = a" "ta = b" by auto
      with ab moved(3) assms(1) show ?thesis by (auto simp: transfer_legs_of_def Let_def split: sum.splits if_splits)
    qed
  qed (use assms(4) in \<open>simp add: converts_def\<close>)
qed

text \<open>
  Conversions inside the service never complete.  When the session refuses to work on after the commit of the rate
  service (as sessions do inside \<open>with db.begin()\<close>), a transfer between accounts of different currencies and a deposit in
  a currency other than the account's raise, or answer from an earlier transaction; no money moves.
\<close>

theorem conversion_never_completes:
  assumes "we_commit_closes env" and "wallet_inv db" and "converts db c"
  shows "case money_exec env c db of
     (Inl e, db') \<Rightarrow> quiet db db'
   | (Inr r, db') \<Rightarrow> wr_already_processed r \<and> quiet db db'"
  by (auto split: prod.splits sum.splits dest: failure_quiet converted_call_is_replay [OF assms(1,2) _ assms(3)])

theorem conversion_never_completes_witness:
  "\<exists>db'. money_exec demo_env (Call_deposit (demo_deposit\<lparr>da_currency := Some ''UGX''\<rparr>)) demo_db
         = (Inl InvalidRequestError, db') \<and> db_ledger db' = db_ledger demo_db"
proof -
  let ?c = "Call_deposit (demo_deposit\<lparr>da_currency := Some ''UGX''\<rparr>)"
  have conv: "converts demo_db ?c" by (simp add: converts_def demo_deposit_def demo_accounts)
  have cl: "we_commit_closes demo_env" by (simp add: demo_env_def)
  obtain db' where run: "money_exec demo_env ?c demo_db = (Inl InvalidRequestError, db')"
    by (simp add: deposit_eval demo_deposit_def demo_defs limit_eval op_eval Let_def get_rate_safe_def
        fx_validate_currencies_def FX_CURRENCIES_def get_cached_rate_def fetch_from_api_safe_def mock_rates_def
        update_rate_cache_def deposit_fx_def)
  from conversion_never_completes [OF cl demo_inv conv] run show ?thesis by (auto simp: quiet_def)
qed

text \<open>
  A platform fee in a second currency overdraws the account: the fee is added to the debited amount for the balance
  check in the debited currency, but posted in the fee currency, of which the account may hold nothing.  From the opening
  state of the worked example, in which no balance is negative, one successful transfer of 30 USD with a fee of 50 UGX leaves
  the sender at -50 UGX.
\<close>

theorem fee_overdraws:
  "solvent demo_db
   \<and> (case transfer demo_env (demo_transfer\<lparr>ta_platform_fee := Some 50, ta_fee_currency := Some ''UGX''\<rparr>) demo_db of
        (Inl e, db') \<Rightarrow> False
      | (Inr r, db') \<Rightarrow> \<not> wr_already_processed r \<and> get_balance db' 1 ''UGX'' None = - 50)"
proof -
  have "solvent demo_db" by (simp add: solvent_def demo_balance)
  then show ?thesis
    by (simp add: transfer_eval demo_transfer_def demo_defs limit_eval op_eval Let_def get_balance_sum
        entry_effect_make_entry)
qed

text \<open>
  Approving a pending transaction by hand swallows it.  After \<open>approve_transaction\<close> on a pending transaction the
  ledger is what it was, and whatever money operation is later called with its key, if it returns it reports the
  transaction as already processed and still adds no ledger entry.
\<close>

theorem approval_swallows_transaction:
  assumes "wallet_inv db" and "find_tx db k = Some t" and "tx_status t = PENDING"
    and "approve_transaction (tx_id t) db = (ok, db1)"
    and "call_key c = Some k" and "money_exec env c db1 = (Inr r, db2)"
  shows "wr_already_processed r \<and> wr_transaction_id r = tx_id t \<and> db_ledger db2 = db_ledger db"
proof -
  have t: "t \<in> set (db_transactions db)" using assms(2) by (auto simp: find_tx_def find_Some_iff)
  with assms(3,4) have db1: "db1 = db\<lparr>db_transactions :=
      update_rows (\<lambda>u. tx_id u = tx_id t) (\<lambda>u. u\<lparr>tx_status := COMPLETED\<rparr>) (db_transactions db)\<rparr>"
    by (auto simp: approve_transaction_def list_ex_iff split: if_splits)
  have "find_tx db1 k = Some (t\<lparr>tx_status := COMPLETED\<rparr>)"
    using assms(2) by (simp add: db1 find_tx_def find_update_rows)
  then have key: "completed_key db1 k (tx_id t)" by (simp add: completed_key_def)
  have inv: "wallet_inv db1"
    using wallet_step_ok [OF wallet_step.Approve_tx [of db "tx_id t"] assms(1)] assms(4) by (simp add: step_ok_def)
  from completed_key_replay [OF inv key assms(5,6)] show ?thesis by (simp add: quiet_def db1)
qed

theorem approval_swallows_transaction_witness:
  "\<exists>db db1 r db2. find_tx db ''dep-1'' \<noteq> None \<and> approve_transaction 30 db = (True, db1)
     \<and> money_exec demo_env (Call_deposit demo_deposit) db1 = (Inr r, db2) \<and> db_ledger db2 = db_ledger db"
proof -
  let ?t = "\<lparr>tx_id = 30, tx_client_request_id = ''dep-1'', tx_type = DEPOSIT, tx_status = PENDING, tx_amount = 50,
    tx_currency = ''USD'', tx_user_id = Some 1, tx_recipient_user_id = None, tx_metadata = Map.empty,
    tx_external_reference = None, tx_created_at = 0, tx_completed_at = None,
    tx_failed_at = None, tx_failure_reason = None\<rparr>"
  let ?db = "demo_db\<lparr>db_transactions := db_transactions demo_db @ [?t], db_next_id := 31\<rparr>"
  have inv: "wallet_inv ?db" using demo_inv by (auto simp: wallet_inv_def demo_defs)
  have key: "find_tx ?db ''dep-1'' = Some ?t" by (simp add: find_tx_def demo_defs)
  obtain db1 where app: "approve_transaction (tx_id ?t) ?db = (True, db1)"
    by (simp add: approve_transaction_def)
  then obtain r db2 where run: "money_exec demo_env (Call_deposit demo_deposit) db1 = (Inr r, db2)"
    by (auto simp: approve_transaction_def deposit_eval demo_deposit_def demo_defs limit_eval op_eval Let_def
        get_by_client_request_id_def)
  have "call_key (Call_deposit demo_deposit) = Some ''dep-1''"
    by (simp add: deposit_key_def str_or_else_def demo_deposit_def)
  from approval_swallows_transaction [OF inv key _ app this run] key app run show ?thesis by force
qed

lemma approve_adjustment_failed:
  assumes "approve_adjustment env key rid u aa db = (Inl e, db')"
  shows "side_kept db db'"
proof -
  have "side_kept db db1" if "admin_deposit env key acc am cur rs db = (x, db1)" for acc am cur rs x db1
    using admin_side(1) [of db env key acc am cur rs] that by simp
  moreover have "side_kept db db1" if "admin_withdraw env key acc am cur rs db = (x, db1)" for acc am cur rs x db1
    using admin_side(2) [of db env key acc am cur rs] that by simp
  ultimately show ?thesis
    using assms by (auto simp: approve_adjustment_def Let_def split: if_splits option.splits prod.splits sum.splits)
qed

lemma auto_adjustment_failed:
  assumes "admin_request_adjustment env key acc am cur ty reason db = (Inl e, db')"
    and "db_adjustments db' \<noteq> db_adjustments db"
  obtains req u where "aj_public_id req = db_next_id db" and "aj_status req = ADJ_APPROVED"
    and "aj_transaction_id req = None"
    and "approve_adjustment env key (db_next_id db) u True (take_ids 1 (db\<lparr>db_adjustments := db_adjustments db @ [req]\<rparr>))
         = (Inl e, db')"
  using assms unfolding admin_request_adjustment_def Let_def
  by (auto split: sum.splits prod.splits if_splits) (erule that [unfolded One_nat_def, rotated 3]; simp)

text \<open>
  A small adjustment that fails stays approved.  A request in UGX below the threshold is stored as approved before
  its money moves; if that fails, the request remains approved without a transaction, and neither approval nor
  rejection can be repeated.
\<close>

theorem failed_auto_adjustment_stays_approved:
  assumes "admin_request_adjustment env key acc am ''UGX'' ty reason db = (Inl e, db')"
    and "db_adjustments db' \<noteq> db_adjustments db" and "requests_bounded db"
  shows "\<exists>a. find_adjustment db' (db_next_id db) = Some a \<and> aj_status a = ADJ_APPROVED \<and> aj_transaction_id a = None
    \<and> (\<forall>env' key' u. fst (approve_adjustment env' key' (db_next_id db) u False db') \<in> {Inl PermissionError,
          Inl (ValueError ''Request is already processed'')}
        \<and> fst (reject_adjustment env' (db_next_id db) u reason db') \<in> {Inl PermissionError,
          Inl (ValueError ''Request is already processed'')})"
proof -
  let ?rid = "db_next_id db"
  from assms(1,2) obtain req u where req: "aj_public_id req = ?rid" "aj_status req = ADJ_APPROVED"
      "aj_transaction_id req = None"
    and run: "approve_adjustment env key ?rid u True (take_ids 1 (db\<lparr>db_adjustments := db_adjustments db @ [req]\<rparr>))
              = (Inl e, db')"
    by (rule auto_adjustment_failed)
  have "side_kept (take_ids 1 (db\<lparr>db_adjustments := db_adjustments db @ [req]\<rparr>)) db'"
    using run by (rule approve_adjustment_failed)
  then have "db_adjustments db' = db_adjustments db @ [req]" by (simp add: side_kept_def take_ids_def)
  moreover have "find (\<lambda>a. aj_public_id a = ?rid) (db_adjustments db) = None"
    using assms(3) by (auto simp: requests_bounded_def list_all_iff find_None_iff)
  ultimately have f: "find_adjustment db' ?rid = Some req"
    using req by (simp add: find_adjustment_def find_append)
  with req show ?thesis by (auto simp: approve_adjustment_def reject_adjustment_def)
qed

definition demo_admin :: wallet_env where
  "demo_admin = demo_env\<lparr>we_has_global_role := \<lambda>_ _. True, we_config := [''WALLET_MAX_DEPOSIT'' \<mapsto> 10]\<rparr>"

theorem failed_auto_adjustment_witness:
  "\<exists>e db'. admin_request_adjustment demo_admin ''adj'' 1 500 ''UGX'' ''deposit'' ''goodwill'' demo_db = (Inl e, db')
     \<and> (\<exists>a. find_adjustment db' (db_next_id demo_db) = Some a \<and> aj_status a = ADJ_APPROVED \<and> aj_transaction_id a = None)"
proof -
  have rs: "reason_given ''goodwill''" "reason_given (''Auto-Approved Adjustment: goodwill'')" by code_simp+
  have dep: "admin_deposit demo_admin ''adj'' 1 500 ''UGX'' rs d = (Inl (LimitExceededError ''per_transaction'' ''any''), d)"
    if "reason_given rs" for rs d
    using that by (simp add: admin_deposit_def is_admin_def deposit_def deposit_validate_def resolve_account_def
        demo_admin_def demo_env_def limit_eval quantize_def quantize_to_def round_down_def Let_def)
  obtain e db' where run:
    "admin_request_adjustment demo_admin ''adj'' 1 500 ''UGX'' ''deposit'' ''goodwill'' demo_db = (Inl e, db')"
    and new: "db_adjustments db' \<noteq> db_adjustments demo_db"
    by (simp add: admin_request_adjustment_def approve_adjustment_def find_adjustment_def rs dep [unfolded One_nat_def] Let_def
        get_account_def account_get_by_id_def demo_admin_def [THEN arg_cong, of we_current_user]
        demo_admin_def [THEN arg_cong, of we_adjustment_threshold] is_admin_def
        demo_admin_def [THEN arg_cong, of we_has_global_role] quantize_def quantize_to_def round_down_def take_ids_def
        demo_defs)
  have "requests_bounded demo_db" by (simp add: requests_bounded_def demo_defs)
  from failed_auto_adjustment_stays_approved [OF run new this] run show ?thesis by blast
qed

end
