(* ===== verification/Wallet_Refinement.thy ===== *)
theory Wallet_Refinement
  imports Wallet_Runs
begin

section \<open>The wallet refines a bank\<close>

text \<open>
  The contract of the wallet service towards its callers, without tables: a bank knows a balance per account and
  currency and the keys it has already executed.  It executes a request at most once per key, credits and debits
  positive amounts, and never debits more than there is.  Every ordinary step of the service, whatever its outcome,
  is a sequence of bank steps on the abstraction of its tables.
\<close>

subsection \<open>The bank\<close>

record bank =
  bal :: "uuid \<Rightarrow> currency \<Rightarrow> money"
  spent :: "string set"

definition add_to :: "uuid \<Rightarrow> currency \<Rightarrow> money \<Rightarrow> (uuid \<Rightarrow> currency \<Rightarrow> money) \<Rightarrow> uuid \<Rightarrow> currency \<Rightarrow> money" where
  "add_to a c x f = (\<lambda>i d. f i d + (if i = a \<and> d = c then x else 0))"

inductive bank_step :: "bank \<Rightarrow> bank \<Rightarrow> bool" where
  Credit: "k \<notin> spent b \<Longrightarrow> 0 < x \<Longrightarrow> bank_step b \<lparr>bal = add_to a c x (bal b), spent = insert k (spent b)\<rparr>"
| Debit: "k \<notin> spent b \<Longrightarrow> 0 < x \<Longrightarrow> x \<le> bal b a c \<Longrightarrow>
    bank_step b \<lparr>bal = add_to a c (- x) (bal b), spent = insert k (spent b)\<rparr>"
| Move: "k \<notin> spent b \<Longrightarrow> 0 < x \<Longrightarrow> 0 < y \<Longrightarrow> 0 \<le> fee \<Longrightarrow> x + fee \<le> bal b a c \<Longrightarrow>
    bank_step b \<lparr>bal = add_to a' c' y (add_to a c (- (x + fee)) (bal b)), spent = insert k (spent b)\<rparr>"

text \<open>The bank that the tables represent.\<close>

definition bank_of :: "wallet_db \<Rightarrow> bank" where
  "bank_of db = \<lparr>bal = (\<lambda>a c. get_balance db a c None), spent = {k. \<exists>i. completed_key db k i}\<rparr>"

abbreviation refines :: "wallet_db \<Rightarrow> wallet_db \<Rightarrow> bool" where
  "refines db db' \<equiv> bank_step\<^sup>*\<^sup>* (bank_of db) (bank_of db')"

lemma bank_of_cong: "db_ledger db' = db_ledger db \<Longrightarrow> db_transactions db' = db_transactions db \<Longrightarrow> bank_of db' = bank_of db"
  by (simp add: bank_of_def get_balance_def completed_key_def find_tx_def)

lemma quiet_bank: "quiet db db' \<Longrightarrow> bank_of db' = bank_of db"
  by (rule bank_of_cong) (simp_all add: quiet_def)

lemma posted_bank:
  assumes "posted db key i es db'"
  obtains k where "key = Some k" and "k \<notin> spent (bank_of db)"
    and "bank_of db' = \<lparr>bal = (\<lambda>a c. bal (bank_of db) a c + sum_list (map (entry_effect a c) es)),
                        spent = insert k (spent (bank_of db))\<rparr>"
proof -
  from assms obtain k t where key: "key = Some k" and t: "find_tx db' k = Some t" "tx_status t = COMPLETED"
    and was: "case find_tx db k of None \<Rightarrow> True | Some t \<Rightarrow> tx_status t \<noteq> COMPLETED"
    and others: "\<And>k'. k' \<noteq> k \<Longrightarrow> find_tx db' k' = find_tx db k'"
    by (auto simp: posted_def split: option.splits)
  have "completed_key db' k' j \<longleftrightarrow> (if k' = k then j = tx_id t else completed_key db k' j)" for k' j
    using t others by (auto simp: completed_key_def)
  then have "{k'. \<exists>j. completed_key db' k' j} = insert k {k'. \<exists>j. completed_key db k' j}" by auto
  moreover have "k \<notin> spent (bank_of db)" using was by (auto simp: bank_of_def completed_key_def split: option.splits)
  ultimately show thesis
    using that [OF key] posted_balance [OF assms] by (simp add: bank_of_def)
qed

lemma posted_credit:
  assumes "posted db key i [make_entry now n tx a CREDIT x c] db'"
  shows "bank_step (bank_of db) (bank_of db')"
  using assms
proof (rule posted_bank)
  fix k
  assume k: "k \<notin> spent (bank_of db)"
    and db': "bank_of db' = \<lparr>bal = (\<lambda>j d. bal (bank_of db) j d + sum_list (map (entry_effect j d) [make_entry now n tx a CREDIT x c])),
                        spent = insert k (spent (bank_of db))\<rparr>"
  have "0 < x" using assms by (simp add: posted_def)
  from bank_step.Credit [OF k this, of a c] show ?thesis
    unfolding db' by (simp add: add_to_def entry_effect_make_entry eq_commute)
qed

lemma posted_debit:
  assumes "posted db key i [make_entry now n tx a DEBIT x c] db'" and "x \<le> get_balance db a c None"
  shows "bank_step (bank_of db) (bank_of db')"
  using assms(1)
proof (rule posted_bank)
  fix k
  assume k: "k \<notin> spent (bank_of db)"
    and db': "bank_of db' = \<lparr>bal = (\<lambda>j d. bal (bank_of db) j d + sum_list (map (entry_effect j d) [make_entry now n tx a DEBIT x c])),
                        spent = insert k (spent (bank_of db))\<rparr>"
  have "0 < x" using assms(1) by (simp add: posted_def)
  moreover have "x \<le> bal (bank_of db) a c" using assms(2) by (simp add: bank_of_def)
  ultimately show ?thesis
    using bank_step.Debit [OF k, of x a c] unfolding db' by (simp add: add_to_def entry_effect_make_entry eq_commute)
qed

lemma posted_move:
  assumes post: "posted db key i (transfer_entries env args fa ta legs i n) db'"
    and enough: "tl_debit_amount legs + fee_of args \<le> get_balance db (ac_id fa) (tl_debit_currency legs) None"
    and fee: "0 \<le> fee_of args" "fee_of args = 0 \<or> fee_currency_of args = tl_debit_currency legs"
  shows "bank_step (bank_of db) (bank_of db')"
  using post
proof (rule posted_bank)
  let ?es = "transfer_entries env args fa ta legs i n"
  let ?sent = "tl_debit_amount legs + fee_of args"
  let ?moved = "add_to (ac_id ta) (tl_credit_currency legs) (tl_credit_amount legs)
    (add_to (ac_id fa) (tl_debit_currency legs) (- ?sent) (bal (bank_of db)))"
  fix k
  assume k: "k \<notin> spent (bank_of db)"
    and db': "bank_of db' = \<lparr>bal = (\<lambda>j d. bal (bank_of db) j d + sum_list (map (entry_effect j d) ?es)),
                        spent = insert k (spent (bank_of db))\<rparr>"
  have pos: "0 < tl_debit_amount legs" "0 < tl_credit_amount legs"
    using post by (auto simp: posted_def transfer_entries_def)
  have "bal (bank_of db) j d + sum_list (map (entry_effect j d) ?es) = ?moved j d" for j d
    using fee unfolding transfer_entries_effect by (auto simp: add_to_def)
  then have "bank_of db' = \<lparr>bal = ?moved, spent = insert k (spent (bank_of db))\<rparr>" by (simp add: db')
  moreover have "?sent \<le> bal (bank_of db) (ac_id fa) (tl_debit_currency legs)" using enough by (simp add: bank_of_def)
  ultimately show ?thesis
    using bank_step.Move [OF k pos fee(1)] by simp
qed

subsection \<open>The operations refine the bank\<close>

lemma deposit_refines:
  assumes "wallet_inv db"
  shows "refines db (snd (deposit env args db))"
proof (cases "deposit env args db")
  case (Pair x db')
  show ?thesis
  proof (cases x)
    case (Inl e)
    with Pair have "quiet db db'" by (metis deposit_Inl fx_quiet)
    with Pair show ?thesis by (simp add: quiet_bank)
  next
    case (Inr r)
    from Pair Inr have "deposit env args db = (Inr r, db')" by simp
    then show ?thesis
    proof (rule deposit_Inr)
      fix i am cur a am' cur' md db1
      assume post: "deposit_post env args a am' cur' (deposit_key args) md db1 = Inr (r, db')" and q: "quiet db db1"
      from quiet_inv [OF q assms] post show ?thesis
        by (cases rule: deposit_post_cases)
          (use q Pair in \<open>auto simp: quiet_bank dest: quiet_posted [OF q] posted_credit\<close>)
    qed
  qed
qed

lemma withdraw_refines:
  assumes "wallet_inv db"
  shows "refines db (snd (withdraw env args db))"
proof (cases "withdraw env args db")
  case (Pair x db')
  show ?thesis
  proof (cases x)
    case (Inl e)
    with Pair show ?thesis by (auto dest: withdraw_Inl)
  next
    case (Inr r)
    from Pair Inr have "withdraw env args db = (Inr r, db')" by simp
    then show ?thesis
    proof (rule withdraw_Inr)
      fix am a
      assume chk: "withdraw_checks env args am db = Inr a" and post: "withdraw_post env args a am db = Inr (r, db')"
      from assms post show ?thesis
      proof (cases rule: withdraw_post_cases)
        case (new n es)
        have "bank_step (bank_of db) (bank_of db')"
          by (rule posted_debit) (use new(1,2) withdraw_checks_Inr [OF chk] in auto)
        with Pair show ?thesis by auto
      qed (use Pair in simp)
    qed
  qed
qed

lemma transfer_refines:
  assumes "wallet_inv db" and fee: "fee_in_sender_currency args db"
  shows "refines db (snd (transfer env args db))"
proof (cases "transfer env args db")
  case (Pair x db')
  show ?thesis
  proof (cases "\<exists>r. x = Inr r \<and> \<not> wr_already_processed r")
    case True
    then obtain r where r: "transfer env args db = (Inr r, db')" "\<not> wr_already_processed r" using Pair by auto
    from assms(1) r have "bank_step (bank_of db) (bank_of db')"
    proof (rule transfer_moved)
      fix am fa ta legs n db1
      assume fa: "fa \<in> set (db_accounts db)" "ac_id fa = ta_from_account_id args"
        and legs: "\<exists>db2 c. transfer_legs_of env fa ta am (ta_currency args) db2 = (Inr legs, c)"
        and enough: "tl_debit_amount legs + fee_of args \<le> get_balance db (ac_id fa) (tl_debit_currency legs) None"
        and post: "posted db (ta_client_request_id args) (wr_transaction_id r)
          (transfer_entries env args fa ta legs (wr_transaction_id r) n) db'"
      from legs have "tl_debit_currency legs = ac_currency fa" by (auto dest: transfer_debit_currency)
      with fee fa have "0 \<le> fee_of args" "fee_of args = 0 \<or> fee_currency_of args = tl_debit_currency legs"
        by (auto simp: fee_in_sender_currency_def list_all_iff)
      with post enough show ?thesis by (rule posted_move)
    qed
    with Pair show ?thesis by auto
  next
    case False
    with Pair have "quiet db db'" by (intro transfer_idle [OF assms(1)]) auto
    with Pair show ?thesis by (simp add: quiet_bank)
  qed
qed

lemma set_adjustment_bank [simp]: "bank_of (set_adjustment rid f db) = bank_of db"
  by (rule bank_of_cong) (simp_all add: set_adjustment_def)

lemma approve_adjustment_refines:
  assumes "wallet_inv db"
  shows "refines db (snd (approve_adjustment env key rid uid aa db))"
proof -
  have "refines db db1" if "admin_deposit env key acc am cur reason db = (x, db1)" for acc am cur reason x db1
    using deposit_refines [OF assms] that by (auto simp: admin_deposit_def split: if_splits) (metis snd_conv)+
  moreover have "refines db db1" if "admin_withdraw env key acc am cur reason db = (x, db1)" for acc am cur reason x db1
    using withdraw_refines [OF assms] that by (auto simp: admin_withdraw_def split: if_splits) (metis snd_conv)+
  ultimately show ?thesis
    by (auto simp: approve_adjustment_def Let_def split: option.splits prod.splits sum.splits)
qed

lemma request_adjustment_refines:
  assumes "wallet_inv db"
  shows "refines db (snd (admin_request_adjustment env key acc am cur ty reason db))"
proof -
  have req: "bank_of (take_ids 1 (db\<lparr>db_adjustments := xs\<rparr>)) = bank_of db" for xs
    by (rule bank_of_cong) simp_all
  have app: "refines db db2"
    if "approve_adjustment env key rid uid True (take_ids 1 (db\<lparr>db_adjustments := xs\<rparr>)) = (x, db2)" for rid uid xs x db2
  proof -
    have "wallet_inv (take_ids 1 (db\<lparr>db_adjustments := xs\<rparr>))" by (rule wallet_inv_cong [OF assms]) simp_all
    from approve_adjustment_refines [OF this, of env key rid uid True] that show ?thesis by (simp only: req snd_conv)
  qed
  show ?thesis
    using req
    by (auto simp: admin_request_adjustment_def Let_def split: sum.splits prod.splits dest: app [unfolded One_nat_def])
qed

lemma ordinary_step_refines: "ordinary_step db db' \<Longrightarrow> wallet_inv db \<Longrightarrow> refines db db'"
  by (cases rule: ordinary_step.cases)
    (auto intro: transfer_refines deposit_refines withdraw_refines request_adjustment_refines
      approve_adjustment_refines simp: reject_adjustment_def split: option.splits)

interpretation bank: simulation ordinary_step wallet_inv bank_step bank_of
  by unfold_locales (auto intro: ordinary_step_refines dest: wallet_step_ok [OF ordinary_is_step] simp: step_ok_def)

text \<open>
  C3: the wallet service refines the bank.  Every run of deposits, withdrawals, adjustments and transfers whose
  platform fee is not negative and in the sender's currency is, through the balances of the ledger and the completed
  idempotency keys, a run of the bank: money appears only by a credit, leaves an account only by a debit or a
  transfer the account covers, fee included, and no key is executed twice.
\<close>

theorem wallet_refines_bank:
  assumes "ordinary_step\<^sup>*\<^sup>* db db'" and "wallet_inv db"
  shows "bank_step\<^sup>*\<^sup>* (bank_of db) (bank_of db')"
  using assms by (rule bank.run_simulated)

theorem wallet_refines_bank_witness:
  "\<exists>db'. ordinary_step\<^sup>*\<^sup>* demo_db db' \<and> bal (bank_of db') 1 ''USD'' = 60
     \<and> bank_step\<^sup>*\<^sup>* (bank_of demo_db) (bank_of db')"
proof -
  obtain r db' where run: "withdraw demo_env demo_withdraw demo_db = (Inr r, db')"
    and bal: "get_balance db' 1 ''USD'' None = 60"
    by (simp add: withdraw_eval demo_withdraw_def demo_defs limit_eval op_eval Let_def)
  have steps: "ordinary_step\<^sup>*\<^sup>* demo_db db'"
    using ordinary_step.Withdraw [of demo_db demo_env demo_withdraw] run by (auto intro: r_into_rtranclp)
  from wallet_refines_bank [OF steps demo_inv] steps bal show ?thesis by (auto simp: bank_of_def)
qed

subsection \<open>No overdraft\<close>

text \<open>A bank without negative balances keeps this, hence so does the wallet.\<close>

lemma bank_step_solvent: "bank_step b b' \<Longrightarrow> \<forall>a c. 0 \<le> bal b a c \<Longrightarrow> \<forall>a c. 0 \<le> bal b' a c"
  by (erule bank_step.cases) (auto simp: add_to_def)

interpretation solvent_bank: run_invariant bank_step "\<lambda>b. \<forall>a c. 0 \<le> bal b a c"
  by unfold_locales (rule bank_step_solvent)

text \<open>
  C2: no overdraft.  From a database without negative balances, no run of deposits, withdrawals, adjustments and
  transfers whose platform fee is not negative and in the sender's currency makes any balance of any account in
  any currency negative.
\<close>

theorem no_overdraft:
  assumes "ordinary_step\<^sup>*\<^sup>* db db'" and "wallet_inv db" and "solvent db"
  shows "solvent db'"
  using bank.abstract_invariant [OF solvent_bank.run_invariant_axioms assms(1,2)] assms(3)
  by (simp add: solvent_def bank_of_def)

theorem no_overdraft_witness:
  "\<exists>db'. ordinary_step\<^sup>*\<^sup>* demo_db db' \<and> get_balance db' 1 ''USD'' None = 60 \<and> solvent db'"
proof -
  obtain r db' where run: "withdraw demo_env demo_withdraw demo_db = (Inr r, db')"
    and bal: "get_balance db' 1 ''USD'' None = 60"
    by (simp add: withdraw_eval demo_withdraw_def demo_defs limit_eval op_eval Let_def)
  have steps: "ordinary_step\<^sup>*\<^sup>* demo_db db'"
    using ordinary_step.Withdraw [of demo_db demo_env demo_withdraw] run by (auto intro: r_into_rtranclp)
  have "solvent demo_db" by (simp add: solvent_def demo_balance)
  from no_overdraft [OF steps demo_inv this] steps bal show ?thesis by blast
qed

end
