(* ===== verification/Market_Invoices.thy ===== *)
theory Market_Invoices
  imports Wallet_Service "HOL-Library.List_Lexorder"
begin

section \<open>Marketplace invoices\<close>

text \<open>
  Models \<open>app/wallet/services/marketplace_invoice_service.py\<close> with the rows of \<open>app/wallet/models/marketplace_invoice.py\<close> and the
  columns of \<open>PaymentMethodConfig\<close> it reads.  The service sits on the wallet: it settles and refunds through
  \<open>WalletService.transfer\<close>, which is the function \<open>transfer\<close> on the wallet's part of the database.  Every operation is
  called with \<open>commit=True\<close>, and an exception rolls back to the last commit.  Reading the dynamic relationships of an
  invoice flushes the session first, so the constraints of pending rows are checked there.  The branch of \<open>create_invoice\<close> for a
  concurrent insert is not reached when operations run one at a time.  The text of a UUID, the random part of a refund key and
  the \<open>extra_data\<close> column of an account are inputs; texts for people are left out.
\<close>

subsection \<open>Rows\<close>

record cash_receipt =
  rc_driver_user_id :: user_id
  rc_driver_profile_id :: int
  rc_driver_code :: "string option"
  rc_confirmed_at :: time
  rc_amount :: money
  rc_currency :: currency
  rc_service_reference :: string

record refund_note =
  rn_amount :: money
  rn_reason :: string
  rn_initiated_by :: user_id
  rn_at :: time

record market_invoice =
  mi_id :: uuid
  mi_idempotency_key :: string
  mi_service_code :: string
  mi_service_reference :: string
  mi_payer_user_id :: user_id
  mi_amount :: money
  mi_currency :: currency
  mi_payment_method :: string
  mi_settlement_timing :: string
  mi_service_country_code :: "string option"
  mi_payer_country_code :: "string option"
  mi_status :: string
  mi_transaction_id :: "uuid option"
  mi_provider_reference :: "string option"
  mi_cash_received_by :: "user_id option"
  mi_metadata :: metadata
  mi_last_refund :: "refund_note option"
  mi_receipt :: "cash_receipt option"
  mi_created_at :: time
  mi_due_at :: "time option"
  mi_paid_at :: "time option"
  mi_cash_received_at :: "time option"
  mi_cancelled_at :: "time option"

record payment_attempt =
  at_id :: uuid
  at_invoice_id :: uuid
  at_number :: int
  at_amount :: money
  at_currency :: currency
  at_payment_method :: string
  at_provider_name :: "string option"
  at_provider_reference :: "string option"
  at_status :: string
  at_idempotency_key :: "string option"
  at_error_code :: "string option"
  at_error_message :: "string option"
  at_completed_at :: "time option"

record allocation =
  ao_transaction_id :: uuid
  ao_invoice_id :: uuid
  ao_amount :: money
  ao_currency :: currency

record method_config =
  mc_method_id :: string
  mc_display_name :: string
  mc_provider_name :: string
  mc_country_code :: string
  mc_is_enabled :: bool
  mc_is_active :: bool
  mc_supported_currencies :: "string list"
  mc_allowed_timings :: "string list"
  mc_collection_implemented :: bool
  mc_min_amount :: "money option"
  mc_max_amount :: "money option"

text \<open>The audit row of a cash receipt, which belongs to no transaction.\<close>

record receipt_audit =
  ra_actor_id :: user_id
  ra_invoice_id :: uuid
  ra_driver_profile_id :: int
  ra_amount :: money
  ra_currency :: currency
  ra_request_id :: string

record market_db =
  mk_wallet :: wallet_db
  mk_invoices :: "market_invoice list"
  mk_attempts :: "payment_attempt list"
  mk_allocations :: "allocation list"
  mk_configs :: "method_config list"
  mk_receipt_audits :: "receipt_audit list"
  mk_next_id :: uuid

text \<open>
  \<open>me_uuid_text\<close> is \<open>str\<close> of a UUID; \<open>me_transport_escrow\<close> says whether the \<open>extra_data\<close> of an account names the service
  type transport; \<open>me_refund_nonce\<close> is the random suffix of a refund key.
\<close>

record market_env =
  me_wallet :: wallet_env
  me_uuid_text :: "uuid \<Rightarrow> string"
  me_transport_escrow :: "uuid \<Rightarrow> bool"
  me_refund_nonce :: string

abbreviation me_now :: "market_env \<Rightarrow> time" where
  "me_now env \<equiv> we_now (me_wallet env)"

datatype market_error =
    MarketplaceInvoiceError string
  | Raised wallet_error
  | DataError
  | NameError

subsection \<open>Properties of an invoice\<close>

definition SUPPORTED_SETTLEMENT_TIMINGS :: "string list" where
  "SUPPORTED_SETTLEMENT_TIMINGS = [''pay_on_completion'', ''pay_now'', ''deposit'', ''pay_on_arrival'']"

definition SETTLED_STATES :: "string list" where
  "SETTLED_STATES = [''paid'', ''cash_received'']"

definition allocations_of :: "market_db \<Rightarrow> uuid \<Rightarrow> allocation list" where
  "allocations_of db i = filter (\<lambda>a. ao_invoice_id a = i) (mk_allocations db)"

definition allocated :: "market_db \<Rightarrow> uuid \<Rightarrow> money" where
  "allocated db i = sum_list (map ao_amount (allocations_of db i))"

definition outstanding_amount :: "market_db \<Rightarrow> market_invoice \<Rightarrow> money" where
  "outstanding_amount db iv =
     (if mi_status iv = ''paid'' \<or> mi_status iv = ''cash_received'' then 0
      else max (mi_amount iv - allocated db (mi_id iv)) 0)"

subsection \<open>Normalisation\<close>

definition invoice_error :: "string \<Rightarrow> market_error + 'a" where
  "invoice_error code = Inl (MarketplaceInvoiceError code)"

text \<open>\<open>_money\<close>: \<open>None\<close> stands for a value that is no number.\<close>

definition invoice_money :: "money option \<Rightarrow> market_error + money" where
  "invoice_money v =
     (case v of
        None \<Rightarrow> invoice_error ''invalid_amount''
      | Some x \<Rightarrow> if cents round_half_up x \<le> 0 then invoice_error ''invalid_amount'' else Inr (cents round_half_up x))"

definition is_alpha :: "char \<Rightarrow> bool" where
  "is_alpha c \<longleftrightarrow> (CHR ''a'' \<le> c \<and> c \<le> CHR ''z'') \<or> (CHR ''A'' \<le> c \<and> c \<le> CHR ''Z'')"

definition invoice_currency :: "string \<Rightarrow> market_error + currency" where
  "invoice_currency v =
     (let r = str_upper (str_strip v) in
      if r = [] \<or> length r > 10 \<or> \<not> list_all is_alpha r then invoice_error ''invalid_currency'' else Inr r)"

definition norm_lower :: "string \<Rightarrow> string" where
  "norm_lower v = str_lower (str_strip v)"

text \<open>\<open>str(v).strip().upper() if v else None\<close>\<close>

definition norm_country :: "string option \<Rightarrow> string option" where
  "norm_country v = (case v of None \<Rightarrow> None | Some c \<Rightarrow> if c = [] then None else Some (str_upper (str_strip c)))"

subsection \<open>Payment methods\<close>

definition supports_currency :: "method_config \<Rightarrow> string \<Rightarrow> bool" where
  "supports_currency c cur \<longleftrightarrow> str_upper cur \<in> set (map str_upper (mc_supported_currencies c))"

definition allows_timing :: "method_config \<Rightarrow> string \<Rightarrow> bool" where
  "allows_timing c t \<longleftrightarrow> t \<in> set (map norm_lower (mc_allowed_timings c))"

definition amount_in_range :: "method_config \<Rightarrow> money \<Rightarrow> bool" where
  "amount_in_range c a \<longleftrightarrow>
     \<not> (a < (case mc_min_amount c of None \<Rightarrow> 0 | Some m \<Rightarrow> m) \<or> (case mc_max_amount c of None \<Rightarrow> False | Some m \<Rightarrow> a > m))"

definition find_config :: "market_db \<Rightarrow> string \<Rightarrow> method_config option" where
  "find_config db m = find (\<lambda>c. mc_method_id c = m \<and> mc_is_enabled c \<and> mc_is_active c) (mk_configs db)"

definition method_config_for ::
  "market_db \<Rightarrow> string \<Rightarrow> currency \<Rightarrow> money \<Rightarrow> string \<Rightarrow> string option \<Rightarrow> market_error + method_config" where
  "method_config_for db method cur amount timing country =
     (case find_config db (norm_lower method) of
        None \<Rightarrow> invoice_error ''method_unavailable''
      | Some c \<Rightarrow>
          if \<not> mc_collection_implemented c then invoice_error ''method_not_integrated''
          else if \<not> supports_currency c cur then invoice_error ''currency_not_supported''
          else if \<not> allows_timing c timing then invoice_error ''timing_not_supported''
          else if (case norm_country country of
                     None \<Rightarrow> False
                   | Some s \<Rightarrow> mc_country_code c \<noteq> [] \<and> str_upper (mc_country_code c) \<noteq> s)
          then invoice_error ''market_not_supported''
          else if \<not> amount_in_range c amount then invoice_error ''amount_out_of_range''
          else Inr c)"

definition wallet_account_available :: "market_db \<Rightarrow> user_id option \<Rightarrow> currency \<Rightarrow> bool" where
  "wallet_account_available db payer cur =
     (case payer of
        None \<Rightarrow> False
      | Some u \<Rightarrow>
          list_ex (\<lambda>a. ac_user_id a = Some u \<and> ac_owner_type a = USER \<and> ac_currency a = cur
                       \<and> ac_status a = ACTIVE \<and> \<not> ac_is_frozen a) (db_accounts (mk_wallet db)))"

definition wallet_requires_transaction_pin :: "market_db \<Rightarrow> user_id option \<Rightarrow> bool" where
  "wallet_requires_transaction_pin db payer =
     (case payer of
        None \<Rightarrow> True
      | Some u \<Rightarrow>
          (case find (\<lambda>p. pu_id p = u) (db_users (mk_wallet db)) of
             None \<Rightarrow> True
           | Some p \<Rightarrow> pu_pin_hash p \<notin> {None, Some []}))"

record method_offer =
  mo_code :: string
  mo_label :: string
  mo_default :: bool
  mo_category :: string
  mo_gateway :: "string option"

definition offer_of :: "method_config \<Rightarrow> method_offer" where
  "offer_of c =
     (let m = norm_lower (mc_method_id c) in
      \<lparr>mo_code = m, mo_label = mc_display_name c, mo_default = (m = ''cash''),
       mo_category = (if m = ''cash'' then ''offline'' else ''digital''),
       mo_gateway = (if mc_provider_name c \<noteq> ''afcon360'' then Some (mc_provider_name c) else None)\<rparr>)"

text \<open>The test of one configuration row; \<open>amount\<close> is the quoted amount, if there is one.\<close>

definition offered ::
  "market_db \<Rightarrow> user_id option \<Rightarrow> currency \<Rightarrow> money option \<Rightarrow> string \<Rightarrow> string option \<Rightarrow> method_config \<Rightarrow> bool" where
  "offered db payer cur amount timing country c \<longleftrightarrow>
     mc_is_enabled c \<and> mc_is_active c \<and> mc_collection_implemented c \<and> supports_currency c cur \<and> allows_timing c timing
     \<and> (case country of None \<Rightarrow> True | Some s \<Rightarrow> s = [] \<or> str_upper (mc_country_code c) = str_upper s)
     \<and> (case amount of None \<Rightarrow> True | Some a \<Rightarrow> amount_in_range c a)
     \<and> (norm_lower (mc_method_id c) = ''wallet'' \<longrightarrow>
          wallet_account_available db payer cur \<and> \<not> wallet_requires_transaction_pin db payer)"

text \<open>Default methods first, each group by its label; every error gives the empty list.\<close>

definition list_available_methods ::
  "market_db \<Rightarrow> user_id option \<Rightarrow> string \<Rightarrow> money option option \<Rightarrow> string \<Rightarrow> string option \<Rightarrow> method_offer list" where
  "list_available_methods db payer cur amount timing country =
     (case rbind (invoice_currency cur) (\<lambda>c.
           if norm_lower timing \<notin> set SUPPORTED_SETTLEMENT_TIMINGS then Inr []
           else rbind (case amount of None \<Rightarrow> Inr None | Some v \<Rightarrow> rbind (invoice_money v) (\<lambda>a. Inr (Some a))) (\<lambda>q.
             let offers = sort_key (\<lambda>m. str_lower (mo_label m))
                   (map offer_of (filter (offered db payer c q (norm_lower timing) country) (mk_configs db)))
             in Inr (filter mo_default offers @ filter (\<lambda>m. \<not> mo_default m) offers))) of
        Inl _ \<Rightarrow> []
      | Inr ms \<Rightarrow> ms)"

subsection \<open>Creating an invoice\<close>

definition get_invoice :: "market_db \<Rightarrow> uuid \<Rightarrow> market_error + market_invoice" where
  "get_invoice db i =
     (case find (\<lambda>v. mi_id v = i) (mk_invoices db) of
        None \<Rightarrow> invoice_error ''invoice_not_found''
      | Some v \<Rightarrow> Inr v)"

definition find_invoice :: "market_db \<Rightarrow> string \<Rightarrow> string \<Rightarrow> market_invoice option" where
  "find_invoice db code ref =
     find (\<lambda>v. mi_service_code v = norm_lower code \<and> mi_service_reference v = str_strip ref) (mk_invoices db)"

definition put_invoice :: "market_invoice \<Rightarrow> market_db \<Rightarrow> market_db" where
  "put_invoice v db = db\<lparr>mk_invoices := update_rows (\<lambda>x. mi_id x = mi_id v) (\<lambda>_. v) (mk_invoices db)\<rparr>"

record invoice_args =
  ia_idempotency_key :: string
  ia_service_code :: string
  ia_service_reference :: string
  ia_payer_user_id :: "user_id option"
  ia_amount :: "money option"
  ia_currency :: string
  ia_payment_method :: string
  ia_settlement_timing :: string
  ia_service_country_code :: "string option"
  ia_payer_country_code :: "string option"
  ia_metadata :: "metadata option"

text \<open>The normalised terms, in the shape of the row that would be inserted.\<close>

definition invoice_terms :: "market_env \<Rightarrow> invoice_args \<Rightarrow> user_id \<Rightarrow> money \<Rightarrow> currency \<Rightarrow> uuid \<Rightarrow> market_invoice" where
  "invoice_terms env a payer amount cur i =
     \<lparr>mi_id = i, mi_idempotency_key = str_strip (ia_idempotency_key a),
      mi_service_code = norm_lower (ia_service_code a), mi_service_reference = str_strip (ia_service_reference a),
      mi_payer_user_id = payer, mi_amount = amount, mi_currency = cur,
      mi_payment_method = norm_lower (ia_payment_method a), mi_settlement_timing = norm_lower (ia_settlement_timing a),
      mi_service_country_code = norm_country (ia_service_country_code a),
      mi_payer_country_code = norm_country (ia_payer_country_code a), mi_status = ''pending'',
      mi_transaction_id = None, mi_provider_reference = None, mi_cash_received_by = None,
      mi_metadata = (case ia_metadata a of None \<Rightarrow> Map.empty | Some m \<Rightarrow> m), mi_last_refund = None, mi_receipt = None,
      mi_created_at = me_now env, mi_due_at = None, mi_paid_at = None, mi_cash_received_at = None, mi_cancelled_at = None\<rparr>"

definition immutable_terms_match :: "market_invoice \<Rightarrow> market_invoice \<Rightarrow> bool" where
  "immutable_terms_match iv t \<longleftrightarrow>
     mi_service_code iv = mi_service_code t \<and> mi_service_reference iv = mi_service_reference t
     \<and> mi_payer_user_id iv = mi_payer_user_id t \<and> cents round_half_even (mi_amount iv) = mi_amount t
     \<and> str_upper (mi_currency iv) = mi_currency t \<and> str_lower (mi_payment_method iv) = mi_payment_method t
     \<and> str_lower (mi_settlement_timing iv) = mi_settlement_timing t
     \<and> mi_service_country_code iv = mi_service_country_code t \<and> mi_payer_country_code iv = mi_payer_country_code t"

definition check_invoice_args :: "market_env \<Rightarrow> invoice_args \<Rightarrow> uuid \<Rightarrow> market_error + market_invoice" where
  "check_invoice_args env a i =
     rbind (invoice_currency (ia_currency a)) (\<lambda>cur.
     rbind (invoice_money (ia_amount a)) (\<lambda>amount.
     let key = str_strip (ia_idempotency_key a); code = norm_lower (ia_service_code a);
         ref = str_strip (ia_service_reference a) in
     if key = [] \<or> length key > 255 then invoice_error ''invalid_idempotency_key''
     else if code = [] \<or> length code > 50 \<or> ref = [] \<or> length ref > 255 then invoice_error ''invalid_service_reference''
     else case ia_payer_user_id a of
       None \<Rightarrow> invoice_error ''payer_required''
     | Some payer \<Rightarrow>
         if norm_lower (ia_settlement_timing a) \<notin> set SUPPORTED_SETTLEMENT_TIMINGS then invoice_error ''timing_not_supported''
         else Inr (invoice_terms env a payer amount cur i)))"

text \<open>The earlier invoice of a request: by its idempotency key, otherwise by its service reference.\<close>

definition existing_invoice :: "market_db \<Rightarrow> market_invoice \<Rightarrow> market_invoice option" where
  "existing_invoice db t =
     (case find (\<lambda>v. mi_idempotency_key v = mi_idempotency_key t) (mk_invoices db) of
        Some v \<Rightarrow> Some v
      | None \<Rightarrow> find (\<lambda>v. mi_service_code v = mi_service_code t \<and> mi_service_reference v = mi_service_reference t)
                  (mk_invoices db))"

definition check_wallet_method :: "market_db \<Rightarrow> market_invoice \<Rightarrow> market_error + unit" where
  "check_wallet_method db t =
     (if mi_payment_method t \<noteq> ''wallet'' then Inr ()
      else if \<not> wallet_account_available db (Some (mi_payer_user_id t)) (mi_currency t) then invoice_error ''wallet_account_missing''
      else if wallet_requires_transaction_pin db (Some (mi_payer_user_id t))
      then invoice_error ''wallet_pin_authorization_unavailable''
      else Inr ())"

text \<open>The country columns hold two characters.\<close>

definition insert_invoice :: "market_invoice \<Rightarrow> market_db \<Rightarrow> market_error + market_db" where
  "insert_invoice t db =
     (if list_ex (\<lambda>c. case c of None \<Rightarrow> False | Some s \<Rightarrow> length s > 2) [mi_service_country_code t, mi_payer_country_code t]
      then Inl DataError
      else Inr (db\<lparr>mk_invoices := mk_invoices db @ [t], mk_next_id := Suc (mk_next_id db)\<rparr>))"

definition create_invoice :: "market_env \<Rightarrow> invoice_args \<Rightarrow> market_db \<Rightarrow> market_error + market_invoice \<times> market_db" where
  "create_invoice env a db =
     rbind (check_invoice_args env a (mk_next_id db)) (\<lambda>t.
     case existing_invoice db t of
       Some v \<Rightarrow>
         if immutable_terms_match v t then Inr (v, db) else invoice_error ''invoice_idempotency_conflict''
     | None \<Rightarrow>
         rbind (method_config_for db (mi_payment_method t) (mi_currency t) (mi_amount t) (mi_settlement_timing t)
                  (mi_service_country_code t)) (\<lambda>_.
         rbind (check_wallet_method db t) (\<lambda>_.
         rbind (insert_invoice t db) (\<lambda>db'. Inr (t, db')))))"

subsection \<open>Settlement\<close>

text \<open>What the caller claims about the invoice it wants to settle.\<close>

record invoice_context =
  ix_invoice_id :: uuid
  ix_payer_user_id :: user_id
  ix_service_code :: string
  ix_service_reference :: string
  ix_amount :: "money option"
  ix_currency :: string

definition validate_context :: "invoice_context \<Rightarrow> market_invoice \<Rightarrow> market_error + unit" where
  "validate_context x iv =
     rbind (invoice_money (ix_amount x)) (\<lambda>amount.
     rbind (invoice_currency (ix_currency x)) (\<lambda>cur.
     if mi_service_code iv \<noteq> norm_lower (ix_service_code x) \<or> mi_service_reference iv \<noteq> str_strip (ix_service_reference x)
        \<or> mi_payer_user_id iv \<noteq> ix_payer_user_id x \<or> cents round_half_even (mi_amount iv) \<noteq> amount
        \<or> str_upper (mi_currency iv) \<noteq> cur
     then invoice_error ''invoice_context_mismatch'' else Inr ()))"

definition mark_due_after_completion ::
  "market_env \<Rightarrow> invoice_context \<Rightarrow> market_db \<Rightarrow> market_error + market_invoice \<times> market_db" where
  "mark_due_after_completion env x db =
     rbind (get_invoice db (ix_invoice_id x)) (\<lambda>iv.
     rbind (validate_context x iv) (\<lambda>_.
     if mi_status iv = ''pending'' then
       let iv' = iv\<lparr>mi_status := ''due'', mi_due_at := Some (me_now env)\<rparr> in Inr (iv', put_invoice iv' db)
     else if mi_status iv \<in> {''due'', ''paid'', ''cash_received''} then Inr (iv, db)
     else invoice_error ''invoice_not_payable''))"

definition get_transport_escrow_account :: "market_env \<Rightarrow> market_db \<Rightarrow> currency \<Rightarrow> market_error + account" where
  "get_transport_escrow_account env db cur =
     (case find (\<lambda>a. ac_platform_account a \<and> ac_owner_type a = PLATFORM \<and> ac_account_type a = ESCROW \<and> ac_currency a = cur
                     \<and> ac_status a = ACTIVE \<and> \<not> ac_is_frozen a \<and> me_transport_escrow env (ac_id a))
             (db_accounts (mk_wallet db)) of
        None \<Rightarrow> invoice_error ''transport_escrow_unavailable''
      | Some a \<Rightarrow> Inr a)"

definition payer_account :: "market_db \<Rightarrow> market_invoice \<Rightarrow> market_error + account option" where
  "payer_account db iv =
     (case account_get_by_user_id (mk_wallet db) (mi_payer_user_id iv) (mi_currency iv) of
        Inl e \<Rightarrow> Inl (Raised e)
      | Inr a \<Rightarrow> Inr a)"

definition settlement_parties :: "market_env \<Rightarrow> market_invoice \<Rightarrow> market_db \<Rightarrow> market_error + account \<times> account" where
  "settlement_parties env iv db =
     rbind (payer_account db iv) (\<lambda>acc.
     case acc of
       None \<Rightarrow> invoice_error ''wallet_account_missing''
     | Some a \<Rightarrow>
         if str_upper (ac_currency a) \<noteq> mi_currency iv then invoice_error ''wallet_account_missing''
         else if ac_status a \<noteq> ACTIVE \<or> ac_is_frozen a \<or> ac_owner_type a \<noteq> USER then invoice_error ''wallet_account_unavailable''
         else rbind (get_transport_escrow_account env db (mi_currency iv)) (\<lambda>e. Inr (a, e)))"

definition invoice_key :: "market_env \<Rightarrow> uuid \<Rightarrow> string" where
  "invoice_key env i = ''MARKETPLACE-INVOICE-'' @ me_uuid_text env i"

definition settlement_transfer ::
  "market_env \<Rightarrow> market_invoice \<Rightarrow> account \<Rightarrow> account \<Rightarrow> string option \<Rightarrow> transfer_args" where
  "settlement_transfer env iv a e request_id =
     \<lparr>ta_from_account_id = ac_id a, ta_to_account_id = ac_id e, ta_amount = mi_amount iv, ta_currency = mi_currency iv,
      ta_client_request_id = Some (invoice_key env (mi_id iv)),
      ta_metadata = Some [''marketplace_invoice_id'' \<mapsto> JStr (me_uuid_text env (mi_id iv)),
                          ''service_code'' \<mapsto> JStr (mi_service_code iv),
                          ''service_reference'' \<mapsto> JStr (mi_service_reference iv),
                          ''settlement_timing'' \<mapsto> JStr (mi_settlement_timing iv),
                          ''request_id'' \<mapsto> (case request_id of None \<Rightarrow> JNull | Some r \<Rightarrow> JStr r),
                          ''escrow_account_id'' \<mapsto> JStr (me_uuid_text env (ac_id e)),
                          ''escrow_service_type'' \<mapsto> JStr ''transport''],
      ta_platform_fee = None, ta_fee_currency = None, ta_pin = None, ta_system_initiated = True\<rparr>"

fun settlement_error :: "wallet_error \<Rightarrow> string" where
  "settlement_error (TransactionPINError _) = ''transaction_pin_required''"
| "settlement_error (InsufficientBalanceError _ _ _) = ''insufficient_funds''"
| "settlement_error WalletNotFoundError = ''wallet_account_missing''"
| "settlement_error _ = ''settlement_unavailable''"

definition settlement_verified :: "market_env \<Rightarrow> market_invoice \<Rightarrow> account \<Rightarrow> transaction option \<Rightarrow> bool" where
  "settlement_verified env iv e tx =
     (case tx of
        None \<Rightarrow> False
      | Some t \<Rightarrow>
          tx_status t = COMPLETED \<and> tx_type t = TRANSFER
          \<and> cents round_half_even (tx_amount t) = cents round_half_even (mi_amount iv)
          \<and> str_upper (tx_currency t) = mi_currency iv \<and> tx_user_id t = Some (mi_payer_user_id iv)
          \<and> tx_recipient_user_id t \<noteq> None \<and> tx_recipient_user_id t = ac_user_id e
          \<and> tx_metadata t ''marketplace_invoice_id'' = Some (JStr (me_uuid_text env (mi_id iv)))
          \<and> tx_metadata t ''escrow_account_id'' = Some (JStr (me_uuid_text env (ac_id e))))"

record settlement =
  st_status :: string
  st_transaction_id :: "uuid option"
  st_already_processed :: bool
  st_requires_cash_receipt :: bool

text \<open>Marking the invoice paid by the verified transaction \<open>i\<close>.\<close>

definition record_settlement ::
  "market_env \<Rightarrow> uuid \<Rightarrow> uuid \<Rightarrow> string option \<Rightarrow> market_db \<Rightarrow> market_error + settlement \<times> market_db" where
  "record_settlement env invoice_id i request_id db =
     rbind (get_invoice db invoice_id) (\<lambda>iv.
     if mi_status iv = ''paid'' then
       if mi_transaction_id iv \<noteq> Some i then invoice_error ''invoice_already_paid''
       else Inr (\<lparr>st_status = ''paid'', st_transaction_id = mi_transaction_id iv, st_already_processed = True,
                  st_requires_cash_receipt = False\<rparr>, db)
     else if mi_status iv \<noteq> ''due'' then invoice_error ''invoice_state_changed''
     else
       Inr (\<lparr>st_status = ''paid'', st_transaction_id = Some i, st_already_processed = False, st_requires_cash_receipt = False\<rparr>,
            put_invoice (iv\<lparr>mi_status := ''paid'', mi_transaction_id := Some i,
                             mi_provider_reference := Some (me_uuid_text env i), mi_paid_at := Some (me_now env),
                             mi_metadata := (mi_metadata iv)(''settlement_request_id'' \<mapsto>
                               (case request_id of None \<Rightarrow> JNull | Some r \<Rightarrow> JStr r))\<rparr>) db))"

text \<open>
  Collection from the payer's wallet into escrow.  The transfer is committed before the invoice is marked, so the second
  component keeps it also when the verification fails.
\<close>

definition collect_from_wallet ::
  "market_env \<Rightarrow> market_invoice \<Rightarrow> string option \<Rightarrow> market_db \<Rightarrow> (market_error + settlement) \<times> market_db" where
  "collect_from_wallet env iv request_id db =
     (case settlement_parties env iv db of
        Inl e \<Rightarrow> (Inl e, db)
      | Inr (a, e) \<Rightarrow>
          (case transfer (me_wallet env) (settlement_transfer env iv a e request_id) (mk_wallet db) of
             (Inl err, w) \<Rightarrow> (invoice_error (settlement_error err), db\<lparr>mk_wallet := w\<rparr>)
           | (Inr r, w) \<Rightarrow>
               let db1 = db\<lparr>mk_wallet := w\<rparr>;
                   tx = find (\<lambda>t. tx_id t = wr_transaction_id r) (db_transactions w) in
               if \<not> settlement_verified env iv e tx then (invoice_error ''settlement_unverified'', db1)
               else atomic (record_settlement env (mi_id iv) (wr_transaction_id r) request_id) db1))"

definition settle_after_completion ::
  "market_env \<Rightarrow> invoice_context \<Rightarrow> string option \<Rightarrow> market_db \<Rightarrow> (market_error + settlement) \<times> market_db" where
  "settle_after_completion env x request_id db =
     (case mark_due_after_completion env x db of
        Inl e \<Rightarrow> (Inl e, db)
      | Inr (iv, db1) \<Rightarrow>
          if mi_status iv \<in> set SETTLED_STATES then
            (Inr \<lparr>st_status = mi_status iv, st_transaction_id = mi_transaction_id iv, st_already_processed = True,
                  st_requires_cash_receipt = False\<rparr>, db1)
          else if mi_payment_method iv = ''cash'' then
            (Inr \<lparr>st_status = ''due'', st_transaction_id = None, st_already_processed = False,
                  st_requires_cash_receipt = True\<rparr>, db1)
          else if mi_payment_method iv \<noteq> ''wallet'' then (invoice_error ''method_not_integrated'', db1)
          else collect_from_wallet env iv request_id db1)"

subsection \<open>Cash\<close>

record driver =
  dr_user_id :: user_id
  dr_profile_id :: int
  dr_code :: "string option"

definition cash_receipt_of :: "market_env \<Rightarrow> driver \<Rightarrow> market_invoice \<Rightarrow> cash_receipt" where
  "cash_receipt_of env d iv =
     \<lparr>rc_driver_user_id = dr_user_id d, rc_driver_profile_id = dr_profile_id d,
      rc_driver_code = (let c = take 100 (case dr_code d of None \<Rightarrow> [] | Some c \<Rightarrow> c) in if c = [] then None else Some c),
      rc_confirmed_at = me_now env, rc_amount = mi_amount iv, rc_currency = mi_currency iv,
      rc_service_reference = mi_service_reference iv\<rparr>"

definition confirm_cash_receipt ::
  "market_env \<Rightarrow> invoice_context \<Rightarrow> driver \<Rightarrow> market_db \<Rightarrow> market_error + bool \<times> market_db" where
  "confirm_cash_receipt env x d db =
     rbind (get_invoice db (ix_invoice_id x)) (\<lambda>iv.
     rbind (validate_context x iv) (\<lambda>_.
     if mi_payment_method iv \<noteq> ''cash'' then invoice_error ''method_mismatch''
     else if mi_status iv = ''cash_received'' then
       let p = (case mi_receipt iv of None \<Rightarrow> 0 | Some r \<Rightarrow> rc_driver_profile_id r) in
       if (if p = 0 then -1 else p) = dr_profile_id d then Inr (True, db) else invoice_error ''cash_already_confirmed''
     else if mi_status iv \<noteq> ''due'' then invoice_error ''invoice_not_due''
     else
       Inr (False,
         (put_invoice (iv\<lparr>mi_status := ''cash_received'', mi_cash_received_at := Some (me_now env),
                           mi_cash_received_by := Some (dr_user_id d), mi_receipt := Some (cash_receipt_of env d iv)\<rparr>) db)
         \<lparr>mk_receipt_audits := mk_receipt_audits db @
            [\<lparr>ra_actor_id = dr_user_id d, ra_invoice_id = mi_id iv, ra_driver_profile_id = dr_profile_id d,
              ra_amount = mi_amount iv, ra_currency = mi_currency iv,
              ra_request_id = take 100 (mi_idempotency_key iv)\<rparr>]\<rparr>)))"

subsection \<open>Attempts and allocations\<close>

record attempt_args =
  aa_invoice_id :: uuid
  aa_amount :: "money option"
  aa_currency :: string
  aa_payment_method :: string
  aa_provider_name :: "string option"
  aa_provider_reference :: "string option"
  aa_idempotency_key :: "string option"

definition next_attempt_number :: "market_db \<Rightarrow> uuid \<Rightarrow> int" where
  "next_attempt_number db i =
     (case map at_number (filter (\<lambda>t. at_invoice_id t = i) (mk_attempts db)) of
        [] \<Rightarrow> 1
      | n # ns \<Rightarrow> fold max ns n + 1)"

text \<open>The status of an invoice after an attempt was added.\<close>

definition attempted_status :: "market_env \<Rightarrow> market_db \<Rightarrow> market_invoice \<Rightarrow> market_invoice" where
  "attempted_status env db iv =
     (if mi_status iv = ''due'' \<and> outstanding_amount db iv < mi_amount iv then iv\<lparr>mi_status := ''partially_paid''\<rparr>
      else if mi_status iv = ''pending'' \<and> mi_settlement_timing iv \<in> {''pay_now'', ''deposit'', ''pay_on_arrival''}
      then iv\<lparr>mi_status := ''due'', mi_due_at := Some (me_now env)\<rparr>
      else iv)"

definition create_payment_attempt ::
  "market_env \<Rightarrow> attempt_args \<Rightarrow> market_db \<Rightarrow> market_error + payment_attempt \<times> market_db" where
  "create_payment_attempt env a db =
     rbind (get_invoice db (aa_invoice_id a)) (\<lambda>iv.
     rbind (invoice_money (aa_amount a)) (\<lambda>amount.
     rbind (invoice_currency (aa_currency a)) (\<lambda>cur.
     if mi_status iv \<in> set SETTLED_STATES then invoice_error ''invoice_already_settled''
     else if cur \<noteq> mi_currency iv then invoice_error ''currency_mismatch''
     else if amount > outstanding_amount db iv then invoice_error ''amount_exceeds_outstanding''
     else
       let t = \<lparr>at_id = mk_next_id db, at_invoice_id = mi_id iv, at_number = next_attempt_number db (mi_id iv),
                at_amount = amount, at_currency = cur, at_payment_method = norm_lower (aa_payment_method a),
                at_provider_name = aa_provider_name a, at_provider_reference = aa_provider_reference a,
                at_status = ''created'', at_idempotency_key = aa_idempotency_key a, at_error_code = None,
                at_error_message = None, at_completed_at = None\<rparr>
       in Inr (t, put_invoice (attempted_status env db iv)
                    (db\<lparr>mk_attempts := mk_attempts db @ [t], mk_next_id := Suc (mk_next_id db)\<rparr>)))))"

definition put_attempt :: "payment_attempt \<Rightarrow> market_db \<Rightarrow> market_db" where
  "put_attempt t db = db\<lparr>mk_attempts := update_rows (\<lambda>x. at_id x = at_id t) (\<lambda>_. t) (mk_attempts db)\<rparr>"

text \<open>The insert of an allocation is subject to the constraints of its table.\<close>

definition insert_allocation :: "allocation \<Rightarrow> market_db \<Rightarrow> market_error + market_db" where
  "insert_allocation a db =
     (if ao_amount a \<le> 0
         \<or> list_ex (\<lambda>b. ao_transaction_id b = ao_transaction_id a \<and> ao_invoice_id b = ao_invoice_id a) (mk_allocations db)
      then Inl (Raised (IntegrityError ''wallet_marketplace_allocations''))
      else Inr (db\<lparr>mk_allocations := mk_allocations db @ [a]\<rparr>))"

definition check_attempt_transaction :: "market_db \<Rightarrow> payment_attempt \<Rightarrow> uuid \<Rightarrow> market_error + transaction" where
  "check_attempt_transaction db t i =
     (case find (\<lambda>x. tx_id x = i) (db_transactions (mk_wallet db)) of
        None \<Rightarrow> invoice_error ''transaction_not_found''
      | Some x \<Rightarrow>
          if tx_status x \<noteq> COMPLETED then invoice_error ''transaction_not_completed''
          else if cents round_half_even (tx_amount x) \<noteq> at_amount t then invoice_error ''amount_mismatch''
          else if str_upper (tx_currency x) \<noteq> at_currency t then invoice_error ''currency_mismatch''
          else Inr x)"

text \<open>
  The new allocation is flushed before the allocations of the invoice are read, so the sum contains it, and the amount of the
  attempt is added on top.
\<close>

definition paid_status :: "market_env \<Rightarrow> market_db \<Rightarrow> payment_attempt \<Rightarrow> uuid \<Rightarrow> market_invoice \<Rightarrow> market_invoice" where
  "paid_status env db t i iv =
     (if allocated db (mi_id iv) + at_amount t \<ge> mi_amount iv
      then iv\<lparr>mi_status := ''paid'', mi_paid_at := Some (me_now env), mi_transaction_id := Some i\<rparr>
      else iv\<lparr>mi_status := ''partially_paid''\<rparr>)"

definition ATTEMPT_STATUSES :: "string list" where
  "ATTEMPT_STATUSES =
     [''created'', ''pending'', ''requires_action'', ''succeeded'', ''failed'', ''cancelled'', ''expired'']"

definition with_provider :: "string option \<Rightarrow> payment_attempt \<Rightarrow> payment_attempt" where
  "with_provider p t = (if p \<in> {None, Some []} then t else t\<lparr>at_provider_reference := p\<rparr>)"

definition complete_payment_attempt ::
  "market_env \<Rightarrow> uuid \<Rightarrow> uuid \<Rightarrow> string option \<Rightarrow> string \<Rightarrow> string option \<Rightarrow> string option \<Rightarrow> market_db \<Rightarrow>
   market_error + (string \<times> string) \<times> market_db" where
  "complete_payment_attempt env attempt_id i provider status code msg db =
     (case find (\<lambda>t. at_id t = attempt_id) (mk_attempts db) of
        None \<Rightarrow> invoice_error ''attempt_not_found''
      | Some t \<Rightarrow>
          rbind (check (at_status t \<in> {''created'', ''pending'', ''requires_action''})
                   (MarketplaceInvoiceError ''attempt_already_completed'')) (\<lambda>_.
          if status = ''succeeded'' then
            rbind (check_attempt_transaction db t i) (\<lambda>_.
            rbind (insert_allocation \<lparr>ao_transaction_id = i, ao_invoice_id = at_invoice_id t, ao_amount = at_amount t,
                                      ao_currency = at_currency t\<rparr> db) (\<lambda>db1.
            rbind (get_invoice db1 (at_invoice_id t)) (\<lambda>iv.
            let iv' = paid_status env db1 t i iv;
                t' = with_provider provider (t\<lparr>at_status := ''succeeded'', at_completed_at := Some (me_now env)\<rparr>)
            in Inr ((''succeeded'', mi_status iv'), put_invoice iv' (put_attempt t' db1)))))
          else
            rbind (check (status \<in> set ATTEMPT_STATUSES) (Raised (IntegrityError ''wallet_marketplace_payment_attempts''))) (\<lambda>_.
            rbind (get_invoice db (at_invoice_id t)) (\<lambda>iv.
            let t' = with_provider provider (t\<lparr>at_status := status, at_error_code := code, at_error_message := msg,
                                              at_completed_at := Some (me_now env)\<rparr>)
            in Inr ((status, mi_status iv), put_attempt t' db)))))"

subsection \<open>Refunds\<close>

record refund_args =
  ra_refund_invoice_id :: uuid
  ra_refund_amount :: "money option"
  ra_refund_currency :: string
  ra_reason :: string
  ra_initiated_by :: user_id
  ra_original_transaction_id :: "uuid option"

definition refund_eligible :: "market_db \<Rightarrow> market_invoice \<Rightarrow> money" where
  "refund_eligible db iv =
     (if mi_status iv = ''cash_received'' then mi_amount iv
      else outstanding_amount db iv + allocated db (mi_id iv))"

definition check_refund :: "refund_args \<Rightarrow> market_db \<Rightarrow> market_error + market_invoice \<times> money" where
  "check_refund a db =
     rbind (get_invoice db (ra_refund_invoice_id a)) (\<lambda>iv.
     rbind (invoice_money (ra_refund_amount a)) (\<lambda>amount.
     rbind (invoice_currency (ra_refund_currency a)) (\<lambda>cur.
     if mi_status iv \<notin> {''paid'', ''partially_paid'', ''cash_received''} then invoice_error ''invoice_not_refundable''
     else if cur \<noteq> mi_currency iv then invoice_error ''currency_mismatch''
     else if amount > refund_eligible db iv then invoice_error ''refund_exceeds_eligible''
     else Inr (iv, amount))))"

definition refund_key :: "market_env \<Rightarrow> uuid \<Rightarrow> string" where
  "refund_key env i = ''MARKETPLACE-REFUND-'' @ me_uuid_text env i @ ''-'' @ me_refund_nonce env"

definition refund_transfer ::
  "market_env \<Rightarrow> refund_args \<Rightarrow> market_invoice \<Rightarrow> money \<Rightarrow> account \<Rightarrow> account \<Rightarrow> transfer_args" where
  "refund_transfer env a iv amount e p =
     \<lparr>ta_from_account_id = ac_id e, ta_to_account_id = ac_id p, ta_amount = amount, ta_currency = mi_currency iv,
      ta_client_request_id = Some (refund_key env (mi_id iv)),
      ta_metadata = Some [''marketplace_invoice_id'' \<mapsto> JStr (me_uuid_text env (mi_id iv)),
                          ''refund_reason'' \<mapsto> JStr (ra_reason a),
                          ''original_transaction_id'' \<mapsto>
                            (case ra_original_transaction_id a of None \<Rightarrow> JNull | Some i \<Rightarrow> JStr (me_uuid_text env i))],
      ta_platform_fee = None, ta_fee_currency = None, ta_pin = None, ta_system_initiated = True\<rparr>"

fun refund_error :: "wallet_error \<Rightarrow> string" where
  "refund_error (InsufficientBalanceError _ _ _) = ''escrow_insufficient_funds''"
| "refund_error WalletNotFoundError = ''escrow_missing''"
| "refund_error _ = ''refund_unavailable''"

text \<open>
  The transfer back to the payer is committed by the wallet.  The allocation with the negative amount is only pending then; it is
  inserted by the flush that precedes the sum over the allocations.
\<close>

definition refund_through_wallet ::
  "market_env \<Rightarrow> refund_args \<Rightarrow> market_invoice \<Rightarrow> money \<Rightarrow> market_db \<Rightarrow> (market_error + market_db) \<times> market_db" where
  "refund_through_wallet env a iv amount db =
     (case payer_account db iv of
        Inl e \<Rightarrow> (Inl e, db)
      | Inr None \<Rightarrow> (invoice_error ''payer_wallet_missing'', db)
      | Inr (Some p) \<Rightarrow>
          (case get_transport_escrow_account env db (mi_currency iv) of
             Inl e \<Rightarrow> (Inl e, db)
           | Inr e \<Rightarrow>
               (case transfer (me_wallet env) (refund_transfer env a iv amount e p) (mk_wallet db) of
                  (Inl err, w) \<Rightarrow> (invoice_error (refund_error err), db\<lparr>mk_wallet := w\<rparr>)
                | (Inr r, w) \<Rightarrow>
                    let db1 = db\<lparr>mk_wallet := w\<rparr> in
                    (insert_allocation \<lparr>ao_transaction_id = wr_transaction_id r, ao_invoice_id = mi_id iv,
                                        ao_amount = - amount, ao_currency = mi_currency iv\<rparr> db1, db1))))"

definition remaining_paid :: "market_db \<Rightarrow> uuid \<Rightarrow> money" where
  "remaining_paid db i =
     sum_list (map ao_amount (filter (\<lambda>a. ao_amount a > 0) (allocations_of db i)))
     - sum_list (map (\<lambda>a. \<bar>ao_amount a\<bar>) (filter (\<lambda>a. ao_amount a < 0) (allocations_of db i)))"

definition record_refund :: "market_env \<Rightarrow> refund_args \<Rightarrow> market_invoice \<Rightarrow> money \<Rightarrow> market_db \<Rightarrow> string \<times> market_db" where
  "record_refund env a iv amount db =
     (let left = remaining_paid db (mi_id iv);
          iv' = (if left \<le> 0 then iv\<lparr>mi_status := ''refunded'', mi_cancelled_at := Some (me_now env)\<rparr>
                  else if left < mi_amount iv then iv\<lparr>mi_status := ''partially_refunded''\<rparr>
                  else iv\<lparr>mi_status := ''paid''\<rparr>)
      in (mi_status iv',
          put_invoice (iv'\<lparr>mi_last_refund := Some \<lparr>rn_amount = amount, rn_reason = ra_reason a,
                                                   rn_initiated_by = ra_initiated_by a, rn_at = me_now env\<rparr>\<rparr>) db))"

definition process_refund ::
  "market_env \<Rightarrow> refund_args \<Rightarrow> market_db \<Rightarrow> (market_error + string) \<times> market_db" where
  "process_refund env a db =
     (case check_refund a db of
        Inl e \<Rightarrow> (Inl e, db)
      | Inr (iv, amount) \<Rightarrow>
          if mi_payment_method iv = ''wallet'' \<and> mi_status iv \<noteq> ''cash_received'' then
            (case refund_through_wallet env a iv amount db of
               (Inl e, db1) \<Rightarrow> (Inl e, db1)
             | (Inr db2, _) \<Rightarrow> let (s, db3) = record_refund env a iv amount db2 in (Inr s, db3))
          else let (s, db1) = record_refund env a iv amount db in (Inr s, db1))"

definition update_invoice_status_from_allocations :: "market_env \<Rightarrow> market_db \<Rightarrow> market_invoice \<Rightarrow> market_invoice" where
  "update_invoice_status_from_allocations env db iv =
     (let net = remaining_paid db (mi_id iv) in
      if net \<le> 0 then
        (if mi_status iv \<in> {''paid'', ''partially_paid'', ''partially_refunded''} then iv\<lparr>mi_status := ''refunded''\<rparr> else iv)
      else if net \<ge> mi_amount iv then
        (if mi_status iv \<noteq> ''paid''
         then iv\<lparr>mi_status := ''paid'',
                  mi_paid_at := (case mi_paid_at iv of None \<Rightarrow> Some (me_now env) | Some t \<Rightarrow> Some t)\<rparr>
         else iv)
      else if mi_status iv \<in> {''paid'', ''refunded''} then iv\<lparr>mi_status := ''partially_paid''\<rparr>
      else if mi_status iv = ''due'' then iv\<lparr>mi_status := ''partially_paid''\<rparr>
      else iv)"

subsection \<open>The payment certificate\<close>

text \<open>
  \<open>get_payment_certificate\<close> up to its access check, with the requesting user if one is given (0 counts as none).  The name \<open>User\<close> is not
  imported in the scope of the function, so the lookup of the user raises \<open>NameError\<close>, and the certificate itself is never built.
\<close>

definition get_payment_certificate :: "market_db \<Rightarrow> uuid \<Rightarrow> user_id option \<Rightarrow> market_error + unit" where
  "get_payment_certificate db i requesting_user_id =
     rbind (get_invoice db i) (\<lambda>_.
     if requesting_user_id \<in> {None, Some 0} then invoice_error ''access_denied'' else Inl NameError)"

end
