(* ===== verification/Market_Correct.thy ===== *)
theory Market_Correct
  imports Market_Invoices Wallet_Refinement
begin

section \<open>Correctness of marketplace invoices\<close>

text \<open>
  Runs of the invoice service together with the wallet.  Seen from the wallet they are runs of the wallet, so its guarantees
  carry over; the terms of an invoice never change and a repeated request finds it.
\<close>

subsection \<open>Runs\<close>

text \<open>One call of an operation, or one ordinary step of the wallet; \<open>ustr\<close> is the text of a UUID.\<close>

inductive market_step :: "(uuid \<Rightarrow> string) \<Rightarrow> market_db \<Rightarrow> market_db \<Rightarrow> bool" for ustr where
  Wallet: "ordinary_step (mk_wallet db) w \<Longrightarrow> market_step ustr db (db\<lparr>mk_wallet := w\<rparr>)"
| Create: "me_uuid_text env = ustr \<Longrightarrow> create_invoice env a db = Inr (v, db') \<Longrightarrow> market_step ustr db db'"
| Due: "me_uuid_text env = ustr \<Longrightarrow> mark_due_after_completion env x db = Inr (v, db') \<Longrightarrow> market_step ustr db db'"
| Settle: "me_uuid_text env = ustr \<Longrightarrow> market_step ustr db (snd (settle_after_completion env x r db))"
| Cash: "me_uuid_text env = ustr \<Longrightarrow> confirm_cash_receipt env x d db = Inr (b, db') \<Longrightarrow> market_step ustr db db'"
| Attempt: "me_uuid_text env = ustr \<Longrightarrow> create_payment_attempt env t db = Inr (p, db') \<Longrightarrow> market_step ustr db db'"
| Complete: "me_uuid_text env = ustr \<Longrightarrow> complete_payment_attempt env i j p s c m db = Inr (y, db') \<Longrightarrow> market_step ustr db db'"
| Refund: "me_uuid_text env = ustr \<Longrightarrow> market_step ustr db (snd (process_refund env f db))"

text \<open>The steps without completed attempts and refunds.\<close>

inductive collect_step :: "(uuid \<Rightarrow> string) \<Rightarrow> market_db \<Rightarrow> market_db \<Rightarrow> bool" for ustr where
  Wallet: "ordinary_step (mk_wallet db) w \<Longrightarrow> collect_step ustr db (db\<lparr>mk_wallet := w\<rparr>)"
| Create: "me_uuid_text env = ustr \<Longrightarrow> create_invoice env a db = Inr (v, db') \<Longrightarrow> collect_step ustr db db'"
| Due: "me_uuid_text env = ustr \<Longrightarrow> mark_due_after_completion env x db = Inr (v, db') \<Longrightarrow> collect_step ustr db db'"
| Settle: "me_uuid_text env = ustr \<Longrightarrow> collect_step ustr db (snd (settle_after_completion env x r db))"
| Cash: "me_uuid_text env = ustr \<Longrightarrow> confirm_cash_receipt env x d db = Inr (b, db') \<Longrightarrow> collect_step ustr db db'"
| Attempt: "me_uuid_text env = ustr \<Longrightarrow> create_payment_attempt env t db = Inr (p, db') \<Longrightarrow> collect_step ustr db db'"

lemma collect_is_market: "collect_step ustr db db' \<Longrightarrow> market_step ustr db db'"
  by (cases rule: collect_step.cases) (auto intro: market_step.intros)

subsection \<open>A worked example\<close>

text \<open>The wallet of the worked examples with an escrow account, and an invoice of 30 USD that is due from the first user.\<close>

definition market_escrow :: account where
  "market_escrow = (demo_account 3 99 ''USD'')\<lparr>ac_owner_type := PLATFORM, ac_platform_account := True, ac_account_type := ESCROW\<rparr>"

definition market_env0 :: market_env where
  "market_env0 = \<lparr>me_wallet = demo_env, me_uuid_text = (\<lambda>i. replicate i CHR ''x''), me_transport_escrow = (\<lambda>i. i = 3),
     me_refund_nonce = ''n''\<rparr>"

definition market_ride :: market_invoice where
  "market_ride = \<lparr>mi_id = 5, mi_idempotency_key = ''ride-5'', mi_service_code = ''transport'', mi_service_reference = ''R5'',
     mi_payer_user_id = 1, mi_amount = 30, mi_currency = ''USD'', mi_payment_method = ''wallet'',
     mi_settlement_timing = ''pay_on_completion'', mi_service_country_code = None, mi_payer_country_code = None,
     mi_status = ''due'', mi_transaction_id = None, mi_provider_reference = None, mi_cash_received_by = None,
     mi_metadata = Map.empty, mi_last_refund = None, mi_receipt = None, mi_created_at = 0, mi_due_at = None,
     mi_paid_at = None, mi_cash_received_at = None, mi_cancelled_at = None\<rparr>"

definition market_demo :: market_db where
  "market_demo = \<lparr>mk_wallet = demo_db\<lparr>db_accounts := db_accounts demo_db @ [market_escrow]\<rparr>, mk_invoices = [market_ride],
     mk_attempts = [], mk_allocations = [],
     mk_configs = [\<lparr>mc_method_id = ''cash'', mc_display_name = ''Cash'', mc_provider_name = ''afcon360'', mc_country_code = ''UG'',
       mc_is_enabled = True, mc_is_active = True, mc_supported_currencies = [''USD''],
       mc_allowed_timings = [''pay_on_completion''], mc_collection_implemented = True, mc_min_amount = Some 0, mc_max_amount = None\<rparr>],
     mk_receipt_audits = [], mk_next_id = 6\<rparr>"

definition market_claim :: invoice_context where
  "market_claim = \<lparr>ix_invoice_id = 5, ix_payer_user_id = 1, ix_service_code = ''transport'', ix_service_reference = ''R5'',
     ix_amount = Some 30, ix_currency = ''USD''\<rparr>"

lemmas market_defs = market_escrow_def market_env0_def market_ride_def market_demo_def market_claim_def

lemma market_demo_wallet: "wallet_inv (mk_wallet market_demo)" "solvent (mk_wallet market_demo)"
proof -
  show "wallet_inv (mk_wallet market_demo)"
    using demo_inv by (simp add: wallet_inv_def market_defs demo_accounts)
  have "get_balance (mk_wallet market_demo) i c None = get_balance demo_db i c None" for i c
    by (simp add: get_balance_def market_defs)
  then show "solvent (mk_wallet market_demo)" by (simp add: solvent_def demo_balance)
qed

lemma cents_30: "cents round_half_up 30 = 30" "cents round_half_even 30 = 30"
  using whole_cents_int [of 30] by (simp_all add: half_up.quantize_whole_cents half_even.quantize_whole_cents)

subsection \<open>What the operations leave alone\<close>

lemma put_invoice_simps [simp]:
  "mk_wallet (put_invoice v db) = mk_wallet db" "mk_attempts (put_invoice v db) = mk_attempts db"
  "mk_allocations (put_invoice v db) = mk_allocations db" "mk_next_id (put_invoice v db) = mk_next_id db"
  "mk_configs (put_invoice v db) = mk_configs db" "mk_receipt_audits (put_invoice v db) = mk_receipt_audits db"
  by (simp_all add: put_invoice_def)

lemma put_attempt_simps [simp]:
  "mk_wallet (put_attempt t db) = mk_wallet db" "mk_invoices (put_attempt t db) = mk_invoices db"
  "mk_allocations (put_attempt t db) = mk_allocations db" "mk_next_id (put_attempt t db) = mk_next_id db"
  by (simp_all add: put_attempt_def)

lemma invoice_error_simps [simp]: "invoice_error c \<noteq> Inr x" "(invoice_error c = Inl e) = (e = MarketplaceInvoiceError c)"
  by (auto simp: invoice_error_def)

lemma get_invoice_Inr: "get_invoice db i = Inr v \<longleftrightarrow> find (\<lambda>x. mi_id x = i) (mk_invoices db) = Some v"
  by (auto simp: get_invoice_def split: option.splits)

lemma get_invoice_id: "get_invoice db i = Inr v \<Longrightarrow> mi_id v = i \<and> v \<in> set (mk_invoices db)"
  by (auto simp: get_invoice_Inr dest: find_Some_key)

lemma insert_invoice_Inr:
  "insert_invoice t db = Inr db' \<Longrightarrow> db' = db\<lparr>mk_invoices := mk_invoices db @ [t], mk_next_id := Suc (mk_next_id db)\<rparr>"
  by (auto simp: insert_invoice_def split: if_splits)

lemma insert_allocation_Inr:
  "insert_allocation a db = Inr db' \<Longrightarrow> db' = db\<lparr>mk_allocations := mk_allocations db @ [a]\<rparr> \<and> 0 < ao_amount a"
  by (auto simp: insert_allocation_def split: if_splits)

text \<open>A new invoice, or the one that was there.\<close>

lemma create_invoice_cases:
  assumes "create_invoice env a db = Inr (v, db')"
  obtains (replay) t where "check_invoice_args env a (mk_next_id db) = Inr t" "existing_invoice db t = Some v"
      "immutable_terms_match v t" "db' = db"
    | (new) "check_invoice_args env a (mk_next_id db) = Inr v" "existing_invoice db v = None"
      "db' = db\<lparr>mk_invoices := mk_invoices db @ [v], mk_next_id := Suc (mk_next_id db)\<rparr>"
  using assms by (auto simp: create_invoice_def split: option.splits if_splits dest: insert_invoice_Inr)

lemma mark_due_cases:
  assumes "mark_due_after_completion env x db = Inr (v, db')"
  obtains (due) u where "get_invoice db (ix_invoice_id x) = Inr u" "mi_status u = ''pending''" "validate_context x u = Inr ()"
      "v = u\<lparr>mi_status := ''due'', mi_due_at := Some (me_now env)\<rparr>" "db' = put_invoice v db"
    | (same) "get_invoice db (ix_invoice_id x) = Inr v" "mi_status v \<in> {''due'', ''paid'', ''cash_received''}"
      "validate_context x v = Inr ()" "db' = db"
  using assms by (auto simp: mark_due_after_completion_def Let_def split: if_splits)

subsection \<open>The wallet below\<close>

lemma settlement_is_ordinary: "ordinary_step w (snd (transfer env (settlement_transfer menv v a e r) w))"
  by (rule ordinary_step.Transfer)
    (simp add: fee_in_sender_currency_def fee_of_def money_or_0_def settlement_transfer_def)

lemma refund_is_ordinary: "ordinary_step w (snd (transfer env (refund_transfer menv f v x a e) w))"
  by (rule ordinary_step.Transfer)
    (simp add: fee_in_sender_currency_def fee_of_def money_or_0_def refund_transfer_def)

lemma record_settlement_wallet: "record_settlement env i j r db = Inr (s, db') \<Longrightarrow> mk_wallet db' = mk_wallet db"
  by (auto simp: record_settlement_def split: if_splits)

text \<open>Collection stops before the transfer, after a transfer that is not taken for a settlement, or marks the invoice.\<close>

lemma collect_cases:
  assumes "collect_from_wallet env v r db = (y, db')"
  obtains (stopped) err where "y = Inl err" "db' = db"
    | (unsettled) a e x w err where "settlement_parties env v db = Inr (a, e)"
      "transfer (me_wallet env) (settlement_transfer env v a e r) (mk_wallet db) = (x, w)"
      "y = Inl err" "db' = db\<lparr>mk_wallet := w\<rparr>"
    | (settled) a e t w s where "settlement_parties env v db = Inr (a, e)"
      "transfer (me_wallet env) (settlement_transfer env v a e r) (mk_wallet db) = (Inr t, w)"
      "settlement_verified env v e (find (\<lambda>u. tx_id u = wr_transaction_id t) (db_transactions w))"
      "record_settlement env (mi_id v) (wr_transaction_id t) r (db\<lparr>mk_wallet := w\<rparr>) = Inr (s, db')" "y = Inr s"
proof (cases "settlement_parties env v db")
  case (Inl err)
  with assms show ?thesis by (intro stopped) (auto simp: collect_from_wallet_def)
next
  case (Inr p)
  obtain a e where p: "p = (a, e)" by (cases p)
  obtain x w where tr: "transfer (me_wallet env) (settlement_transfer env v a e r) (mk_wallet db) = (x, w)" by fastforce
  note parties = Inr [unfolded p]
  show ?thesis
  proof (cases x)
    case (Inl err)
    with assms parties tr show ?thesis by (intro unsettled [OF parties tr]) (auto simp: collect_from_wallet_def invoice_error_def)
  next
    case (Inr t)
    show ?thesis
    proof (cases "settlement_verified env v e (find (\<lambda>u. tx_id u = wr_transaction_id t) (db_transactions w))")
      case False
      with assms parties tr Inr show ?thesis
        by (intro unsettled [OF parties tr]) (auto simp: collect_from_wallet_def invoice_error_def)
    next
      case True
      with assms parties tr Inr
      have "atomic (record_settlement env (mi_id v) (wr_transaction_id t) r) (db\<lparr>mk_wallet := w\<rparr>) = (y, db')"
        by (simp add: collect_from_wallet_def)
      then show ?thesis
        using settled [OF parties tr [unfolded Inr] True] unsettled [OF parties tr]
        by (auto simp: atomic_def split: sum.splits prod.splits)
    qed
  qed
qed

lemma settlement_run:
  "transfer env (settlement_transfer menv v a e r) w = (x, w') \<Longrightarrow> ordinary_step\<^sup>*\<^sup>* w w'"
  using settlement_is_ordinary [of w env menv v a e r] by auto

lemma collect_wallet: "ordinary_step\<^sup>*\<^sup>* (mk_wallet db) (mk_wallet (snd (collect_from_wallet env v r db)))"
proof -
  obtain y db' where run: "collect_from_wallet env v r db = (y, db')" by fastforce
  then have "ordinary_step\<^sup>*\<^sup>* (mk_wallet db) (mk_wallet db')"
    by (cases rule: collect_cases) (auto dest!: settlement_run record_settlement_wallet)
  with run show ?thesis by simp
qed

lemma settle_wallet: "ordinary_step\<^sup>*\<^sup>* (mk_wallet db) (mk_wallet (snd (settle_after_completion env x r db)))"
proof (cases "mark_due_after_completion env x db")
  case (Inr p)
  obtain v db1 where p: "p = (v, db1)" by (cases p)
  from Inr p have "mk_wallet db1 = mk_wallet db" by (auto elim: mark_due_cases)
  then show ?thesis using Inr p collect_wallet [of db1 env v r] by (simp add: settle_after_completion_def)
qed (simp add: settle_after_completion_def)

text \<open>
  A refund through the wallet always raises: the allocation that should record it has a negative amount, which the
  table refuses.
\<close>

lemma refund_cases:
  assumes "refund_through_wallet env f v am db = (y, db')" and "0 < am"
  obtains (stopped) err where "y = Inl err" "db' = db"
    | (moved) p e x w err where "payer_account db v = Inr (Some p)"
      "get_transport_escrow_account env db (mi_currency v) = Inr e"
      "transfer (me_wallet env) (refund_transfer env f v am e p) (mk_wallet db) = (x, w)"
      "y = Inl err" "db' = db\<lparr>mk_wallet := w\<rparr>"
proof (cases "payer_account db v")
  case (Inl err)
  with assms show ?thesis by (intro stopped) (auto simp: refund_through_wallet_def)
next
  case pa: (Inr q)
  show ?thesis
  proof (cases q)
    case None
    with assms pa show ?thesis by (intro stopped) (auto simp: refund_through_wallet_def invoice_error_def)
  next
    case (Some p)
    note pa' = pa [unfolded Some]
    show ?thesis
    proof (cases "get_transport_escrow_account env db (mi_currency v)")
      case (Inl err)
      with assms pa' show ?thesis by (intro stopped) (auto simp: refund_through_wallet_def)
    next
      case (Inr e)
      obtain x w where tr: "transfer (me_wallet env) (refund_transfer env f v am e p) (mk_wallet db) = (x, w)" by fastforce
      have "\<exists>err. y = Inl err \<and> db' = db\<lparr>mk_wallet := w\<rparr>"
        using assms pa' Inr tr
        by (cases x) (auto simp: refund_through_wallet_def insert_allocation_def invoice_error_def Let_def)
      then show ?thesis using moved [OF pa' Inr tr] by blast
    qed
  qed
qed

lemma refund_run: "transfer env (refund_transfer menv f v am e p) w = (x, w') \<Longrightarrow> ordinary_step\<^sup>*\<^sup>* w w'"
  using refund_is_ordinary [of w env menv f v am e p] by auto

lemma invoice_money_Inr: "invoice_money x = Inr a \<Longrightarrow> 0 < a \<and> whole_cents a"
  by (auto simp: invoice_money_def half_up.whole_cents_quantize split: option.splits if_splits)

lemma check_refund_Inr:
  "check_refund f db = Inr (v, am) \<Longrightarrow> get_invoice db (ra_refund_invoice_id f) = Inr v \<and> 0 < am \<and> am \<le> refund_eligible db v
   \<and> mi_status v \<in> {''paid'', ''partially_paid'', ''cash_received''}"
  by (auto simp: check_refund_def dest: invoice_money_Inr split: if_splits)

text \<open>A refund stops, moves money without recording it, or records without the wallet.\<close>

lemma process_refund_cases:
  assumes "process_refund env f db = (y, db')"
  obtains (stopped) err where "y = Inl err" "db' = db"
    | (moved) v am p e x w err where "check_refund f db = Inr (v, am)" "payer_account db v = Inr (Some p)"
      "get_transport_escrow_account env db (mi_currency v) = Inr e"
      "transfer (me_wallet env) (refund_transfer env f v am e p) (mk_wallet db) = (x, w)"
      "y = Inl err" "db' = db\<lparr>mk_wallet := w\<rparr>"
    | (recorded) v am s where "check_refund f db = Inr (v, am)" "mi_payment_method v \<noteq> ''wallet'' \<or> mi_status v = ''cash_received''"
      "record_refund env f v am db = (s, db')" "y = Inr s"
proof (cases "check_refund f db")
  case (Inl err)
  with assms show ?thesis by (intro stopped) (auto simp: process_refund_def)
next
  case (Inr q)
  obtain v am where q: "check_refund f db = Inr (v, am)" using Inr by (cases q) simp
  show ?thesis
  proof (cases "mi_payment_method v = ''wallet'' \<and> mi_status v \<noteq> ''cash_received''")
    case True
    obtain z db1 where rt: "refund_through_wallet env f v am db = (z, db1)" by fastforce
    have "0 < am" using check_refund_Inr [OF q] by simp
    with rt show ?thesis
    proof (cases rule: refund_cases)
      case (stopped err)
      with assms q True rt show ?thesis by (intro that(1)) (auto simp: process_refund_def)
    next
      case (moved p e x w err)
      with assms q True rt show ?thesis by (intro that(2) [OF q moved(1-3)]) (auto simp: process_refund_def)
    qed
  next
    case False
    obtain s db1 where rr: "record_refund env f v am db = (s, db1)" by fastforce
    with assms q False show ?thesis by (intro recorded [OF q, of s]) (auto simp: process_refund_def)
  qed
qed

lemma refund_wallet: "ordinary_step\<^sup>*\<^sup>* (mk_wallet db) (mk_wallet (snd (process_refund env f db)))"
proof -
  obtain y db' where run: "process_refund env f db = (y, db')" by fastforce
  then have "ordinary_step\<^sup>*\<^sup>* (mk_wallet db) (mk_wallet db')"
    by (cases rule: process_refund_cases) (auto dest: refund_run simp: record_refund_def Let_def)
  with run show ?thesis by simp
qed

lemma other_ops_wallet:
  "create_invoice env a db = Inr (v, db') \<Longrightarrow> mk_wallet db' = mk_wallet db"
  "mark_due_after_completion env x db = Inr (v, db') \<Longrightarrow> mk_wallet db' = mk_wallet db"
  "confirm_cash_receipt env x d db = Inr (b, db') \<Longrightarrow> mk_wallet db' = mk_wallet db"
  "create_payment_attempt env t db = Inr (p, db') \<Longrightarrow> mk_wallet db' = mk_wallet db"
  "complete_payment_attempt env i j q s c m db = Inr (y, db') \<Longrightarrow> mk_wallet db' = mk_wallet db"
  by (auto elim!: create_invoice_cases mark_due_cases dest!: insert_allocation_Inr split: if_splits option.splits
      simp: confirm_cash_receipt_def create_payment_attempt_def complete_payment_attempt_def Let_def)

lemma market_step_wallet: "market_step ustr db db' \<Longrightarrow> ordinary_step\<^sup>*\<^sup>* (mk_wallet db) (mk_wallet db')"
  by (erule market_step.cases) (auto simp: other_ops_wallet settle_wallet refund_wallet)

interpretation market: simulation "market_step ustr" "\<lambda>_. True" ordinary_step mk_wallet
  by unfold_locales (auto intro: market_step_wallet)

text \<open>The settlement of the example.\<close>

lemma market_text: "invoice_currency ''USD'' = Inr ''USD''" "norm_lower ''transport'' = ''transport''" "str_strip ''R5'' = ''R5''"
  "str_upper ''USD'' = ''USD''"
  by code_simp+

lemma market_due: "mark_due_after_completion market_env0 market_claim market_demo = Inr (market_ride, market_demo)"
  by (simp add: mark_due_after_completion_def get_invoice_def validate_context_def invoice_money_def market_text cents_30 market_defs)

lemma market_parties: "settlement_parties market_env0 market_ride market_demo = Inr (demo_account 1 1 ''USD'', market_escrow)"
  by (simp add: settlement_parties_def payer_account_def account_get_by_user_id_def assert_internal_id_def market_text
      get_transport_escrow_account_def market_defs demo_defs)

lemma market_transfer:
  "\<exists>t w. transfer demo_env (settlement_transfer market_env0 market_ride (demo_account 1 1 ''USD'') market_escrow None)
      (mk_wallet market_demo) = (Inr t, w)
    \<and> settlement_verified market_env0 market_ride market_escrow (find (\<lambda>u. tx_id u = wr_transaction_id t) (db_transactions w))"
  by (simp add: settlement_transfer_def settlement_verified_def invoice_key_def market_text cents_30 market_defs
      transfer_eval demo_defs limit_eval op_eval Let_def)

lemma market_settles:
  obtains s db' where "settle_after_completion market_env0 market_claim None market_demo = (Inr s, db')"
    and "st_status s = ''paid''" and "\<not> st_already_processed s" and "list_ex (\<lambda>v. mi_status v = ''paid'') (mk_invoices db')"
proof -
  obtain t w where tr: "transfer demo_env (settlement_transfer market_env0 market_ride (demo_account 1 1 ''USD'') market_escrow None)
      (mk_wallet market_demo) = (Inr t, w)"
    and ver: "settlement_verified market_env0 market_ride market_escrow (find (\<lambda>u. tx_id u = wr_transaction_id t) (db_transactions w))"
    using market_transfer by blast
  let ?settle = "settle_after_completion market_env0 market_claim None market_demo"
  have "?settle = collect_from_wallet market_env0 market_ride None market_demo"
    using market_due by (simp add: settle_after_completion_def SETTLED_STATES_def market_ride_def)
  also have "\<dots> = atomic (record_settlement market_env0 5 (wr_transaction_id t) None) (market_demo\<lparr>mk_wallet := w\<rparr>)"
    using market_parties tr ver by (simp add: collect_from_wallet_def market_ride_def market_env0_def)
  finally show thesis
    by (intro that) (auto simp: record_settlement_def get_invoice_def market_demo_def market_ride_def put_invoice_def atomic_def)
qed

lemma market_settle_step:
  "settle_after_completion market_env0 market_claim None market_demo = (y, db') \<Longrightarrow>
   market_step (me_uuid_text market_env0) market_demo db'"
  using market_step.Settle [of market_env0 "me_uuid_text market_env0" market_demo market_claim None] by simp

text \<open>
  C14: the guarantees of the wallet hold under the marketplace.  Along every run of invoices, settlements, cash receipts, attempts and
  refunds, interleaved with ordinary wallet operations, the wallet only makes ordinary steps; in particular its tables
  stay well-formed and no balance becomes negative.
\<close>

theorem market_keeps_wallet:
  assumes "(market_step ustr)\<^sup>*\<^sup>* db db'" and "wallet_inv (mk_wallet db)" and "solvent (mk_wallet db)"
  shows "ordinary_step\<^sup>*\<^sup>* (mk_wallet db) (mk_wallet db') \<and> wallet_inv (mk_wallet db') \<and> solvent (mk_wallet db')"
proof -
  have run: "ordinary_step\<^sup>*\<^sup>* (mk_wallet db) (mk_wallet db')" using assms(1) by (rule market.run_simulated) simp
  have "wallet_inv (mk_wallet db')" using run assms(2) by (rule bank.run_keeps)
  moreover have "solvent (mk_wallet db')"
    using bank.abstract_invariant [OF solvent_bank.run_invariant_axioms run assms(2)] assms(3)
    by (simp add: solvent_def bank_of_def)
  ultimately show ?thesis using run by blast
qed

theorem market_keeps_wallet_witness:
  "\<exists>db'. (market_step (me_uuid_text market_env0))\<^sup>*\<^sup>* market_demo db' \<and> list_ex (\<lambda>v. mi_status v = ''paid'') (mk_invoices db')
     \<and> wallet_inv (mk_wallet db') \<and> solvent (mk_wallet db')"
proof (rule market_settles)
  fix s db'
  assume "settle_after_completion market_env0 market_claim None market_demo = (Inr s, db')"
    and paid: "list_ex (\<lambda>v. mi_status v = ''paid'') (mk_invoices db')"
  then have run: "(market_step (me_uuid_text market_env0))\<^sup>*\<^sup>* market_demo db'" by (auto intro: market_settle_step)
  from market_keeps_wallet [OF run market_demo_wallet] run paid show ?thesis by blast
qed

subsection \<open>The terms of an invoice\<close>

text \<open>The columns that no operation changes.\<close>

definition terms_of :: "market_invoice \<Rightarrow> (uuid \<times> string \<times> string \<times> string) \<times> user_id \<times> money \<times> string \<times> string \<times> string
    \<times> string option \<times> string option" where
  "terms_of v = ((mi_id v, mi_idempotency_key v, mi_service_code v, mi_service_reference v), mi_payer_user_id v, mi_amount v,
     mi_currency v, mi_payment_method v, mi_settlement_timing v, mi_service_country_code v, mi_payer_country_code v)"

definition invoices_ok :: "market_db \<Rightarrow> bool" where
  "invoices_ok db \<longleftrightarrow>
     distinct (map mi_id (mk_invoices db)) \<and> distinct (map mi_idempotency_key (mk_invoices db))
     \<and> distinct (map (\<lambda>v. (mi_service_code v, mi_service_reference v)) (mk_invoices db))
     \<and> list_all (\<lambda>v. mi_id v < mk_next_id db) (mk_invoices db)
     \<and> list_all (\<lambda>v. 0 < mi_amount v \<and> whole_cents (mi_amount v)) (mk_invoices db)"

text \<open>No invoice is lost or reordered, and none changes its terms.\<close>

definition terms_kept :: "market_db \<Rightarrow> market_db \<Rightarrow> bool" where
  "terms_kept db db' \<longleftrightarrow> (\<exists>new. map terms_of (mk_invoices db') = map terms_of (mk_invoices db) @ new)"

lemma terms_eq:
  "terms_of v = terms_of u \<longleftrightarrow> mi_id v = mi_id u \<and> mi_idempotency_key v = mi_idempotency_key u
   \<and> mi_service_code v = mi_service_code u \<and> mi_service_reference v = mi_service_reference u
   \<and> mi_payer_user_id v = mi_payer_user_id u \<and> mi_amount v = mi_amount u \<and> mi_currency v = mi_currency u
   \<and> mi_payment_method v = mi_payment_method u \<and> mi_settlement_timing v = mi_settlement_timing u
   \<and> mi_service_country_code v = mi_service_country_code u \<and> mi_payer_country_code v = mi_payer_country_code u"
  by (auto simp: terms_of_def)

lemma list_all_terms:
  assumes "\<And>u v. terms_of u = terms_of v \<Longrightarrow> P u = P v" and "map terms_of xs = map terms_of ys"
  shows "list_all P xs = list_all P ys"
  using assms(2) by (induction xs ys rule: list_induct2') (auto dest: assms(1))

lemma map_terms:
  assumes "\<And>u v. terms_of u = terms_of v \<Longrightarrow> g u = g v" and "map terms_of xs = map terms_of ys"
  shows "map g xs = map g ys"
  using assms(2) by (induction xs ys rule: list_induct2') (auto dest: assms(1))

lemma invoices_ok_cong:
  assumes "map terms_of (mk_invoices db') = map terms_of (mk_invoices db)" and "mk_next_id db \<le> mk_next_id db'"
    and "invoices_ok db"
  shows "invoices_ok db'"
proof -
  have "map mi_id (mk_invoices db') = map mi_id (mk_invoices db)"
    and "map mi_idempotency_key (mk_invoices db') = map mi_idempotency_key (mk_invoices db)"
    and "map (\<lambda>v. (mi_service_code v, mi_service_reference v)) (mk_invoices db')
      = map (\<lambda>v. (mi_service_code v, mi_service_reference v)) (mk_invoices db)"
    and "list_all (\<lambda>v. mi_id v < mk_next_id db') (mk_invoices db') = list_all (\<lambda>v. mi_id v < mk_next_id db') (mk_invoices db)"
    and "list_all (\<lambda>v. 0 < mi_amount v \<and> whole_cents (mi_amount v)) (mk_invoices db')
      = list_all (\<lambda>v. 0 < mi_amount v \<and> whole_cents (mi_amount v)) (mk_invoices db)"
    using assms(1) by (auto intro!: map_terms list_all_terms simp: terms_eq)
  with assms(2,3) show ?thesis by (auto simp: invoices_ok_def list_all_iff intro: less_le_trans)
qed

text \<open>Both together: the invariant and the effect of a step.\<close>

definition terms_step :: "market_db \<Rightarrow> market_db \<Rightarrow> bool" where
  "terms_step db db' \<longleftrightarrow> invoices_ok db' \<and> terms_kept db db'"

lemma terms_step_same:
  "invoices_ok db \<Longrightarrow> map terms_of (mk_invoices db') = map terms_of (mk_invoices db) \<Longrightarrow> mk_next_id db \<le> mk_next_id db' \<Longrightarrow>
   terms_step db db'"
  using invoices_ok_cong [of db' db] by (simp add: terms_step_def terms_kept_def)

lemma terms_step_trans: "terms_step db db1 \<Longrightarrow> terms_step db1 db2 \<Longrightarrow> terms_step db db2"
  by (auto simp: terms_step_def terms_kept_def)

lemma put_terms:
  assumes "invoices_ok db" and "get_invoice db i = Inr u" and "terms_of v = terms_of u" and "mk_invoices db1 = mk_invoices db"
  shows "map terms_of (mk_invoices (put_invoice v db1)) = map terms_of (mk_invoices db)"
proof -
  have u: "mi_id u = i" "u \<in> set (mk_invoices db)" using get_invoice_id [OF assms(2)] by simp_all
  have "x = u" if "x \<in> set (mk_invoices db)" "mi_id x = mi_id v" for x
  proof -
    have "inj_on mi_id (set (mk_invoices db))" using assms(1) by (simp add: invoices_ok_def distinct_map)
    then show ?thesis using that u assms(3) by (auto simp: terms_eq dest: inj_onD)
  qed
  then show ?thesis using assms(3,4) by (auto simp: put_invoice_def update_rows_def)
qed

lemma put_terms_step:
  assumes "invoices_ok db" and "get_invoice db i = Inr u" and "terms_of v = terms_of u" and "mk_invoices db1 = mk_invoices db"
    and "mk_next_id db \<le> mk_next_id db1"
  shows "terms_step db (put_invoice v db1)"
  using put_terms [OF assms(1-4)] assms(1,5) by (intro terms_step_same) simp_all

lemma existing_None:
  "existing_invoice db t = None \<Longrightarrow> v \<in> set (mk_invoices db) \<Longrightarrow>
   mi_idempotency_key v \<noteq> mi_idempotency_key t \<and> (mi_service_code v, mi_service_reference v) \<noteq> (mi_service_code t, mi_service_reference t)"
  by (auto simp: existing_invoice_def find_None_iff split: option.splits)

lemma check_invoice_args_Inr:
  assumes "check_invoice_args env a i = Inr t"
  obtains p am c where "t = invoice_terms env a p am c i" and "ia_payer_user_id a = Some p" and "invoice_money (ia_amount a) = Inr am"
    and "invoice_currency (ia_currency a) = Inr c"
  using assms by (auto simp: check_invoice_args_def Let_def split: option.splits if_splits)

lemma create_terms:
  assumes "create_invoice env a db = Inr (v, db')" and "invoices_ok db"
  shows "terms_step db db'"
  using assms(1)
proof (cases rule: create_invoice_cases)
  case replay
  with assms(2) show ?thesis by (simp add: terms_step_same)
next
  case new
  from new(1) obtain p am c where v: "v = invoice_terms env a p am c (mk_next_id db)" and am: "invoice_money (ia_amount a) = Inr am"
    by (rule check_invoice_args_Inr)
  have "mi_id v = mk_next_id db" "0 < mi_amount v" "whole_cents (mi_amount v)"
    using invoice_money_Inr [OF am] by (simp_all add: v invoice_terms_def)
  with assms(2) existing_None [OF new(2)] show ?thesis
    by (force simp: new(3) terms_step_def terms_kept_def invoices_ok_def list_all_iff)
qed

lemma get_put: "get_invoice db (mi_id v) = Inr u \<Longrightarrow> get_invoice (put_invoice v db) (mi_id v) = Inr v"
proof -
  have "find (\<lambda>x. mi_id x = mi_id v) xs = Some u \<Longrightarrow>
      find (\<lambda>x. mi_id x = mi_id v) (update_rows (\<lambda>x. mi_id x = mi_id v) (\<lambda>_. v) xs) = Some v" for xs
    by (induction xs) auto
  then show "get_invoice db (mi_id v) = Inr u \<Longrightarrow> ?thesis" by (simp add: get_invoice_Inr put_invoice_def)
qed

lemma mark_due_terms:
  assumes "mark_due_after_completion env x db = Inr (v, db')" and "invoices_ok db"
  shows "terms_step db db' \<and> (\<exists>i. get_invoice db' i = Inr v)"
  using assms(1)
proof (cases rule: mark_due_cases)
  case (due u)
  have "get_invoice db' (mi_id u) = Inr v"
    using get_invoice_id [OF due(1)] due(1) get_put [of db v u] by (simp add: due(4,5))
  with due assms(2) show ?thesis
    by (auto intro!: put_terms_step [OF assms(2) due(1)] simp: terms_eq)
next
  case same
  with assms(2) show ?thesis by (auto simp: terms_step_same)
qed

lemma record_settlement_terms:
  assumes "record_settlement env i j r db = Inr (s, db')" and "invoices_ok db"
  shows "terms_step db db'"
proof -
  from assms(1) obtain v where v: "get_invoice db i = Inr v" by (auto simp: record_settlement_def)
  show ?thesis
    using assms v
    by (auto simp: record_settlement_def split: if_splits intro!: terms_step_same put_terms_step [OF assms(2) v] simp: terms_eq)
qed

lemma invoices_ok_wallet [simp]: "invoices_ok (db\<lparr>mk_wallet := w\<rparr>) = invoices_ok db"
  by (simp add: invoices_ok_def)

lemma terms_step_wallet [simp]: "terms_step (db\<lparr>mk_wallet := w\<rparr>) db' = terms_step db db'"
  by (simp add: terms_step_def terms_kept_def)

lemma settle_terms:
  assumes "invoices_ok db"
  shows "terms_step db (snd (settle_after_completion env x r db))"
proof (cases "mark_due_after_completion env x db")
  case (Inr p)
  obtain v db1 where p: "p = (v, db1)" by (cases p)
  have due: "terms_step db db1" using mark_due_terms [OF _ assms] Inr p by blast
  then have ok: "invoices_ok db1" by (simp add: terms_step_def)
  obtain y db2 where run: "collect_from_wallet env v r db1 = (y, db2)" by fastforce
  then have "terms_step db1 db2"
    by (cases rule: collect_cases) (use ok record_settlement_terms in \<open>force intro: terms_step_same\<close>)+
  with due run show ?thesis
    using Inr p terms_step_trans by (auto simp: settle_after_completion_def)
qed (use assms in \<open>simp add: settle_after_completion_def terms_step_same\<close>)

lemma cash_terms:
  assumes "confirm_cash_receipt env x d db = Inr (b, db')" and "invoices_ok db"
  shows "terms_step db db'"
proof -
  from assms(1) obtain v where v: "get_invoice db (ix_invoice_id x) = Inr v" by (auto simp: confirm_cash_receipt_def)
  have put: "map terms_of (mk_invoices (put_invoice u db)) = map terms_of (mk_invoices db)" if "terms_of u = terms_of v" for u
    by (rule put_terms [OF assms(2) v that]) simp
  show ?thesis
    by (rule terms_step_same [OF assms(2)])
      (use assms(1) v put in \<open>auto simp: confirm_cash_receipt_def Let_def terms_eq split: if_splits\<close>)
qed

lemma attempt_terms:
  assumes "create_payment_attempt env t db = Inr (p, db')" and "invoices_ok db"
  shows "terms_step db db'"
proof -
  from assms(1) obtain v where v: "get_invoice db (aa_invoice_id t) = Inr v" by (auto simp: create_payment_attempt_def)
  have "terms_of (attempted_status env db v) = terms_of v" by (simp add: attempted_status_def terms_eq)
  with assms(1) v show ?thesis
    by (auto simp: create_payment_attempt_def Let_def split: if_splits intro!: put_terms_step [OF assms(2) v])
qed

lemma with_provider_simps [simp]: "at_status (with_provider p t) = at_status t" "at_id (with_provider p t) = at_id t"
  by (simp_all add: with_provider_def)

lemma complete_terms:
  assumes "complete_payment_attempt env i j q s c m db = Inr (y, db')" and "invoices_ok db"
  shows "terms_step db db'"
proof -
  have paid: "terms_of (paid_status env db1 t j v) = terms_of v" for db1 t v by (simp add: paid_status_def terms_eq)
  have put: "terms_step db (put_invoice (paid_status env db1 t j v) (put_attempt t' db1))"
    if "insert_allocation a db = Inr db1" "get_invoice db1 k = Inr v" for a db1 k v t t'
  proof -
    from insert_allocation_Inr [OF that(1)] have db1: "db1 = db\<lparr>mk_allocations := mk_allocations db @ [a]\<rparr>" by simp
    with that(2) have "get_invoice db k = Inr v" by (simp add: get_invoice_def)
    from put_terms_step [OF assms(2) this paid] show ?thesis by (simp add: db1)
  qed
  show ?thesis
    using assms
    by (auto simp: complete_payment_attempt_def Let_def split: option.splits if_splits intro: put terms_step_same)
qed

lemma refund_terms:
  assumes "invoices_ok db"
  shows "terms_step db (snd (process_refund env f db))"
proof -
  obtain y db' where run: "process_refund env f db = (y, db')" by fastforce
  then have "terms_step db db'"
  proof (cases rule: process_refund_cases)
    case (recorded v am s)
    from check_refund_Inr [OF recorded(1)] have v: "get_invoice db (ra_refund_invoice_id f) = Inr v" by simp
    from recorded(3) show ?thesis
      by (auto simp: record_refund_def Let_def intro!: put_terms_step [OF assms v] simp: terms_eq)
  qed (use assms in \<open>auto intro: terms_step_same\<close>)
  with run show ?thesis by simp
qed

lemma market_step_terms: "market_step ustr db db' \<Longrightarrow> invoices_ok db \<Longrightarrow> terms_step db db'"
  by (erule market_step.cases)
    (auto intro: create_terms cash_terms attempt_terms complete_terms settle_terms refund_terms terms_step_same
      dest: mark_due_terms)

interpretation terms: run_effect "market_step ustr" invoices_ok terms_kept
  by unfold_locales (auto dest: market_step_terms simp: terms_step_def terms_kept_def)

lemma terms_kept_row:
  assumes "terms_kept db db'" and "v \<in> set (mk_invoices db)"
  obtains v' where "v' \<in> set (mk_invoices db')" and "terms_of v' = terms_of v"
proof -
  from assms(1) obtain new where "map terms_of (mk_invoices db') = map terms_of (mk_invoices db) @ new"
    by (auto simp: terms_kept_def)
  then have "terms_of v \<in> set (map terms_of (mk_invoices db'))" using assms(2) by simp
  with that show thesis by auto
qed

text \<open>
  The terms of an invoice are immutable.  Along every run of the marketplace the keys and the service references of the invoices
  stay unique and their amounts positive and in whole cents; and an invoice keeps its payer, amount, currency, method,
  timing and countries for ever.
\<close>

theorem invoice_terms_immutable:
  assumes "(market_step ustr)\<^sup>*\<^sup>* db db'" and "invoices_ok db" and "v \<in> set (mk_invoices db)"
  shows "invoices_ok db' \<and> (\<exists>v' \<in> set (mk_invoices db'). terms_of v' = terms_of v)"
  using terms.run_keeps [OF assms(1,2)] terms_kept_row [OF terms.run_eff [OF assms(1,2)] assms(3)] by metis

lemma market_demo_ok: "invoices_ok market_demo"
  using whole_cents_int [of 30] by (simp add: invoices_ok_def market_demo_def market_ride_def)

theorem invoice_terms_immutable_witness:
  "\<exists>db'. (market_step (me_uuid_text market_env0))\<^sup>*\<^sup>* market_demo db' \<and> list_ex (\<lambda>v. mi_status v = ''paid'') (mk_invoices db')
     \<and> invoices_ok db' \<and> (\<exists>v'. v' \<in> set (mk_invoices db') \<and> terms_of v' = terms_of market_ride)"
proof (rule market_settles)
  fix s db'
  assume "settle_after_completion market_env0 market_claim None market_demo = (Inr s, db')"
    and paid: "list_ex (\<lambda>v. mi_status v = ''paid'') (mk_invoices db')"
  then have run: "(market_step (me_uuid_text market_env0))\<^sup>*\<^sup>* market_demo db'" by (auto intro: market_settle_step)
  from invoice_terms_immutable [OF run market_demo_ok, of market_ride] run paid show ?thesis by (auto simp: market_demo_def)
qed

subsection \<open>Repeated requests\<close>

lemma match_terms: "terms_of v = terms_of u \<Longrightarrow> immutable_terms_match v t = immutable_terms_match u t"
  by (simp add: immutable_terms_match_def terms_eq)

lemma match_self:
  assumes "invoice_money x = Inr am" and "invoice_currency y = Inr c"
  shows "immutable_terms_match (invoice_terms env a p am c i) (invoice_terms env' a p am c j)"
proof -
  have "cents round_half_even am = am" using invoice_money_Inr [OF assms(1)] by (simp add: half_even.quantize_whole_cents)
  moreover have "str_upper c = c" using assms(2) by (auto simp: invoice_currency_def Let_def str_idem split: if_splits)
  ultimately show ?thesis by (simp add: immutable_terms_match_def invoice_terms_def norm_lower_def str_idem)
qed

lemma check_args_again:
  assumes "check_invoice_args env a i = Inr t"
  obtains p am c where "t = invoice_terms env a p am c i" and "check_invoice_args env' a j = Inr (invoice_terms env' a p am c j)"
    and "invoice_money (ia_amount a) = Inr am" and "invoice_currency (ia_currency a) = Inr c"
  using assms by (auto simp: check_invoice_args_def Let_def split: option.splits if_splits)

lemma match_again: "immutable_terms_match v (invoice_terms env a p am c i) = immutable_terms_match v (invoice_terms env' a p am c j)"
  by (simp add: immutable_terms_match_def invoice_terms_def)

lemma find_by_key:
  assumes "invoices_ok db" and "v \<in> set (mk_invoices db)" and "mi_idempotency_key v = mi_idempotency_key t"
  shows "existing_invoice db t = Some v"
  using assms find_distinct [of mi_idempotency_key "mk_invoices db" v]
  by (simp add: existing_invoice_def invoices_ok_def)

text \<open>
  C15: a request for an invoice can be repeated at any time.  After any run that follows the creation of an invoice, the same request
  returns that invoice with its current status, and changes nothing; this also holds when the first request found
  the invoice by its idempotency key.
\<close>

theorem invoice_retry:
  assumes "create_invoice env a db = Inr (v, db1)" and "invoices_ok db"
    and "mi_idempotency_key v = str_strip (ia_idempotency_key a)" and "(market_step ustr)\<^sup>*\<^sup>* db1 db2"
  shows "\<exists>v'. create_invoice env' a db2 = Inr (v', db2) \<and> terms_of v' = terms_of v"
proof -
  from assms(1) have step: "terms_step db db1" using assms(2) by (rule create_terms)
  have v1: "v \<in> set (mk_invoices db1)" and chk: "\<exists>t. check_invoice_args env a (mk_next_id db) = Inr t \<and> immutable_terms_match v t"
    using assms(1)
    by (atomize(full), cases rule: create_invoice_cases)
      (auto simp: existing_invoice_def split: option.splits dest!: find_SomeD elim!: check_invoice_args_Inr intro: match_self)
  then obtain p am c where again: "check_invoice_args env' a (mk_next_id db2) = Inr (invoice_terms env' a p am c (mk_next_id db2))"
    and match: "immutable_terms_match v (invoice_terms env' a p am c (mk_next_id db2))"
    using check_args_again [of env a "mk_next_id db" _ env' "mk_next_id db2"] match_again by metis
  have ok2: "invoices_ok db2" and kept: "terms_kept db1 db2"
    using terms.run_keeps [OF assms(4)] terms.run_eff [OF assms(4)] step by (auto simp: terms_step_def)
  from kept v1 obtain v' where v': "v' \<in> set (mk_invoices db2)" "terms_of v' = terms_of v" by (rule terms_kept_row)
  have "existing_invoice db2 (invoice_terms env' a p am c (mk_next_id db2)) = Some v'"
    by (rule find_by_key [OF ok2 v'(1)]) (use v'(2) assms(3) in \<open>simp add: terms_eq invoice_terms_def\<close>)
  moreover have "immutable_terms_match v' (invoice_terms env' a p am c (mk_next_id db2))"
    using match match_terms [OF v'(2)] by simp
  ultimately have "create_invoice env' a db2 = Inr (v', db2)" using again by (simp add: create_invoice_def)
  with v'(2) show ?thesis by blast
qed

definition market_request :: invoice_args where
  "market_request = \<lparr>ia_idempotency_key = ''ride-6'', ia_service_code = ''transport'', ia_service_reference = ''R6'',
     ia_payer_user_id = Some 2, ia_amount = Some 30, ia_currency = ''USD'', ia_payment_method = ''cash'',
     ia_settlement_timing = ''pay_on_completion'', ia_service_country_code = None, ia_payer_country_code = None,
     ia_metadata = None\<rparr>"

lemma market_request_text:
  "str_strip ''ride-6'' = ''ride-6''" "str_strip ''R6'' = ''R6''" "norm_lower ''cash'' = ''cash''"
  "norm_lower ''pay_on_completion'' = ''pay_on_completion''" "norm_country None = None"
  by code_simp+

lemma market_creates:
  "\<exists>v db1. create_invoice market_env0 market_request market_demo = Inr (v, db1) \<and> mi_idempotency_key v = ''ride-6''"
  by (simp add: create_invoice_def check_invoice_args_def invoice_terms_def existing_invoice_def method_config_for_def
      find_config_def supports_currency_def allows_timing_def amount_in_range_def check_wallet_method_def insert_invoice_def
      invoice_money_def market_text market_request_text cents_30 market_request_def SUPPORTED_SETTLEMENT_TIMINGS_def
      market_demo_def market_ride_def Let_def)

theorem invoice_retry_witness:
  "\<exists>v db1 v'. create_invoice market_env0 market_request market_demo = Inr (v, db1)
     \<and> create_invoice market_env0 market_request db1 = Inr (v', db1) \<and> terms_of v' = terms_of v"
proof -
  obtain v db1 where new: "create_invoice market_env0 market_request market_demo = Inr (v, db1)" "mi_idempotency_key v = ''ride-6''"
    using market_creates by blast
  have "mi_idempotency_key v = str_strip (ia_idempotency_key market_request)"
    using new(2) by (simp add: market_request_def market_request_text)
  from invoice_retry [OF new(1) market_demo_ok this, of "me_uuid_text market_env0" db1 market_env0] new(1)
  show ?thesis by blast
qed

end
