(* ===== verification/Market_Settlement.thy ===== *)
theory Market_Settlement
  imports Market_Correct
begin

section \<open>Settlement of marketplace invoices\<close>

text \<open>
  An invoice that was collected is backed by a completed transfer of exactly its amount, and a settlement moves exactly
  this amount, once.  The exact conditions under which attempts and refunds succeed follow, with the defects they
  contain: an attempt is counted twice, and a refund to the wallet moves money without being recorded.
\<close>

subsection \<open>Settlement\<close>

lemma transfer_completed:
  assumes "wallet_inv w" and "transfer env args w = (Inr r, w')" and "ta_client_request_id args = Some k"
  obtains t where "completed_row w' k t" and "tx_id t = wr_transaction_id r" and "wallet_inv w'"
proof -
  have "wallet_inv w'" using transfer_step_ok [OF assms(1), of env args] assms(2) by (simp add: step_ok_def)
  moreover have "\<exists>t. completed_row w' k t \<and> tx_id t = wr_transaction_id r"
    using assms(2)
  proof (cases rule: transfer_Inr)
    case (replayed am fa ta)
    from transfer_replay_Some [OF \<open>wallet_inv w'\<close> replayed(5) assms(3)] show ?thesis by (auto simp: completed_row_def)
  next
    case (moved am fa ta db1 legs c db2)
    from quiet_inv [OF moved(5) assms(1)] moved(4) show ?thesis
      by (cases rule: transfer_post_cases)
        (use assms(3) in \<open>auto simp: completed_row_def posted_def split: option.splits\<close>)
  qed
  ultimately show thesis using that by blast
qed

text \<open>The transfer that backs a paid invoice.\<close>

definition backed :: "(uuid \<Rightarrow> string) \<Rightarrow> wallet_db \<Rightarrow> market_invoice \<Rightarrow> bool" where
  "backed ustr w v \<longleftrightarrow>
     (\<exists>t. completed_row w (''MARKETPLACE-INVOICE-'' @ ustr (mi_id v)) t \<and> mi_transaction_id v = Some (tx_id t)
        \<and> tx_type t = TRANSFER \<and> cents round_half_even (tx_amount t) = mi_amount v \<and> str_upper (tx_currency t) = mi_currency v
        \<and> tx_user_id t = Some (mi_payer_user_id v))"

definition collect_inv :: "(uuid \<Rightarrow> string) \<Rightarrow> market_db \<Rightarrow> bool" where
  "collect_inv ustr db \<longleftrightarrow>
     wallet_inv (mk_wallet db) \<and> invoices_ok db
     \<and> list_all (\<lambda>v. mi_status v = ''paid'' \<longrightarrow> backed ustr (mk_wallet db) v) (mk_invoices db)"

lemma ordinary_run_wallet: "ordinary_step\<^sup>*\<^sup>* w w' \<Longrightarrow> wallet_inv w \<Longrightarrow> step_ok w w'"
  using wallet.run_eff rtranclp_mono [of ordinary_step wallet_step] ordinary_is_step by blast

lemma backed_mono: "ordinary_step\<^sup>*\<^sup>* w w' \<Longrightarrow> wallet_inv w \<Longrightarrow> backed ustr w v \<Longrightarrow> backed ustr w' v"
  using ordinary_run_wallet [of w w'] unfolding step_ok_def backed_def by blast

lemma collect_inv_wallet:
  assumes "collect_inv ustr db" and "ordinary_step\<^sup>*\<^sup>* (mk_wallet db) w"
  shows "collect_inv ustr (db\<lparr>mk_wallet := w\<rparr>)"
  using assms ordinary_run_wallet [OF assms(2)] backed_mono [OF assms(2)]
  by (auto simp: collect_inv_def step_ok_def list_all_iff)

lemma collect_inv_put:
  assumes "collect_inv ustr db" and "terms_step db (put_invoice v db1)" and "mk_invoices db1 = mk_invoices db"
    and "mk_wallet db1 = mk_wallet db" and "mi_status v = ''paid'' \<Longrightarrow> backed ustr (mk_wallet db) v"
  shows "collect_inv ustr (put_invoice v db1)"
  using assms by (auto simp: collect_inv_def terms_step_def put_invoice_def update_rows_def list_all_iff)

lemma get_invoice_backed: "collect_inv ustr db \<Longrightarrow> get_invoice db i = Inr v \<Longrightarrow> mi_status v = ''paid'' \<Longrightarrow> backed ustr (mk_wallet db) v"
  using get_invoice_id [of db i v] by (auto simp: collect_inv_def list_all_iff)

lemma create_collect:
  assumes "create_invoice env a db = Inr (v, db')" and "collect_inv ustr db"
  shows "collect_inv ustr db'"
  using assms(1)
proof (cases rule: create_invoice_cases)
  case new
  from new(1) have "mi_status v = ''pending''" by (rule check_invoice_args_Inr) (simp add: invoice_terms_def)
  then show ?thesis
    using create_terms [OF assms(1)] assms(2) by (auto simp: collect_inv_def terms_step_def new(3))
qed (use assms in simp)

lemma mark_due_collect:
  assumes "mark_due_after_completion env x db = Inr (v, db')" and "collect_inv ustr db"
  shows "collect_inv ustr db'"
  using assms(1)
proof (cases rule: mark_due_cases)
  case (due u)
  have "terms_step db (put_invoice v db)" using mark_due_terms [OF assms(1)] assms(2) due(5) by (simp add: collect_inv_def)
  with assms(2) show ?thesis unfolding due(5) by (rule collect_inv_put) (simp_all add: due(4))
qed (use assms in simp)

lemma cash_collect:
  assumes "confirm_cash_receipt env x d db = Inr (b, db')" and "collect_inv ustr db"
  shows "collect_inv ustr db'"
proof -
  have ok: "invoices_ok db'" using cash_terms [OF assms(1)] assms(2) by (simp add: collect_inv_def terms_step_def)
  have "list_all (\<lambda>v. mi_status v = ''paid'' \<longrightarrow> backed ustr (mk_wallet db) v) (mk_invoices db')"
    using assms
    by (auto simp: confirm_cash_receipt_def Let_def collect_inv_def put_invoice_def update_rows_def list_all_iff split: if_splits)
  with ok assms show ?thesis by (auto simp: collect_inv_def other_ops_wallet)
qed

lemma attempt_shape:
  assumes "create_payment_attempt env t db = Inr (p, db')" and "get_invoice db (aa_invoice_id t) = Inr v"
  shows "db' = put_invoice (attempted_status env db v) (db\<lparr>mk_attempts := mk_attempts db @ [p], mk_next_id := Suc (mk_next_id db)\<rparr>)"
proof -
  from assms obtain am c where "invoice_money (aa_amount t) = Inr am" "invoice_currency (aa_currency t) = Inr c"
    by (auto simp: create_payment_attempt_def)
  with assms show ?thesis
    by (simp add: create_payment_attempt_def Let_def split: if_splits) (elim conjE, simp)
qed

lemma attempt_collect:
  assumes "create_payment_attempt env t db = Inr (p, db')" and "collect_inv ustr db"
  shows "collect_inv ustr db'"
proof -
  define db1 where "db1 = db\<lparr>mk_attempts := mk_attempts db @ [p], mk_next_id := Suc (mk_next_id db)\<rparr>"
  from assms(1) obtain v where v: "get_invoice db (aa_invoice_id t) = Inr v" by (auto simp: create_payment_attempt_def)
  have db': "db' = put_invoice (attempted_status env db v) db1" unfolding db1_def by (rule attempt_shape [OF assms(1) v])
  have db1: "mk_invoices db1 = mk_invoices db" "mk_wallet db1 = mk_wallet db" by (simp_all add: db1_def)
  have "attempted_status env db v = v \<or> mi_status (attempted_status env db v) \<noteq> ''paid''"
    by (simp add: attempted_status_def)
  then have "backed ustr (mk_wallet db) (attempted_status env db v)" if "mi_status (attempted_status env db v) = ''paid''"
    using get_invoice_backed [OF assms(2) v] that by metis
  moreover have "terms_step db db'" using attempt_terms [OF assms(1)] assms(2) by (simp add: collect_inv_def)
  ultimately show ?thesis unfolding db' using collect_inv_put [OF assms(2) _ db1] by blast
qed

text \<open>The transaction that the settlement verified is the one that owns the key of the invoice.\<close>

lemma verified_backed:
  assumes "wallet_inv w" and "transfer (me_wallet env) (settlement_transfer env v a e r) w = (Inr t, w')"
    and "settlement_verified env v e (find (\<lambda>u. tx_id u = wr_transaction_id t) (db_transactions w'))"
    and "me_uuid_text env = ustr" and "whole_cents (mi_amount v)" and "mi_id u = mi_id v"
    and "mi_amount u = mi_amount v" "mi_currency u = mi_currency v" "mi_payer_user_id u = mi_payer_user_id v"
    and "mi_transaction_id u = Some (wr_transaction_id t)"
  shows "backed ustr w' u"
proof -
  from assms(1,2) obtain x where x: "completed_row w' (invoice_key env (mi_id v)) x" "tx_id x = wr_transaction_id t" "wallet_inv w'"
    by (rule transfer_completed) (simp add: settlement_transfer_def)
  have "x \<in> set (db_transactions w')" using x(1) by (auto simp: completed_row_def find_tx_def dest: find_Some_key)
  with x(2,3) have "find (\<lambda>u. tx_id u = wr_transaction_id t) (db_transactions w') = Some x"
    using find_distinct [of tx_id "db_transactions w'" x] by (simp add: wallet_inv_def)
  with assms(3,5) have "tx_type x = TRANSFER" "cents round_half_even (tx_amount x) = mi_amount v"
    "str_upper (tx_currency x) = mi_currency v" "tx_user_id x = Some (mi_payer_user_id v)"
    by (simp_all add: settlement_verified_def half_even.quantize_whole_cents)
  with x(1,2) assms(4,6-) show ?thesis by (auto simp: backed_def invoice_key_def)
qed

lemma record_settlement_cases:
  assumes "record_settlement env i j r db = Inr (s, db')"
  obtains (already) v where "get_invoice db i = Inr v" "mi_status v = ''paid''" "db' = db" "st_already_processed s"
    | (marked) v u where "get_invoice db i = Inr v" "mi_status v = ''due''" "terms_of u = terms_of v" "mi_status u = ''paid''"
      "mi_transaction_id u = Some j" "db' = put_invoice u db" "\<not> st_already_processed s" "st_transaction_id s = Some j"
proof -
  from assms obtain v where v: "get_invoice db i = Inr v" by (auto simp: record_settlement_def)
  show thesis
  proof (cases "mi_status v = ''paid''")
    case True
    with assms v show ?thesis by (intro already [OF v]) (auto simp: record_settlement_def split: if_splits)
  next
    case False
    let ?u = "v\<lparr>mi_status := ''paid'', mi_transaction_id := Some j, mi_provider_reference := Some (me_uuid_text env j),
      mi_paid_at := Some (me_now env),
      mi_metadata := (mi_metadata v)(''settlement_request_id'' \<mapsto> (case r of None \<Rightarrow> JNull | Some r \<Rightarrow> JStr r))\<rparr>"
    from False assms v show ?thesis
      by (intro marked [of v ?u]) (auto simp: record_settlement_def terms_eq split: if_splits)
  qed
qed

lemma collect_from_wallet_inv:
  assumes "collect_from_wallet env v r db = (y, db')" and "collect_inv ustr db" and "get_invoice db i = Inr v"
    and "me_uuid_text env = ustr"
  shows "collect_inv ustr db'"
  using assms(1)
proof (cases rule: collect_cases)
  case (unsettled a e x w err)
  from settlement_run [OF unsettled(2)] assms(2) show ?thesis by (simp add: unsettled(4) collect_inv_wallet)
next
  case (settled a e t w s)
  note run = settlement_run [OF settled(2)]
  have inv1: "collect_inv ustr (db\<lparr>mk_wallet := w\<rparr>)" using collect_inv_wallet [OF assms(2) run] .
  have v: "mi_id v = i" "whole_cents (mi_amount v)"
    using get_invoice_id [OF assms(3)] assms(2) by (auto simp: collect_inv_def invoices_ok_def list_all_iff)
  from settled(4) show ?thesis
  proof (cases rule: record_settlement_cases)
    case (marked v' u)
    have "v' = v" using marked(1) assms(3) v(1) by (simp add: get_invoice_def)
    have "backed ustr w u"
      by (rule verified_backed [OF _ settled(2,3) assms(4) v(2)])
        (use assms(2) marked(3,5) in \<open>auto simp: terms_eq collect_inv_def \<open>v' = v\<close>\<close>)
    moreover have "terms_step (db\<lparr>mk_wallet := w\<rparr>) (put_invoice u (db\<lparr>mk_wallet := w\<rparr>))"
      using record_settlement_terms [OF settled(4)] inv1 marked(6) by (simp add: collect_inv_def)
    ultimately show ?thesis using collect_inv_put [OF inv1] marked(6) by simp
  qed (use inv1 in simp)
qed (use assms(2) in simp)

lemma settle_collect:
  assumes "collect_inv ustr db" and "me_uuid_text env = ustr"
  shows "collect_inv ustr (snd (settle_after_completion env x r db))"
proof (cases "mark_due_after_completion env x db")
  case (Inr p)
  obtain v db1 where p: "p = (v, db1)" by (cases p)
  with Inr have due: "mark_due_after_completion env x db = Inr (v, db1)" by simp
  have "invoices_ok db" using assms(1) by (simp add: collect_inv_def)
  from mark_due_terms [OF due this] obtain i where v: "get_invoice db1 i = Inr v" by blast
  have inv1: "collect_inv ustr db1" using due assms(1) by (rule mark_due_collect)
  obtain y db2 where run: "collect_from_wallet env v r db1 = (y, db2)" by fastforce
  from collect_from_wallet_inv [OF run inv1 v assms(2)] inv1 due run show ?thesis
    by (simp add: settle_after_completion_def)
qed (use assms in \<open>simp add: settle_after_completion_def\<close>)

interpretation collects: run_invariant "collect_step ustr" "collect_inv ustr"
proof
  show "collect_inv ustr db'" if "collect_step ustr db db'" "collect_inv ustr db" for db db'
    using that
    by (cases rule: collect_step.cases)
      (auto intro: create_collect mark_due_collect cash_collect attempt_collect settle_collect collect_inv_wallet)
qed

text \<open>
  C13: a paid invoice is backed by money.  As long as no payment attempt is completed and no refund processed, in every reachable state
  every invoice that is marked paid names a completed transfer of exactly its amount, in its currency and from its
  payer, and no two paid invoices name the same transfer.
\<close>

theorem paid_invoice_backed:
  assumes "(collect_step ustr)\<^sup>*\<^sup>* db db'" and "collect_inv ustr db" and "inj ustr"
    and "v \<in> set (mk_invoices db')" and "mi_status v = ''paid''"
  shows "backed ustr (mk_wallet db') v
    \<and> (\<forall>u \<in> set (mk_invoices db'). mi_status u = ''paid'' \<and> mi_transaction_id u = mi_transaction_id v \<longrightarrow> u = v)"
proof -
  have inv: "collect_inv ustr db'" using assms(1,2) by (rule collects.run_keeps)
  then have w: "wallet_inv (mk_wallet db')" by (simp add: collect_inv_def)
  from inv have b: "backed ustr (mk_wallet db') u" if "u \<in> set (mk_invoices db')" "mi_status u = ''paid''" for u
    using that by (simp add: collect_inv_def list_all_iff)
  have "u = v" if u: "u \<in> set (mk_invoices db')" "mi_status u = ''paid''" "mi_transaction_id u = mi_transaction_id v" for u
  proof -
    from b [OF u(1,2)] b [OF assms(4,5)] u(3)
    obtain s t where "find_tx (mk_wallet db') (''MARKETPLACE-INVOICE-'' @ ustr (mi_id u)) = Some s"
      "find_tx (mk_wallet db') (''MARKETPLACE-INVOICE-'' @ ustr (mi_id v)) = Some t" "tx_id s = tx_id t"
      unfolding backed_def completed_row_def by force
    from same_id_same_key [OF w this] have "mi_id u = mi_id v" using assms(3) by (auto dest: injD)
    moreover have "inj_on mi_id (set (mk_invoices db'))" using inv by (simp add: collect_inv_def invoices_ok_def distinct_map)
    ultimately show ?thesis using u(1) assms(4) by (auto dest: inj_onD)
  qed
  with b [OF assms(4,5)] show ?thesis by blast
qed

theorem paid_invoice_backed_witness:
  "\<exists>db' v. (collect_step (me_uuid_text market_env0))\<^sup>*\<^sup>* market_demo db' \<and> v \<in> set (mk_invoices db') \<and> mi_status v = ''paid''
     \<and> backed (me_uuid_text market_env0) (mk_wallet db') v"
proof (rule market_settles)
  fix s db'
  assume run: "settle_after_completion market_env0 market_claim None market_demo = (Inr s, db')"
    and "list_ex (\<lambda>v. mi_status v = ''paid'') (mk_invoices db')"
  then obtain v where v: "v \<in> set (mk_invoices db')" "mi_status v = ''paid''" by (auto simp: list_ex_iff)
  have step: "(collect_step (me_uuid_text market_env0))\<^sup>*\<^sup>* market_demo db'"
    using collect_step.Settle [of market_env0 "me_uuid_text market_env0" market_demo market_claim None] run by auto
  have "inj (me_uuid_text market_env0)" by (rule injI) (simp add: market_env0_def replicate_eq_replicate)
  moreover have "collect_inv (me_uuid_text market_env0) market_demo"
    using market_demo_wallet market_demo_ok by (simp add: collect_inv_def market_demo_def market_ride_def)
  ultimately show ?thesis using paid_invoice_backed [OF step _ _ v] step v by blast
qed

text \<open>The accounts of a settlement.\<close>

lemma settlement_parties_Inr:
  assumes "settlement_parties env v db = Inr (a, e)"
  shows "a \<in> set (db_accounts (mk_wallet db)) \<and> ac_user_id a = Some (mi_payer_user_id v) \<and> ac_currency a = mi_currency v
    \<and> e \<in> set (db_accounts (mk_wallet db)) \<and> ac_owner_type e = PLATFORM \<and> ac_account_type e = ESCROW \<and> ac_currency e = mi_currency v"
proof -
  from assms have pay: "account_get_by_user_id (mk_wallet db) (mi_payer_user_id v) (mi_currency v) = Inr (Some a)"
    and esc: "get_transport_escrow_account env db (mi_currency v) = Inr e"
    by (auto simp: settlement_parties_def payer_account_def split: option.splits if_splits sum.splits)
  from pay obtain u where u: "assert_internal_id (mi_payer_user_id v) = Inr u"
    and one: "scalar_one_or_none (filter (\<lambda>a. ac_user_id a = Some u \<and> ac_currency a = mi_currency v)
                (db_accounts (mk_wallet db))) = Inr (Some a)"
    by (auto simp: account_get_by_user_id_def)
  from one have "filter (\<lambda>a. ac_user_id a = Some u \<and> ac_currency a = mi_currency v) (db_accounts (mk_wallet db)) = [a]"
    by (cases "filter (\<lambda>a. ac_user_id a = Some u \<and> ac_currency a = mi_currency v) (db_accounts (mk_wallet db))"
        rule: scalar_one_or_none.cases) auto
  then have "a \<in> set (filter (\<lambda>a. ac_user_id a = Some u \<and> ac_currency a = mi_currency v) (db_accounts (mk_wallet db)))" by simp
  moreover have "u = mi_payer_user_id v" using u by (simp add: assert_internal_id_def split: if_splits)
  moreover from esc have "e \<in> set (db_accounts (mk_wallet db)) \<and> ac_owner_type e = PLATFORM \<and> ac_account_type e = ESCROW
      \<and> ac_currency e = mi_currency v"
    by (auto simp: get_transport_escrow_account_def split: option.splits dest!: find_SomeD)
  ultimately show ?thesis by simp
qed

lemma settlement_balances:
  assumes inv: "wallet_inv w" and tr: "transfer env (settlement_transfer menv v a e r) w = (Inr t, w')"
    and a: "a \<in> set (db_accounts w)" "ac_currency a = mi_currency v" and e: "e \<in> set (db_accounts w)" "ac_currency e = mi_currency v"
    and cents: "whole_cents (mi_amount v)"
  shows "get_balance w' i c None = get_balance w i c None +
    (if find_tx w (invoice_key menv (mi_id v)) = None
     then (if i = ac_id e \<and> c = mi_currency v then mi_amount v else 0) - (if i = ac_id a \<and> c = mi_currency v then mi_amount v else 0)
     else 0)"
proof -
  let ?args = "settlement_transfer menv v a e r"
  have key: "ta_client_request_id ?args = Some (invoice_key menv (mi_id v))" by (simp add: settlement_transfer_def)
  have uniq: "x = y" if "x \<in> set (db_accounts w)" "y \<in> set (db_accounts w)" "ac_id x = ac_id y" for x y
    using inv that by (auto simp: wallet_inv_def distinct_map dest: inj_onD)
  from tr show ?thesis
  proof (cases rule: transfer_Inr)
    case (replayed am fa ta)
    have "find_tx w (invoice_key menv (mi_id v)) \<noteq> None"
      using transfer_replay_Some [OF quiet_inv [OF replayed(3) inv] replayed(5) key] quiet_find_tx [OF replayed(3)] by auto
    with quiet_balance [OF replayed(3)] show ?thesis by auto
  next
    case (moved am fa ta w1 legs x w2)
    have q1: "quiet w w1" by (rule transfer_open_quiet [OF moved(2)])
    from moved(2) obtain fa' ta' where lock: "lock_accounts ?args w1 = Inr (fa', ta')" and ft: "fa = fa'" "ta = ta'"
      and rep: "transfer_replay ?args am fa ta w1 = Inr None"
      by (rule transfer_open_Inr) auto
    have none: "find_tx w (invoice_key menv (mi_id v)) = None"
      using transfer_replay_None [OF quiet_inv [OF q1 inv] rep key] quiet_find_tx [OF q1] by simp
    have "fa \<in> set (db_accounts w)" "ac_id fa = ac_id a" "ta \<in> set (db_accounts w)" "ac_id ta = ac_id e"
      using lock_accounts_Inr [OF lock] ft q1 by (simp_all add: quiet_def settlement_transfer_def)
    then have fa: "fa = a" and ta: "ta = e" using uniq a(1) e(1) by auto
    have am: "am = mi_amount v"
      using transfer_validate_Inr [OF moved(1)] cents by (simp add: settlement_transfer_def quantize_def down.quantize_whole_cents)
    have legs: "tl_debit_amount legs = am" "tl_credit_amount legs = am" "tl_debit_currency legs = mi_currency v"
      "tl_credit_currency legs = mi_currency v"
      using transfer_legs_same_currency [OF moved(3)] a(2) e(2) by (simp_all add: fa ta)
    from quiet_inv [OF moved(5) inv] moved(4) show ?thesis
    proof (cases rule: transfer_post_cases)
      case (replayed tx k)
      with none key quiet_find_tx [OF moved(5)] show ?thesis by simp
    next
      case (new n)
      have "fee_of ?args = 0" by (simp add: fee_of_def money_or_0_def settlement_transfer_def)
      then show ?thesis
        using posted_balance [OF quiet_posted [OF moved(5) new(1)], of i c] none
        by (simp add: transfer_entries_effect legs am fa ta)
    qed
  qed
qed

text \<open>
  C12: settlement collects exactly the invoice, once.  When a settlement marks an invoice paid, the invoice names the transaction
  it returns and keeps its terms; if its key had no transaction before, exactly its amount has moved from the
  payer's account in its currency into a platform escrow account of that currency, and no other balance has changed;
  if it had one, no balance has changed at all.
\<close>

theorem settlement_collects:
  assumes "wallet_inv (mk_wallet db)" and "invoices_ok db" and "settle_after_completion env x r db = (Inr s, db')"
    and "st_status s = ''paid''" and "\<not> st_already_processed s"
  shows "\<exists>v v' a e. get_invoice db (ix_invoice_id x) = Inr v \<and> get_invoice db' (ix_invoice_id x) = Inr v'
    \<and> terms_of v' = terms_of v \<and> mi_status v' = ''paid'' \<and> mi_transaction_id v' = st_transaction_id s
    \<and> a \<in> set (db_accounts (mk_wallet db)) \<and> ac_user_id a = Some (mi_payer_user_id v)
    \<and> e \<in> set (db_accounts (mk_wallet db)) \<and> ac_owner_type e = PLATFORM \<and> ac_account_type e = ESCROW
    \<and> (\<forall>i c. get_balance (mk_wallet db') i c None = get_balance (mk_wallet db) i c None +
        (if find_tx (mk_wallet db) (invoice_key env (mi_id v)) = None
         then (if i = ac_id e \<and> c = mi_currency v then mi_amount v else 0)
              - (if i = ac_id a \<and> c = mi_currency v then mi_amount v else 0)
         else 0))"
proof -
  let ?i = "ix_invoice_id x"
  from assms(3) obtain u db1 where due: "mark_due_after_completion env x db = Inr (u, db1)"
    by (auto simp: settle_after_completion_def split: sum.splits)
  with assms(3-5) have run: "collect_from_wallet env u r db1 = (Inr s, db')"
    by (auto simp: settle_after_completion_def split: if_splits)
  obtain v where v: "get_invoice db ?i = Inr v" "terms_of u = terms_of v"
    using due by (cases rule: mark_due_cases) (auto simp: terms_eq)
  have w1: "mk_wallet db1 = mk_wallet db" using due by (rule other_ops_wallet)
  have u: "get_invoice db1 ?i = Inr u"
    using due get_put [of db u v] get_invoice_id [OF v(1)] v by (cases rule: mark_due_cases) (auto simp: terms_eq)
  have cents: "whole_cents (mi_amount u)"
    using v get_invoice_id [OF v(1)] assms(2) by (auto simp: invoices_ok_def list_all_iff terms_eq)
  from run show ?thesis
  proof (cases rule: collect_cases)
    case (settled a e t w s')
    note parties = settlement_parties_Inr [OF settled(1)]
    have id: "mi_id u = ?i" using get_invoice_id [OF u] by simp
    from settled(4) show ?thesis
    proof (cases rule: record_settlement_cases)
      case (marked v1 u1)
      have v1: "v1 = u" using marked(1) u by (simp add: get_invoice_def id)
      have "mi_id u1 = ?i" using marked(3) v1 id by (simp add: terms_eq)
      then have "get_invoice db' ?i = Inr u1"
        using get_put [of "db1\<lparr>mk_wallet := w\<rparr>" u1 u] u by (simp add: marked(6) get_invoice_def)
      moreover have "mk_wallet db' = w" by (simp add: marked(6))
      ultimately show ?thesis
        using v parties marked(3-5,8) settled(5) settlement_balances [OF assms(1) settled(2) [unfolded w1]] cents
        by (intro exI [of _ v] exI [of _ u1] exI [of _ a] exI [of _ e]) (auto simp: w1 v1 terms_eq)
    qed (use assms(5) settled(5) in auto)
  qed auto
qed

theorem settlement_collects_witness:
  "\<exists>s db'. settle_after_completion market_env0 market_claim None market_demo = (Inr s, db')
     \<and> get_balance (mk_wallet db') 1 ''USD'' None = 70 \<and> get_balance (mk_wallet db') 3 ''USD'' None = 30"
proof (rule market_settles)
  fix s db'
  assume run: "settle_after_completion market_env0 market_claim None market_demo = (Inr s, db')"
    and s: "st_status s = ''paid''" "\<not> st_already_processed s"
  have bal: "get_balance (mk_wallet market_demo) i c None = (if i = 1 \<and> c = ''USD'' then 100 else 0)" for i c
    using demo_balance by (simp add: get_balance_def market_demo_def)
  have acc: "db_accounts (mk_wallet market_demo) = [demo_account 1 1 ''USD'', demo_account 2 2 ''USD'', market_escrow]"
    by (simp add: market_demo_def demo_accounts)
  have none: "find_tx (mk_wallet market_demo) (invoice_key market_env0 5) = None"
    by (simp add: find_tx_def market_demo_def demo_db_def demo_opening_def invoice_key_def)
  have v: "get_invoice market_demo 5 = Inr market_ride" "mi_id market_ride = 5" "mi_amount market_ride = 30"
    "mi_currency market_ride = ''USD''" "mi_payer_user_id market_ride = 1" "ix_invoice_id market_claim = 5"
    by (simp_all add: get_invoice_def market_demo_def market_ride_def market_claim_def)
  from settlement_collects [OF market_demo_wallet(1) market_demo_ok run s, unfolded v sum.inject]
  obtain a e where a: "a \<in> set (db_accounts (mk_wallet market_demo))" "ac_user_id a = Some 1"
    and e: "e \<in> set (db_accounts (mk_wallet market_demo))" "ac_owner_type e = PLATFORM"
    and moved: "\<And>i c. get_balance (mk_wallet db') i c None = get_balance (mk_wallet market_demo) i c None +
      ((if i = ac_id e \<and> c = ''USD'' then 30 else 0) - (if i = ac_id a \<and> c = ''USD'' then 30 else 0))"
    using none by (auto simp: v)
  have "ac_id a = 1" "ac_id e = 3" using a e by (auto simp: acc market_escrow_def demo_account_def)
  then have "get_balance (mk_wallet db') 1 ''USD'' None = 70 \<and> get_balance (mk_wallet db') 3 ''USD'' None = 30"
    unfolding moved bal by simp
  with run show ?thesis by blast
qed

subsection \<open>Attempts and refunds\<close>

lemma check_attempt_transaction_Inr:
  "check_attempt_transaction db t i = Inr x \<longleftrightarrow>
     find (\<lambda>x. tx_id x = i) (db_transactions (mk_wallet db)) = Some x \<and> tx_status x = COMPLETED
     \<and> cents round_half_even (tx_amount x) = at_amount t \<and> str_upper (tx_currency x) = at_currency t"
  by (auto simp: check_attempt_transaction_def split: option.splits if_splits)

lemma allocated_insert:
  "insert_allocation a db = Inr db' \<Longrightarrow> allocated db' i = allocated db i + (if ao_invoice_id a = i then ao_amount a else 0)"
  by (auto simp: allocated_def allocations_of_def dest!: insert_allocation_Inr)

text \<open>
  Exactly when a payment attempt succeeds.  It succeeds exactly when it is open, the named transaction is completed with
  the amount and the currency of the attempt, and has not been allocated to this invoice before; whose transaction it is
  does not matter.  The invoice is then marked paid exactly when the earlier allocations and \<^emph>\<open>twice\<close> the amount of the
  attempt reach its amount.
\<close>

theorem attempt_success_exact:
  assumes "find (\<lambda>t. at_id t = k) (mk_attempts db) = Some t" and "get_invoice db (at_invoice_id t) = Inr v" and "0 < at_amount t"
  shows "case complete_payment_attempt env k i p ''succeeded'' c m db of
      Inl _ \<Rightarrow> \<not> (at_status t \<in> {''created'', ''pending'', ''requires_action''}
          \<and> (\<exists>x. check_attempt_transaction db t i = Inr x)
          \<and> \<not> list_ex (\<lambda>b. ao_transaction_id b = i \<and> ao_invoice_id b = mi_id v) (mk_allocations db))
    | Inr (y, db') \<Rightarrow> at_status t \<in> {''created'', ''pending'', ''requires_action''}
          \<and> (\<exists>x. check_attempt_transaction db t i = Inr x)
          \<and> \<not> list_ex (\<lambda>b. ao_transaction_id b = i \<and> ao_invoice_id b = mi_id v) (mk_allocations db)
          \<and> y = (''succeeded'', if allocated db (mi_id v) + 2 * at_amount t \<ge> mi_amount v then ''paid'' else ''partially_paid'')
          \<and> (\<exists>v'. get_invoice db' (mi_id v) = Inr v' \<and> terms_of v' = terms_of v \<and> mi_status v' = snd y)"
proof -
  have id: "at_invoice_id t = mi_id v" using get_invoice_id [OF assms(2)] by simp
  let ?a = "\<lparr>ao_transaction_id = i, ao_invoice_id = at_invoice_id t, ao_amount = at_amount t, ao_currency = at_currency t\<rparr>"
  let ?open = "at_status t \<in> {''created'', ''pending'', ''requires_action''}"
  show ?thesis
  proof (cases "?open \<and> (\<exists>x. check_attempt_transaction db t i = Inr x)
      \<and> \<not> list_ex (\<lambda>b. ao_transaction_id b = i \<and> ao_invoice_id b = mi_id v) (mk_allocations db)")
    case True
    from True obtain x where cx: "check_attempt_transaction db t i = Inr x" by blast
    have op: "check ?open (MarketplaceInvoiceError ''attempt_already_completed'') = Inr ()" using True by (simp only: check_def if_True)
    define db1 where "db1 = db\<lparr>mk_allocations := mk_allocations db @ [?a]\<rparr>"
    define u where "u = paid_status env db1 t i v"
    define db2 where "db2 = put_attempt (with_provider p (t\<lparr>at_status := ''succeeded'', at_completed_at := Some (me_now env)\<rparr>)) db1"
    have ins: "insert_allocation ?a db = Inr db1" using True assms(3) by (simp add: insert_allocation_def id db1_def)
    have get: "get_invoice db1 (at_invoice_id t) = Inr v" using assms(2) by (simp add: db1_def get_invoice_def)
    have "complete_payment_attempt env k i p ''succeeded'' c m db = Inr ((''succeeded'', mi_status u), put_invoice u db2)"
      by (simp only: complete_payment_attempt_def assms(1) option.case op rbind_simps simp_thms if_True cx ins get Let_def u_def db2_def)
    moreover have "allocated db1 (mi_id v) = allocated db (mi_id v) + at_amount t" using allocated_insert [OF ins] by (simp add: id)
    then have "mi_status u = (if allocated db (mi_id v) + 2 * at_amount t \<ge> mi_amount v then ''paid'' else ''partially_paid'')"
      by (simp add: u_def paid_status_def)
    moreover have tu: "terms_of u = terms_of v" by (simp add: u_def paid_status_def terms_eq)
    moreover have "get_invoice (put_invoice u db2) (mi_id v) = Inr u"
      using get_put [of db2 u v] get tu by (simp add: db2_def get_invoice_def terms_eq id)
    ultimately show ?thesis using True by simp
  next
    case False
    then have "\<exists>e. complete_payment_attempt env k i p ''succeeded'' c m db = Inl e"
      using assms(1)
      by (cases "check_attempt_transaction db t i"; cases ?open)
        (auto simp: complete_payment_attempt_def insert_allocation_def id check_def)
    with False show ?thesis by auto
  qed
qed

definition half_attempt :: payment_attempt where
  "half_attempt = \<lparr>at_id = 7, at_invoice_id = 5, at_number = 1, at_amount = 100, at_currency = ''USD'', at_payment_method = ''wallet'',
     at_provider_name = None, at_provider_reference = None, at_status = ''created'', at_idempotency_key = None,
     at_error_code = None, at_error_message = None, at_completed_at = None\<rparr>"

text \<open>Half of an invoice of 200 USD, covered by the unrelated opening deposit of the first account, pays it in full.\<close>

theorem attempt_success_exact_witness:
  "let db = market_demo\<lparr>mk_invoices := [market_ride\<lparr>mi_amount := 200\<rparr>], mk_attempts := [half_attempt]\<rparr> in
   \<exists>y db'. complete_payment_attempt market_env0 7 10 None ''succeeded'' None None db = Inr (y, db') \<and> snd y = ''paid''"
proof -
  define db where "db = market_demo\<lparr>mk_invoices := [market_ride\<lparr>mi_amount := 200\<rparr>], mk_attempts := [half_attempt]\<rparr>"
  have att: "find (\<lambda>t. at_id t = 7) (mk_attempts db) = Some half_attempt" by (simp add: db_def half_attempt_def)
  have inv: "get_invoice db (at_invoice_id half_attempt) = Inr (market_ride\<lparr>mi_amount := 200\<rparr>)"
    by (simp add: db_def half_attempt_def get_invoice_def market_ride_def)
  have "cents round_half_even 100 = 100" using whole_cents_int [of 100] by (simp add: half_even.quantize_whole_cents)
  then have tx: "check_attempt_transaction db half_attempt 10 = Inr demo_opening"
    by (simp add: check_attempt_transaction_Inr db_def half_attempt_def market_demo_def demo_db_def demo_opening_def market_text)
  have facts: "at_status half_attempt = ''created''" "at_amount half_attempt = 100" "mk_allocations db = []" "allocated db 5 = 0"
    by (simp_all add: half_attempt_def db_def market_demo_def allocated_def allocations_of_def)
  have "0 < at_amount half_attempt" by (simp add: half_attempt_def)
  note exact = attempt_success_exact [OF att inv this]
  show ?thesis
  proof (cases "complete_payment_attempt market_env0 7 10 None ''succeeded'' None None db")
    case (Inl e)
    with exact [where env = market_env0 and i = 10 and p = None and c = None and m = None] tx facts show ?thesis by simp
  next
    case (Inr q)
    with exact [where env = market_env0 and i = 10 and p = None and c = None and m = None] facts show ?thesis
      unfolding Let_def db_def [symmetric] by (cases q) (simp add: market_ride_def)
  qed
qed

text \<open>
  A refund to the wallet is never recorded.  For an invoice paid by wallet every refund raises and leaves invoices, attempts and
  allocations as they were; but when the transfer from escrow to the payer succeeds, its effect on the
  wallet stays, so the refund can be repeated.
\<close>

theorem wallet_refund_never_recorded:
  assumes "get_invoice db (ra_refund_invoice_id f) = Inr v" and "mi_payment_method v = ''wallet''"
    and "mi_status v \<noteq> ''cash_received''"
  shows "\<exists>err w. process_refund env f db = (Inl err, db\<lparr>mk_wallet := w\<rparr>)
    \<and> (\<forall>am p e r w'. check_refund f db = Inr (v, am) \<and> payer_account db v = Inr (Some p)
         \<and> get_transport_escrow_account env db (mi_currency v) = Inr e
         \<and> transfer (me_wallet env) (refund_transfer env f v am e p) (mk_wallet db) = (Inr r, w') \<longrightarrow> w = w')"
proof -
  obtain y db' where run: "process_refund env f db = (y, db')" by fastforce
  have same: "u = v" if "check_refund f db = Inr (u, am)" for u am using check_refund_Inr [OF that] assms(1) by simp
  have once: "w = w'"
    if "check_refund f db = Inr (v, am)" "payer_account db v = Inr (Some p)"
      "get_transport_escrow_account env db (mi_currency v) = Inr e"
      "transfer (me_wallet env) (refund_transfer env f v am e p) (mk_wallet db) = (Inr r, w')"
      "process_refund env f db = (Inl err, db\<lparr>mk_wallet := w\<rparr>)" for am p e r w w' err
  proof -
    have "db\<lparr>mk_wallet := w\<rparr> = db\<lparr>mk_wallet := w'\<rparr>"
      using that assms(2,3) check_refund_Inr [OF that(1)]
      by (auto simp: process_refund_def refund_through_wallet_def insert_allocation_def Let_def)
    then have "mk_wallet (db\<lparr>mk_wallet := w\<rparr>) = mk_wallet (db\<lparr>mk_wallet := w'\<rparr>)" by (rule arg_cong)
    then show ?thesis by simp
  qed
  from run show ?thesis
  proof (cases rule: process_refund_cases)
    case (stopped err)
    then have "process_refund env f db = (Inl err, db\<lparr>mk_wallet := mk_wallet db\<rparr>)" using run by simp
    with once show ?thesis by blast
  next
    case (moved u am p e x w err)
    then have "process_refund env f db = (Inl err, db\<lparr>mk_wallet := w\<rparr>)" using run by simp
    with once show ?thesis by blast
  next
    case (recorded u am s)
    with same assms(2,3) show ?thesis by auto
  qed
qed

text \<open>An escrow account with 50 USD, and a ride that is paid with an allocation of 30 USD.\<close>

definition refund_demo :: market_db where
  "refund_demo = market_demo\<lparr>
     mk_wallet := (mk_wallet market_demo)\<lparr>db_ledger := db_ledger demo_db @ [make_entry 5 12 10 3 CREDIT 50 ''USD'']\<rparr>,
     mk_invoices := [market_ride\<lparr>mi_status := ''paid''\<rparr>],
     mk_allocations := [\<lparr>ao_transaction_id = 10, ao_invoice_id = 5, ao_amount = 30, ao_currency = ''USD''\<rparr>]\<rparr>"

definition refund_request :: refund_args where
  "refund_request = \<lparr>ra_refund_invoice_id = 5, ra_refund_amount = Some 30, ra_refund_currency = ''USD'', ra_reason = ''no show'',
     ra_initiated_by = 9, ra_original_transaction_id = None\<rparr>"

lemma refund_demo_checks:
  "check_refund refund_request refund_demo = Inr (market_ride\<lparr>mi_status := ''paid''\<rparr>, 30)"
  "payer_account refund_demo (market_ride\<lparr>mi_status := ''paid''\<rparr>) = Inr (Some (demo_account 1 1 ''USD''))"
  "get_transport_escrow_account market_env0 refund_demo ''USD'' = Inr market_escrow"
  by (simp_all add: check_refund_def get_invoice_def invoice_money_def cents_30 market_text refund_eligible_def outstanding_amount_def
      allocated_def allocations_of_def payer_account_def account_get_by_user_id_def assert_internal_id_def
      get_transport_escrow_account_def refund_demo_def refund_request_def market_defs demo_defs)

lemma refund_demo_transfer:
  "\<exists>r w. transfer demo_env (refund_transfer market_env0 refund_request (market_ride\<lparr>mi_status := ''paid''\<rparr>) 30 market_escrow
       (demo_account 1 1 ''USD'')) (mk_wallet refund_demo) = (Inr r, w) \<and> get_balance w 3 ''USD'' None = 20"
  by (simp add: refund_transfer_def refund_key_def refund_demo_def refund_request_def market_defs transfer_eval demo_defs
      limit_eval op_eval Let_def)

theorem wallet_refund_never_recorded_witness:
  "\<exists>err db'. process_refund market_env0 refund_request refund_demo = (Inl err, db')
     \<and> get_balance (mk_wallet refund_demo) 3 ''USD'' None = 50 \<and> get_balance (mk_wallet db') 3 ''USD'' None = 20
     \<and> mk_invoices db' = mk_invoices refund_demo \<and> mk_allocations db' = mk_allocations refund_demo"
proof -
  let ?v = "market_ride\<lparr>mi_status := ''paid''\<rparr>"
  obtain r w where tr: "transfer demo_env (refund_transfer market_env0 refund_request ?v 30 market_escrow (demo_account 1 1 ''USD''))
      (mk_wallet refund_demo) = (Inr r, w)" and bal: "get_balance w 3 ''USD'' None = 20"
    using refund_demo_transfer by blast
  have v: "get_invoice refund_demo (ra_refund_invoice_id refund_request) = Inr ?v" using check_refund_Inr [OF refund_demo_checks(1)] by simp
  have "mi_payment_method ?v = ''wallet''" "mi_status ?v \<noteq> ''cash_received''" "mi_currency ?v = ''USD''"
    by (simp_all add: market_ride_def)
  then obtain err w' where "process_refund market_env0 refund_request refund_demo = (Inl err, refund_demo\<lparr>mk_wallet := w'\<rparr>)" and "w' = w"
    using wallet_refund_never_recorded [OF v, of market_env0] refund_demo_checks tr by (force simp: market_env0_def)
  moreover have "get_balance (mk_wallet refund_demo) 3 ''USD'' None = 50"
    by (simp add: refund_demo_def get_balance_sum demo_defs market_demo_def entry_effect_make_entry)
  ultimately show ?thesis
    using bal by (intro exI [of _ err] exI [of _ "refund_demo\<lparr>mk_wallet := w\<rparr>"]) simp
qed

end
