(* ===== verification/Ticket_Inventory.thy ===== *)
theory Ticket_Inventory
  imports Run_Systems
begin

section \<open>Ticket inventory of events\<close>

text \<open>
  Models \<open>app/events/inventory.py\<close> (the reservation primitives and \<open>TicketHold\<close>), the seat columns of \<open>TicketType\<close> and
  \<open>Event\<close> in \<open>app/events/models.py\<close>, the sweep of expired holds in \<open>app/events/tasks.py\<close> and the sale modes of
  \<open>app/events/sale_guard.py\<close>.  A table is the list of its rows; an operation that raises leaves the database as it was,
  because its callers and the retry decorator roll back.  The clock, the configured hold time and the random
  identifiers are the fields of \<open>inv_env\<close>.
\<close>

subsection \<open>Rows\<close>

datatype inventory_error =
    Reservation_error string
  | Only_available int string
  | Value_error string
  | Integrity_error string

record event =
  ev_id :: int
  ev_max_capacity :: int

record ticket_type =
  tt_id :: int
  tt_event_id :: int
  tt_name :: string
  tt_capacity :: int
  tt_available_seats :: "int option"
  tt_is_active :: bool

datatype ReservationStatus = RESERVED | CONFIRMED | RELEASED | EXPIRED | CANCELLED

record ticket_hold =
  th_id :: int
  th_public_id :: string
  th_reservation_token :: string
  th_event_id :: int
  th_ticket_type_id :: int
  th_user_id :: "int option"
  th_quantity :: int
  th_status :: ReservationStatus
  th_idempotency_key :: "string option"
  th_wallet_txn_id :: "string option"
  th_hold_minutes :: int
  th_expires_at :: time
  th_released_at :: "time option"
  th_release_reason :: "string option"
  th_converted_registration_id :: "int option"

record inv_db =
  iv_events :: "event list"
  iv_tiers :: "ticket_type list"
  iv_holds :: "ticket_hold list"
  iv_next_hold :: int

record inv_env =
  ie_now :: time
  ie_hold_minutes :: int
  ie_public_id :: string
  ie_token :: string

text \<open>\<open>TicketType.__init__\<close>: the seats start at the capacity unless they are given.\<close>

definition new_ticket_type :: "int \<Rightarrow> int \<Rightarrow> string \<Rightarrow> int \<Rightarrow> int option \<Rightarrow> bool \<Rightarrow> ticket_type" where
  "new_ticket_type i ev name cap avail active =
     \<lparr>tt_id = i, tt_event_id = ev, tt_name = name, tt_capacity = cap,
      tt_available_seats = (case avail of None \<Rightarrow> Some cap | Some a \<Rightarrow> Some a), tt_is_active = active\<rparr>"

definition is_expired_flag :: "time \<Rightarrow> ticket_hold \<Rightarrow> bool" where
  "is_expired_flag now h \<longleftrightarrow> th_status h = RESERVED \<and> th_expires_at h \<le> now"

definition mark_confirmed :: "string option \<Rightarrow> int option \<Rightarrow> ticket_hold \<Rightarrow> ticket_hold" where
  "mark_confirmed txn reg h =
     h\<lparr>th_status := CONFIRMED,
       th_wallet_txn_id := (case txn of None \<Rightarrow> th_wallet_txn_id h | Some _ \<Rightarrow> txn),
       th_converted_registration_id := (case reg of None \<Rightarrow> th_converted_registration_id h | Some _ \<Rightarrow> reg),
       th_release_reason := Some ''Converted to registration''\<rparr>"

definition mark_released :: "time \<Rightarrow> string option \<Rightarrow> ticket_hold \<Rightarrow> ticket_hold" where
  "mark_released now reason h = h\<lparr>th_status := RELEASED, th_released_at := Some now, th_release_reason := reason\<rparr>"

definition mark_expired :: "time \<Rightarrow> ticket_hold \<Rightarrow> ticket_hold" where
  "mark_expired now h =
     h\<lparr>th_status := EXPIRED, th_released_at := Some now, th_release_reason := Some ''Hold expired''\<rparr>"

definition mark_cancelled :: "time \<Rightarrow> string option \<Rightarrow> ticket_hold \<Rightarrow> ticket_hold" where
  "mark_cancelled now reason h = h\<lparr>th_status := CANCELLED, th_released_at := Some now, th_release_reason := reason\<rparr>"

subsection \<open>Seats\<close>

definition coalesce_seats :: "ticket_type \<Rightarrow> int" where
  "coalesce_seats t = (case tt_available_seats t of None \<Rightarrow> tt_capacity t | Some a \<Rightarrow> a)"

definition event_consumed_seats :: "inv_db \<Rightarrow> int \<Rightarrow> int" where
  "event_consumed_seats db ev =
     sum_where (\<lambda>t. tt_event_id t = ev \<and> tt_capacity t > 0) (\<lambda>t. tt_capacity t - coalesce_seats t) (iv_tiers db)"

text \<open>The \<open>WHERE\<close> clause of the conditional update; a comparison with a missing seat count does not hold.\<close>

definition sellable :: "int \<Rightarrow> int \<Rightarrow> int \<Rightarrow> ticket_type \<Rightarrow> bool" where
  "sellable ev i q t \<longleftrightarrow>
     tt_id t = i \<and> tt_event_id t = ev \<and> tt_is_active t
     \<and> (case tt_available_seats t of None \<Rightarrow> False | Some a \<Rightarrow> a \<ge> q)"

definition take_seats :: "int \<Rightarrow> ticket_type \<Rightarrow> ticket_type" where
  "take_seats q t = t\<lparr>tt_available_seats := map_option (\<lambda>a. a - q) (tt_available_seats t)\<rparr>"

definition atomic_decrement :: "int \<Rightarrow> int \<Rightarrow> int \<Rightarrow> inv_db \<Rightarrow> inventory_error + inv_db" where
  "atomic_decrement ev i q db =
     (if q < 1 then Inl (Value_error ''quantity must be >= 1'')
      else case find (\<lambda>e. ev_id e = ev) (iv_events db) of
        None \<Rightarrow> Inl (Reservation_error ''Event not found'')
      | Some e \<Rightarrow>
          if ev_max_capacity e > 0 \<and> event_consumed_seats db ev + q > ev_max_capacity e
          then Inl (Reservation_error ''Event has reached full capacity'')
          else if list_ex (sellable ev i q) (iv_tiers db)
          then Inr (db\<lparr>iv_tiers := update_rows (sellable ev i q) (take_seats q) (iv_tiers db)\<rparr>)
          else (case find (\<lambda>t. tt_id t = i \<and> tt_event_id t = ev) (iv_tiers db) of
                  None \<Rightarrow> Inl (Reservation_error ''Ticket type not found'')
                | Some t \<Rightarrow>
                    if \<not> tt_is_active t then Inl (Reservation_error ''Ticket type is not available for sale'')
                    else if tt_capacity t = 0 then Inr db
                    else if coalesce_seats t < q then Inl (Only_available (coalesce_seats t) (tt_name t))
                    else Inl (Reservation_error ''Ticket inventory unavailable'')))"

definition decrement_capacity :: "int \<Rightarrow> int \<Rightarrow> int option \<Rightarrow> inv_db \<Rightarrow> inventory_error + inv_db" where
  "decrement_capacity i q ev db =
     (if q < 1 then Inl (Value_error ''quantity must be >= 1'')
      else case ev of
        Some e \<Rightarrow> atomic_decrement e i q db
      | None \<Rightarrow>
          (case find (\<lambda>t. tt_id t = i) (iv_tiers db) of
             None \<Rightarrow> Inl (Reservation_error ''Ticket type not found'')
           | Some t \<Rightarrow> atomic_decrement (tt_event_id t) i q db))"

definition return_seats :: "int \<Rightarrow> ticket_type \<Rightarrow> ticket_type" where
  "return_seats q t = t\<lparr>tt_available_seats := Some (min (tt_capacity t) (coalesce_seats t + q))\<rparr>"

text \<open>The answer is the number of updated rows.\<close>

definition increment_capacity :: "int \<Rightarrow> int \<Rightarrow> inv_db \<Rightarrow> nat \<times> inv_db" where
  "increment_capacity i q db =
     (if q < 1 then (0, db)
      else let p = (\<lambda>t. tt_id t = i \<and> tt_capacity t > 0)
           in (length (filter p (iv_tiers db)), db\<lparr>iv_tiers := update_rows p (return_seats q) (iv_tiers db)\<rparr>))"

definition reserve_seat :: "ticket_type \<Rightarrow> inv_db \<Rightarrow> bool \<times> inv_db" where
  "reserve_seat t db =
     (if tt_capacity t = 0 then (True, db)
      else case decrement_capacity (tt_id t) 1 (Some (tt_event_id t)) db of
        Inl _ \<Rightarrow> (False, db) | Inr db' \<Rightarrow> (True, db'))"

definition release_seat :: "ticket_type \<Rightarrow> int \<Rightarrow> inv_db \<Rightarrow> inv_db" where
  "release_seat t count db =
     (if tt_capacity t = 0 \<or> count < 1 then db else snd (increment_capacity (tt_id t) count db))"

subsection \<open>Holds\<close>

text \<open>The insert is subject to the unique and check constraints of the table.\<close>

definition insert_hold :: "ticket_hold \<Rightarrow> inv_db \<Rightarrow> inventory_error + ticket_hold \<times> inv_db" where
  "insert_hold h db =
     (if list_ex (\<lambda>k. th_reservation_token k = th_reservation_token h) (iv_holds db)
      then Inl (Integrity_error ''uq_ticket_hold_token'')
      else if list_ex (\<lambda>k. th_public_id k = th_public_id h) (iv_holds db)
      then Inl (Integrity_error ''uq_ticket_hold_public_id'')
      else if th_hold_minutes h \<le> 0 then Inl (Integrity_error ''ck_ticket_hold_minutes_positive'')
      else if th_quantity h \<le> 0 then Inl (Integrity_error ''ck_ticket_hold_quantity_positive'')
      else Inr (h, db\<lparr>iv_holds := iv_holds db @ [h], iv_next_hold := iv_next_hold db + 1\<rparr>))"

definition reserve_capacity ::
  "inv_env \<Rightarrow> int \<Rightarrow> int \<Rightarrow> int \<Rightarrow> int option \<Rightarrow> int option \<Rightarrow> string option \<Rightarrow> inv_db \<Rightarrow>
   inventory_error + ticket_hold \<times> inv_db" where
  "reserve_capacity env ev i q user_id hold_minutes key db =
     (if q < 1 then Inl (Value_error ''quantity must be >= 1'')
      else
        let minutes = (if hold_minutes \<in> {None, Some 0} then ie_hold_minutes env else the hold_minutes) in
        rbind (atomic_decrement ev i q db) (\<lambda>db1.
        insert_hold
          \<lparr>th_id = iv_next_hold db1, th_public_id = ie_public_id env, th_reservation_token = ie_token env,
           th_event_id = ev, th_ticket_type_id = i, th_user_id = user_id, th_quantity = q, th_status = RESERVED,
           th_idempotency_key = key, th_wallet_txn_id = None, th_hold_minutes = minutes,
           th_expires_at = ie_now env + minutes * 60000000, th_released_at = None, th_release_reason = None,
           th_converted_registration_id = None\<rparr> db1))"

definition release_capacity :: "int \<Rightarrow> int \<Rightarrow> inv_db \<Rightarrow> nat \<times> inv_db" where
  "release_capacity = increment_capacity"

definition find_hold :: "inv_db \<Rightarrow> int \<Rightarrow> ticket_hold option" where
  "find_hold db k = find (\<lambda>h. th_id h = k) (iv_holds db)"

definition release_hold :: "time \<Rightarrow> int \<Rightarrow> string option \<Rightarrow> inv_db \<Rightarrow> bool \<times> inv_db" where
  "release_hold now k reason db =
     (case find_hold db k of
        None \<Rightarrow> (False, db)
      | Some h \<Rightarrow>
          if th_status h \<noteq> RESERVED then (False, db)
          else let db1 = snd (release_capacity (th_ticket_type_id h) (th_quantity h) db)
               in (True, db1\<lparr>iv_holds := update_rows (\<lambda>h. th_id h = k) (mark_released now reason) (iv_holds db1)\<rparr>))"

definition confirm_reservation ::
  "int \<Rightarrow> string option \<Rightarrow> int option \<Rightarrow> inv_db \<Rightarrow> inventory_error + inv_db" where
  "confirm_reservation k txn reg db =
     (case find_hold db k of
        None \<Rightarrow> Inl (Reservation_error ''Hold not found'')
      | Some h \<Rightarrow>
          if th_status h = CONFIRMED then Inr db
          else if th_status h \<in> {RELEASED, EXPIRED, CANCELLED}
          then Inl (Reservation_error ''Hold cannot be confirmed'')
          else Inr (db\<lparr>iv_holds := update_rows (\<lambda>h. th_id h = k) (mark_confirmed txn reg) (iv_holds db)\<rparr>))"

subsection \<open>The sweep of expired holds\<close>

text \<open>
  One page of the task: the expired holds after a key, in the order of their keys, without the rows that other transactions
  have locked, which \<open>skip_locked\<close> passes over.
\<close>

definition clamp_batch :: "int \<Rightarrow> nat" where
  "clamp_batch b = nat (max 1 (min b 50))"

definition expired_page :: "time \<Rightarrow> int list \<Rightarrow> nat \<Rightarrow> int \<Rightarrow> inv_db \<Rightarrow> ticket_hold list" where
  "expired_page now locked n after db =
     take n (sort_key th_id
       (filter (\<lambda>h. is_expired_flag now h \<and> th_id h > after \<and> th_id h \<notin> set locked) (iv_holds db)))"

fun release_all :: "time \<Rightarrow> ticket_hold list \<Rightarrow> inv_db \<Rightarrow> nat \<times> inv_db" where
  "release_all now [] db = (0, db)"
| "release_all now (h # hs) db =
     (let (ok, db1) = release_hold now (th_id h) (Some ''expired by beat'') db;
          (n, db2) = release_all now hs db1
      in (if ok then n + 1 else n, db2))"

text \<open>The answer: the number of released holds and the key after which the continuation is queued, if any.\<close>

definition release_expired_ticket_holds ::
  "time \<Rightarrow> int list \<Rightarrow> int \<Rightarrow> int \<Rightarrow> inv_db \<Rightarrow> (nat \<times> int option) \<times> inv_db" where
  "release_expired_ticket_holds now locked batch_size after db =
     (let n = clamp_batch batch_size; k = max 0 after; page = expired_page now locked n k db;
          (released, db') = release_all now page db
      in ((released, if length page \<ge> n then Some (th_id (last page)) else None), db'))"

subsection \<open>Sale modes\<close>

text \<open>
  The Redis store of the modes: the value and when it expires, 24 hours after it was written.  Without a store reads
  find nothing and writes are dropped.  The key \<open>None\<close> is the global mode.
\<close>

type_synonym mode_store = "(int option \<rightharpoonup> string \<times> time) option"

definition VALID_MODES :: "string list" where
  "VALID_MODES = [''open'', ''waitlist_only'', ''paused'', ''closed'']"

definition read_mode :: "time \<Rightarrow> mode_store \<Rightarrow> int option \<Rightarrow> string option" where
  "read_mode now st k =
     (case st of None \<Rightarrow> None | Some m \<Rightarrow>
        (case m k of None \<Rightarrow> None | Some (v, expires) \<Rightarrow> if now < expires then Some v else None))"

definition write_mode :: "time \<Rightarrow> int option \<Rightarrow> string \<Rightarrow> mode_store \<Rightarrow> mode_store" where
  "write_mode now k mode st =
     (case st of None \<Rightarrow> None | Some m \<Rightarrow>
        Some (if mode = ''open'' then m(k := None) else m(k \<mapsto> (mode, now + 86400 * 1000000))))"

definition global_sale_mode :: "string option \<Rightarrow> time \<Rightarrow> mode_store \<Rightarrow> string" where
  "global_sale_mode cfg now st =
     (let dflt = (case cfg of None \<Rightarrow> ''open'' | Some c \<Rightarrow> c) in
      case read_mode now st None of Some v \<Rightarrow> if v \<in> set VALID_MODES then v else dflt | None \<Rightarrow> dflt)"

definition event_sale_mode :: "int \<Rightarrow> time \<Rightarrow> mode_store \<Rightarrow> string" where
  "event_sale_mode ev now st =
     (case read_mode now st (Some ev) of Some v \<Rightarrow> if v \<in> set VALID_MODES then v else ''open'' | None \<Rightarrow> ''open'')"

definition set_sale_mode :: "time \<Rightarrow> int option \<Rightarrow> string \<Rightarrow> mode_store \<Rightarrow> inventory_error + mode_store" where
  "set_sale_mode now k mode st =
     (if mode \<notin> set VALID_MODES then Inl (Value_error ''invalid sale mode'') else Inr (write_mode now k mode st))"

text \<open>The status code of the guard: \<open>None\<close> lets the view run.\<close>

definition sale_guard :: "string option \<Rightarrow> int option \<Rightarrow> time \<Rightarrow> mode_store \<Rightarrow> int option" where
  "sale_guard cfg ev now st =
     (let mode = global_sale_mode cfg now st;
          mode = (case ev of Some e \<Rightarrow> if mode = ''open'' then event_sale_mode e now st else mode | None \<Rightarrow> mode)
      in if mode = ''open'' then None else if mode = ''waitlist_only'' then Some 409 else Some 503)"

subsection \<open>Steps, invariant and accounting\<close>

inductive hold_step :: "inv_db \<Rightarrow> inv_db \<Rightarrow> bool" where
  Reserve: "reserve_capacity env ev i q u m key db = Inr (h, db') \<Longrightarrow> hold_step db db'"
| Release: "hold_step db (snd (release_hold now k reason db))"
| Confirm: "confirm_reservation k txn reg db = Inr db' \<Longrightarrow> hold_step db db'"
| Sweep: "hold_step db (snd (release_expired_ticket_holds now locked batch after db))"

inductive_cases hold_stepE: "hold_step db db'"

text \<open>The legacy paths move seats without a hold.\<close>

inductive inventory_step :: "inv_db \<Rightarrow> inv_db \<Rightarrow> bool" where
  Hold: "hold_step db db' \<Longrightarrow> inventory_step db db'"
| Decrement: "decrement_capacity i q ev db = Inr db' \<Longrightarrow> inventory_step db db'"
| Increment: "inventory_step db (snd (increment_capacity i q db))"

definition seats_ok :: "ticket_type \<Rightarrow> bool" where
  "seats_ok t \<longleftrightarrow> tt_capacity t \<ge> 0
     \<and> (case tt_available_seats t of None \<Rightarrow> True | Some a \<Rightarrow> 0 \<le> a \<and> a \<le> tt_capacity t)"

definition caps_ok :: "inv_db \<Rightarrow> bool" where
  "caps_ok db \<longleftrightarrow>
     list_all (\<lambda>e. ev_max_capacity e > 0 \<longrightarrow> event_consumed_seats db (ev_id e) \<le> ev_max_capacity e) (iv_events db)"

definition inventory_inv :: "inv_db \<Rightarrow> bool" where
  "inventory_inv db \<longleftrightarrow>
     distinct (map tt_id (iv_tiers db)) \<and> list_all seats_ok (iv_tiers db)
     \<and> distinct (map ev_id (iv_events db)) \<and> caps_ok db
     \<and> distinct (map th_id (iv_holds db))
     \<and> list_all (\<lambda>h. th_id h < iv_next_hold db \<and> th_quantity h > 0) (iv_holds db)"

text \<open>The free seats and the capacity of a limited tier, and the seats that reserved and confirmed holds keep.\<close>

definition free_seats :: "inv_db \<Rightarrow> int \<Rightarrow> int" where
  "free_seats db i = sum_where (\<lambda>t. tt_id t = i \<and> tt_capacity t > 0) coalesce_seats (iv_tiers db)"

definition tier_capacity :: "inv_db \<Rightarrow> int \<Rightarrow> int" where
  "tier_capacity db i = sum_where (\<lambda>t. tt_id t = i \<and> tt_capacity t > 0) tt_capacity (iv_tiers db)"

definition held_seats :: "inv_db \<Rightarrow> int \<Rightarrow> int" where
  "held_seats db i =
     sum_where (\<lambda>h. th_ticket_type_id h = i \<and> th_status h \<in> {RESERVED, CONFIRMED}) th_quantity (iv_holds db)"

subsection \<open>Lemmas\<close>

lemma update_rows_key:
  assumes "distinct (map key rows)" and "r \<in> set rows" and "p r" and "\<And>x. p x \<Longrightarrow> key x = key r"
  shows "update_rows p f rows = update_rows (\<lambda>x. key x = key r) f rows"
proof -
  have "inj_on key (set rows)" using assms(1) by (simp add: distinct_map)
  then have "p x \<longleftrightarrow> key x = key r" if "x \<in> set rows" for x
    using assms(2-4) that by (blast dest: inj_onD)
  then show ?thesis unfolding update_rows_def by simp
qed

lemma sum_where_update_key:
  fixes f :: "'r \<Rightarrow> int"
  assumes "distinct (map key rows)" and "r \<in> set rows" and "key (g r) = key r"
  shows "sum_where p f (update_rows (\<lambda>x. key x = key r) g rows)
    = sum_where p f rows - (if p r then f r else 0) + (if p (g r) then f (g r) else 0)"
  using assms
proof (induction rows)
  case (Cons x xs)
  show ?case
  proof (cases "x = r")
    case True
    with Cons.prems have "update_rows (\<lambda>y. key y = key r) g xs = xs"
      by (intro update_rows_none) (auto simp: image_iff)
    with True show ?thesis by simp
  next
    case False
    with Cons.prems have "key x \<noteq> key r" "r \<in> set xs" by (auto simp: rev_image_eqI)
    with Cons show ?thesis by simp
  qed
qed simp

lemma take_seats_simps [simp]:
  "tt_id (take_seats q t) = tt_id t" "tt_event_id (take_seats q t) = tt_event_id t"
  "tt_capacity (take_seats q t) = tt_capacity t"
  by (simp_all add: take_seats_def)

lemma return_seats_simps [simp]:
  "tt_id (return_seats q t) = tt_id t" "tt_event_id (return_seats q t) = tt_event_id t"
  "tt_capacity (return_seats q t) = tt_capacity t"
  "coalesce_seats (return_seats q t) = min (tt_capacity t) (coalesce_seats t + q)"
  by (simp_all add: return_seats_def coalesce_seats_def)

lemma coalesce_take_seats: "tt_available_seats t = Some a \<Longrightarrow> coalesce_seats (take_seats q t) = coalesce_seats t - q"
  by (simp add: coalesce_seats_def take_seats_def)

lemma coalesce_seats_ok: "seats_ok t \<Longrightarrow> 0 \<le> coalesce_seats t \<and> coalesce_seats t \<le> tt_capacity t"
  by (auto simp: seats_ok_def coalesce_seats_def split: option.splits)

lemma tier_update:
  assumes "distinct (map tt_id (iv_tiers db))" and "t \<in> set (iv_tiers db)"
    and "tt_id (g t) = tt_id t" and "tt_event_id (g t) = tt_event_id t" and "tt_capacity (g t) = tt_capacity t"
    and "db' = db\<lparr>iv_tiers := update_rows (\<lambda>x. tt_id x = tt_id t) g (iv_tiers db)\<rparr>"
  shows "free_seats db' j = free_seats db j
      + (if j = tt_id t \<and> tt_capacity t > 0 then coalesce_seats (g t) - coalesce_seats t else 0)"
    and "tier_capacity db' j = tier_capacity db j"
    and "event_consumed_seats db' e = event_consumed_seats db e
      + (if e = tt_event_id t \<and> tt_capacity t > 0 then coalesce_seats t - coalesce_seats (g t) else 0)"
  unfolding free_seats_def tier_capacity_def event_consumed_seats_def assms(6)
  using sum_where_update_key [where g = g, OF assms(1,2,3)] assms(3-5) by auto

lemma only_tier:
  assumes "distinct (map tt_id (iv_tiers db))" and "t \<in> set (iv_tiers db)"
  shows "free_seats db (tt_id t) = (if tt_capacity t > 0 then coalesce_seats t else 0)"
    and "tier_capacity db (tt_id t) = (if tt_capacity t > 0 then tt_capacity t else 0)"
proof -
  have "sum_where (\<lambda>x. tt_id x = tt_id t \<and> tt_capacity x > 0) f rows = (if tt_capacity t > 0 then f t else 0)"
    if "distinct (map tt_id rows)" "t \<in> set rows" for f :: "ticket_type \<Rightarrow> int" and rows
    using that
  proof (induction rows)
    case (Cons x xs)
    show ?case
    proof (cases "x = t")
      case True
      with Cons.prems have "filter (\<lambda>x. tt_id x = tt_id t \<and> tt_capacity x > 0) xs = []"
        by (auto simp: filter_empty_conv image_iff)
      then have "sum_where (\<lambda>x. tt_id x = tt_id t \<and> tt_capacity x > 0) f xs = 0" by (simp add: sum_where_def)
      with True show ?thesis by simp
    next
      case False
      with Cons.prems have "tt_id x \<noteq> tt_id t" "t \<in> set xs" by (auto simp: image_iff)
      with Cons show ?thesis by simp
    qed
  qed simp
  with assms show "free_seats db (tt_id t) = (if tt_capacity t > 0 then coalesce_seats t else 0)"
    and "tier_capacity db (tt_id t) = (if tt_capacity t > 0 then tt_capacity t else 0)"
    unfolding free_seats_def tier_capacity_def by blast+
qed

lemma atomic_decrement_Inr:
  assumes "atomic_decrement ev i q db = Inr db'" and "distinct (map tt_id (iv_tiers db))"
  obtains (unlimited) t where "t \<in> set (iv_tiers db)" "tt_id t = i" "tt_event_id t = ev" "tt_capacity t = 0" "db' = db"
      "q \<ge> 1"
    | (taken) t a e where "t \<in> set (iv_tiers db)" "tt_id t = i" "tt_event_id t = ev" "tt_is_active t"
      "tt_available_seats t = Some a" "1 \<le> q" "q \<le> a"
      "db' = db\<lparr>iv_tiers := update_rows (\<lambda>x. tt_id x = i) (take_seats q) (iv_tiers db)\<rparr>"
      "find (\<lambda>e. ev_id e = ev) (iv_events db) = Some e"
      "ev_max_capacity e > 0 \<Longrightarrow> event_consumed_seats db ev + q \<le> ev_max_capacity e"
proof (cases "list_ex (sellable ev i q) (iv_tiers db)")
  case True
  then obtain t where t: "t \<in> set (iv_tiers db)" "sellable ev i q t" by (auto simp: list_ex_iff)
  then obtain a where a: "tt_id t = i" "tt_event_id t = ev" "tt_is_active t" "tt_available_seats t = Some a" "q \<le> a"
    by (auto simp: sellable_def split: option.splits)
  have upd: "update_rows (sellable ev i q) (take_seats q) (iv_tiers db)
      = update_rows (\<lambda>x. tt_id x = i) (take_seats q) (iv_tiers db)"
    using update_rows_key [where p = "sellable ev i q", OF assms(2) t] a(1) by (auto simp: sellable_def)
  from assms(1) True obtain e where "\<not> q < 1" "find (\<lambda>e. ev_id e = ev) (iv_events db) = Some e"
    "\<not> (ev_max_capacity e > 0 \<and> event_consumed_seats db ev + q > ev_max_capacity e)"
    "db' = db\<lparr>iv_tiers := update_rows (\<lambda>x. tt_id x = i) (take_seats q) (iv_tiers db)\<rparr>"
    by (auto simp: atomic_decrement_def upd split: option.splits if_splits)
  with t a taken show thesis by auto
next
  case False
  with assms(1) obtain t where "find (\<lambda>t. tt_id t = i \<and> tt_event_id t = ev) (iv_tiers db) = Some t"
    "tt_capacity t = 0" "db' = db" "\<not> q < 1"
    by (auto simp: atomic_decrement_def split: option.splits if_splits)
  with unlimited show thesis by (auto dest!: find_SomeD)
qed

text \<open>What decrementing and incrementing does to the accounting, whatever the tier.\<close>

definition seat_move :: "inv_db \<Rightarrow> inv_db \<Rightarrow> int \<Rightarrow> int \<Rightarrow> bool" where
  "seat_move db db' i d \<longleftrightarrow>
     inventory_inv db' \<and> iv_holds db' = iv_holds db \<and> iv_next_hold db' = iv_next_hold db
     \<and> tier_capacity db' = tier_capacity db
     \<and> free_seats db' = (free_seats db)(i := free_seats db i + d)"

lemma inventory_inv_tier:
  assumes "inventory_inv db" and "t \<in> set (iv_tiers db)"
    and "tt_id (g t) = tt_id t" and "tt_event_id (g t) = tt_event_id t" and "tt_capacity (g t) = tt_capacity t"
    and "seats_ok (g t)"
    and "\<And>e. e \<in> set (iv_events db) \<Longrightarrow> ev_id e = tt_event_id t \<Longrightarrow> ev_max_capacity e > 0 \<Longrightarrow> tt_capacity t > 0 \<Longrightarrow>
           event_consumed_seats db (ev_id e) + coalesce_seats t - coalesce_seats (g t) \<le> ev_max_capacity e"
  shows "inventory_inv (db\<lparr>iv_tiers := update_rows (\<lambda>x. tt_id x = tt_id t) g (iv_tiers db)\<rparr>)" (is "inventory_inv ?db'")
proof -
  have dist: "distinct (map tt_id (iv_tiers db))" using assms(1) by (simp add: inventory_inv_def)
  have one: "x = t" if "x \<in> set (iv_tiers db)" "tt_id x = tt_id t" for x
    using dist that assms(2) by (auto simp: distinct_map dest: inj_onD)
  have ids: "map tt_id (update_rows (\<lambda>x. tt_id x = tt_id t) g (iv_tiers db)) = map tt_id (iv_tiers db)"
    unfolding update_rows_def using one assms(3) by auto
  have seats: "list_all seats_ok (update_rows (\<lambda>x. tt_id x = tt_id t) g (iv_tiers db))"
    using assms(1,6) one by (auto simp: inventory_inv_def list_all_iff update_rows_def)
  have "caps_ok ?db'"
    using assms(1,7) tier_update(3) [where g = g, OF dist assms(2-5) refl]
    by (auto simp: caps_ok_def inventory_inv_def list_all_iff algebra_simps)
  with assms(1) ids seats show ?thesis by (simp add: inventory_inv_def)
qed

lemma atomic_decrement_move:
  assumes "inventory_inv db" and "atomic_decrement ev i q db = Inr db'"
  shows "q \<ge> 1 \<and> seat_move db db' i (if tier_capacity db i > 0 then - q else 0)
    \<and> (tier_capacity db i > 0 \<longrightarrow> q \<le> free_seats db i)"
proof -
  have dist: "distinct (map tt_id (iv_tiers db))" using assms(1) by (simp add: inventory_inv_def)
  from assms(2) dist show ?thesis
  proof (cases rule: atomic_decrement_Inr)
    case (unlimited t)
    with only_tier [OF dist unlimited(1)] have "tier_capacity db i = 0" by simp
    with unlimited assms(1) show ?thesis by (simp add: seat_move_def)
  next
    case (taken t a e)
    note up = tier_update [where g = "take_seats q", OF dist taken(1) _ _ _ taken(8) [folded taken(2)], simplified]
    have ok: "seats_ok t" using assms(1) taken(1) by (simp add: inventory_inv_def list_all_iff)
    have inv: "inventory_inv db'"
      unfolding taken(8) taken(2) [symmetric]
    proof (rule inventory_inv_tier [OF assms(1) taken(1)])
      show "seats_ok (take_seats q t)" using ok taken(5-7) by (simp add: seats_ok_def take_seats_def)
      fix e' assume "e' \<in> set (iv_events db)" "ev_id e' = tt_event_id t" "ev_max_capacity e' > 0"
      moreover from taken(9) have "e \<in> set (iv_events db)" "ev_id e = ev" by (auto dest: find_SomeD)
      ultimately have "e' = e" using assms(1) taken(3) by (auto simp: inventory_inv_def distinct_map dest: inj_onD)
      with taken(3,10) \<open>ev_max_capacity e' > 0\<close> \<open>ev_id e = ev\<close>
      show "event_consumed_seats db (ev_id e') + coalesce_seats t - coalesce_seats (take_seats q t) \<le> ev_max_capacity e'"
        by (simp add: coalesce_take_seats [OF taken(5)])
    qed simp_all
    have "tier_capacity db' = tier_capacity db"
      and "free_seats db' = (free_seats db)(i := free_seats db i + (if tt_capacity t > 0 then - q else 0))"
      using up(1,2) taken(2) coalesce_take_seats [OF taken(5)] by (auto simp: fun_eq_iff)
    moreover have "tier_capacity db i > 0 \<longleftrightarrow> tt_capacity t > 0" and "tt_capacity t > 0 \<Longrightarrow> q \<le> free_seats db i"
      using only_tier [OF dist taken(1)] taken(2,5,7) by (auto simp: coalesce_seats_def)
    ultimately show ?thesis using inv taken(6,8) by (simp add: seat_move_def)
  qed
qed

lemma increment_capacity_move:
  assumes "inventory_inv db" and "q \<ge> 1"
  shows "seat_move db (snd (increment_capacity i q db)) i
    (if tier_capacity db i > 0 then min q (tier_capacity db i - free_seats db i) else 0)"
proof -
  let ?p = "\<lambda>t. tt_id t = i \<and> tt_capacity t > 0"
  let ?db = "db\<lparr>iv_tiers := update_rows ?p (return_seats q) (iv_tiers db)\<rparr>"
  have dist: "distinct (map tt_id (iv_tiers db))" using assms(1) by (simp add: inventory_inv_def)
  have run: "snd (increment_capacity i q db) = ?db" using assms(2) by (simp add: increment_capacity_def Let_def)
  show ?thesis
  proof (cases "list_ex ?p (iv_tiers db)")
    case False
    then have "update_rows ?p (return_seats q) (iv_tiers db) = iv_tiers db"
      by (intro update_rows_none) (auto simp: list_ex_iff)
    moreover from False have "tier_capacity db i = 0"
      unfolding tier_capacity_def sum_where_def by (subst filter_False) (auto simp: list_ex_iff)
    ultimately show ?thesis using run assms(1) by (simp add: seat_move_def)
  next
    case True
    then obtain t where t: "t \<in> set (iv_tiers db)" "?p t" by (auto simp: list_ex_iff)
    have upd: "update_rows ?p (return_seats q) (iv_tiers db)
        = update_rows (\<lambda>x. tt_id x = tt_id t) (return_seats q) (iv_tiers db)"
      using update_rows_key [where p = ?p, OF dist t] t(2) by auto
    note up = tier_update [where g = "return_seats q", OF dist t(1) _ _ _ refl, simplified]
    have ok: "seats_ok t" using assms(1) t(1) by (simp add: inventory_inv_def list_all_iff)
    have inv: "inventory_inv ?db"
      unfolding upd
    proof (rule inventory_inv_tier [OF assms(1) t(1)])
      show "seats_ok (return_seats q t)"
        using ok coalesce_seats_ok [OF ok] assms(2) t(2) by (auto simp: seats_ok_def return_seats_def)
      fix e assume "e \<in> set (iv_events db)" "ev_max_capacity e > 0"
      with assms(1) have "event_consumed_seats db (ev_id e) \<le> ev_max_capacity e"
        by (auto simp: inventory_inv_def caps_ok_def list_all_iff)
      with coalesce_seats_ok [OF ok] assms(2)
      show "event_consumed_seats db (ev_id e) + coalesce_seats t - coalesce_seats (return_seats q t) \<le> ev_max_capacity e"
        by (simp add: min_def)
    qed simp_all
    moreover have "tier_capacity ?db = tier_capacity db"
      and "free_seats ?db = (free_seats db)(i := free_seats db i + min q (tt_capacity t - coalesce_seats t))"
      unfolding upd using up(1,2) t(2) by (auto simp: fun_eq_iff)
    moreover have "tier_capacity db i = tt_capacity t" "free_seats db i = coalesce_seats t"
      using only_tier [OF dist t(1)] t(2) by auto
    ultimately show ?thesis using run t(2) by (simp add: seat_move_def)
  qed
qed

text \<open>Accounting for holds: what a step does to the sum of free and held seats.\<close>

definition conserves :: "inv_db \<Rightarrow> inv_db \<Rightarrow> bool" where
  "conserves db db' \<longleftrightarrow>
     inventory_inv db' \<and> tier_capacity db' = tier_capacity db
     \<and> (\<forall>i. 0 < tier_capacity db i \<longrightarrow> free_seats db' i + held_seats db' i = free_seats db i + held_seats db i)"

definition accounted :: "inv_db \<Rightarrow> bool" where
  "accounted db \<longleftrightarrow> (\<forall>i. 0 < tier_capacity db i \<longrightarrow> free_seats db i + held_seats db i \<le> tier_capacity db i)"

lemma conserves_refl: "inventory_inv db \<Longrightarrow> conserves db db"
  by (simp add: conserves_def)

lemma conserves_trans: "conserves db db1 \<Longrightarrow> conserves db1 db2 \<Longrightarrow> conserves db db2"
  by (simp add: conserves_def)

lemma conserves_accounted: "conserves db db' \<Longrightarrow> accounted db \<Longrightarrow> accounted db'"
  by (simp add: conserves_def accounted_def)

lemma reserve_capacity_Inr:
  assumes "reserve_capacity env ev i q u m key db = Inr (h, db')"
  obtains db1 where "atomic_decrement ev i q db = Inr db1" and "th_ticket_type_id h = i" and "th_quantity h = q"
    and "th_status h = RESERVED" and "th_id h = iv_next_hold db1" and "q \<ge> 1" and "th_event_id h = ev"
    and "db' = db1\<lparr>iv_holds := iv_holds db1 @ [h], iv_next_hold := iv_next_hold db1 + 1\<rparr>"
  using assms by (auto simp: reserve_capacity_def Let_def insert_hold_def split: if_splits)

lemma reserve_conserves:
  assumes "inventory_inv db" and "reserve_capacity env ev i q u m key db = Inr (h, db')"
  shows "conserves db db'"
proof -
  from assms(2) obtain db1 where dec: "atomic_decrement ev i q db = Inr db1" and h: "th_ticket_type_id h = i"
      "th_quantity h = q" "th_status h = RESERVED" "th_id h = iv_next_hold db1" "q \<ge> 1"
    and db': "db' = db1\<lparr>iv_holds := iv_holds db1 @ [h], iv_next_hold := iv_next_hold db1 + 1\<rparr>"
    by (rule reserve_capacity_Inr)
  from atomic_decrement_move [OF assms(1) dec] have mv: "seat_move db db1 i (if tier_capacity db i > 0 then - q else 0)"
    by simp
  then have inv1: "inventory_inv db1" by (simp add: seat_move_def)
  have "inventory_inv db'"
    using inv1 h by (auto simp: db' inventory_inv_def caps_ok_def event_consumed_seats_def list_all_iff)
  moreover have "tier_capacity db' = tier_capacity db" "free_seats db' = free_seats db1"
    using mv by (auto simp: db' seat_move_def tier_capacity_def free_seats_def fun_eq_iff)
  moreover have "held_seats db' j = held_seats db j + (if j = i then q else 0)" for j
    using mv h by (simp add: db' held_seats_def seat_move_def)
  ultimately show ?thesis using mv by (simp add: conserves_def seat_move_def)
qed

lemma held_update:
  assumes "distinct (map th_id (iv_holds db))" and "find_hold db k = Some h"
    and "\<And>x. th_id (g x) = th_id x \<and> th_ticket_type_id (g x) = th_ticket_type_id x \<and> th_quantity (g x) = th_quantity x"
  shows "held_seats (db\<lparr>iv_holds := update_rows (\<lambda>x. th_id x = k) g (iv_holds db)\<rparr>) i = held_seats db i
    + (if th_ticket_type_id h = i
       then th_quantity h * (of_bool (th_status (g h) \<in> {RESERVED, CONFIRMED}) - of_bool (th_status h \<in> {RESERVED, CONFIRMED}))
       else 0)"
proof -
  from assms(2) have h: "h \<in> set (iv_holds db)" "th_id h = k" by (auto simp: find_hold_def dest: find_SomeD)
  have gh: "th_id (g h) = th_id h" using assms(3) by blast
  show ?thesis unfolding held_seats_def
    using sum_where_update_key [where g = g, OF assms(1) h(1) gh] assms(3) [of h] h(2) by auto
qed

lemma holds_inv:
  assumes "inventory_inv db" and "\<And>x. th_id (g x) = th_id x \<and> th_quantity (g x) = th_quantity x"
  shows "inventory_inv (db\<lparr>iv_holds := update_rows p g (iv_holds db)\<rparr>)"
proof -
  have "list_all (\<lambda>h. th_id h < iv_next_hold db \<and> th_quantity h > 0) (update_rows p g (iv_holds db))"
    using assms(1) by (intro list_all_update_rows) (auto simp: inventory_inv_def assms(2))
  with assms show ?thesis by (auto simp: inventory_inv_def caps_ok_def event_consumed_seats_def map_update_rows)
qed

lemma mark_simps [simp]:
  "th_id (mark_released now reason h) = th_id h" "th_quantity (mark_released now reason h) = th_quantity h"
  "th_ticket_type_id (mark_released now reason h) = th_ticket_type_id h"
  "th_status (mark_released now reason h) = RELEASED"
  "th_id (mark_confirmed txn reg h) = th_id h" "th_quantity (mark_confirmed txn reg h) = th_quantity h"
  "th_ticket_type_id (mark_confirmed txn reg h) = th_ticket_type_id h"
  "th_status (mark_confirmed txn reg h) = CONFIRMED"
  by (simp_all add: mark_released_def mark_confirmed_def)

lemma confirm_conserves:
  assumes "inventory_inv db" and "confirm_reservation k txn reg db = Inr db'"
  shows "conserves db db'"
proof -
  have dist: "distinct (map th_id (iv_holds db))" using assms(1) by (simp add: inventory_inv_def)
  from assms(2) consider "db' = db" | h where "find_hold db k = Some h" "th_status h = RESERVED"
    "db' = db\<lparr>iv_holds := update_rows (\<lambda>h. th_id h = k) (mark_confirmed txn reg) (iv_holds db)\<rparr>"
    by (auto simp: confirm_reservation_def split: option.splits if_splits) (metis ReservationStatus.exhaust)
  then show ?thesis
  proof cases
    case (2 h)
    then show ?thesis
      using holds_inv [OF assms(1), of "mark_confirmed txn reg"] held_update [OF dist 2(1), of "mark_confirmed txn reg"]
      by (simp add: conserves_def tier_capacity_def free_seats_def fun_eq_iff)
  qed (simp add: conserves_refl assms(1))
qed

lemma held_includes:
  assumes "inventory_inv db" and "h \<in> set (iv_holds db)" and "th_status h \<in> {RESERVED, CONFIRMED}"
  shows "th_quantity h \<le> held_seats db (th_ticket_type_id h)"
proof -
  have le: "f x \<le> sum_where p f xs" if "x \<in> set xs" "p x" "\<forall>y\<in>set xs. 0 \<le> f y"
    for x :: ticket_hold and xs p and f :: "ticket_hold \<Rightarrow> int"
    using that
  proof (induction xs)
    case (Cons y ys)
    have "0 \<le> sum_where p f ys" using Cons.prems by (intro sum_where_nonneg) auto
    with Cons show ?case by auto
  qed simp
  have "\<forall>y\<in>set (iv_holds db). 0 \<le> th_quantity y"
    using assms(1) by (auto simp: inventory_inv_def list_all_iff)
  with assms(2,3) show ?thesis unfolding held_seats_def by (intro le) auto
qed

lemma release_conserves:
  assumes "inventory_inv db" and "accounted db"
  shows "conserves db (snd (release_hold now k reason db))"
proof (cases "find_hold db k")
  case None
  then show ?thesis using assms(1) by (simp add: release_hold_def conserves_refl)
next
  case (Some h)
  show ?thesis
  proof (cases "th_status h = RESERVED")
    case False
    with Some assms(1) show ?thesis by (simp add: release_hold_def conserves_refl)
  next
    case True
    let ?i = "th_ticket_type_id h" and ?q = "th_quantity h"
    define db1 where "db1 = snd (increment_capacity ?i ?q db)"
    define db2 where "db2 = db1\<lparr>iv_holds := update_rows (\<lambda>h. th_id h = k) (mark_released now reason) (iv_holds db1)\<rparr>"
    have run: "snd (release_hold now k reason db) = db2"
      using Some True by (simp add: release_hold_def release_capacity_def Let_def db1_def db2_def)
    have h: "h \<in> set (iv_holds db)" using Some by (auto simp: find_hold_def dest: find_SomeD)
    then have q: "?q \<ge> 1" using assms(1) by (auto simp: inventory_inv_def list_all_iff)
    have mv: "seat_move db db1 ?i (if tier_capacity db ?i > 0 then min ?q (tier_capacity db ?i - free_seats db ?i) else 0)"
      unfolding db1_def by (rule increment_capacity_move [OF assms(1) q])
    then have inv1: "inventory_inv db1" and holds: "iv_holds db1 = iv_holds db" by (auto simp: seat_move_def)
    have "?q \<le> held_seats db ?i" by (rule held_includes [OF assms(1) h]) (simp add: True)
    then have full: "min ?q (tier_capacity db ?i - free_seats db ?i) = ?q" if "tier_capacity db ?i > 0"
      using assms(2) that by (fastforce simp: accounted_def min_def)
    have held: "held_seats db2 j = held_seats db j - (if j = ?i then ?q else 0)" for j
      using held_update [of db1 k h "mark_released now reason" j] inv1 Some True holds
      by (simp add: db2_def find_hold_def inventory_inv_def held_seats_def)
    have "inventory_inv db2" unfolding db2_def by (rule holds_inv [OF inv1]) simp
    moreover have "tier_capacity db2 = tier_capacity db" "free_seats db2 = free_seats db1"
      using mv by (auto simp: db2_def seat_move_def tier_capacity_def free_seats_def fun_eq_iff)
    ultimately show ?thesis
      using mv held full by (auto simp: run conserves_def seat_move_def)
  qed
qed

lemma release_all_conserves:
  "inventory_inv db \<Longrightarrow> accounted db \<Longrightarrow> conserves db (snd (release_all now hs db))"
proof (induction hs arbitrary: db)
  case (Cons h hs)
  obtain ok db1 where r: "release_hold now (th_id h) (Some ''expired by beat'') db = (ok, db1)" by fastforce
  have c: "conserves db db1" using release_conserves [OF Cons.prems] r by (metis snd_conv)
  then have "conserves db1 (snd (release_all now hs db1))"
    using Cons.IH conserves_accounted [OF c Cons.prems(2)] by (simp add: conserves_def)
  with c have "conserves db (snd (release_all now hs db1))" by (rule conserves_trans)
  with r show ?case by (simp add: split_beta)
qed (simp add: conserves_refl)

lemma hold_step_conserves: "hold_step db db' \<Longrightarrow> inventory_inv db \<Longrightarrow> accounted db \<Longrightarrow> conserves db db'"
  by (erule hold_stepE)
    (auto simp: reserve_conserves release_conserves confirm_conserves release_expired_ticket_holds_def Let_def
      split_beta intro: release_all_conserves)

interpretation seats: run_effect hold_step "\<lambda>db. inventory_inv db \<and> accounted db" conserves
proof
  show "inventory_inv db' \<and> accounted db'" if "hold_step db db'" "inventory_inv db \<and> accounted db" for db db'
    using hold_step_conserves [OF that(1)] that(2) conserves_accounted by (auto simp: conserves_def)
qed (auto intro: conserves_refl conserves_trans hold_step_conserves)

text \<open>
  C16: seats are neither oversold nor lost.  Along every run of reservations, confirmations, releases and sweeps of expired
  holds, every limited tier keeps its capacity and the sum of its free seats and of the seats held by reserved or
  confirmed holds, the free seats stay between zero and the capacity, and the held seats never exceed the
  capacity.
\<close>

theorem seats_conserved:
  assumes "hold_step\<^sup>*\<^sup>* db db'" and "inventory_inv db" and "accounted db" and "0 < tier_capacity db i"
  shows "tier_capacity db' i = tier_capacity db i
    \<and> free_seats db' i + held_seats db' i = free_seats db i + held_seats db i
    \<and> 0 \<le> free_seats db' i \<and> free_seats db' i \<le> tier_capacity db i \<and> held_seats db' i \<le> tier_capacity db i"
proof -
  from assms(1-3) have c: "conserves db db'" by (blast intro: seats.run_eff)
  have free: "0 \<le> free_seats db' i \<and> free_seats db' i \<le> tier_capacity db' i"
    using c coalesce_seats_ok unfolding conserves_def inventory_inv_def free_seats_def tier_capacity_def
    by (intro conjI sum_where_nonneg sum_where_mono_fun) (auto simp: list_all_iff)
  with c assms(3,4) show ?thesis by (fastforce simp: conserves_def accounted_def)
qed

definition demo_inventory :: inv_db where
  "demo_inventory =
     \<lparr>iv_events = [\<lparr>ev_id = 1, ev_max_capacity = 5\<rparr>],
      iv_tiers = [new_ticket_type 7 1 ''VIP'' 3 None True, new_ticket_type 8 1 ''Free'' 0 None True],
      iv_holds = [], iv_next_hold = 1\<rparr>"

definition demo_inv_env :: inv_env where
  "demo_inv_env = \<lparr>ie_now = 0, ie_hold_minutes = 10, ie_public_id = ''p'', ie_token = ''t''\<rparr>"

lemmas inventory_eval = demo_inventory_def demo_inv_env_def new_ticket_type_def reserve_capacity_def atomic_decrement_def
  insert_hold_def sellable_def take_seats_def event_consumed_seats_def coalesce_seats_def

lemma demo_inventory_inv: "inventory_inv demo_inventory"
  by (simp add: inventory_inv_def caps_ok_def seats_ok_def inventory_eval)

theorem seats_conserved_witness:
  "\<exists>h db'. reserve_capacity demo_inv_env 1 7 2 None None None demo_inventory = Inr (h, db')
     \<and> free_seats db' 7 + held_seats db' 7 = 3"
proof -
  obtain h db' where run: "reserve_capacity demo_inv_env 1 7 2 None None None demo_inventory = Inr (h, db')"
    by (simp add: inventory_eval)
  have acc: "accounted demo_inventory"
    by (simp add: accounted_def demo_inventory_def new_ticket_type_def held_seats_def free_seats_def tier_capacity_def
        coalesce_seats_def)
  have "0 < tier_capacity demo_inventory 7"
    by (simp add: demo_inventory_def new_ticket_type_def tier_capacity_def)
  moreover have "hold_step\<^sup>*\<^sup>* demo_inventory db'" using hold_step.Reserve [OF run] by (rule r_into_rtranclp)
  ultimately have "free_seats db' 7 + held_seats db' 7 = free_seats demo_inventory 7 + held_seats demo_inventory 7"
    using seats_conserved [OF _ demo_inventory_inv acc] by blast
  moreover have "free_seats demo_inventory 7 + held_seats demo_inventory 7 = 3"
    by (simp add: demo_inventory_def new_ticket_type_def held_seats_def free_seats_def coalesce_seats_def)
  ultimately show ?thesis using run by auto
qed

lemma release_inv:
  assumes "inventory_inv db"
  shows "inventory_inv (snd (release_hold now k reason db))"
proof (cases "\<exists>h. find_hold db k = Some h \<and> th_status h = RESERVED")
  case True
  then obtain h where h: "find_hold db k = Some h" "th_status h = RESERVED" by blast
  then have "th_quantity h \<ge> 1" using assms find_SomeD unfolding find_hold_def inventory_inv_def list_all_iff by fastforce
  from increment_capacity_move [OF assms this]
  have "inventory_inv (snd (increment_capacity (th_ticket_type_id h) (th_quantity h) db))" by (simp add: seat_move_def)
  from holds_inv [OF this, of "mark_released now reason" "\<lambda>h. th_id h = k"] h show ?thesis
    by (simp add: release_hold_def release_capacity_def Let_def)
next
  case False
  with assms show ?thesis by (auto simp: release_hold_def split: option.splits)
qed

lemma release_all_inv: "inventory_inv db \<Longrightarrow> inventory_inv (snd (release_all now hs db))"
  by (induction hs arbitrary: db) (auto simp: split_beta release_inv)

lemma inventory_step_inv:
  assumes "inventory_step db db'" and "inventory_inv db"
  shows "inventory_inv db'"
  using assms(1)
proof cases
  case Hold
  then show ?thesis
  proof (cases rule: hold_step.cases)
    case Reserve
    from reserve_conserves [OF assms(2) this] show ?thesis by (simp add: conserves_def)
  next
    case Confirm
    from confirm_conserves [OF assms(2) this] show ?thesis by (simp add: conserves_def)
  qed (use assms(2) in \<open>simp_all add: release_inv release_all_inv release_expired_ticket_holds_def Let_def split_beta\<close>)
next
  case (Decrement i q ev)
  then obtain e where "atomic_decrement e i q db = Inr db'"
    by (auto simp: decrement_capacity_def split: if_splits option.splits)
  from atomic_decrement_move [OF assms(2) this] show ?thesis by (simp add: seat_move_def)
next
  case (Increment i q)
  then show ?thesis
    using increment_capacity_move [OF assms(2), of q i] assms(2)
    by (cases "q \<ge> 1") (auto simp: seat_move_def increment_capacity_def)
qed

interpretation caps: run_invariant inventory_step inventory_inv
  by unfold_locales (rule inventory_step_inv)

text \<open>
  The seat counters keep their bounds whatever path moves seats: along every run of the hold operations and of the legacy
  decrements and increments, each tier's count stays between zero and its capacity, and what the counters of the limited
  tiers of an event give away stays within the event's cap.
\<close>

lemma seat_counters_bounded:
  assumes "inventory_step\<^sup>*\<^sup>* db db'" and "inventory_inv db"
  shows "list_all (\<lambda>t. 0 \<le> coalesce_seats t \<and> coalesce_seats t \<le> tt_capacity t) (iv_tiers db')
    \<and> list_all (\<lambda>e. ev_max_capacity e \<le> 0 \<or> event_consumed_seats db' (ev_id e) \<le> ev_max_capacity e) (iv_events db')"
proof -
  from assms have "inventory_inv db'"
    by (rule caps.run_keeps)
  then have "list_all seats_ok (iv_tiers db')" and "caps_ok db'" by (simp_all add: inventory_inv_def)
  then show ?thesis by (auto simp: caps_ok_def list_all_iff not_le dest: coalesce_seats_ok)
qed

subsection \<open>The cap of an event\<close>

text \<open>The seats that the live holds of the limited tiers of an event keep.\<close>

definition event_held_seats :: "inv_db \<Rightarrow> int \<Rightarrow> int" where
  "event_held_seats db ev =
     sum_where (\<lambda>h. th_status h \<in> {RESERVED, CONFIRMED}
       \<and> list_ex (\<lambda>t. tt_id t = th_ticket_type_id h \<and> tt_event_id t = ev \<and> tt_capacity t > 0) (iv_tiers db))
       th_quantity (iv_holds db)"

lemma sum_where_disjoint:
  fixes f :: "'r \<Rightarrow> int"
  assumes "\<And>x. \<not> (P x \<and> Q x)"
  shows "sum_where (\<lambda>x. P x \<or> Q x) f xs = sum_where P f xs + sum_where Q f xs"
  using assms by (induction xs) auto

lemma sum_by_tier:
  fixes live :: "ticket_hold \<Rightarrow> bool" and p :: "ticket_type \<Rightarrow> bool"
  assumes "distinct (map tt_id ts)"
  shows "sum_where (\<lambda>h. live h \<and> list_ex (\<lambda>t. tt_id t = th_ticket_type_id h \<and> p t) ts) th_quantity hs
    = sum_where p (\<lambda>t. sum_where (\<lambda>h. th_ticket_type_id h = tt_id t \<and> live h) th_quantity hs) ts"
  using assms
proof (induction ts)
  case (Cons t ts)
  let ?on = "\<lambda>h. list_ex (\<lambda>t. tt_id t = th_ticket_type_id h \<and> p t) ts"
  have IH: "sum_where (\<lambda>h. live h \<and> ?on h) th_quantity hs
      = sum_where p (\<lambda>t. sum_where (\<lambda>h. th_ticket_type_id h = tt_id t \<and> live h) th_quantity hs) ts"
    using Cons by simp
  show ?case
  proof (cases "p t")
    case True
    have "\<not> ((th_ticket_type_id h = tt_id t \<and> live h) \<and> (live h \<and> ?on h))" for h
      using Cons.prems by (auto simp: list_ex_iff image_iff)
    note split_sum = sum_where_disjoint [OF this, where f = th_quantity and xs = hs]
    have eq: "(\<lambda>h. live h \<and> list_ex (\<lambda>t. tt_id t = th_ticket_type_id h \<and> p t) (t # ts))
        = (\<lambda>h. (th_ticket_type_id h = tt_id t \<and> live h) \<or> (live h \<and> ?on h))"
      using True by (auto simp: fun_eq_iff)
    show ?thesis unfolding eq split_sum IH using True by simp
  next
    case False
    then show ?thesis using IH by simp
  qed
qed (simp add: sum_where_def)

lemma event_held_by_tier:
  assumes "distinct (map tt_id (iv_tiers db))"
  shows "event_held_seats db ev
    = sum_where (\<lambda>t. tt_event_id t = ev \<and> tt_capacity t > 0) (\<lambda>t. held_seats db (tt_id t)) (iv_tiers db)"
  unfolding event_held_seats_def held_seats_def by (rule sum_by_tier [OF assms])

lemma event_held_le_consumed:
  assumes "inventory_inv db" and "accounted db"
  shows "event_held_seats db ev \<le> event_consumed_seats db ev"
proof -
  have dist: "distinct (map tt_id (iv_tiers db))" using assms(1) by (simp add: inventory_inv_def)
  have "sum_where (\<lambda>t. tt_event_id t = ev \<and> tt_capacity t > 0) (\<lambda>t. held_seats db (tt_id t)) (iv_tiers db)
      \<le> sum_where (\<lambda>t. tt_event_id t = ev \<and> tt_capacity t > 0) (\<lambda>t. tt_capacity t - coalesce_seats t) (iv_tiers db)"
  proof (rule sum_where_mono_fun)
    fix t assume t: "t \<in> set (iv_tiers db)" "tt_event_id t = ev \<and> tt_capacity t > 0"
    with only_tier [OF dist t(1)] assms(2) show "held_seats db (tt_id t) \<le> tt_capacity t - coalesce_seats t"
      by (auto simp: accounted_def dest: spec [of _ "tt_id t"])
  qed
  then show ?thesis unfolding event_consumed_seats_def event_held_by_tier [OF dist] .
qed

text \<open>
  C17: holds never exceed the cap of their event.  Along every run of reservations, confirmations, releases and sweeps, the seats
  that reserved and confirmed holds keep in the limited tiers of an event with a cap are at most that cap.
\<close>

theorem event_cap_respected:
  assumes "hold_step\<^sup>*\<^sup>* db db'" and "inventory_inv db" and "accounted db"
  shows "list_all (\<lambda>e. ev_max_capacity e \<le> 0 \<or> event_held_seats db' (ev_id e) \<le> ev_max_capacity e) (iv_events db')"
proof -
  from seats.run_keeps [OF assms(1)] assms(2,3) have "inventory_inv db'" "accounted db'" by blast+
  then have caps: "caps_ok db'" and held: "event_held_seats db' i \<le> event_consumed_seats db' i" for i
    by (simp_all add: inventory_inv_def event_held_le_consumed)
  from caps show ?thesis unfolding caps_ok_def list_all_iff using held order_trans by (metis not_le)
qed

text \<open>Three seats of five are held, and a fourth of a tier with three seats is refused.\<close>

theorem event_cap_respected_witness:
  "\<exists>h db'. reserve_capacity demo_inv_env 1 7 3 None None None demo_inventory = Inr (h, db') \<and> event_held_seats db' 1 = 3
     \<and> list_all (\<lambda>e. ev_max_capacity e \<le> 0 \<or> event_held_seats db' (ev_id e) \<le> ev_max_capacity e) (iv_events db')"
proof -
  obtain h db' where run: "reserve_capacity demo_inv_env 1 7 3 None None None demo_inventory = Inr (h, db')"
    and held: "event_held_seats db' 1 = 3"
    by (simp add: inventory_eval event_held_seats_def)
  have "accounted demo_inventory"
    by (simp add: accounted_def demo_inventory_def new_ticket_type_def held_seats_def free_seats_def tier_capacity_def
        coalesce_seats_def)
  moreover have "hold_step\<^sup>*\<^sup>* demo_inventory db'" using hold_step.Reserve [OF run] by (rule r_into_rtranclp)
  ultimately show ?thesis using event_cap_respected [OF _ demo_inventory_inv] run held by blast
qed

end
