(* ===== verification/Ticket_Reservations.thy ===== *)
theory Ticket_Reservations
  imports Ticket_Inventory
begin

section \<open>Completeness of the ticket inventory\<close>

text \<open>
  The chain of pages of the expiry task in \<open>app/events/tasks.py\<close>, each with its own clock and with other operations between
  them; what the chain releases and when it ends; when a reservation of \<open>app/events/inventory.py\<close> succeeds; and the tiers that
  escape the cap of their event.
\<close>

subsection \<open>Completeness of the sweep\<close>

lemma take_sorted_last:
  fixes key :: "'r \<Rightarrow> int"
  assumes "sorted (map key xs)" and "distinct (map key xs)" and "take n xs \<noteq> []" and "x \<in> set xs"
  shows "x \<in> set (take n xs) \<longleftrightarrow> key x \<le> key (last (take n xs))"
proof -
  define ys zs where "ys = take n xs" and "zs = drop n xs"
  have xs: "xs = ys @ zs" by (simp add: ys_def zs_def)
  have ne: "ys \<noteq> []" using assms(3) by (simp add: ys_def)
  have below: "key y \<le> key (last ys)" if "y \<in> set ys" for y
  proof -
    have "sorted (map key (butlast ys @ [last ys]))" using assms(1) ne by (simp add: xs sorted_append)
    moreover have "y \<in> set (butlast ys @ [last ys])" using that ne by simp
    ultimately show ?thesis by (auto simp: sorted_append)
  qed
  have above: "key (last ys) < key z" if "z \<in> set zs" for z
  proof -
    have "last ys \<in> set ys" using ne by simp
    with assms(1,2) that have "key (last ys) \<le> key z" "key (last ys) \<noteq> key z"
      by (auto simp: xs sorted_append image_iff)
    then show ?thesis by simp
  qed
  show ?thesis using below above assms(4) unfolding ys_def [symmetric] by (auto simp: xs not_le dest: above)
qed

lemma release_hold_holds:
  "iv_holds (snd (release_hold now k reason db)) =
     (case find_hold db k of
        Some h \<Rightarrow> if th_status h = RESERVED
                  then update_rows (\<lambda>h. th_id h = k) (mark_released now reason) (iv_holds db) else iv_holds db
      | None \<Rightarrow> iv_holds db)"
  by (auto simp: release_hold_def release_capacity_def increment_capacity_def Let_def split: option.splits)

lemma release_all_holds:
  assumes "distinct (map th_id (iv_holds db))" and "distinct (map th_id hs)"
    and "\<And>h. h \<in> set hs \<Longrightarrow> h \<in> set (iv_holds db) \<and> th_status h = RESERVED"
  shows "iv_holds (snd (release_all now hs db)) =
    map (\<lambda>h. if th_id h \<in> th_id ` set hs then mark_released now (Some ''expired by beat'') h else h) (iv_holds db)"
  using assms
proof (induction hs arbitrary: db)
  case (Cons h hs)
  let ?m = "mark_released now (Some ''expired by beat'')"
  define db1 where "db1 = snd (release_hold now (th_id h) (Some ''expired by beat'') db)"
  from Cons.prems(3) have h: "h \<in> set (iv_holds db)" "th_status h = RESERVED" by auto
  then have "find_hold db (th_id h) = Some h"
    unfolding find_hold_def by (intro find_distinct_key [OF Cons.prems(1)]) auto
  then have holds1: "iv_holds db1 = update_rows (\<lambda>x. th_id x = th_id h) ?m (iv_holds db)"
    using h by (simp add: db1_def release_hold_holds)
  have "iv_holds (snd (release_all now hs db1)) = map (\<lambda>h. if th_id h \<in> th_id ` set hs then ?m h else h) (iv_holds db1)"
  proof (rule Cons.IH)
    show "distinct (map th_id (iv_holds db1))" using Cons.prems(1) by (simp add: holds1 map_update_rows)
    show "distinct (map th_id hs)" using Cons.prems(2) by simp
    fix k assume "k \<in> set hs"
    then have "k \<in> set (iv_holds db)" "th_status k = RESERVED" "th_id k \<noteq> th_id h"
      using Cons.prems(2,3) by (auto simp: image_iff)
    then show "k \<in> set (iv_holds db1) \<and> th_status k = RESERVED" by (force simp: holds1 update_rows_def)
  qed
  moreover have "snd (release_all now (h # hs) db) = snd (release_all now hs db1)"
    by (simp add: db1_def split_beta)
  moreover have "th_id h \<notin> th_id ` set hs" using Cons.prems(2) by simp
  ultimately show ?case by (auto simp: holds1 update_rows_def)
qed simp

lemma expired_page_members:
  "h \<in> set (expired_page now locked n after db) \<Longrightarrow>
    h \<in> set (iv_holds db) \<and> is_expired_flag now h \<and> th_id h > after \<and> th_id h \<notin> set locked"
  unfolding expired_page_def by (auto dest: in_set_takeD)

lemma holds_ids: "map th_id (iv_holds (snd (release_hold now k reason db))) = map th_id (iv_holds db)"
  by (simp add: release_hold_holds map_update_rows split: option.splits)

lemma release_all_ids: "map th_id (iv_holds (snd (release_all now hs db))) = map th_id (iv_holds db)"
  by (induction hs arbitrary: db) (simp_all add: split_beta holds_ids)

lemma page_holds:
  assumes "distinct (map th_id (iv_holds db))"
    and "release_expired_ticket_holds now locked b after db = ((r, nxt), db')"
  shows "iv_holds db' =
    map (\<lambda>h. if is_expired_flag now h \<and> max 0 after < th_id h \<and> th_id h \<notin> set locked \<and> (case nxt of None \<Rightarrow> True | Some k \<Rightarrow> th_id h \<le> k)
             then mark_released now (Some ''expired by beat'') h else h) (iv_holds db)"
proof -
  let ?n = "clamp_batch b" and ?all = "filter (\<lambda>h. is_expired_flag now h \<and> th_id h > max 0 after \<and> th_id h \<notin> set locked) (iv_holds db)"
  let ?sorted = "sort_key th_id ?all" and ?page = "expired_page now locked (clamp_batch b) (max 0 after) db"
  have page: "?page = take ?n ?sorted" by (simp add: expired_page_def)
  from assms(2) have nxt: "nxt = (if length ?page \<ge> ?n then Some (th_id (last ?page)) else None)"
    and db': "db' = snd (release_all now ?page db)"
    by (auto simp: release_expired_ticket_holds_def Let_def split_beta split: if_splits)
  have dist: "distinct (map th_id ?sorted)"
  proof -
    have "distinct ?sorted" using assms(1) by (intro distinct_sort [THEN iffD2] distinct_filter) (simp add: distinct_map)
    moreover have "inj_on th_id (set ?sorted)"
      by (rule inj_on_subset [of th_id "set (iv_holds db)"]) (use assms(1) in \<open>auto simp: distinct_map\<close>)
    ultimately show ?thesis unfolding distinct_map ..
  qed
  then have dp: "distinct (map th_id ?page)" unfolding page take_map [symmetric] by (rule distinct_take)
  have "iv_holds db' =
      map (\<lambda>h. if th_id h \<in> th_id ` set ?page then mark_released now (Some ''expired by beat'') h else h) (iv_holds db)"
    unfolding db' by (rule release_all_holds [OF assms(1) dp]) (auto dest!: expired_page_members simp: is_expired_flag_def)
  moreover have "th_id h \<in> th_id ` set ?page \<longleftrightarrow>
      is_expired_flag now h \<and> max 0 after < th_id h \<and> th_id h \<notin> set locked \<and> (case nxt of None \<Rightarrow> True | Some k \<Rightarrow> th_id h \<le> k)"
    if h: "h \<in> set (iv_holds db)" for h
  proof -
    have "th_id h \<in> th_id ` set ?page \<longleftrightarrow> h \<in> set ?page"
      using h assms(1) expired_page_members unfolding distinct_map by (blast dest: inj_onD)
    also have "\<dots> \<longleftrightarrow> h \<in> set ?sorted \<and> (case nxt of None \<Rightarrow> True | Some k \<Rightarrow> th_id h \<le> k)"
    proof (cases "length ?page \<ge> ?n")
      case True
      have "?n \<ge> 1" by (auto simp: clamp_batch_def)
      with True have ne: "take ?n ?sorted \<noteq> []" unfolding page [symmetric] by auto
      show ?thesis
      proof (cases "h \<in> set ?sorted")
        case True
        from take_sorted_last [OF _ dist ne this] \<open>length ?page \<ge> ?n\<close> True show ?thesis
          unfolding nxt page by simp
      next
        case False
        then show ?thesis unfolding page by (auto dest: in_set_takeD)
      qed
    next
      case False
      then have "length ?sorted < ?n" unfolding page by simp
      then have "?page = ?sorted" unfolding page by simp
      with False show ?thesis by (simp add: nxt)
    qed
    finally show ?thesis using h by auto
  qed
  ultimately show ?thesis by (auto intro: map_cong)
qed


subsubsection \<open>What becomes of a hold\<close>

text \<open>No operation removes a hold, changes its key or its deadline, or reserves it again.\<close>

definition holds_kept :: "inv_db \<Rightarrow> inv_db \<Rightarrow> bool" where
  "holds_kept db db' \<longleftrightarrow>
     (\<forall>h \<in> set (iv_holds db). \<exists>h' \<in> set (iv_holds db'). th_id h' = th_id h \<and> th_expires_at h' = th_expires_at h
        \<and> (th_status h' = RESERVED \<longrightarrow> h' = h))"

lemma holds_kept_refl: "holds_kept db db"
  by (auto simp: holds_kept_def)

lemma holds_kept_trans: "holds_kept db db1 \<Longrightarrow> holds_kept db1 db2 \<Longrightarrow> holds_kept db db2"
  unfolding holds_kept_def by (metis (no_types, lifting))

lemma holds_kept_update:
  assumes "\<And>h. th_id (g h) = th_id h \<and> th_expires_at (g h) = th_expires_at h \<and> th_status (g h) \<noteq> RESERVED"
    and "iv_holds db' = update_rows p g (iv_holds db) @ hs"
  shows "holds_kept db db'"
  unfolding holds_kept_def
proof
  fix h assume "h \<in> set (iv_holds db)"
  then have "(if p h then g h else h) \<in> set (iv_holds db')" by (auto simp: assms(2) update_rows_def)
  then show "\<exists>h' \<in> set (iv_holds db'). th_id h' = th_id h \<and> th_expires_at h' = th_expires_at h \<and> (th_status h' = RESERVED \<longrightarrow> h' = h)"
    by (rule bexI [rotated]) (simp add: assms(1))
qed

lemma holds_kept_same: "iv_holds db' = iv_holds db @ hs \<Longrightarrow> holds_kept db db'"
  unfolding holds_kept_def by auto

lemma release_kept: "holds_kept db (snd (release_hold now k reason db))"
  by (cases "\<exists>h. find_hold db k = Some h \<and> th_status h = RESERVED")
    (auto simp: release_hold_holds mark_released_def split: option.splits
      intro: holds_kept_update [where g = "mark_released now reason" and p = "\<lambda>h. th_id h = k" and hs = "[]"]
        holds_kept_same [where hs = "[]"])

lemma release_all_kept: "holds_kept db (snd (release_all now hs db))"
  by (induction hs arbitrary: db) (auto simp: split_beta holds_kept_refl intro: holds_kept_trans release_kept)

lemma decrement_holds: "atomic_decrement ev i q db = Inr db' \<Longrightarrow> iv_holds db' = iv_holds db"
  by (auto simp: atomic_decrement_def split: if_splits option.splits)

lemma inventory_step_kept:
  assumes "inventory_step db db'"
  shows "holds_kept db db'"
  using assms
proof cases
  case Hold
  then show ?thesis
  proof (cases rule: hold_step.cases)
    case (Reserve env ev i q u m key h)
    from Reserve have "iv_holds db' = iv_holds db @ [h]"
      by (elim reserve_capacity_Inr) (simp add: decrement_holds)
    then show ?thesis by (rule holds_kept_same)
  next
    case (Release now k reason)
    then show ?thesis by (simp add: release_kept)
  next
    case (Confirm k txn reg)
    have "iv_holds db' = iv_holds db \<or> iv_holds db' = update_rows (\<lambda>h. th_id h = k) (mark_confirmed txn reg) (iv_holds db)"
      using Confirm by (auto simp: confirm_reservation_def split: option.splits if_splits)
    then show ?thesis
      by (auto simp: mark_confirmed_def intro: holds_kept_same [where hs = "[]"]
          holds_kept_update [where g = "mark_confirmed txn reg" and p = "\<lambda>h. th_id h = k" and hs = "[]"])
  next
    case Sweep
    then show ?thesis by (simp add: release_expired_ticket_holds_def Let_def split_beta release_all_kept)
  qed
next
  case (Decrement i q ev)
  then have "iv_holds db' = iv_holds db" by (auto simp: decrement_capacity_def split: if_splits option.splits dest: decrement_holds)
  then show ?thesis by (intro holds_kept_same [where hs = "[]"]) simp
next
  case Increment
  then show ?thesis by (intro holds_kept_same [where hs = "[]"]) (simp add: increment_capacity_def Let_def)
qed

interpretation kept: run_effect inventory_step inventory_inv holds_kept
  by unfold_locales (auto intro: inventory_step_inv inventory_step_kept holds_kept_refl holds_kept_trans)

subsubsection \<open>The chain of pages\<close>

text \<open>
  Each page of the chain is a task of its own: other operations run before it, it reads the clock anew, and other transactions
  may have locked rows.  The chain follows the continuations; the answer says whether a page ended it.
\<close>

record page_context =
  pc_before :: "inv_db \<Rightarrow> inv_db"
  pc_now :: time
  pc_locked :: "int list"

fun sweep :: "int \<Rightarrow> int \<Rightarrow> page_context list \<Rightarrow> inv_db \<Rightarrow> bool \<times> inv_db" where
  "sweep b after [] db = (False, db)"
| "sweep b after (c # cs) db =
     (case release_expired_ticket_holds (pc_now c) (pc_locked c) b after (pc_before c db) of
        ((_, None), db') \<Rightarrow> (True, db')
      | ((_, Some k), db') \<Rightarrow> sweep b k cs db')"

text \<open>Between the pages any operations of the inventory may run.\<close>

definition others_run :: "page_context \<Rightarrow> bool" where
  "others_run c \<longleftrightarrow> (\<forall>db. inventory_step\<^sup>*\<^sup>* db (pc_before c db))"

lemma page_step: "release_expired_ticket_holds now locked b after db = (r, db') \<Longrightarrow> inventory_step db db'"
  using inventory_step.Hold [OF hold_step.Sweep [of db now locked b after]] by simp

lemma sweep_run:
  assumes "list_all others_run cs"
  shows "inventory_step\<^sup>*\<^sup>* db (snd (sweep b after cs db))"
  using assms
proof (induction b after cs db rule: sweep.induct)
  case (2 b after c cs db)
  obtain r nxt db' where run: "release_expired_ticket_holds (pc_now c) (pc_locked c) b after (pc_before c db) = ((r, nxt), db')"
    by (metis surj_pair)
  from 2(2) have "inventory_step\<^sup>*\<^sup>* db (pc_before c db)" by (simp add: others_run_def)
  from this page_step [OF run] have start: "inventory_step\<^sup>*\<^sup>* db db'" by (rule rtranclp.rtrancl_into_rtrancl)
  show ?case
  proof (cases nxt)
    case (Some k)
    with 2(1) [OF run [symmetric] refl Some] 2(2) have "inventory_step\<^sup>*\<^sup>* db' (snd (sweep b k cs db'))" by simp
    with start show ?thesis by (simp add: run Some)
  qed (simp add: run start)
qed simp


text \<open>A page has no key twice, and its last hold has the largest key.\<close>

lemma expired_page_order:
  assumes "distinct (map th_id (iv_holds db))"
  shows "distinct (map th_id (expired_page now locked n after db))"
    and "h \<in> set (expired_page now locked n after db) \<Longrightarrow> th_id h \<le> th_id (last (expired_page now locked n after db))"
proof -
  define ys where "ys = sort_key th_id (filter (\<lambda>h. is_expired_flag now h \<and> th_id h > after \<and> th_id h \<notin> set locked) (iv_holds db))"
  have page: "expired_page now locked n after db = take n ys" by (simp add: expired_page_def ys_def)
  have "set ys \<subseteq> set (iv_holds db)" by (auto simp: ys_def)
  moreover have "distinct ys" unfolding ys_def using assms by (intro distinct_sort [THEN iffD2] distinct_filter) (simp add: distinct_map)
  ultimately have ys: "distinct (map th_id ys)" using assms unfolding distinct_map by (blast intro: inj_on_subset)
  then show "distinct (map th_id (expired_page now locked n after db))" unfolding page take_map [symmetric] by (rule distinct_take)
  have sorted: "sorted (map th_id ys)" unfolding ys_def by (rule sorted_sort_key)
  assume h: "h \<in> set (expired_page now locked n after db)"
  then have "take n ys \<noteq> []" and "h \<in> set ys" unfolding page by (cases n; auto dest: in_set_takeD)+
  from take_sorted_last [OF sorted ys this] h
  show "th_id h \<le> th_id (last (expired_page now locked n after db))" unfolding page by simp
qed

text \<open>One page and the operations before it, seen from the holds.\<close>

lemma page_effect:
  assumes "inventory_inv db" and "release_expired_ticket_holds now locked b after db = ((r, nxt), db')"
  shows "inventory_inv db'"
    and "\<And>h. h \<in> set (iv_holds db) \<Longrightarrow> \<not> is_expired_flag now h \<or> th_id h \<le> max 0 after \<or> th_id h \<in> set locked \<Longrightarrow>
           h \<in> set (iv_holds db')"
    and "\<And>h. h \<in> set (iv_holds db) \<Longrightarrow> is_expired_flag now h \<Longrightarrow> max 0 after < th_id h \<Longrightarrow> th_id h \<notin> set locked \<Longrightarrow>
           \<forall>k. nxt = Some k \<longrightarrow> th_id h \<le> k \<Longrightarrow> mark_released now (Some ''expired by beat'') h \<in> set (iv_holds db')"
proof -
  have "distinct (map th_id (iv_holds db))" using assms(1) by (simp add: inventory_inv_def)
  note page = page_holds [OF this assms(2)]
  show "inventory_inv db'" by (rule inventory_step_inv [OF page_step [OF assms(2)] assms(1)])
  show "h \<in> set (iv_holds db')"
    if "h \<in> set (iv_holds db)" "\<not> is_expired_flag now h \<or> th_id h \<le> max 0 after \<or> th_id h \<in> set locked" for h
    unfolding page set_map using that by (intro rev_image_eqI [of h]) auto
  show "mark_released now (Some ''expired by beat'') h \<in> set (iv_holds db')"
    if "h \<in> set (iv_holds db)" "is_expired_flag now h" "max 0 after < th_id h" "th_id h \<notin> set locked"
      "\<forall>k. nxt = Some k \<longrightarrow> th_id h \<le> k" for h
    unfolding page set_map using that by (intro rev_image_eqI [of h]) (auto split: option.splits)
qed

lemma full_page:
  assumes "inventory_inv db" and "release_expired_ticket_holds now locked b after db = ((r, Some k), db')"
  shows "max 0 after < k" and "clamp_batch b \<le> length (filter (\<lambda>h. max 0 after < th_id h \<and> th_id h \<le> k) (iv_holds db'))"
proof -
  let ?page = "expired_page now locked (clamp_batch b) (max 0 after) db"
  from assms(2) have k: "k = th_id (last ?page)" "clamp_batch b \<le> length ?page"
    and db': "db' = snd (release_all now ?page db)"
    by (auto simp: release_expired_ticket_holds_def Let_def split_beta split: if_splits)
  have dist: "distinct (map th_id (iv_holds db))" using assms(1) by (simp add: inventory_inv_def)
  have "clamp_batch b \<ge> 1" by (auto simp: clamp_batch_def)
  with k(2) have ne: "?page \<noteq> []" by auto
  then have "last ?page \<in> set ?page" by simp
  from expired_page_members [OF this] k(1) show "max 0 after < k" by simp
  note order = expired_page_order [OF dist, where now = now and locked = locked and n = "clamp_batch b" and after = "max 0 after"]
  have "th_id h \<le> k" if "h \<in> set ?page" for h using order(2) [OF that] k(1) by simp
  with expired_page_members have "th_id ` set ?page \<subseteq> {i \<in> set (map th_id (iv_holds db)). max 0 after < i \<and> i \<le> k}" by fastforce
  then have "card (th_id ` set ?page) \<le> card {i \<in> set (map th_id (iv_holds db)). max 0 after < i \<and> i \<le> k}"
    by (intro card_mono) simp_all
  moreover have "card (th_id ` set ?page) = length ?page" using distinct_card [OF order(1)] by simp
  moreover have "card {i \<in> set (map th_id (iv_holds db)). max 0 after < i \<and> i \<le> k}
      = length (filter (\<lambda>i. max 0 after < i \<and> i \<le> k) (map th_id (iv_holds db)))"
    using dist by (subst distinct_card [symmetric]) simp_all
  moreover have "map th_id (iv_holds db) = map th_id (iv_holds db')" by (simp add: db' release_all_ids)
  ultimately show "clamp_batch b \<le> length (filter (\<lambda>h. max 0 after < th_id h \<and> th_id h \<le> k) (iv_holds db'))"
    using k(2) by (simp add: filter_map comp_def)
qed

lemma kept_count:
  assumes "holds_kept db db'" and "distinct (map th_id (iv_holds db))" and "distinct (map th_id (iv_holds db'))"
  shows "length (filter (\<lambda>h. p (th_id h)) (iv_holds db)) \<le> length (filter (\<lambda>h. p (th_id h)) (iv_holds db'))"
proof -
  have len: "length (filter (\<lambda>h. p (th_id h)) hs) = card {i \<in> set (map th_id hs). p i}"
    if "distinct (map th_id hs)" for hs :: "ticket_hold list"
  proof -
    have "length (filter (\<lambda>h. p (th_id h)) hs) = length (filter p (map th_id hs))" by (simp add: filter_map comp_def)
    also have "\<dots> = card {i \<in> set (map th_id hs). p i}" using that by (subst distinct_card [symmetric]) simp_all
    finally show ?thesis .
  qed
  have "set (map th_id (iv_holds db)) \<subseteq> set (map th_id (iv_holds db'))"
  proof
    fix i assume "i \<in> set (map th_id (iv_holds db))"
    then obtain h where h: "h \<in> set (iv_holds db)" "i = th_id h" by auto
    with assms(1) obtain h' where "h' \<in> set (iv_holds db')" "th_id h' = th_id h" by (auto simp: holds_kept_def)
    with h show "i \<in> set (map th_id (iv_holds db'))" by (auto intro: rev_image_eqI)
  qed
  then show ?thesis unfolding len [OF assms(2)] len [OF assms(3)] by (intro card_mono) auto
qed

lemma sweep_Cons:
  assumes "sweep b after (c # cs) db = (ended, db')"
  obtains r db1 where "release_expired_ticket_holds (pc_now c) (pc_locked c) b after (pc_before c db) = ((r, None), db1)"
      "ended" "db' = db1"
  | r k db1 where "release_expired_ticket_holds (pc_now c) (pc_locked c) b after (pc_before c db) = ((r, Some k), db1)"
      "sweep b k cs db1 = (ended, db')"
  using assms by (auto split: prod.splits option.splits)

lemma sweep_releases:
  assumes "inventory_inv db" and "list_all others_run cs" and "\<forall>c \<in> set cs. t \<le> pc_now c \<and> th_id h \<notin> set (pc_locked c)"
    and "sweep b after cs db = (True, db')" and "h \<in> set (iv_holds db)" and "is_expired_flag t h" and "max 0 after < th_id h"
  shows "\<exists>h' \<in> set (iv_holds db'). th_id h' = th_id h \<and> th_status h' \<noteq> RESERVED"
  using assms
proof (induction cs arbitrary: after db)
  case (Cons c cs)
  let ?done = "\<lambda>d. \<exists>h' \<in> set (iv_holds d). th_id h' = th_id h \<and> th_status h' \<noteq> RESERVED"
  have before: "inventory_step\<^sup>*\<^sup>* db (pc_before c db)" using Cons.prems(2) by (simp add: others_run_def)
  note inv0 = caps.run_keeps [OF before Cons.prems(1)]
  have keep: "?done d'" if "?done d" "inventory_step\<^sup>*\<^sup>* d d'" "inventory_inv d" for d d'
    using kept.run_eff [OF that(2,3)] that(1) unfolding holds_kept_def by metis
  have rest: "list_all others_run cs" "\<forall>c \<in> set cs. t \<le> pc_now c \<and> th_id h \<notin> set (pc_locked c)" using Cons.prems(2,3) by simp_all
  from kept.run_eff [OF before Cons.prems(1)] Cons.prems(5) consider "?done (pc_before c db)" | "h \<in> set (iv_holds (pc_before c db))"
    unfolding holds_kept_def by metis
  note start = this
  from Cons.prems(4) show ?case
  proof (cases rule: sweep_Cons)
    case (1 r db1)
    note page = page_effect [OF inv0 1(1)]
    have step: "inventory_step\<^sup>*\<^sup>* (pc_before c db) db1" using page_step [OF 1(1)] by (rule r_into_rtranclp)
    from start show ?thesis
    proof cases
      case 1
      from keep [OF this step inv0] show ?thesis using \<open>db' = db1\<close> by simp
    next
      case 2
      have "is_expired_flag (pc_now c) h" using Cons.prems(3,6) by (auto simp: is_expired_flag_def)
      from page(3) [OF 2 this Cons.prems(7)] Cons.prems(3)
      have "mark_released (pc_now c) (Some ''expired by beat'') h \<in> set (iv_holds db1)" by simp
      then show ?thesis unfolding \<open>db' = db1\<close> by (rule bexI [rotated]) simp
    qed
  next
    case (2 r k db1)
    note page = page_effect [OF inv0 2(1)]
    have step: "inventory_step\<^sup>*\<^sup>* (pc_before c db) db1" using page_step [OF 2(1)] by (rule r_into_rtranclp)
    have tail: "?done db'" if "?done db1"
      using keep [OF that _ page(1)] sweep_run [OF rest(1), where b = b and after = k and db = db1] 2(2) by simp
    from start show ?thesis
    proof cases
      case 1
      from keep [OF this step inv0] show ?thesis by (rule tail)
    next
      case here: 2
      have exp: "is_expired_flag (pc_now c) h" and free: "th_id h \<notin> set (pc_locked c)"
        using Cons.prems(3,6) by (auto simp: is_expired_flag_def)
      show ?thesis
      proof (cases "th_id h \<le> k")
        case True
        from page(3) [OF here exp Cons.prems(7) free] True
        have "mark_released (pc_now c) (Some ''expired by beat'') h \<in> set (iv_holds db1)" by simp
        then have "?done db1" by (rule bexI [rotated]) simp
        then show ?thesis by (rule tail)
      next
        case False
        have "h \<in> set (iv_holds db1)"
          using page_holds [OF _ 2(1)] inv0 here False by (auto simp: inventory_inv_def image_iff)
        then show ?thesis
          by (rule Cons.IH [OF page(1) rest 2(2) _ Cons.prems(6)]) (use False full_page(1) [OF inv0 2(1)] in simp)
      qed
    qed
  qed
qed simp

lemma sweep_leaves:
  assumes "inventory_inv db" and "list_all others_run cs" and "sweep b after cs db = (ended, db')" and "h \<in> set (iv_holds db)"
    and "\<forall>c \<in> set cs. (\<forall>d. h \<in> set (iv_holds d) \<longrightarrow> h \<in> set (iv_holds (pc_before c d)))
      \<and> (is_expired_flag (pc_now c) h \<longrightarrow> th_id h \<le> max 0 after \<or> th_id h \<in> set (pc_locked c))"
  shows "h \<in> set (iv_holds db')"
  using assms
proof (induction cs arbitrary: after db)
  case (Cons c cs)
  have before: "inventory_step\<^sup>*\<^sup>* db (pc_before c db)" using Cons.prems(2) by (simp add: others_run_def)
  note inv0 = caps.run_keeps [OF before Cons.prems(1)]
  have here: "h \<in> set (iv_holds (pc_before c db))" using Cons.prems(4,5) by simp
  have free: "\<not> is_expired_flag (pc_now c) h \<or> th_id h \<le> max 0 after \<or> th_id h \<in> set (pc_locked c)" using Cons.prems(5) by auto
  from Cons.prems(3) show ?case
  proof (cases rule: sweep_Cons)
    case (1 r db1)
    from page_effect(2) [OF inv0 1(1) here free] 1(3) show ?thesis by simp
  next
    case (2 r k db1)
    note page = page_effect [OF inv0 2(1)]
    show ?thesis
    proof (rule Cons.IH [OF page(1) _ 2(2) page(2) [OF here free]])
      show "list_all others_run cs" using Cons.prems(2) by simp
      show "\<forall>c \<in> set cs. (\<forall>d. h \<in> set (iv_holds d) \<longrightarrow> h \<in> set (iv_holds (pc_before c d)))
          \<and> (is_expired_flag (pc_now c) h \<longrightarrow> th_id h \<le> max 0 k \<or> th_id h \<in> set (pc_locked c))"
        using Cons.prems(5) full_page(1) [OF inv0 2(1)] by fastforce
    qed
  qed
qed simp

lemma sweep_pages:
  assumes "inventory_inv db" and "list_all others_run cs" and "sweep b after cs db = (False, db')"
  shows "length cs * clamp_batch b \<le> length (filter (\<lambda>h. max 0 after < th_id h) (iv_holds db'))"
  using assms
proof (induction cs arbitrary: after db)
  case (Cons c cs)
  have before: "inventory_step\<^sup>*\<^sup>* db (pc_before c db)" using Cons.prems(2) by (simp add: others_run_def)
  note inv0 = caps.run_keeps [OF before Cons.prems(1)]
  from Cons.prems(3) obtain r k db1 where run: "release_expired_ticket_holds (pc_now c) (pc_locked c) b after (pc_before c db) = ((r, Some k), db1)"
    and tail: "sweep b k cs db1 = (False, db')" by (rule sweep_Cons) simp_all
  note page = page_effect [OF inv0 run] and full = full_page [OF inv0 run]
  have more: "inventory_step\<^sup>*\<^sup>* db1 db'" using sweep_run [of cs, where b = b and after = k and db = db1] Cons.prems(2) tail by simp
  have dist: "distinct (map th_id (iv_holds db1))" "distinct (map th_id (iv_holds db'))"
    using page(1) caps.run_keeps [OF more page(1)] by (simp_all add: inventory_inv_def)
  have "length cs * clamp_batch b \<le> length (filter (\<lambda>h. max 0 k < th_id h) (iv_holds db'))"
    using Cons.prems(2) by (intro Cons.IH [OF page(1) _ tail]) simp
  moreover have "clamp_batch b \<le> length (filter (\<lambda>h. max 0 after < th_id h \<and> th_id h \<le> k) (iv_holds db'))"
    using full(2) kept_count [OF kept.run_eff [OF more page(1)] dist, of "\<lambda>i. max 0 after < i \<and> i \<le> k"] by simp
  moreover have "length (filter (\<lambda>h. max 0 after < th_id h \<and> th_id h \<le> k) hs) + length (filter (\<lambda>h. max 0 k < th_id h) hs)
      = length (filter (\<lambda>h. max 0 after < th_id h) hs)" for hs :: "ticket_hold list"
    using full(1) by (induction hs) auto
  from this [of "iv_holds db'"] calculation show ?case by simp
qed simp

text \<open>
  C19: the sweep is complete and ends.  Whatever operations run between its pages, when the chain ends then every hold that was expired
  at time \<open>t\<close>, before all its clocks, is reserved no more, if its key is beyond the start and no page found it locked.  A hold that the
  other operations leave alone and that is not expired for any page, or locked, or not beyond the start, stays as it is.  A
  chain that has not ended yet has filled all its pages with holds, so without new holds it ends.
\<close>

theorem sweep_complete:
  assumes "inventory_inv db" and "list_all others_run cs" and "\<forall>c \<in> set cs. t \<le> pc_now c"
    and "sweep b after cs db = (ended, db')"
  shows "(\<forall>h \<in> set (iv_holds db).
      (ended \<and> is_expired_flag t h \<and> max 0 after < th_id h \<and> (\<forall>c \<in> set cs. th_id h \<notin> set (pc_locked c)) \<longrightarrow>
        (\<exists>h' \<in> set (iv_holds db'). th_id h' = th_id h \<and> th_status h' \<noteq> RESERVED))
      \<and> ((\<forall>c \<in> set cs. (\<forall>d. h \<in> set (iv_holds d) \<longrightarrow> h \<in> set (iv_holds (pc_before c d)))
            \<and> (is_expired_flag (pc_now c) h \<longrightarrow> th_id h \<le> max 0 after \<or> th_id h \<in> set (pc_locked c))) \<longrightarrow>
          h \<in> set (iv_holds db')))
    \<and> (ended \<or> length cs * clamp_batch b \<le> length (filter (\<lambda>h. max 0 after < th_id h) (iv_holds db')))"
proof -
  have "\<exists>h' \<in> set (iv_holds db'). th_id h' = th_id h \<and> th_status h' \<noteq> RESERVED"
    if "h \<in> set (iv_holds db)"
      and "ended \<and> is_expired_flag t h \<and> max 0 after < th_id h \<and> (\<forall>c \<in> set cs. th_id h \<notin> set (pc_locked c))" for h
    using sweep_releases [OF assms(1,2) _ _ that(1)] that(2) assms(3,4) by simp
  moreover note sweep_leaves [OF assms(1,2,4)]
  moreover have "ended \<or> length cs * clamp_batch b \<le> length (filter (\<lambda>h. max 0 after < th_id h) (iv_holds db'))"
    using sweep_pages [OF assms(1,2)] assms(4) by (cases ended) simp_all
  ultimately show ?thesis by blast
qed

text \<open>Two pages of one hold each, five seconds apart; in between somebody asks for seats of another tier.\<close>

definition demo_pages :: "page_context list" where
  "demo_pages =
     [\<lparr>pc_before = id, pc_now = 600000000, pc_locked = []\<rparr>,
      \<lparr>pc_before = (\<lambda>db. case decrement_capacity 8 1 (Some 1) db of Inl _ \<Rightarrow> db | Inr db' \<Rightarrow> db'), pc_now = 605000000, pc_locked = []\<rparr>]"

theorem sweep_complete_witness:
  "\<exists>h db1 db2. reserve_capacity demo_inv_env 1 7 2 None None None demo_inventory = Inr (h, db1)
     \<and> sweep 1 0 demo_pages db1 = (True, db2) \<and> th_status h = RESERVED
     \<and> (\<exists>h' \<in> set (iv_holds db2). th_id h' = th_id h \<and> th_status h' \<noteq> RESERVED)"
proof -
  obtain h db1 where run: "reserve_capacity demo_inv_env 1 7 2 None None None demo_inventory = Inr (h, db1)"
    and h: "iv_holds db1 = [h]" "is_expired_flag 600000000 h" "th_id h = 1" "th_status h = RESERVED"
    and ended: "fst (sweep 1 0 demo_pages db1)"
    by (simp add: inventory_eval is_expired_flag_def demo_pages_def release_expired_ticket_holds_def expired_page_def
        clamp_batch_def release_hold_def release_capacity_def increment_capacity_def return_seats_def find_hold_def
        update_rows_def mark_released_def decrement_capacity_def Let_def)
  have "inventory_step\<^sup>*\<^sup>* db (case decrement_capacity 8 1 (Some 1) db of Inl _ \<Rightarrow> db | Inr db' \<Rightarrow> db')" for db
    by (auto split: sum.splits intro: inventory_step.Decrement)
  then have others: "list_all others_run demo_pages" by (simp add: demo_pages_def others_run_def)
  have inv: "inventory_inv db1" using inventory_step_inv [OF inventory_step.Hold [OF hold_step.Reserve [OF run]] demo_inventory_inv] .
  obtain db2 where sw: "sweep 1 0 demo_pages db1 = (True, db2)" using ended by (cases "sweep 1 0 demo_pages db1") simp
  have "list_all (\<lambda>c. pc_now c \<ge> 600000000 \<and> pc_locked c = []) demo_pages" by (simp add: demo_pages_def)
  then have late: "\<forall>c \<in> set demo_pages. 600000000 \<le> pc_now c" and unlocked: "\<forall>c \<in> set demo_pages. pc_locked c = []"
    by (simp_all add: list_all_iff)
  from sweep_complete [OF inv others late sw] h unlocked run sw show ?thesis by auto
qed

subsection \<open>When a reservation succeeds\<close>

definition fresh_ids :: "inv_env \<Rightarrow> inv_db \<Rightarrow> bool" where
  "fresh_ids env db \<longleftrightarrow>
     list_all (\<lambda>k. th_reservation_token k \<noteq> ie_token env \<and> th_public_id k \<noteq> ie_public_id env) (iv_holds db)"

text \<open>
  C18: a reservation of a limited tier succeeds exactly when it should: when the quantity is positive, the event exists, its cap
  leaves room, and the tier is on sale with at least that many seats.  Nobody is refused without one of these reasons.
\<close>

theorem reserve_exact:
  assumes "inventory_inv db" and "t \<in> set (iv_tiers db)" and "tt_capacity t > 0"
    and "fresh_ids env db" and "ie_hold_minutes env > 0"
  shows "(case reserve_capacity env (tt_event_id t) (tt_id t) q u None key db of Inl e \<Rightarrow> False | Inr r \<Rightarrow> True) \<longleftrightarrow>
    q \<ge> 1 \<and> tt_is_active t
    \<and> (case tt_available_seats t of None \<Rightarrow> False | Some a \<Rightarrow> q \<le> a)
    \<and> (case find (\<lambda>e. ev_id e = tt_event_id t) (iv_events db) of
         None \<Rightarrow> False
       | Some e \<Rightarrow> ev_max_capacity e \<le> 0 \<or> event_consumed_seats db (tt_event_id t) + q \<le> ev_max_capacity e)"
proof -
  have dist: "distinct (map tt_id (iv_tiers db))" using assms(1) by (simp add: inventory_inv_def)
  have sell: "list_ex (sellable (tt_event_id t) (tt_id t) q) (iv_tiers db) \<longleftrightarrow>
      tt_is_active t \<and> (case tt_available_seats t of None \<Rightarrow> False | Some a \<Rightarrow> q \<le> a)"
    using dist assms(2) unfolding list_ex_iff sellable_def distinct_map by (auto dest: inj_onD)
  have found: "find (\<lambda>x. tt_id x = tt_id t \<and> tt_event_id x = tt_event_id t) (iv_tiers db) = Some t"
    by (rule find_distinct_key [OF dist assms(2)]) auto
  let ?rhs = "q \<ge> 1 \<and> tt_is_active t \<and> (case tt_available_seats t of None \<Rightarrow> False | Some a \<Rightarrow> q \<le> a)
    \<and> (case find (\<lambda>e. ev_id e = tt_event_id t) (iv_events db) of
         None \<Rightarrow> False
       | Some e \<Rightarrow> ev_max_capacity e \<le> 0 \<or> event_consumed_seats db (tt_event_id t) + q \<le> ev_max_capacity e)"
  have dec: "(case atomic_decrement (tt_event_id t) (tt_id t) q db of Inl e \<Rightarrow> False | Inr d \<Rightarrow> iv_holds d = iv_holds db) \<longleftrightarrow> ?rhs"
    unfolding atomic_decrement_def sell found using assms(3)
    by (auto simp: not_less split: option.splits)
  show ?thesis
  proof (cases "atomic_decrement (tt_event_id t) (tt_id t) q db")
    case (Inl e)
    with dec have "\<not> ?rhs" by simp
    with Inl show ?thesis by (simp add: reserve_capacity_def Let_def)
  next
    case (Inr d)
    from atomic_decrement_move [OF assms(1) Inr] have "q \<ge> 1" "iv_holds d = iv_holds db" by (auto simp: seat_move_def)
    moreover from this Inr dec have ?rhs by simp
    ultimately show ?thesis using Inr assms(4,5)
      by (auto simp: reserve_capacity_def Let_def insert_hold_def fresh_ids_def list_ex_iff list_all_iff)
  qed
qed

theorem reserve_exact_witness:
  "(case reserve_capacity demo_inv_env 1 7 4 None None None demo_inventory of Inl e \<Rightarrow> False | Inr r \<Rightarrow> True) = False
   \<and> (case reserve_capacity demo_inv_env 1 7 3 None None None demo_inventory of Inl e \<Rightarrow> False | Inr r \<Rightarrow> True) = True"
proof -
  let ?t = "new_ticket_type 7 1 ''VIP'' 3 None True"
  have t: "?t \<in> set (iv_tiers demo_inventory)" by (simp add: demo_inventory_def)
  have "tt_capacity ?t > 0" "fresh_ids demo_inv_env demo_inventory" "ie_hold_minutes demo_inv_env > 0"
    by (simp_all add: new_ticket_type_def fresh_ids_def demo_inv_env_def demo_inventory_def)
  note ex = reserve_exact [OF demo_inventory_inv t this]
  show ?thesis
    using ex [of 4 None None] ex [of 3 None None] by (simp add: new_ticket_type_def demo_inventory_def event_consumed_seats_def
        coalesce_seats_def)
qed

subsection \<open>Unlimited tiers and the event cap\<close>

text \<open>
  An unlimited tier ignores the event cap.  Reserving seats of an active tier of capacity zero changes no seat count, so as
  long as the limited tiers leave room for one more request of that size the next reservation succeeds too: any number
  of requests, and so any number of admissions, passes under a finite cap.
\<close>

theorem unlimited_tier_ignores_cap:
  assumes "inventory_inv db" and "t \<in> set (iv_tiers db)" and "tt_capacity t = 0" and "tt_is_active t" and "q \<ge> 1"
    and "find (\<lambda>e. ev_id e = tt_event_id t) (iv_events db) = Some e"
    and "ev_max_capacity e \<le> 0 \<or> event_consumed_seats db (tt_event_id t) + q \<le> ev_max_capacity e"
  shows "((\<lambda>r. rbind r (decrement_capacity (tt_id t) q (Some (tt_event_id t)))) ^^ n) (Inr db) = Inr db"
proof -
  have dist: "distinct (map tt_id (iv_tiers db))" using assms(1) by (simp add: inventory_inv_def)
  have "seats_ok t" using assms(1,2) by (simp add: inventory_inv_def list_all_iff)
  with assms(3,5) have "\<not> (case tt_available_seats t of None \<Rightarrow> False | Some a \<Rightarrow> q \<le> a)"
    by (auto simp: seats_ok_def split: option.splits)
  then have "\<not> list_ex (sellable (tt_event_id t) (tt_id t) q) (iv_tiers db)"
    using dist assms(2) unfolding list_ex_iff sellable_def distinct_map by (auto dest: inj_onD)
  moreover have "find (\<lambda>x. tt_id x = tt_id t \<and> tt_event_id x = tt_event_id t) (iv_tiers db) = Some t"
    by (rule find_distinct_key [OF dist assms(2)]) auto
  ultimately have "decrement_capacity (tt_id t) q (Some (tt_event_id t)) db = Inr db"
    using assms(3-7) by (auto simp: decrement_capacity_def atomic_decrement_def)
  then show ?thesis by (induction n) simp_all
qed

theorem unlimited_tier_ignores_cap_witness:
  "((\<lambda>r. rbind r (decrement_capacity 8 2 (Some 1))) ^^ 1000) (Inr demo_inventory) = Inr demo_inventory
   \<and> map ev_max_capacity (iv_events demo_inventory) = [5]"
proof -
  let ?t = "new_ticket_type 8 1 ''Free'' 0 None True" and ?e = "\<lparr>ev_id = 1, ev_max_capacity = 5\<rparr>"
  have "?t \<in> set (iv_tiers demo_inventory)" "tt_capacity ?t = 0" "tt_is_active ?t" "(2::int) \<ge> 1"
    "find (\<lambda>e. ev_id e = tt_event_id ?t) (iv_events demo_inventory) = Some ?e"
    "ev_max_capacity ?e \<le> 0 \<or> event_consumed_seats demo_inventory (tt_event_id ?t) + 2 \<le> ev_max_capacity ?e"
    by (simp_all add: new_ticket_type_def demo_inventory_def event_consumed_seats_def coalesce_seats_def)
  from unlimited_tier_ignores_cap [OF demo_inventory_inv this, of 1000] show ?thesis
    by (simp add: new_ticket_type_def demo_inventory_def)
qed

end
