(* ===== verification/Transport_Reservation.thy ===== *)
theory Transport_Reservation
  imports State_Tables
begin

section \<open>Transport reservations\<close>

text \<open>
  Models \<open>app/transport/services/reservation_state_machine.py\<close>, \<open>reservation_policy_evaluator.py\<close> and
  \<open>reservation_service.py\<close> with the rows \<open>TransportReservation\<close>, \<open>TransportReservationLine\<close>, \<open>ProviderOfferingSupply\<close> and
  \<open>Vehicle\<close> of \<open>app/transport/models.py\<close>.  Every operation runs in one transaction under row locks, so operations
  are steps on the tables; one that raises leaves them as they were.  The dates of a request are aware datetimes.  Settings, the
  registry of offerings, the organisation directory, the fingerprint hash, the random reference and the clock are
  fields of \<open>tr_env\<close>.  Amounts are stored as \<open>Numeric(10, 2)\<close>, rounded half up.
\<close>

subsection \<open>States\<close>

datatype ReservationState = DRAFT | HELD | RESERVED | MATERIALIZED | COMPLETED | CANCELLED | EXPIRED

fun reservation_state_value :: "ReservationState \<Rightarrow> string" where
  "reservation_state_value DRAFT = ''draft''"
| "reservation_state_value HELD = ''held''"
| "reservation_state_value RESERVED = ''reserved''"
| "reservation_state_value MATERIALIZED = ''materialized''"
| "reservation_state_value COMPLETED = ''completed''"
| "reservation_state_value CANCELLED = ''cancelled''"
| "reservation_state_value EXPIRED = ''expired''"

definition reservation_state_of :: "string \<Rightarrow> ReservationState option" where
  "reservation_state_of v =
     find (\<lambda>s. reservation_state_value s = v) [DRAFT, HELD, RESERVED, MATERIALIZED, COMPLETED, CANCELLED, EXPIRED]"

datatype ReservationObligationState = UNPAID | DEPOSITED | PAID

fun obligation_value :: "ReservationObligationState \<Rightarrow> string" where
  "obligation_value UNPAID = ''unpaid''"
| "obligation_value DEPOSITED = ''deposited''"
| "obligation_value PAID = ''paid''"

definition obligation_of :: "string \<Rightarrow> ReservationObligationState option" where
  "obligation_of v = find (\<lambda>s. obligation_value s = v) [UNPAID, DEPOSITED, PAID]"

fun reservation_transitions :: "ReservationState \<Rightarrow> ReservationState list" where
  "reservation_transitions DRAFT = [HELD, CANCELLED]"
| "reservation_transitions HELD = [RESERVED, CANCELLED, EXPIRED]"
| "reservation_transitions RESERVED = [MATERIALIZED, CANCELLED, EXPIRED]"
| "reservation_transitions MATERIALIZED = [COMPLETED, CANCELLED]"
| "reservation_transitions COMPLETED = []"
| "reservation_transitions CANCELLED = []"
| "reservation_transitions EXPIRED = []"

fun obligation_transitions :: "ReservationObligationState \<Rightarrow> ReservationObligationState list" where
  "obligation_transitions UNPAID = [DEPOSITED, PAID]"
| "obligation_transitions DEPOSITED = [PAID]"
| "obligation_transitions PAID = []"

subsection \<open>Rows\<close>

datatype tr_error =
    Validation_error string
  | Not_found_error string
  | Permission_error string
  | Conflict_error string
  | Reservation_conflict_error
  | Supply_coverage_error
  | Invalid_reservation_transition string string
  | Invalid_obligation_transition string string
  | Type_error

record audit_item =
  ai_action :: string
  ai_from :: string
  ai_to :: string
  ai_by :: "int option"
  ai_trigger :: string

record reservation =
  rv_id :: int
  rv_reference :: string
  rv_idempotency_key :: string
  rv_fingerprint :: string
  rv_reserving_user_id :: int
  rv_organisation_id :: "int option"
  rv_offering_code :: string
  rv_provider_type :: string
  rv_provider_id :: int
  rv_window_start :: time
  rv_window_end :: time
  rv_required_quantity :: int
  rv_mode :: string
  rv_state :: string
  rv_obligation_state :: string
  rv_payment_method :: "string option"
  rv_payment_timing :: "string option"
  rv_commercial_policy_ref :: "string option"
  rv_deposit_required :: bool
  rv_required_total_amount :: "money option"
  rv_amount_received :: money
  rv_deposit_amount :: "money option"
  rv_deposit_currency :: "string option"
  rv_deposit_due_at :: "time option"
  rv_wallet_reference :: "string option"
  rv_required_obligations :: "string list"
  rv_audit_log :: "audit_item list"
  rv_is_deleted :: bool

record reservation_line =
  ln_id :: int
  ln_reservation_id :: int
  ln_offering_code :: string
  ln_vehicle_id :: "int option"
  ln_window_start :: time
  ln_window_end :: time
  ln_state :: string
  ln_is_deleted :: bool

record supply_slice =
  sp_id :: int
  sp_provider_type :: string
  sp_provider_id :: int
  sp_offering_code :: string
  sp_window_start :: time
  sp_window_end :: time
  sp_total_units :: int
  sp_is_deleted :: bool

record vehicle =
  vh_id :: int
  vh_owner_type :: string
  vh_owner_id :: int
  vh_status :: string
  vh_is_available :: bool
  vh_passenger_capacity :: int
  vh_vehicle_class :: "string option"
  vh_is_deleted :: bool

record tr_db =
  td_reservations :: "reservation list"
  td_lines :: "reservation_line list"
  td_supplies :: "supply_slice list"
  td_vehicles :: "vehicle list"
  td_next_id :: int

record offering =
  of_min_seats :: int
  of_max_seats :: int
  of_compatible_classes :: "string list"

record reservation_request =
  rq_offering_code :: string
  rq_provider_type :: string
  rq_provider_id :: int
  rq_window_start :: time
  rq_window_end :: time
  rq_required_quantity :: int
  rq_mode :: string
  rq_payment_method :: "string option"
  rq_payment_timing :: "string option"
  rq_commercial_policy_ref :: "string option"
  rq_organisation_id :: "int option"
  rq_event_id :: "int option"
  rq_context_source :: "string option"
  rq_context_ref :: "string option"
  rq_vehicle_ids :: "int list"
  rq_estimated_value :: "money option"

text \<open>The caller: \<open>None\<close> is nobody or an anonymous user.\<close>

type_synonym actor = "int option"

record tr_env =
  te_offering :: "string \<Rightarrow> offering option"
  te_fingerprint :: "reservation_request \<Rightarrow> string"
  te_reference :: string
  te_enabled_methods :: "string list"
  te_deposit_lead_hours :: int
  te_deposit_percent :: rat
  te_deposit_currency :: string
  te_policy_ref :: "string \<Rightarrow> string option"
  te_organisation_active :: "int \<Rightarrow> bool"
  te_active_member :: "int \<Rightarrow> int \<Rightarrow> bool"
  te_manages_transport :: "int \<Rightarrow> int \<Rightarrow> bool"
  te_global_admin :: "int \<Rightarrow> bool"

subsection \<open>The state machines\<close>

definition reservation_can_transition :: "string \<Rightarrow> string \<Rightarrow> bool" where
  "reservation_can_transition cur tgt \<longleftrightarrow>
     (case (reservation_state_of cur, reservation_state_of tgt) of
        (Some c, Some t) \<Rightarrow> t \<in> set (reservation_transitions c)
      | _ \<Rightarrow> False)"

definition can_transition_obligation :: "string \<Rightarrow> string \<Rightarrow> bool" where
  "can_transition_obligation cur tgt \<longleftrightarrow>
     (case (obligation_of cur, obligation_of tgt) of
        (Some c, Some t) \<Rightarrow> t \<in> set (obligation_transitions c)
      | _ \<Rightarrow> False)"

definition reservation_is_terminal :: "string \<Rightarrow> bool" where
  "reservation_is_terminal st \<longleftrightarrow>
     (case reservation_state_of st of Some s \<Rightarrow> s \<in> {COMPLETED, CANCELLED, EXPIRED} | None \<Rightarrow> False)"

definition consumes_capacity :: "string \<Rightarrow> bool" where
  "consumes_capacity st \<longleftrightarrow>
     (case reservation_state_of st of Some s \<Rightarrow> s \<in> {HELD, RESERVED, MATERIALIZED} | None \<Rightarrow> False)"

definition obligation_satisfies_reserved :: "string \<Rightarrow> string list \<Rightarrow> bool" where
  "obligation_satisfies_reserved ob required \<longleftrightarrow>
     (case obligation_of ob of
        None \<Rightarrow> False
      | Some o' \<Rightarrow> str_upper (obligation_value o') \<in> set (map str_upper required))"

definition reservation_transition ::
  "int option \<times> string \<Rightarrow> reservation \<Rightarrow> ReservationState \<Rightarrow> tr_error + reservation" where
  "reservation_transition a r t =
     (let tgt = reservation_state_value t in
      if \<not> reservation_can_transition (rv_state r) tgt then Inl (Invalid_reservation_transition (rv_state r) tgt)
      else Inr (r\<lparr>rv_state := tgt,
                  rv_audit_log := rv_audit_log r @
                    [\<lparr>ai_action = ''reservation_state_changed'', ai_from = rv_state r, ai_to = tgt,
                      ai_by = fst a, ai_trigger = snd a\<rparr>]\<rparr>))"

definition transition_obligation ::
  "int option \<times> string \<Rightarrow> reservation \<Rightarrow> ReservationObligationState \<Rightarrow> tr_error + reservation" where
  "transition_obligation a r t =
     (let tgt = obligation_value t in
      if \<not> can_transition_obligation (rv_obligation_state r) tgt
      then Inl (Invalid_obligation_transition (rv_obligation_state r) tgt)
      else Inr (r\<lparr>rv_obligation_state := tgt,
                  rv_audit_log := rv_audit_log r @
                    [\<lparr>ai_action = ''reservation_obligation_changed'', ai_from = rv_obligation_state r, ai_to = tgt,
                      ai_by = fst a, ai_trigger = snd a\<rparr>]\<rparr>))"

subsection \<open>The policy evaluator\<close>

definition CANONICAL_PAYMENT_METHODS :: "string list" where
  "CANONICAL_PAYMENT_METHODS = [''CASH'', ''WALLET'', ''MOBILE_MONEY'', ''CARD'', ''BANK_TRANSFER'']"

definition required_obligation_for_reserved :: "string \<Rightarrow> string list option" where
  "required_obligation_for_reserved timing =
     map_of [(''NOW'', [''PAID'']), (''DEPOSIT'', [''DEPOSITED'', ''PAID'']),
             (''END_OF_TRIP'', [''UNPAID'', ''DEPOSITED'', ''PAID'']),
             (''INVOICE'', [''UNPAID'', ''DEPOSITED'', ''PAID''])] timing"

record policy_decision =
  pd_requires_deposit :: bool
  pd_deposit_amount :: "money option"
  pd_deposit_currency :: "string option"
  pd_deposit_due_at :: "time option"
  pd_required_obligations :: "string list"
  pd_commercial_policy_ref :: "string option"

text \<open>\<open>(v or "").strip().upper()\<close>\<close>

definition norm_upper :: "string option \<Rightarrow> string" where
  "norm_upper v = (case v of None \<Rightarrow> [] | Some s \<Rightarrow> str_upper (str_strip s))"

definition none_if_empty :: "string \<Rightarrow> string option" where
  "none_if_empty s = (if s = [] then None else Some s)"

definition validate_authority :: "tr_env \<Rightarrow> int \<Rightarrow> int \<Rightarrow> string option" where
  "validate_authority env actor_id org =
     (if \<not> te_organisation_active env org then Some ''Organisation not found''
      else if \<not> te_active_member env actor_id org then Some ''Actor is not an active organisation member''
      else if \<not> te_manages_transport env actor_id org then Some ''Actor lacks organisation transport authority''
      else None)"

definition compute_deposit ::
  "tr_env \<Rightarrow> string \<Rightarrow> money option \<Rightarrow> time \<Rightarrow> bool \<times> money option \<times> string option \<times> time option" where
  "compute_deposit env timing estimated window_start =
     (if timing \<noteq> ''DEPOSIT'' then (False, None, None, None)
      else (True, map_option (\<lambda>v. v * te_deposit_percent env / 100) estimated, Some (te_deposit_currency env),
            Some (window_start - te_deposit_lead_hours env * 3600 * 1000000)))"

text \<open>A refusal is its reason.\<close>

definition evaluate :: "tr_env \<Rightarrow> actor \<Rightarrow> reservation_request \<Rightarrow> string + policy_decision" where
  "evaluate env act rq =
     (let timing = norm_upper (rq_payment_timing rq); meth = norm_upper (rq_payment_method rq) in
      if rq_window_end rq \<le> rq_window_start rq then Inl ''window_end must be strictly after window_start''
      else if rq_required_quantity rq \<le> 0 then Inl ''quantity must be a positive integer''
      else case act of
        None \<Rightarrow> Inl ''Authentication required''
      | Some u \<Rightarrow>
          if timing = [] then Inl ''payment_timing is required''
          else case required_obligation_for_reserved timing of
            None \<Rightarrow> Inl ''Unsupported payment_timing''
          | Some required \<Rightarrow>
              if timing = ''NOW'' \<and> meth = [] then Inl ''payment_method is required for timing=NOW''
              else if meth \<noteq> [] \<and> meth \<notin> set CANONICAL_PAYMENT_METHODS then Inl ''Unsupported payment_method''
              else if meth \<noteq> [] \<and> meth \<notin> set (map (\<lambda>m. str_upper (str_strip m)) (te_enabled_methods env))
              then Inl ''Payment method is not enabled for this deployment''
              else case (case rq_organisation_id rq of None \<Rightarrow> None | Some org \<Rightarrow> validate_authority env u org) of
                Some reason \<Rightarrow> Inl reason
              | None \<Rightarrow>
                  let (dep, amount, cur, due) = compute_deposit env timing (rq_estimated_value rq) (rq_window_start rq)
                  in Inr \<lparr>pd_requires_deposit = dep, pd_deposit_amount = amount, pd_deposit_currency = cur,
                          pd_deposit_due_at = due, pd_required_obligations = required,
                          pd_commercial_policy_ref =
                            (if rq_commercial_policy_ref rq \<in> {None, Some []} then te_policy_ref env (rq_offering_code rq)
                             else rq_commercial_policy_ref rq)\<rparr>)"

subsection \<open>Idempotency\<close>

definition canonical_request :: "reservation_request \<Rightarrow> reservation_request" where
  "canonical_request rq =
     rq\<lparr>rq_vehicle_ids := sort (rq_vehicle_ids rq),
        rq_offering_code := str_lower (str_strip (rq_offering_code rq)),
        rq_provider_type := str_lower (str_strip (rq_provider_type rq)),
        rq_mode := str_lower (str_strip (rq_mode rq)),
        rq_payment_method := map_option (\<lambda>v. str_upper (str_strip v)) (rq_payment_method rq),
        rq_payment_timing := map_option (\<lambda>v. str_upper (str_strip v)) (rq_payment_timing rq)\<rparr>"

definition request_fingerprint :: "tr_env \<Rightarrow> reservation_request \<Rightarrow> string" where
  "request_fingerprint env rq = te_fingerprint env (canonical_request rq)"

definition lookup_idempotent :: "tr_db \<Rightarrow> int \<Rightarrow> string \<Rightarrow> reservation option" where
  "lookup_idempotent db u key =
     find (\<lambda>r. rv_reserving_user_id r = u \<and> rv_idempotency_key r = key \<and> \<not> rv_is_deleted r) (td_reservations db)"

definition return_matching_idempotent :: "reservation \<Rightarrow> string \<Rightarrow> tr_error + reservation" where
  "return_matching_idempotent r fp =
     (if rv_fingerprint r \<noteq> fp
      then Inl (Conflict_error ''Idempotency key has already been used with a different material request'')
      else Inr r)"

subsection \<open>Vehicles\<close>

definition ACTIVE_LINE_STATES :: "string list" where
  "ACTIVE_LINE_STATES = [''held'', ''reserved'', ''materialized'']"

definition lock_vehicles_for_reservation :: "tr_db \<Rightarrow> int list \<Rightarrow> int \<Rightarrow> vehicle option" where
  "lock_vehicles_for_reservation db ids v =
     (if v \<in> set ids then find (\<lambda>x. vh_id x = v \<and> \<not> vh_is_deleted x) (td_vehicles db) else None)"

definition vehicle_eligible :: "string \<Rightarrow> int \<Rightarrow> offering \<Rightarrow> vehicle \<Rightarrow> tr_error + unit" where
  "vehicle_eligible provider_type provider_id off v =
     rbind (check (provider_type \<in> {''organisation'', ''driver''})
              (Validation_error ''specific reservations require an organisation or driver provider'')) (\<lambda>_.
     rbind (check (vh_owner_type v = provider_type \<and> vh_owner_id v = provider_id)
              (Permission_error ''Vehicle is not owned by the indicated provider'')) (\<lambda>_.
     rbind (check (str_lower (vh_status v) = ''active'' \<and> vh_is_available v)
              (Validation_error ''Vehicle is not in active status'')) (\<lambda>_.
     rbind (check (of_min_seats off \<le> vh_passenger_capacity v \<and> vh_passenger_capacity v \<le> of_max_seats off)
              (Validation_error ''Vehicle capacity is not eligible'')) (\<lambda>_.
     check (of_compatible_classes off = []
            \<or> (case vh_vehicle_class v of None \<Rightarrow> True | Some c \<Rightarrow> c = [] \<or> c \<in> set (of_compatible_classes off)))
       (Validation_error ''Vehicle class is not eligible'')))))"

fun prove_vehicle_ownership ::
  "(int \<Rightarrow> vehicle option) \<Rightarrow> string \<Rightarrow> int \<Rightarrow> offering \<Rightarrow> int list \<Rightarrow> tr_error + unit" where
  "prove_vehicle_ownership locked pt pid off [] = Inr ()"
| "prove_vehicle_ownership locked pt pid off (v # vs) =
     rbind (case locked v of
              None \<Rightarrow> Inl (Not_found_error ''vehicle'')
            | Some x \<Rightarrow> vehicle_eligible pt pid off x) (\<lambda>_.
     prove_vehicle_ownership locked pt pid off vs)"

definition active_line :: "reservation_line \<Rightarrow> bool" where
  "active_line l \<longleftrightarrow> \<not> ln_is_deleted l \<and> ln_state l \<in> set ACTIVE_LINE_STATES"

text \<open>The reservation a line is joined with.\<close>

definition line_reservation :: "tr_db \<Rightarrow> reservation_line \<Rightarrow> reservation option" where
  "line_reservation db l = find (\<lambda>r. rv_id r = ln_reservation_id l \<and> \<not> rv_is_deleted r) (td_reservations db)"

definition overlaps :: "time \<Rightarrow> time \<Rightarrow> time \<Rightarrow> time \<Rightarrow> bool" where
  "overlaps a b c d \<longleftrightarrow> a < d \<and> b > c"

definition check_vehicle_overlap :: "tr_db \<Rightarrow> int list \<Rightarrow> time \<Rightarrow> time \<Rightarrow> int option \<Rightarrow> tr_error + unit" where
  "check_vehicle_overlap db ids ws we excl =
     check (\<not> list_ex (\<lambda>l. active_line l
                \<and> (case ln_vehicle_id l of None \<Rightarrow> False | Some v \<Rightarrow> v \<in> set ids)
                \<and> overlaps (ln_window_start l) (ln_window_end l) ws we
                \<and> (case line_reservation db l of None \<Rightarrow> False | Some r \<Rightarrow> excl = None \<or> excl \<noteq> Some (rv_id r)))
              (td_lines db))
       Reservation_conflict_error"

subsection \<open>Supply\<close>

definition overlapping_supply_rows :: "tr_db \<Rightarrow> string \<Rightarrow> int \<Rightarrow> string \<Rightarrow> time \<Rightarrow> time \<Rightarrow> supply_slice list" where
  "overlapping_supply_rows db pt pid off ws we =
     sort_key (\<lambda>s. sp_window_start s)
       (filter (\<lambda>s. sp_provider_type s = pt \<and> sp_provider_id s = pid \<and> sp_offering_code s = off \<and> \<not> sp_is_deleted s
                    \<and> overlaps (sp_window_start s) (sp_window_end s) ws we) (td_supplies db))"

text \<open>The scan of the sorted slices; the cursor is the first instant not yet covered.\<close>

fun coverage_scan :: "time \<Rightarrow> time \<Rightarrow> (time \<times> time) list \<Rightarrow> tr_error + unit" where
  "coverage_scan cursor we [] = (if cursor < we then Inl Supply_coverage_error else Inr ())"
| "coverage_scan cursor we ((a, b) # rest) =
     (if b \<le> cursor then coverage_scan cursor we rest
      else if a > cursor then Inl Supply_coverage_error
      else let cursor = max cursor b in if cursor \<ge> we then Inr () else coverage_scan cursor we rest)"

definition assert_continuous_coverage :: "supply_slice list \<Rightarrow> time \<Rightarrow> time \<Rightarrow> tr_error + unit" where
  "assert_continuous_coverage supplies ws we =
     coverage_scan ws we (sort_key fst (map (\<lambda>s. (sp_window_start s, sp_window_end s)) supplies))"

definition pool_line :: "tr_db \<Rightarrow> string \<Rightarrow> int \<Rightarrow> string \<Rightarrow> reservation_line \<Rightarrow> bool" where
  "pool_line db pt pid off l \<longleftrightarrow>
     active_line l
     \<and> (case line_reservation db l of
          None \<Rightarrow> False
        | Some r \<Rightarrow> rv_provider_type r = pt \<and> rv_provider_id r = pid \<and> rv_offering_code r = off)"

definition count_committed_in_slice :: "tr_db \<Rightarrow> string \<Rightarrow> int \<Rightarrow> string \<Rightarrow> time \<Rightarrow> time \<Rightarrow> int" where
  "count_committed_in_slice db pt pid off a b =
     int (length (filter (\<lambda>l. pool_line db pt pid off l \<and> overlaps (ln_window_start l) (ln_window_end l) a b) (td_lines db)))"

fun check_slices ::
  "tr_db \<Rightarrow> string \<Rightarrow> int \<Rightarrow> string \<Rightarrow> time \<Rightarrow> time \<Rightarrow> int \<Rightarrow> supply_slice list \<Rightarrow> tr_error + unit" where
  "check_slices db pt pid off ws we q [] = Inr ()"
| "check_slices db pt pid off ws we q (s # ss) =
     (let a = max (sp_window_start s) ws; b = min (sp_window_end s) we in
      if b \<le> a then check_slices db pt pid off ws we q ss
      else if sp_total_units s - count_committed_in_slice db pt pid off a b < q then Inl Reservation_conflict_error
      else check_slices db pt pid off ws we q ss)"

definition check_supply_coverage ::
  "tr_db \<Rightarrow> string \<Rightarrow> int \<Rightarrow> string \<Rightarrow> time \<Rightarrow> time \<Rightarrow> int \<Rightarrow> tr_error + unit" where
  "check_supply_coverage db pt pid off ws we q =
     (let supplies = overlapping_supply_rows db pt pid off ws we in
      rbind (check (supplies \<noteq> []) Supply_coverage_error) (\<lambda>_.
      rbind (assert_continuous_coverage supplies ws we) (\<lambda>_.
      check_slices db pt pid off ws we q supplies)))"

definition register_supply ::
  "string \<Rightarrow> int \<Rightarrow> string \<Rightarrow> time \<Rightarrow> time \<Rightarrow> int \<Rightarrow> tr_db \<Rightarrow> tr_error + tr_db" where
  "register_supply pt pid off ws we units db =
     rbind (check (we > ws) (Validation_error ''window_end must be > window_start'')) (\<lambda>_.
     rbind (check (units > 0) (Validation_error ''total_units must be > 0'')) (\<lambda>_.
     rbind (check (overlapping_supply_rows db pt pid off ws we = [])
              (Conflict_error ''Overlapping supply declaration exists for this provider/offering'')) (\<lambda>_.
     Inr (db\<lparr>td_supplies := td_supplies db @
            [\<lparr>sp_id = td_next_id db, sp_provider_type = pt, sp_provider_id = pid, sp_offering_code = off,
              sp_window_start = ws, sp_window_end = we, sp_total_units = units, sp_is_deleted = False\<rparr>],
            td_next_id := td_next_id db + 1\<rparr>))))"

subsection \<open>Creation\<close>

definition stored_money :: "money \<Rightarrow> money" where
  "stored_money x = cents round_half_up x"

definition validate_request :: "actor \<Rightarrow> string \<Rightarrow> reservation_request \<Rightarrow> tr_error + int" where
  "validate_request act key rq =
     rbind (check (rq_window_end rq > rq_window_start rq)
              (Validation_error ''window_end must be strictly after window_start'')) (\<lambda>_.
     rbind (check (rq_required_quantity rq > 0)
              (Validation_error ''required_quantity must be a positive integer'')) (\<lambda>_.
     rbind (check (rq_mode rq \<in> {''specific'', ''capacity''}) (Validation_error ''mode'')) (\<lambda>_.
     case act of
       None \<Rightarrow> Inl (Permission_error ''Authentication required'')
     | Some u \<Rightarrow> if key = [] then Inl (Validation_error ''idempotency_key is required'') else Inr u)))"

definition new_reservation ::
  "tr_env \<Rightarrow> int \<Rightarrow> string \<Rightarrow> string \<Rightarrow> policy_decision \<Rightarrow> reservation_request \<Rightarrow> int \<Rightarrow> reservation" where
  "new_reservation env u key fp d rq i =
     \<lparr>rv_id = i, rv_reference = te_reference env, rv_idempotency_key = key, rv_fingerprint = fp,
      rv_reserving_user_id = u, rv_organisation_id = rq_organisation_id rq, rv_offering_code = rq_offering_code rq,
      rv_provider_type = rq_provider_type rq, rv_provider_id = rq_provider_id rq,
      rv_window_start = rq_window_start rq, rv_window_end = rq_window_end rq,
      rv_required_quantity = rq_required_quantity rq, rv_mode = rq_mode rq,
      rv_state = reservation_state_value DRAFT, rv_obligation_state = obligation_value UNPAID,
      rv_payment_method = none_if_empty (norm_upper (rq_payment_method rq)),
      rv_payment_timing = none_if_empty (norm_upper (rq_payment_timing rq)),
      rv_commercial_policy_ref = pd_commercial_policy_ref d, rv_deposit_required = pd_requires_deposit d,
      rv_required_total_amount = map_option stored_money (rq_estimated_value rq), rv_amount_received = 0,
      rv_deposit_amount = map_option stored_money (pd_deposit_amount d), rv_deposit_currency = pd_deposit_currency d,
      rv_deposit_due_at = pd_deposit_due_at d, rv_wallet_reference = None,
      rv_required_obligations = pd_required_obligations d, rv_audit_log = [], rv_is_deleted = False\<rparr>"

definition materialise_lines :: "reservation \<Rightarrow> int list \<Rightarrow> int \<Rightarrow> reservation_line list" where
  "materialise_lines r ids n =
     (let line = (\<lambda>(i, v). \<lparr>ln_id = i, ln_reservation_id = rv_id r, ln_offering_code = rv_offering_code r, ln_vehicle_id = v,
                            ln_window_start = rv_window_start r, ln_window_end = rv_window_end r,
                            ln_state = ''held'', ln_is_deleted = False\<rparr>);
          vs = (if rv_mode r = ''specific'' then map Some ids else replicate (nat (rv_required_quantity r)) None)
      in map line (zip (map (\<lambda>k. n + int k) [0..<length vs]) vs))"

text \<open>Held, and reserved at once when the obligation already suffices.\<close>

definition secure_capacity :: "reservation \<Rightarrow> tr_error + reservation" where
  "secure_capacity r =
     rbind (reservation_transition (Some (rv_reserving_user_id r), ''capacity_secured'') r HELD) (\<lambda>r1.
     if obligation_satisfies_reserved (rv_obligation_state r1) (rv_required_obligations r1)
     then reservation_transition (Some (rv_reserving_user_id r1), ''obligation_satisfied'') r1 RESERVED
     else Inr r1)"

definition specific_checks :: "tr_db \<Rightarrow> offering \<Rightarrow> reservation_request \<Rightarrow> tr_error + unit" where
  "specific_checks db off rq =
     (if rq_mode rq = ''specific'' then
        rbind (prove_vehicle_ownership (lock_vehicles_for_reservation db (rq_vehicle_ids rq)) (rq_provider_type rq)
                 (rq_provider_id rq) off (rq_vehicle_ids rq)) (\<lambda>_.
        check_vehicle_overlap db (rq_vehicle_ids rq) (rq_window_start rq) (rq_window_end rq) None)
      else Inr ())"

text \<open>
  The unique constraint on user and key also covers deleted rows; the recovery from its violation calls
  \<open>_lookup_idempotent\<close> with positional arguments, which the keyword-only signature refuses with a \<open>TypeError\<close>.
\<close>

definition create_reservation ::
  "tr_env \<Rightarrow> actor \<Rightarrow> string \<Rightarrow> reservation_request \<Rightarrow> tr_db \<Rightarrow> tr_error + reservation \<times> tr_db" where
  "create_reservation env act key rq db =
     rbind (validate_request act key rq) (\<lambda>u.
     rbind (case te_offering env (rq_offering_code rq) of
              None \<Rightarrow> Inl (Not_found_error ''offering'') | Some off \<Rightarrow> Inr off) (\<lambda>off.
     rbind (check (rq_mode rq \<noteq> ''specific''
                   \<or> (rq_vehicle_ids rq \<noteq> [] \<and> int (length (rq_vehicle_ids rq)) = rq_required_quantity rq))
              (Validation_error ''specific mode requires exactly `required_quantity` vehicle ids'')) (\<lambda>_.
     let fp = request_fingerprint env rq in
     case lookup_idempotent db u key of
       Some r \<Rightarrow> rbind (return_matching_idempotent r fp) (\<lambda>r. Inr (r, db))
     | None \<Rightarrow>
         (case evaluate env act rq of
            Inl reason \<Rightarrow> Inl (Permission_error reason)
          | Inr d \<Rightarrow>
              rbind (specific_checks db off rq) (\<lambda>_.
              rbind (check_supply_coverage db (rq_provider_type rq) (rq_provider_id rq) (rq_offering_code rq)
                       (rq_window_start rq) (rq_window_end rq) (rq_required_quantity rq)) (\<lambda>_.
              rbind (check (\<not> list_ex (\<lambda>r. rv_reserving_user_id r = u \<and> rv_idempotency_key r = key) (td_reservations db)
                            \<and> \<not> list_ex (\<lambda>r. rv_reference r = te_reference env) (td_reservations db)) Type_error) (\<lambda>_.
              let r = new_reservation env u key fp d rq (td_next_id db);
                  ls = materialise_lines r (rq_vehicle_ids rq) (td_next_id db + 1) in
              rbind (check (list_all (\<lambda>l. case ln_vehicle_id l of None \<Rightarrow> True | Some v \<Rightarrow> v > 0) ls)
                       (Conflict_error ''chk_line_vehicle_id'')) (\<lambda>_.
              rbind (secure_capacity r) (\<lambda>r'.
              Inr (r', db\<lparr>td_reservations := td_reservations db @ [r'], td_lines := td_lines db @ ls,
                         td_next_id := td_next_id db + 1 + int (length ls)\<rparr>)))))))))) "

subsection \<open>Payment events and cancellation\<close>

definition get_reservation :: "tr_db \<Rightarrow> int \<Rightarrow> tr_error + reservation" where
  "get_reservation db i =
     (case find (\<lambda>r. rv_id r = i) (td_reservations db) of
        None \<Rightarrow> Inl (Not_found_error ''transport_reservation'')
      | Some r \<Rightarrow> if rv_is_deleted r then Inl (Not_found_error ''transport_reservation'') else Inr r)"

definition proposed_received ::
  "reservation \<Rightarrow> ReservationObligationState \<Rightarrow> money option \<Rightarrow> tr_error + money" where
  "proposed_received r t amount =
     (case amount of
        Some a \<Rightarrow>
          if a < 0 then Inl (Validation_error ''amount_received must not be negative'')
          else Inr (max (rv_amount_received r) a)
      | None \<Rightarrow>
          Inr (case (t, rv_deposit_amount r, rv_required_total_amount r) of
                 (DEPOSITED, Some d, _) \<Rightarrow> max (rv_amount_received r) d
               | (PAID, _, Some a) \<Rightarrow> max (rv_amount_received r) a
               | _ \<Rightarrow> rv_amount_received r))"

definition obligation_funded :: "reservation \<Rightarrow> ReservationObligationState \<Rightarrow> money \<Rightarrow> tr_error + unit" where
  "obligation_funded r t received =
     (case t of
        DEPOSITED \<Rightarrow>
          (case rv_deposit_amount r of
             None \<Rightarrow> Inl (Validation_error ''Deposit event requires a valid deposit reference amount'')
           | Some d \<Rightarrow> check (received \<ge> d)
               (Validation_error ''Deposit event does not satisfy the required deposit amount''))
      | PAID \<Rightarrow>
          (case rv_required_total_amount r of
             None \<Rightarrow> Inl (Validation_error ''Paid state requires a valid required total amount'')
           | Some a \<Rightarrow> check (received \<ge> a)
               (Validation_error ''Full-settlement event does not satisfy the required total amount''))
      | UNPAID \<Rightarrow> Inr ())"

text \<open>Held reservations are promoted when the snapshot of their policy is satisfied.\<close>

definition promote :: "reservation \<Rightarrow> tr_error + reservation" where
  "promote r =
     (if rv_state r = reservation_state_value HELD
         \<and> obligation_satisfies_reserved (rv_obligation_state r) (rv_required_obligations r)
      then reservation_transition (None, ''obligation_satisfied'') r RESERVED
      else Inr r)"

definition put_reservation :: "reservation \<Rightarrow> tr_db \<Rightarrow> tr_db" where
  "put_reservation r db = db\<lparr>td_reservations := update_rows (\<lambda>x. rv_id x = rv_id r) (\<lambda>_. r) (td_reservations db)\<rparr>"

definition settle ::
  "reservation \<Rightarrow> ReservationObligationState \<Rightarrow> string option \<Rightarrow> money \<Rightarrow> tr_error + reservation" where
  "settle r t ref received =
     rbind (if obligation_value t \<noteq> rv_obligation_state r
            then transition_obligation (None, ''wallet_obligation_event'') r t else Inr r) (\<lambda>r1.
     promote (r1\<lparr>rv_amount_received := stored_money received,
                rv_wallet_reference := (if ref \<in> {None, Some []} then rv_wallet_reference r1 else ref)\<rparr>))"

text \<open>A wallet reference that another reservation already has rolls the event back and returns the stored row.\<close>

definition apply_obligation_event ::
  "int \<Rightarrow> ReservationObligationState \<Rightarrow> string option \<Rightarrow> money option \<Rightarrow> tr_db \<Rightarrow> tr_error + reservation \<times> tr_db" where
  "apply_obligation_event i t ref amount db =
     rbind (get_reservation db i) (\<lambda>r.
     rbind (check (\<not> (reservation_is_terminal (rv_state r) \<and> obligation_value t \<noteq> rv_obligation_state r))
              (Validation_error ''Reservation is in terminal state'')) (\<lambda>_.
     rbind (proposed_received r t amount) (\<lambda>received.
     rbind (obligation_funded r t received) (\<lambda>_.
     if ref \<notin> {None, Some []} \<and> rv_wallet_reference r = ref then Inr (r, db)
     else
       rbind (settle r t ref received) (\<lambda>r3.
       if rv_wallet_reference r3 \<noteq> None
          \<and> list_ex (\<lambda>x. rv_id x \<noteq> i \<and> rv_wallet_reference x = rv_wallet_reference r3) (td_reservations db)
       then Inr (r, db)
       else Inr (r3, put_reservation r3 db))))))"

definition actor_can_access_reservation :: "tr_env \<Rightarrow> actor \<Rightarrow> reservation \<Rightarrow> bool" where
  "actor_can_access_reservation env act r =
     (case act of
        None \<Rightarrow> False
      | Some u \<Rightarrow>
          rv_reserving_user_id r = u \<or> te_global_admin env u
          \<or> (case rv_organisation_id r of
               None \<Rightarrow> False
             | Some org \<Rightarrow> te_active_member env u org \<and> te_manages_transport env u org))"

definition cancel_reservation :: "tr_env \<Rightarrow> actor \<Rightarrow> int \<Rightarrow> tr_db \<Rightarrow> tr_error + reservation \<times> tr_db" where
  "cancel_reservation env act i db =
     rbind (get_reservation db i) (\<lambda>r.
     rbind (check (actor_can_access_reservation env act r)
              (Permission_error ''Not authorised to cancel this reservation'')) (\<lambda>_.
     if reservation_is_terminal (rv_state r) then Inr (r, db)
     else
       rbind (check (rv_state r \<in> {''held'', ''reserved'', ''materialized''})
                (Conflict_error ''Reservation is not in a cancellable state'')) (\<lambda>_.
       let r' = r\<lparr>rv_state := reservation_state_value CANCELLED\<rparr> in
       Inr (r', (put_reservation r' db)\<lparr>td_lines :=
              update_rows (\<lambda>l. ln_reservation_id l = i \<and> ln_state l \<in> set ACTIVE_LINE_STATES)
                (\<lambda>l. l\<lparr>ln_state := ''cancelled''\<rparr>) (td_lines db)\<rparr>))))"

subsection \<open>Expiry\<close>

text \<open>
  \<open>app/transport/services/reservation_expiry_service.py\<close>: held reservations whose deposit deadline passed unpaid, in the
  order of the deadline and the key.  A candidate is updated only if it still qualifies.
\<close>

definition expiry_due :: "time \<Rightarrow> reservation \<Rightarrow> bool" where
  "expiry_due now r \<longleftrightarrow>
     rv_state r = reservation_state_value HELD
     \<and> (case rv_deposit_due_at r of None \<Rightarrow> False | Some d \<Rightarrow> d < now)
     \<and> rv_obligation_state r = ''unpaid'' \<and> \<not> rv_is_deleted r"

definition expiry_candidates :: "time \<Rightarrow> nat option \<Rightarrow> tr_db \<Rightarrow> int list" where
  "expiry_candidates now limit db =
     (let ids = map rv_id (sort_key (\<lambda>r. the (rv_deposit_due_at r)) (sort_key rv_id
                  (filter (expiry_due now) (td_reservations db))))
      in if limit \<in> {None, Some 0} then ids else take (the limit) ids)"

text \<open>The answer: whether the candidate was expired (or skipped).\<close>

definition expire_one :: "time \<Rightarrow> int \<Rightarrow> tr_db \<Rightarrow> bool \<times> tr_db" where
  "expire_one now i db =
     (if length (filter (\<lambda>r. rv_id r = i \<and> expiry_due now r) (td_reservations db)) \<noteq> 1 then (False, db)
      else (True, db\<lparr>td_reservations :=
              update_rows (\<lambda>r. rv_id r = i \<and> expiry_due now r) (\<lambda>r. r\<lparr>rv_state := reservation_state_value EXPIRED\<rparr>)
                (td_reservations db),
            td_lines :=
              update_rows (\<lambda>l. ln_reservation_id l = i \<and> ln_state l \<in> set ACTIVE_LINE_STATES)
                (\<lambda>l. l\<lparr>ln_state := ''cancelled''\<rparr>) (td_lines db)\<rparr>))"

fun expire_all :: "time \<Rightarrow> int list \<Rightarrow> tr_db \<Rightarrow> (nat \<times> nat) \<times> tr_db" where
  "expire_all now [] db = ((0, 0), db)"
| "expire_all now (i # is) db =
     (let (ok, db1) = expire_one now i db; ((expired, skipped), db2) = expire_all now is db1
      in ((if ok then (expired + 1, skipped) else (expired, skipped + 1)), db2))"

text \<open>The answer: the numbers of examined, expired and skipped reservations.\<close>

definition expire_due_held_reservations :: "time \<Rightarrow> nat option \<Rightarrow> tr_db \<Rightarrow> (nat \<times> nat \<times> nat) \<times> tr_db" where
  "expire_due_held_reservations now limit db =
     (let ids = expiry_candidates now limit db; ((expired, skipped), db') = expire_all now ids db
      in ((length ids, expired, skipped), db'))"

end
