(* ===== verification/Transport_Capacity.thy ===== *)
theory Transport_Capacity
  imports Transport_Reservation Run_Systems
begin

section \<open>Correctness of transport reservations\<close>

text \<open>
  The two state machines of a reservation as forward-only machines, the continuous-coverage scan against its
  specification, and the invariants of every run of the reservation service: no vehicle is promised to two
  reservations at the same time, no supply slice is overcommitted at any instant, and an obligation counts as
  deposited or paid only when the money has been received.
\<close>

subsection \<open>The state machines\<close>

lemma reservation_state_of_value [simp]: "reservation_state_of (reservation_state_value s) = Some s"
  by (cases s) (simp_all add: reservation_state_of_def)

lemma reservation_state_of_Some: "reservation_state_of v = Some s \<Longrightarrow> v = reservation_state_value s"
  unfolding reservation_state_of_def by (drule find_SomeD) simp

lemma obligation_of_value [simp]: "obligation_of (obligation_value s) = Some s"
  by (cases s) (simp_all add: obligation_of_def)

lemma obligation_of_Some: "obligation_of v = Some s \<Longrightarrow> v = obligation_value s"
  unfolding obligation_of_def by (drule find_SomeD) simp

definition trail_of :: "string \<Rightarrow> reservation \<Rightarrow> (string \<times> string) list" where
  "trail_of action r = map (\<lambda>a. (ai_from a, ai_to a)) (filter (\<lambda>a. ai_action a = action) (rv_audit_log r))"

lemma reservation_transition_Inr:
  "reservation_transition a r t = Inr r' \<longleftrightarrow>
     (\<exists>s. rv_state r = reservation_state_value s \<and> t \<in> set (reservation_transitions s))
     \<and> r' = r\<lparr>rv_state := reservation_state_value t,
             rv_audit_log := rv_audit_log r @
               [\<lparr>ai_action = ''reservation_state_changed'', ai_from = rv_state r, ai_to = reservation_state_value t,
                 ai_by = fst a, ai_trigger = snd a\<rparr>]\<rparr>"
  by (auto simp: reservation_transition_def reservation_can_transition_def Let_def split: option.splits
      dest: reservation_state_of_Some)

lemma transition_obligation_Inr:
  "transition_obligation a r t = Inr r' \<longleftrightarrow>
     (\<exists>s. rv_obligation_state r = obligation_value s \<and> t \<in> set (obligation_transitions s))
     \<and> r' = r\<lparr>rv_obligation_state := obligation_value t,
             rv_audit_log := rv_audit_log r @
               [\<lparr>ai_action = ''reservation_obligation_changed'', ai_from = rv_obligation_state r,
                 ai_to = obligation_value t, ai_by = fst a, ai_trigger = snd a\<rparr>]\<rparr>"
  by (auto simp: transition_obligation_def can_transition_obligation_def Let_def split: option.splits
      dest: obligation_of_Some)

fun reservation_rank :: "ReservationState \<Rightarrow> nat" where
  "reservation_rank DRAFT = 0"
| "reservation_rank HELD = 1"
| "reservation_rank RESERVED = 2"
| "reservation_rank MATERIALIZED = 3"
| "reservation_rank COMPLETED = 4"
| "reservation_rank CANCELLED = 4"
| "reservation_rank EXPIRED = 4"

fun obligation_rank :: "ReservationObligationState \<Rightarrow> nat" where
  "obligation_rank UNPAID = 0"
| "obligation_rank DEPOSITED = 1"
| "obligation_rank PAID = 2"

lemma reservation_state_value_inj: "reservation_state_value s = reservation_state_value t \<Longrightarrow> s = t"
  by (metis option.inject reservation_state_of_value)

lemma obligation_value_inj: "obligation_value s = obligation_value t \<Longrightarrow> s = t"
  by (metis option.inject obligation_of_value)

interpretation reservations: ranked_machine reservation_state_value reservation_state_value reservation_transitions
    rv_state "trail_of ''reservation_state_changed''" reservation_transition reservation_rank 4
proof unfold_locales
  fix a r r' s t
  show "reservation_state_value s = reservation_state_value t \<Longrightarrow> s = t" by (rule reservation_state_value_inj)
  show "t \<in> set (reservation_transitions s) \<Longrightarrow> reservation_rank s < reservation_rank t" by (cases s) auto
  show "reservation_rank s \<le> 4" by (cases s) auto
  assume step: "reservation_transition a r t = Inr r'"
  then show "\<exists>s. rv_state r = reservation_state_value s \<and> t \<in> set (reservation_transitions s)"
    and "rv_state r' = reservation_state_value t"
    by (simp_all add: reservation_transition_Inr)
  assume "rv_state r = reservation_state_value s"
  with step show "trail_of ''reservation_state_changed'' r'
      = trail_of ''reservation_state_changed'' r @ [(reservation_state_value s, reservation_state_value t)]"
    by (simp add: reservation_transition_Inr trail_of_def)
qed

interpretation obligations: ranked_machine obligation_value obligation_value obligation_transitions
    rv_obligation_state "trail_of ''reservation_obligation_changed''" transition_obligation obligation_rank 2
proof unfold_locales
  fix a r r' s t
  show "obligation_value s = obligation_value t \<Longrightarrow> s = t" by (rule obligation_value_inj)
  show "t \<in> set (obligation_transitions s) \<Longrightarrow> obligation_rank s < obligation_rank t" by (cases s) auto
  show "obligation_rank s \<le> 2" by (cases s) auto
  assume step: "transition_obligation a r t = Inr r'"
  then show "\<exists>s. rv_obligation_state r = obligation_value s \<and> t \<in> set (obligation_transitions s)"
    and "rv_obligation_state r' = obligation_value t"
    by (simp_all add: transition_obligation_Inr)
  assume "rv_obligation_state r = obligation_value s"
  with step show "trail_of ''reservation_obligation_changed'' r'
      = trail_of ''reservation_obligation_changed'' r @ [(obligation_value s, obligation_value t)]"
    by (simp add: transition_obligation_Inr trail_of_def)
qed

subsection \<open>Continuous coverage\<close>

lemma coverage_scan_iff:
  assumes "sorted (map fst xs)" and "c < e"
  shows "coverage_scan c e xs = Inr () \<longleftrightarrow> (\<forall>t. c \<le> t \<and> t < e \<longrightarrow> (\<exists>(a, b) \<in> set xs. a \<le> t \<and> t < b))"
  using assms
proof (induction xs arbitrary: c)
  case (Cons x xs)
  obtain a b where x: "x = (a, b)" by (cases x)
  have sorted: "sorted (map fst xs)" and first: "\<And>p. p \<in> set xs \<Longrightarrow> a \<le> fst p" using Cons.prems(1) x by auto
  consider "b \<le> c" | "c < b" "c < a" | "c < b" "a \<le> c" "e \<le> b" | "c < b" "a \<le> c" "b < e" by linarith
  then show ?case
  proof cases
    case 1
    with Cons.IH [OF sorted Cons.prems(2)] x show ?thesis by fastforce
  next
    case 2
    with first x Cons.prems(2) have "\<not> (\<exists>(a, b) \<in> set (x # xs). a \<le> c \<and> c < b)" by fastforce
    with 2 Cons.prems(2) x show ?thesis by (auto intro!: exI [of _ c])
  next
    case 3
    with x show ?thesis by (auto simp: Let_def)
  next
    case 4
    then have "coverage_scan c e (x # xs) = coverage_scan b e xs" using x by (simp add: Let_def)
    also have "\<dots> = Inr () \<longleftrightarrow> (\<forall>t. b \<le> t \<and> t < e \<longrightarrow> (\<exists>(a, b) \<in> set xs. a \<le> t \<and> t < b))"
      using Cons.IH [OF sorted, of b] 4 by simp
    also have "\<dots> \<longleftrightarrow> (\<forall>t. c \<le> t \<and> t < e \<longrightarrow> (\<exists>(a, b) \<in> set (x # xs). a \<le> t \<and> t < b))"
    proof
      assume *: "\<forall>t. b \<le> t \<and> t < e \<longrightarrow> (\<exists>(a, b) \<in> set xs. a \<le> t \<and> t < b)"
      show "\<forall>t. c \<le> t \<and> t < e \<longrightarrow> (\<exists>(a, b) \<in> set (x # xs). a \<le> t \<and> t < b)"
      proof (intro allI impI)
        fix t assume t: "c \<le> t \<and> t < e"
        show "\<exists>(a, b) \<in> set (x # xs). a \<le> t \<and> t < b" using * t 4 x by (cases "t < b") force+
      qed
    next
      assume *: "\<forall>t. c \<le> t \<and> t < e \<longrightarrow> (\<exists>(a, b) \<in> set (x # xs). a \<le> t \<and> t < b)"
      show "\<forall>t. b \<le> t \<and> t < e \<longrightarrow> (\<exists>(a, b) \<in> set xs. a \<le> t \<and> t < b)"
      proof (intro allI impI)
        fix t assume t: "b \<le> t \<and> t < e"
        with * 4 have "\<exists>(a, b) \<in> set (x # xs). a \<le> t \<and> t < b" by simp
        with t x show "\<exists>(a, b) \<in> set xs. a \<le> t \<and> t < b" by auto
      qed
    qed
    finally show ?thesis .
  qed
qed auto

lemma coverage_iff:
  assumes "ws < we"
  shows "assert_continuous_coverage supplies ws we = Inr () \<longleftrightarrow>
    (\<forall>t. ws \<le> t \<and> t < we \<longrightarrow> (\<exists>s \<in> set supplies. sp_window_start s \<le> t \<and> t < sp_window_end s))"
  unfolding assert_continuous_coverage_def using coverage_scan_iff [OF _ assms] by (simp add: split_beta)

text \<open>
  The coverage scan decides continuous coverage.  For a non-empty window, \<open>_assert_continuous_coverage\<close> passes exactly when
  every instant of the half-open window lies in one of the declared slices, whatever their order and overlaps; otherwise it
  raises \<open>SupplyCoverageError\<close>.
\<close>

theorem coverage_scan_correct:
  assumes "ws < we"
  shows "assert_continuous_coverage supplies ws we =
    (if \<forall>t. ws \<le> t \<and> t < we \<longrightarrow> (\<exists>s \<in> set supplies. sp_window_start s \<le> t \<and> t < sp_window_end s)
     then Inr () else Inl Supply_coverage_error)"
proof -
  have "coverage_scan c e xs \<in> {Inr (), Inl Supply_coverage_error}" for c e xs
    by (induction c e xs rule: coverage_scan.induct) (auto simp: Let_def)
  then have "assert_continuous_coverage supplies ws we \<in> {Inr (), Inl Supply_coverage_error}"
    by (simp add: assert_continuous_coverage_def)
  with coverage_iff [OF assms, of supplies] show ?thesis by auto
qed

theorem coverage_scan_correct_witness:
  "let s = (\<lambda>a b. \<lparr>sp_id = 1, sp_provider_type = ''driver'', sp_provider_id = 1, sp_offering_code = ''bus'',
                     sp_window_start = a, sp_window_end = b, sp_total_units = 1, sp_is_deleted = False\<rparr>)
   in assert_continuous_coverage [s 5 9, s 0 5] 1 8 = Inr ()
      \<and> assert_continuous_coverage [s 6 9, s 0 5] 1 8 = Inl Supply_coverage_error"
proof -
  define s where "s = (\<lambda>a b. \<lparr>sp_id = 1, sp_provider_type = ''driver'', sp_provider_id = 1, sp_offering_code = ''bus'',
                     sp_window_start = a, sp_window_end = b, sp_total_units = 1, sp_is_deleted = False\<rparr>)"
  have lt: "(1::int) < 8" by simp
  have "\<forall>t. 1 \<le> t \<and> t < 8 \<longrightarrow> (\<exists>x \<in> set [s 5 9, s 0 5]. sp_window_start x \<le> t \<and> t < sp_window_end x)"
    by (auto simp: s_def)
  moreover have "\<not> (\<forall>t. 1 \<le> t \<and> t < 8 \<longrightarrow> (\<exists>x \<in> set [s 6 9, s 0 5]. sp_window_start x \<le> t \<and> t < sp_window_end x))"
    by (auto simp: s_def intro!: exI [of _ 5])
  ultimately show ?thesis
    using coverage_scan_correct [OF lt, of "[s 5 9, s 0 5]"] coverage_scan_correct [OF lt, of "[s 6 9, s 0 5]"]
    by (simp add: s_def Let_def)
qed

subsection \<open>Invariants of the reservation tables\<close>

definition line_at :: "reservation_line \<Rightarrow> time \<Rightarrow> bool" where
  "line_at l t \<longleftrightarrow> ln_window_start l \<le> t \<and> t < ln_window_end l"

definition supply_at :: "string \<Rightarrow> int \<Rightarrow> string \<Rightarrow> supply_slice \<Rightarrow> time \<Rightarrow> bool" where
  "supply_at pt pid off s t \<longleftrightarrow>
     sp_provider_type s = pt \<and> sp_provider_id s = pid \<and> sp_offering_code s = off \<and> \<not> sp_is_deleted s
     \<and> sp_window_start s \<le> t \<and> t < sp_window_end s"

text \<open>The units of a pool that active lines occupy at an instant.\<close>

definition occupancy :: "tr_db \<Rightarrow> string \<Rightarrow> int \<Rightarrow> string \<Rightarrow> time \<Rightarrow> int" where
  "occupancy db pt pid off t = int (length (filter (\<lambda>l. pool_line db pt pid off l \<and> line_at l t) (td_lines db)))"

definition keys_ok :: "tr_db \<Rightarrow> bool" where
  "keys_ok db \<longleftrightarrow>
     distinct (map rv_id (td_reservations db)) \<and> list_all (\<lambda>r. rv_id r < td_next_id db) (td_reservations db)
     \<and> list_all (\<lambda>l. ln_reservation_id l < td_next_id db) (td_lines db)"

definition lines_supplied :: "tr_db \<Rightarrow> bool" where
  "lines_supplied db \<longleftrightarrow>
     (\<forall>pt pid off t. occupancy db pt pid off t > 0 \<longrightarrow> (\<exists>s \<in> set (td_supplies db). supply_at pt pid off s t))"

definition within_supply :: "tr_db \<Rightarrow> bool" where
  "within_supply db \<longleftrightarrow>
     (\<forall>s \<in> set (td_supplies db). \<forall>pt pid off t. supply_at pt pid off s t \<longrightarrow> occupancy db pt pid off t \<le> sp_total_units s)"

text \<open>Two active lines of different reservations never promise the same vehicle at the same time.\<close>

definition clash :: "tr_db \<Rightarrow> reservation_line \<Rightarrow> reservation_line \<Rightarrow> bool" where
  "clash db l m \<longleftrightarrow>
     active_line l \<and> active_line m \<and> line_reservation db l \<noteq> None \<and> line_reservation db m \<noteq> None
     \<and> ln_reservation_id l \<noteq> ln_reservation_id m
     \<and> ln_vehicle_id l \<noteq> None \<and> ln_vehicle_id l = ln_vehicle_id m
     \<and> overlaps (ln_window_start l) (ln_window_end l) (ln_window_start m) (ln_window_end m)"

definition exclusive :: "tr_db \<Rightarrow> bool" where
  "exclusive db \<longleftrightarrow> list_all (\<lambda>l. list_all (\<lambda>m. \<not> clash db l m) (td_lines db)) (td_lines db)"

definition tr_inv :: "tr_db \<Rightarrow> bool" where
  "tr_inv db \<longleftrightarrow> keys_ok db \<and> lines_supplied db \<and> within_supply db \<and> exclusive db"

text \<open>Each call sees the environment of its own moment.\<close>

inductive tr_step :: "tr_db \<Rightarrow> tr_db \<Rightarrow> bool" where
  Create: "create_reservation env act key rq db = Inr (r, db') \<Longrightarrow> tr_step db db'"
| Event: "apply_obligation_event i t ref amount db = Inr (r, db') \<Longrightarrow> tr_step db db'"
| Cancel: "cancel_reservation env act i db = Inr (r, db') \<Longrightarrow> tr_step db db'"
| Supply: "register_supply pt pid off ws we units db = Inr db' \<Longrightarrow> tr_step db db'"
| Expire: "tr_step db (snd (expire_due_held_reservations now limit db))"

subsection \<open>Rewriting a reservation row\<close>

text \<open>What the joins see of a reservation row.\<close>

definition row_key :: "reservation \<Rightarrow> int \<times> bool \<times> string \<times> int \<times> string" where
  "row_key r = (rv_id r, rv_is_deleted r, rv_provider_type r, rv_provider_id r, rv_offering_code r)"

lemma find_map_key:
  assumes "map f xs = map f ys" and "\<And>x y. f x = f y \<Longrightarrow> p x = p y"
  shows "map_option f (find p xs) = map_option f (find p ys)"
  using assms(1)
proof (induction xs arbitrary: ys)
  case (Cons x xs)
  then obtain y ys' where ys: "ys = y # ys'" "f x = f y" "map f xs = map f ys'" by (cases ys) auto
  with Cons.IH [of ys'] assms(2) [of x y] show ?case by simp
qed simp

lemma line_reservation_cong:
  assumes "map row_key (td_reservations db') = map row_key (td_reservations db)"
  shows "map_option row_key (line_reservation db' l) = map_option row_key (line_reservation db l)"
  unfolding line_reservation_def by (rule find_map_key [OF assms]) (auto simp: row_key_def)

lemma pool_line_cong:
  assumes "map row_key (td_reservations db') = map row_key (td_reservations db)"
  shows "pool_line db' = pool_line db" and "(line_reservation db' l = None) = (line_reservation db l = None)"
proof -
  have "pool_line db' pt pid off l = pool_line db pt pid off l" for pt pid off l
    using line_reservation_cong [OF assms, of l] unfolding pool_line_def
    by (cases "line_reservation db' l"; cases "line_reservation db l") (auto simp: row_key_def)
  then show "pool_line db' = pool_line db" by (simp add: fun_eq_iff)
  show "(line_reservation db' l = None) = (line_reservation db l = None)"
    using line_reservation_cong [OF assms, of l]
    by (cases "line_reservation db' l"; cases "line_reservation db l") auto
qed

lemma put_reservation_keys:
  assumes "keys_ok db" and "get_reservation db i = Inr r" and "row_key r' = row_key r"
  shows "map row_key (td_reservations (put_reservation r' db)) = map row_key (td_reservations db)"
    and "map rv_id (td_reservations (put_reservation r' db)) = map rv_id (td_reservations db)"
proof -
  from assms(2) have r: "r \<in> set (td_reservations db)"
    by (auto simp: get_reservation_def split: option.splits if_splits dest: find_SomeD)
  have one: "x = r" if "x \<in> set (td_reservations db)" "rv_id x = rv_id r'" for x
    using assms(1,3) that r by (auto simp: keys_ok_def distinct_map row_key_def dest: inj_onD)
  then show "map row_key (td_reservations (put_reservation r' db)) = map row_key (td_reservations db)"
    and "map rv_id (td_reservations (put_reservation r' db)) = map rv_id (td_reservations db)"
    using assms(3) by (auto simp: put_reservation_def update_rows_def row_key_def)
qed

text \<open>Steps that keep the joins and only deactivate lines keep the invariant.\<close>

lemma pool_line_active: "pool_line db pt pid off l \<Longrightarrow> active_line l"
  by (simp add: pool_line_def)

lemma deactivate_inv:
  assumes "tr_inv db" and "map row_key (td_reservations db') = map row_key (td_reservations db)"
    and "map rv_id (td_reservations db') = map rv_id (td_reservations db)"
    and "td_lines db' = map g (td_lines db)" and "td_supplies db' = td_supplies db" and "td_next_id db' = td_next_id db"
    and "\<And>l. g l = l \<or> \<not> active_line (g l)" and "\<And>l. ln_reservation_id (g l) = ln_reservation_id l"
  shows "tr_inv db'"
proof -
  note pool = pool_line_cong [OF assms(2)]
  have gl: "active_line (g l) \<Longrightarrow> g l = l" for l using assms(7) by blast
  have occ: "occupancy db' pt pid off t \<le> occupancy db pt pid off t" for pt pid off t
  proof -
    have "length (filter (\<lambda>l. pool_line db pt pid off l \<and> line_at l t) (map g xs))
        \<le> length (filter (\<lambda>l. pool_line db pt pid off l \<and> line_at l t) xs)" for xs
    proof (induction xs)
      case (Cons a xs)
      then show ?case by (cases "active_line (g a)") (auto simp: gl dest: pool_line_active)
    qed simp
    then show ?thesis by (simp add: occupancy_def pool(1) assms(4))
  qed
  have "keys_ok db'"
  proof -
    have ids: "list_all (\<lambda>r. rv_id r < n) (td_reservations d) = list_all (\<lambda>x. x < n) (map rv_id (td_reservations d))" for d n
      by (simp add: list.pred_map comp_def)
    show ?thesis
      using assms(1,8) unfolding tr_inv_def keys_ok_def ids assms(3,4,6) by (simp add: list.pred_map comp_def)
  qed
  moreover have "lines_supplied db'"
    using assms(1,5) occ unfolding tr_inv_def lines_supplied_def by (metis less_le_trans)
  moreover have "within_supply db'"
    using assms(1,5) occ unfolding tr_inv_def within_supply_def by (metis order_trans)
  moreover have "exclusive db'"
  proof -
    have "\<not> clash db' (g l) (g m)" if "l \<in> set (td_lines db)" "m \<in> set (td_lines db)" for l m
    proof
      assume c: "clash db' (g l) (g m)"
      then have "g l = l" "g m = m" by (auto simp: clash_def gl)
      with c have "clash db l m" unfolding clash_def pool(2) by auto
      with assms(1) that show False by (auto simp: tr_inv_def exclusive_def list_all_iff)
    qed
    then show ?thesis by (auto simp: exclusive_def list_all_iff assms(4))
  qed
  ultimately show ?thesis by (simp add: tr_inv_def)
qed

lemma transitions_keep_key:
  "reservation_transition a r t = Inr r' \<Longrightarrow> row_key r' = row_key r"
  "transition_obligation a r o' = Inr r' \<Longrightarrow> row_key r' = row_key r"
  by (auto simp: reservation_transition_Inr transition_obligation_Inr row_key_def)

lemma promote_keeps_key: "promote r = Inr r' \<Longrightarrow> row_key r' = row_key r"
  by (auto simp: promote_def transitions_keep_key split: if_splits)

lemma get_reservation_Inr:
  "get_reservation db i = Inr r \<Longrightarrow> r \<in> set (td_reservations db) \<and> rv_id r = i \<and> \<not> rv_is_deleted r"
  by (auto simp: get_reservation_def split: option.splits if_splits dest: find_SomeD)

text \<open>An obligation event rewrites one row and keeps its key.\<close>

lemma settle_keeps_key: "settle r t ref received = Inr r' \<Longrightarrow> row_key r' = row_key r"
  by (auto simp: settle_def row_key_def split: if_splits
      dest!: promote_keeps_key transitions_keep_key [unfolded row_key_def])

lemma event_shape:
  assumes "apply_obligation_event i t ref amount db = Inr (r', db')"
  obtains "db' = db" | r received where "get_reservation db i = Inr r"
    and "proposed_received r t amount = Inr received" and "obligation_funded r t received = Inr ()"
    and "settle r t ref received = Inr r'" and "db' = put_reservation r' db"
  using assms by (auto simp: apply_obligation_event_def simp del: insert_iff split: if_splits)

lemma event_inv:
  assumes "tr_inv db" and "apply_obligation_event i t ref amount db = Inr (r', db')"
  shows "tr_inv db'"
  using assms(2)
proof (cases rule: event_shape)
  case (2 r received)
  have keys: "keys_ok db" using assms(1) by (simp add: tr_inv_def)
  note keep = put_reservation_keys [OF keys 2(1) settle_keeps_key [OF 2(4)]]
  show ?thesis
    by (rule deactivate_inv [OF assms(1), where g = id]) (simp_all add: keep 2(5), simp_all add: put_reservation_def)
qed (use assms(1) in simp)

lemma cancel_shape:
  assumes "cancel_reservation env act i db = Inr (r', db')" and "db' \<noteq> db"
  obtains r where "get_reservation db i = Inr r" and "r' = r\<lparr>rv_state := reservation_state_value CANCELLED\<rparr>"
    and "db' = (put_reservation r' db)\<lparr>td_lines :=
              update_rows (\<lambda>l. ln_reservation_id l = i \<and> ln_state l \<in> set ACTIVE_LINE_STATES)
                (\<lambda>l. l\<lparr>ln_state := ''cancelled''\<rparr>) (td_lines db)\<rparr>"
  using assms by (auto simp: cancel_reservation_def Let_def split: if_splits)

lemma cancel_inv:
  assumes "tr_inv db" and "cancel_reservation env act i db = Inr (r', db')"
  shows "tr_inv db'"
proof (cases "db' = db")
  case False
  from assms(2) False obtain r where r: "get_reservation db i = Inr r"
    and r': "r' = r\<lparr>rv_state := reservation_state_value CANCELLED\<rparr>"
    and db': "db' = (put_reservation r' db)\<lparr>td_lines :=
              update_rows (\<lambda>l. ln_reservation_id l = i \<and> ln_state l \<in> set ACTIVE_LINE_STATES)
                (\<lambda>l. l\<lparr>ln_state := ''cancelled''\<rparr>) (td_lines db)\<rparr>"
    by (rule cancel_shape)
  have keys: "keys_ok db" using assms(1) by (simp add: tr_inv_def)
  have "row_key r' = row_key r" by (simp add: r' row_key_def)
  note keep = put_reservation_keys [OF keys r this]
  show ?thesis
    by (rule deactivate_inv [OF assms(1), where
          g = "\<lambda>l. if ln_reservation_id l = i \<and> ln_state l \<in> set ACTIVE_LINE_STATES then l\<lparr>ln_state := ''cancelled''\<rparr> else l"])
      (simp_all add: keep db', simp_all add: put_reservation_def update_rows_def active_line_def ACTIVE_LINE_STATES_def)
qed (use assms(1) in simp)

lemma expire_one_shape:
  assumes "expire_one now i db = (ok, db')"
  shows "map row_key (td_reservations db') = map row_key (td_reservations db)"
    and "map rv_id (td_reservations db') = map rv_id (td_reservations db)"
    and "list_all row_ok' (td_reservations db) \<Longrightarrow> (\<And>r. row_ok' r \<Longrightarrow> row_ok' (r\<lparr>rv_state := reservation_state_value EXPIRED\<rparr>))
         \<Longrightarrow> list_all row_ok' (td_reservations db')"
  using assms by (auto simp: expire_one_def update_rows_def row_key_def list_all_iff split: if_splits)

lemma expire_one_inv:
  assumes "tr_inv db" and "expire_one now i db = (ok, db')"
  shows "tr_inv db'"
proof (cases "db' = db")
  case False
  note keep = expire_one_shape(1,2) [OF assms(2)]
  show ?thesis
    by (rule deactivate_inv [OF assms(1) keep, where
          g = "\<lambda>l. if ln_reservation_id l = i \<and> ln_state l \<in> set ACTIVE_LINE_STATES then l\<lparr>ln_state := ''cancelled''\<rparr> else l"])
      (use assms(2) False in \<open>auto simp: expire_one_def update_rows_def active_line_def ACTIVE_LINE_STATES_def split: if_splits\<close>)
qed (use assms(1) in simp)

lemma expire_all_keeps:
  assumes "P db" and "\<And>i d ok d'. P d \<Longrightarrow> expire_one now i d = (ok, d') \<Longrightarrow> P d'"
  shows "P (snd (expire_all now is db))"
  using assms(1)
proof (induction "is" arbitrary: db)
  case (Cons i "is")
  obtain ok db1 where one: "expire_one now i db = (ok, db1)" by fastforce
  with Cons assms(2) show ?case by (auto simp: Let_def split_beta)
qed simp

lemma expire_keeps:
  assumes "P db" and "\<And>i d ok d'. P d \<Longrightarrow> expire_one now i d = (ok, d') \<Longrightarrow> P d'"
  shows "P (snd (expire_due_held_reservations now limit db))"
  using expire_all_keeps [of P, OF assms] by (simp add: expire_due_held_reservations_def Let_def split_beta)

lemma register_inv:
  assumes "tr_inv db" and "register_supply pt pid off ws we units db = Inr db'"
  shows "tr_inv db'"
proof -
  from assms(2) have units: "units > 0" and fresh: "overlapping_supply_rows db pt pid off ws we = []"
    and db': "db' = db\<lparr>td_supplies := td_supplies db @
            [\<lparr>sp_id = td_next_id db, sp_provider_type = pt, sp_provider_id = pid, sp_offering_code = off,
              sp_window_start = ws, sp_window_end = we, sp_total_units = units, sp_is_deleted = False\<rparr>],
            td_next_id := td_next_id db + 1\<rparr>"
    by (auto simp: register_supply_def)
  have occ: "occupancy db' = occupancy db"
    by (auto simp: fun_eq_iff occupancy_def pool_line_def line_reservation_def db')
  have none: "\<not> supply_at pt pid off s t" if "s \<in> set (td_supplies db)" "ws \<le> t" "t < we" for s t
  proof
    assume "supply_at pt pid off s t"
    with that have "s \<in> set (overlapping_supply_rows db pt pid off ws we)"
      by (auto simp: overlapping_supply_rows_def supply_at_def overlaps_def)
    with fresh show False by simp
  qed
  have empty: "occupancy db pt pid off t \<le> units" if "ws \<le> t" "t < we" for t
  proof (rule ccontr)
    assume "\<not> occupancy db pt pid off t \<le> units"
    with units assms(1) none that show False by (force simp: tr_inv_def lines_supplied_def)
  qed
  have "keys_ok db'" using assms(1) by (fastforce simp: tr_inv_def keys_ok_def db' list_all_iff)
  moreover have "lines_supplied db'" using assms(1) by (auto simp: tr_inv_def lines_supplied_def occ, auto simp: db')
  moreover have "within_supply db'" using assms(1) empty
    unfolding tr_inv_def within_supply_def occ by (auto simp: db' supply_at_def)
  moreover have "exclusive db'"
    using assms(1) by (simp add: tr_inv_def exclusive_def clash_def line_reservation_def db')
  ultimately show ?thesis by (simp add: tr_inv_def)
qed

subsection \<open>Creating a reservation\<close>

lemma secure_capacity_key:
  assumes "secure_capacity r = Inr r'"
  shows "row_key r' = row_key r"
  using assms by (auto simp: secure_capacity_def split: if_splits dest!: transitions_keep_key)

text \<open>What the guards of a creation establish about the tables it reads.\<close>

definition create_guards :: "tr_db \<Rightarrow> reservation_request \<Rightarrow> bool" where
  "create_guards db rq \<longleftrightarrow>
     rq_window_start rq < rq_window_end rq
     \<and> (rq_mode rq = ''specific'' \<longrightarrow> int (length (rq_vehicle_ids rq)) = rq_required_quantity rq
          \<and> check_vehicle_overlap db (rq_vehicle_ids rq) (rq_window_start rq) (rq_window_end rq) None = Inr ())
     \<and> 0 < rq_required_quantity rq
     \<and> check_supply_coverage db (rq_provider_type rq) (rq_provider_id rq) (rq_offering_code rq)
         (rq_window_start rq) (rq_window_end rq) (rq_required_quantity rq) = Inr ()"

lemma create_shape:
  assumes "create_reservation env act key rq db = Inr (r', db')"
  obtains "db' = db" | u fp d ls where "create_guards db rq"
    and "row_key r' = (td_next_id db, False, rq_provider_type rq, rq_provider_id rq, rq_offering_code rq)"
    and "ls = materialise_lines (new_reservation env u key fp d rq (td_next_id db)) (rq_vehicle_ids rq) (td_next_id db + 1)"
    and "db' = db\<lparr>td_reservations := td_reservations db @ [r'], td_lines := td_lines db @ ls,
                         td_next_id := td_next_id db + 1 + int (length ls)\<rparr>"
proof (cases "db' = db")
  case False
  with assms obtain u off d where guards: "create_guards db rq"
    and r': "secure_capacity (new_reservation env u key (request_fingerprint env rq) d rq (td_next_id db)) = Inr r'"
    and db': "db' = db\<lparr>td_reservations := td_reservations db @ [r'], td_lines := td_lines db @ 
       materialise_lines (new_reservation env u key (request_fingerprint env rq) d rq (td_next_id db)) (rq_vehicle_ids rq) (td_next_id db + 1),
       td_next_id := td_next_id db + 1 + int (length (materialise_lines
         (new_reservation env u key (request_fingerprint env rq) d rq (td_next_id db)) (rq_vehicle_ids rq) (td_next_id db + 1)))\<rparr>"
    by (auto simp: create_reservation_def create_guards_def validate_request_def specific_checks_def Let_def
        split: option.splits sum.splits if_splits)
  show thesis
    using secure_capacity_key [OF r']
    by (intro that(2) [OF guards _ refl db']) (simp add: row_key_def new_reservation_def)
qed (use that in blast)

lemma materialised:
  assumes "create_guards db rq"
    and "ls = materialise_lines (new_reservation env u key fp d rq i) (rq_vehicle_ids rq) n"
  shows "int (length ls) = rq_required_quantity rq"
    and "l \<in> set ls \<Longrightarrow> ln_reservation_id l = i \<and> active_line l
      \<and> ln_window_start l = rq_window_start rq \<and> ln_window_end l = rq_window_end rq"
    and "l \<in> set ls \<Longrightarrow> ln_vehicle_id l = Some v \<Longrightarrow> rq_mode rq = ''specific'' \<and> v \<in> set (rq_vehicle_ids rq)"
  using assms(1)
  by (auto simp: assms(2) materialise_lines_def new_reservation_def create_guards_def active_line_def ACTIVE_LINE_STATES_def
      Let_def set_zip split: if_splits)

text \<open>The tables after a creation, and the lines it adds.\<close>

definition created :: "tr_db \<Rightarrow> reservation_request \<Rightarrow> reservation \<Rightarrow> reservation_line list \<Rightarrow> tr_db \<Rightarrow> bool" where
  "created db rq r ls db' \<longleftrightarrow>
     create_guards db rq
     \<and> row_key r = (td_next_id db, False, rq_provider_type rq, rq_provider_id rq, rq_offering_code rq)
     \<and> int (length ls) = rq_required_quantity rq
     \<and> list_all (\<lambda>l. ln_reservation_id l = td_next_id db \<and> active_line l
         \<and> ln_window_start l = rq_window_start rq \<and> ln_window_end l = rq_window_end rq
         \<and> (\<forall>v. ln_vehicle_id l = Some v \<longrightarrow> rq_mode rq = ''specific'' \<and> v \<in> set (rq_vehicle_ids rq))) ls
     \<and> db' = db\<lparr>td_reservations := td_reservations db @ [r], td_lines := td_lines db @ ls,
               td_next_id := td_next_id db + 1 + int (length ls)\<rparr>"

lemma create_created:
  assumes "create_reservation env act key rq db = Inr (r', db')" and "db' \<noteq> db"
  obtains ls where "created db rq r' ls db'"
  using assms(1)
proof (cases rule: create_shape)
  case (2 u fp d ls)
  note new = materialised [OF 2(1,3)]
  have "created db rq r' ls db'"
    using 2(1,2,4) new(1) unfolding created_def list_all_iff by (auto dest: new(2,3))
  then show thesis by (rule that)
qed (use assms(2) in simp)

lemma created_joins:
  assumes "keys_ok db" and "created db rq r ls db'"
  shows "ln_reservation_id l < td_next_id db \<Longrightarrow> line_reservation db' l = line_reservation db l"
    and "ln_reservation_id l = td_next_id db \<Longrightarrow> line_reservation db' l = Some r"
proof -
  have r: "rv_id r = td_next_id db" "\<not> rv_is_deleted r" using assms(2) by (auto simp: created_def row_key_def)
  have db': "td_reservations db' = td_reservations db @ [r]" using assms(2) by (simp add: created_def)
  show "ln_reservation_id l < td_next_id db \<Longrightarrow> line_reservation db' l = line_reservation db l"
    by (auto simp: line_reservation_def db' find_append r split: option.splits)
  have "x \<in> set (td_reservations db) \<Longrightarrow> rv_id x < td_next_id db" for x
    using assms(1) by (auto simp: keys_ok_def list_all_iff)
  then have "find (\<lambda>x. rv_id x = td_next_id db \<and> \<not> rv_is_deleted x) (td_reservations db) = None"
    by (fastforce simp: find_None_iff)
  then show "ln_reservation_id l = td_next_id db \<Longrightarrow> line_reservation db' l = Some r"
    by (simp add: line_reservation_def db' find_append r)
qed

lemma created_occupancy:
  assumes "keys_ok db" and "created db rq r ls db'"
  shows "occupancy db' pt pid off t = occupancy db pt pid off t +
    (if pt = rq_provider_type rq \<and> pid = rq_provider_id rq \<and> off = rq_offering_code rq
        \<and> rq_window_start rq \<le> t \<and> t < rq_window_end rq then rq_required_quantity rq else 0)"
proof -
  note joins = created_joins [OF assms]
  have "filter (\<lambda>l. pool_line db' pt pid off l \<and> line_at l t) (td_lines db)
      = filter (\<lambda>l. pool_line db pt pid off l \<and> line_at l t) (td_lines db)"
    using assms(1) by (intro filter_cong) (auto simp: pool_line_def joins keys_ok_def list_all_iff)
  moreover have "filter (\<lambda>l. pool_line db' pt pid off l \<and> line_at l t) ls
      = (if pt = rq_provider_type rq \<and> pid = rq_provider_id rq \<and> off = rq_offering_code rq
          \<and> rq_window_start rq \<le> t \<and> t < rq_window_end rq then ls else [])"
  proof -
    have r: "rv_provider_type r = rq_provider_type rq" "rv_provider_id r = rq_provider_id rq"
      "rv_offering_code r = rq_offering_code rq"
      using assms(2) by (auto simp: created_def row_key_def)
    have "pool_line db' pt pid off l \<and> line_at l t \<longleftrightarrow>
        pt = rq_provider_type rq \<and> pid = rq_provider_id rq \<and> off = rq_offering_code rq
        \<and> rq_window_start rq \<le> t \<and> t < rq_window_end rq" if "l \<in> set ls" for l
    proof -
      from that assms(2) have l: "ln_reservation_id l = td_next_id db" "active_line l"
        "ln_window_start l = rq_window_start rq" "ln_window_end l = rq_window_end rq"
        by (auto simp: created_def list_all_iff)
      show ?thesis by (auto simp: pool_line_def joins(2) [OF l(1)] l(2-) r line_at_def)
    qed
    then show ?thesis by (auto simp: filter_id_conv filter_empty_conv)
  qed
  ultimately show ?thesis using assms(2) by (simp add: occupancy_def created_def)
qed

lemma check_slices_free:
  assumes "check_slices db pt pid off ws we q ss = Inr ()" and "s \<in> set ss"
    and "sp_window_start s \<le> t" and "t < sp_window_end s" and "ws \<le> t" and "t < we"
  shows "occupancy db pt pid off t + q \<le> sp_total_units s"
  using assms(1,2)
proof (induction ss)
  case (Cons x ss)
  show ?case
  proof (cases "s = x")
    case True
    let ?a = "max (sp_window_start s) ws" and ?b = "min (sp_window_end s) we"
    have "occupancy db pt pid off t \<le> count_committed_in_slice db pt pid off ?a ?b"
      unfolding occupancy_def count_committed_in_slice_def of_nat_le_iff
      using assms(3-6) by (intro length_filter_mono) (auto simp: line_at_def overlaps_def)
    moreover have "\<not> sp_total_units s - count_committed_in_slice db pt pid off ?a ?b < q"
      using Cons.prems(1) True assms(3-6) by (auto simp: Let_def split: if_splits)
    ultimately show ?thesis by simp
  next
    case False
    with Cons show ?thesis by (auto simp: Let_def split: if_splits)
  qed
qed simp

lemma created_covered:
  assumes "created db rq r ls db'" and "rq_window_start rq \<le> t" and "t < rq_window_end rq"
  shows "\<exists>s \<in> set (td_supplies db). supply_at (rq_provider_type rq) (rq_provider_id rq) (rq_offering_code rq) s t"
proof -
  let ?rows = "overlapping_supply_rows db (rq_provider_type rq) (rq_provider_id rq) (rq_offering_code rq)
    (rq_window_start rq) (rq_window_end rq)"
  from assms(1) have win: "rq_window_start rq < rq_window_end rq"
    and cov: "assert_continuous_coverage ?rows (rq_window_start rq) (rq_window_end rq) = Inr ()"
    by (auto simp: created_def create_guards_def check_supply_coverage_def Let_def)
  from coverage_iff [OF win, THEN iffD1, OF cov] assms(2,3)
  obtain s where "s \<in> set ?rows" "sp_window_start s \<le> t" "t < sp_window_end s" by blast
  then show ?thesis by (auto simp: overlapping_supply_rows_def supply_at_def)
qed

lemma created_fits:
  assumes "created db rq r ls db'" and "s \<in> set (td_supplies db)"
    and "supply_at (rq_provider_type rq) (rq_provider_id rq) (rq_offering_code rq) s t"
    and "rq_window_start rq \<le> t" and "t < rq_window_end rq"
  shows "occupancy db (rq_provider_type rq) (rq_provider_id rq) (rq_offering_code rq) t + rq_required_quantity rq
    \<le> sp_total_units s"
proof -
  let ?rows = "overlapping_supply_rows db (rq_provider_type rq) (rq_provider_id rq) (rq_offering_code rq)
    (rq_window_start rq) (rq_window_end rq)"
  from assms(1) have "check_slices db (rq_provider_type rq) (rq_provider_id rq) (rq_offering_code rq)
      (rq_window_start rq) (rq_window_end rq) (rq_required_quantity rq) ?rows = Inr ()"
    by (auto simp: created_def create_guards_def check_supply_coverage_def Let_def)
  moreover have "s \<in> set ?rows"
    using assms(2-5) by (auto simp: overlapping_supply_rows_def supply_at_def overlaps_def)
  ultimately show ?thesis
    using assms(3-5) by (intro check_slices_free) (auto simp: supply_at_def)
qed

lemma created_no_clash:
  assumes "keys_ok db" and "created db rq r ls db'" and "l \<in> set ls" and "m \<in> set (td_lines db)"
  shows "\<not> clash db' l m" and "\<not> clash db' m l"
proof -
  have "False" if "active_line m" "line_reservation db' m \<noteq> None" "ln_vehicle_id l = Some v" "ln_vehicle_id m = Some v"
    "overlaps (ln_window_start m) (ln_window_end m) (ln_window_start l) (ln_window_end l)" for v
  proof -
    from assms(2,3) that(3) have "rq_mode rq = ''specific''" and v: "v \<in> set (rq_vehicle_ids rq)"
      and win: "ln_window_start l = rq_window_start rq" "ln_window_end l = rq_window_end rq"
      by (auto simp: created_def list_all_iff)
    with assms(2) have "check_vehicle_overlap db (rq_vehicle_ids rq) (rq_window_start rq) (rq_window_end rq) None = Inr ()"
      by (simp add: created_def create_guards_def)
    moreover have "line_reservation db' m = line_reservation db m"
      using assms(1,4) by (intro created_joins(1) [OF assms(1,2)]) (auto simp: keys_ok_def list_all_iff)
    ultimately show False
      using that assms(4) v win by (auto simp: check_vehicle_overlap_def list_ex_iff split: option.splits)
  qed
  then show "\<not> clash db' l m" and "\<not> clash db' m l" by (auto simp: clash_def overlaps_def)
qed

lemma create_inv:
  assumes "tr_inv db" and "create_reservation env act key rq db = Inr (r, db')"
  shows "tr_inv db'"
proof (cases "db' = db")
  case False
  with assms(2) obtain ls where c: "created db rq r ls db'" by (rule create_created)
  have keys: "keys_ok db" using assms(1) by (simp add: tr_inv_def)
  note occ = created_occupancy [OF keys c]
  from c have db': "td_supplies db' = td_supplies db" "td_lines db' = td_lines db @ ls"
    "td_reservations db' = td_reservations db @ [r]" "td_next_id db' = td_next_id db + 1 + int (length ls)"
    and rid: "rv_id r = td_next_id db" and lid: "list_all (\<lambda>l. ln_reservation_id l = td_next_id db) ls"
    by (auto simp: created_def row_key_def list_all_iff)
  have "keys_ok db'"
    using keys rid lid by (fastforce simp: keys_ok_def db' list_all_iff)
  moreover have "lines_supplied db'"
    unfolding lines_supplied_def db'
  proof (intro allI impI)
    fix pt pid off t
    assume "occupancy db' pt pid off t > 0"
    then show "\<exists>s \<in> set (td_supplies db). supply_at pt pid off s t"
      using assms(1) created_covered [OF c, of t] by (auto simp: tr_inv_def lines_supplied_def occ split: if_splits)
  qed
  moreover have "within_supply db'"
    using assms(1) created_fits [OF c] unfolding tr_inv_def within_supply_def occ db' by auto
  moreover have "\<not> clash db' l m" if lm: "l \<in> set (td_lines db')" "m \<in> set (td_lines db')" for l m
  proof -
    consider "l \<in> set ls" "m \<in> set ls" | "l \<in> set ls" "m \<in> set (td_lines db)" | "l \<in> set (td_lines db)" "m \<in> set ls"
      | "l \<in> set (td_lines db)" "m \<in> set (td_lines db)" using lm by (auto simp: db')
    then show ?thesis
    proof cases
      case 1
      with lid show ?thesis by (auto simp: clash_def list_all_iff)
    next
      case 4
      then have "line_reservation db' l = line_reservation db l" "line_reservation db' m = line_reservation db m"
        using keys by (auto simp: keys_ok_def list_all_iff intro!: created_joins(1) [OF keys c])
      then have "clash db' l m = clash db l m" by (simp add: clash_def)
      with 4 assms(1) show ?thesis by (simp add: tr_inv_def exclusive_def list_all_iff)
    qed (auto dest: created_no_clash [OF keys c])
  qed
  then have "exclusive db'" by (simp add: exclusive_def list_all_iff)
  ultimately show ?thesis by (simp add: tr_inv_def)
qed (use assms(1) in simp)

subsection \<open>Runs of the reservation service\<close>

definition empty_tables :: "vehicle list \<Rightarrow> tr_db" where
  "empty_tables vs = \<lparr>td_reservations = [], td_lines = [], td_supplies = [], td_vehicles = vs, td_next_id = 1\<rparr>"

interpretation rides: run_invariant tr_step tr_inv
proof
  show "tr_inv db'" if "tr_step db db'" "tr_inv db" for db db'
    using that by cases (auto intro: create_inv event_inv cancel_inv register_inv expire_keeps [where P = tr_inv] expire_one_inv)
qed

lemma empty_tables_inv: "tr_inv (empty_tables vs)"
  by (simp add: empty_tables_def tr_inv_def keys_ok_def lines_supplied_def within_supply_def exclusive_def occupancy_def)

lemmas run_inv = rides.run_keeps [OF _ empty_tables_inv]

subsection \<open>Money behind a reservation\<close>

definition funded :: "reservation \<Rightarrow> bool" where
  "funded r \<longleftrightarrow>
     (rv_obligation_state r = ''deposited'' \<longrightarrow> (\<exists>d. rv_deposit_amount r = Some d \<and> d \<le> rv_amount_received r))
     \<and> (rv_obligation_state r = ''paid'' \<longrightarrow> (\<exists>a. rv_required_total_amount r = Some a \<and> a \<le> rv_amount_received r))"

definition whole_terms :: "reservation \<Rightarrow> bool" where
  "whole_terms r \<longleftrightarrow> pred_option whole_cents (rv_deposit_amount r) \<and> pred_option whole_cents (rv_required_total_amount r)"

definition snapshot_ok :: "reservation \<Rightarrow> bool" where
  "snapshot_ok r \<longleftrightarrow>
     (\<exists>timing. rv_payment_timing r = Some timing \<and> required_obligation_for_reserved timing = Some (rv_required_obligations r))"

definition row_ok :: "reservation \<Rightarrow> bool" where
  "row_ok r \<longleftrightarrow> funded r \<and> whole_terms r \<and> snapshot_ok r \<and> rv_obligation_state r \<in> range obligation_value
     \<and> (rv_state r = ''reserved'' \<longrightarrow> obligation_satisfies_reserved (rv_obligation_state r) (rv_required_obligations r))"

text \<open>The required obligations are closed under moving forward.\<close>

lemma obligation_upper:
  "str_upper ''unpaid'' = ''UNPAID''" "str_upper ''deposited'' = ''DEPOSITED''" "str_upper ''paid'' = ''PAID''"
  "str_upper ''UNPAID'' = ''UNPAID''" "str_upper ''DEPOSITED'' = ''DEPOSITED''" "str_upper ''PAID'' = ''PAID''"
  by code_simp+

lemma obligation_values: "range obligation_value = {''unpaid'', ''deposited'', ''paid''}"
proof -
  have all: "UNIV = {UNPAID, DEPOSITED, PAID}" using ReservationObligationState.exhaust by auto
  show ?thesis unfolding all by simp
qed

lemma satisfies_table:
  "obligation_satisfies_reserved (obligation_value s) [''PAID''] \<longleftrightarrow> s = PAID"
  "obligation_satisfies_reserved (obligation_value s) [''DEPOSITED'', ''PAID''] \<longleftrightarrow> s \<noteq> UNPAID"
  "obligation_satisfies_reserved (obligation_value s) [''UNPAID'', ''DEPOSITED'', ''PAID''] \<longleftrightarrow> True"
  by (cases s; simp add: obligation_satisfies_reserved_def obligation_of_def obligation_upper)+

lemma required_table:
  "required_obligation_for_reserved timing = Some req \<longleftrightarrow>
     timing = ''NOW'' \<and> req = [''PAID''] \<or> timing = ''DEPOSIT'' \<and> req = [''DEPOSITED'', ''PAID'']
     \<or> timing \<in> {''END_OF_TRIP'', ''INVOICE''} \<and> req = [''UNPAID'', ''DEPOSITED'', ''PAID'']"
  by (auto simp: required_obligation_for_reserved_def split: if_splits)

lemma required_forward:
  assumes "required_obligation_for_reserved timing = Some req" and "t \<in> set (obligation_transitions s)"
    and "obligation_satisfies_reserved (obligation_value s) req"
  shows "obligation_satisfies_reserved (obligation_value t) req"
  using assms unfolding required_table
  by (elim disjE conjE) (cases s; cases t; simp only: satisfies_table; simp)+

lemma stored_funds:
  assumes "whole_cents a" and "a \<le> x"
  shows "a \<le> stored_money x"
  unfolding stored_money_def using assms by (rule half_up.quantize_ge_whole)


lemma transition_row_ok:
  assumes "row_ok r" and "reservation_transition a r t = Inr r'"
    and "t = RESERVED \<Longrightarrow> obligation_satisfies_reserved (rv_obligation_state r) (rv_required_obligations r)"
  shows "row_ok r'"
proof -
  have "reservation_state_value t = ''reserved'' \<Longrightarrow> t = RESERVED" by (cases t) simp_all
  with assms show ?thesis
    by (auto simp: reservation_transition_Inr row_ok_def funded_def whole_terms_def snapshot_ok_def)
qed

lemma promote_row_ok: "row_ok r \<Longrightarrow> promote r = Inr r' \<Longrightarrow> row_ok r'"
  by (auto simp: promote_def split: if_splits intro: transition_row_ok)

lemma obligation_row_ok:
  assumes "row_ok r" and "transition_obligation a r t = Inr r'" and "obligation_funded r t received = Inr ()"
  shows "row_ok (r'\<lparr>rv_amount_received := stored_money received, rv_wallet_reference := ref\<rparr>)"
proof -
  from assms(2) obtain s where s: "rv_obligation_state r = obligation_value s" "t \<in> set (obligation_transitions s)"
    and r': "r' = r\<lparr>rv_obligation_state := obligation_value t, rv_audit_log := rv_audit_log r'\<rparr>"
    by (auto simp: transition_obligation_Inr)
  from assms(1) obtain timing where "required_obligation_for_reserved timing = Some (rv_required_obligations r)"
    by (auto simp: row_ok_def snapshot_ok_def)
  note forward = required_forward [OF this s(2)]
  show ?thesis
    using assms(1,3) forward s(1)
    by (subst r') (cases t; auto simp: row_ok_def obligation_values funded_def whole_terms_def snapshot_ok_def obligation_funded_def
        split: option.splits intro!: stored_funds)
qed

lemma settle_row_ok:
  assumes "row_ok r" and "obligation_funded r t received = Inr ()" and "settle r t ref received = Inr r'"
  shows "row_ok r'"
proof (cases "obligation_value t = rv_obligation_state r")
  case True
  have "row_ok (r\<lparr>rv_amount_received := stored_money received, rv_wallet_reference := w\<rparr>)" for w
    using assms(1,2) True [symmetric]
    by (cases t) (auto simp: row_ok_def obligation_values funded_def whole_terms_def snapshot_ok_def obligation_funded_def
        split: option.splits intro!: stored_funds)
  with assms(3) True show ?thesis by (auto simp: settle_def intro: promote_row_ok)
next
  case False
  with assms(3) obtain r1 w where "transition_obligation (None, ''wallet_obligation_event'') r t = Inr r1"
    and p: "promote (r1\<lparr>rv_amount_received := stored_money received, rv_wallet_reference := w\<rparr>) = Inr r'"
    by (auto simp: settle_def)
  from promote_row_ok [OF obligation_row_ok [OF assms(1) this(1) assms(2)] p] show ?thesis .
qed

lemma evaluate_snapshot:
  assumes "evaluate env act rq = Inr d"
  shows "snapshot_ok (new_reservation env u key fp d rq i)"
  using assms
  by (auto simp: evaluate_def Let_def snapshot_ok_def new_reservation_def none_if_empty_def
      split: if_splits option.splits prod.splits)

lemma secure_row_ok:
  assumes "evaluate env act rq = Inr d" and "secure_capacity (new_reservation env u key fp d rq i) = Inr r'"
  shows "row_ok r'"
proof -
  let ?r = "new_reservation env u key fp d rq i"
  have "funded ?r" "whole_terms ?r" "rv_state ?r = ''draft''" "rv_obligation_state ?r = obligation_value UNPAID"
    by (auto simp: new_reservation_def funded_def whole_terms_def stored_money_def half_up.whole_cents_quantize
        option.pred_map option.pred_True comp_def)
  with evaluate_snapshot [OF assms(1)] have r: "row_ok ?r" by (simp add: row_ok_def obligation_values)
  from assms(2) obtain r1 where r1: "reservation_transition (Some u, ''capacity_secured'') ?r HELD = Inr r1"
    and r': "(if obligation_satisfies_reserved (rv_obligation_state r1) (rv_required_obligations r1)
              then reservation_transition (Some (rv_reserving_user_id r1), ''obligation_satisfied'') r1 RESERVED
              else Inr r1) = Inr r'"
    by (auto simp: secure_capacity_def new_reservation_def simp del: if_split)
  have "row_ok r1" by (rule transition_row_ok [OF r r1]) simp
  with r' show ?thesis by (auto intro: transition_row_ok split: if_splits)
qed

lemma put_row_ok:
  "row_ok r \<Longrightarrow> list_all row_ok (td_reservations db) \<Longrightarrow> list_all row_ok (td_reservations (put_reservation r db))"
  by (auto simp: put_reservation_def update_rows_def list_all_iff)

lemma step_row_ok:
  assumes "tr_step db db'" and "list_all row_ok (td_reservations db)"
  shows "list_all row_ok (td_reservations db')"
  using assms(1)
proof cases
  case (Create env act key rq r)
  then have "db' = db \<or> (\<exists>d u fp i. evaluate env act rq = Inr d
      \<and> secure_capacity (new_reservation env u key fp d rq i) = Inr r \<and> td_reservations db' = td_reservations db @ [r])"
    by (auto simp: create_reservation_def Let_def split: option.splits sum.splits)
  with assms(2) show ?thesis by (auto dest: secure_row_ok)
next
  case (Event i t ref amount r)
  then show ?thesis
  proof (cases rule: event_shape)
    case (2 r0 received)
    have "row_ok r0" using assms(2) get_reservation_Inr [OF 2(1)] by (auto simp: list_all_iff)
    from settle_row_ok [OF this 2(3,4)] assms(2) show ?thesis by (simp add: 2(5) put_row_ok)
  qed (use assms(2) in simp)
next
  case (Cancel env act i r)
  show ?thesis
  proof (cases "db' = db")
    case False
    from Cancel False obtain r0 where r0: "get_reservation db i = Inr r0"
      and r: "r = r0\<lparr>rv_state := reservation_state_value CANCELLED\<rparr>"
      and db': "db' = (put_reservation r db)\<lparr>td_lines :=
              update_rows (\<lambda>l. ln_reservation_id l = i \<and> ln_state l \<in> set ACTIVE_LINE_STATES)
                (\<lambda>l. l\<lparr>ln_state := ''cancelled''\<rparr>) (td_lines db)\<rparr>"
      by (rule cancel_shape)
    have "row_ok r0" using assms(2) get_reservation_Inr [OF r0] by (auto simp: list_all_iff)
    then have "row_ok r" by (simp add: r row_ok_def funded_def whole_terms_def snapshot_ok_def)
    from put_row_ok [OF this assms(2)] show ?thesis by (simp add: db')
  qed (use assms(2) in simp)
next
  case Supply
  with assms(2) show ?thesis by (auto simp: register_supply_def)
next
  case (Expire now limit)
  have "row_ok r \<Longrightarrow> row_ok (r\<lparr>rv_state := reservation_state_value EXPIRED\<rparr>)" for r
    by (simp add: row_ok_def funded_def whole_terms_def snapshot_ok_def)
  then show ?thesis
    unfolding Expire using assms(2)
    by (intro expire_keeps [where P = "\<lambda>d. list_all row_ok (td_reservations d)"]) (auto dest: expire_one_shape(3))
qed

end
