(* ===== verification/Transport_Runs.thy ===== *)
theory Transport_Runs
  imports Transport_Capacity
begin

section \<open>Guarantees of the transport reservation service\<close>

text \<open>
  The properties of every run of the reservation service from empty reservation tables: what creations, payment
  events, cancellations and supply declarations, in any order, can never do.  The demonstration run at the end of the
  preliminaries declares a slice of two units of one driver and creates reservations on it.
\<close>

interpretation funds: run_invariant tr_step "\<lambda>db. list_all row_ok (td_reservations db)"
  by unfold_locales (rule step_row_ok)

lemma empty_tables_row_ok: "list_all row_ok (td_reservations (empty_tables vs))"
  by (simp add: empty_tables_def)

lemmas run_row_ok = funds.run_keeps [OF _ empty_tables_row_ok]

subsection \<open>A demonstration run\<close>

definition ride_vehicle :: vehicle where
  "ride_vehicle = \<lparr>vh_id = 7, vh_owner_type = ''driver'', vh_owner_id = 3, vh_status = ''active'', vh_is_available = True,
     vh_passenger_capacity = 4, vh_vehicle_class = None, vh_is_deleted = False\<rparr>"

definition ride_env :: "string \<Rightarrow> tr_env" where
  "ride_env ref = \<lparr>te_offering = (\<lambda>_. Some \<lparr>of_min_seats = 1, of_max_seats = 6, of_compatible_classes = []\<rparr>),
     te_fingerprint = rq_offering_code, te_reference = ref, te_enabled_methods = [''CASH''], te_deposit_lead_hours = 24,
     te_deposit_percent = 20, te_deposit_currency = ''UGX'', te_policy_ref = (\<lambda>_. None),
     te_organisation_active = (\<lambda>_. True), te_active_member = (\<lambda>_ _. True), te_manages_transport = (\<lambda>_ _. True),
     te_global_admin = (\<lambda>_. False)\<rparr>"

definition ride_request :: "int list \<Rightarrow> time \<Rightarrow> time \<Rightarrow> reservation_request" where
  "ride_request ids a b = \<lparr>rq_offering_code = ''taxi'', rq_provider_type = ''driver'', rq_provider_id = 3, rq_window_start = a,
     rq_window_end = b, rq_required_quantity = int (length ids), rq_mode = ''specific'', rq_payment_method = Some ''CASH'',
     rq_payment_timing = Some ''NOW'', rq_commercial_policy_ref = None, rq_organisation_id = None, rq_event_id = None,
     rq_context_source = None, rq_context_ref = None, rq_vehicle_ids = ids, rq_estimated_value = Some 50\<rparr>"

definition ride_supply :: "tr_error + tr_db" where
  "ride_supply = register_supply ''driver'' 3 ''taxi'' 0 100 2 (empty_tables [ride_vehicle])"

definition ride_one :: "int list \<Rightarrow> tr_error + reservation \<times> tr_db" where
  "ride_one ids = rbind ride_supply (create_reservation (ride_env ''R1'') (Some 1) ''k1'' (ride_request ids 10 20))"

definition ride_two :: "tr_error + reservation \<times> tr_db" where
  "ride_two = rbind (ride_one [7]) (\<lambda>(_, db).
     create_reservation (ride_env ''R1''\<lparr>te_reference := ''R2''\<rparr>) (Some 1) ''k2'' (ride_request [7] 20 30) db)"

definition ride_paid :: "tr_error + reservation \<times> tr_db" where
  "ride_paid = rbind (ride_one [7]) (\<lambda>(r, db). apply_obligation_event (rv_id r) PAID (Some ''W1'') (Some 50) db)"

text \<open>Each result of the demonstration is reached by steps of the service.\<close>

lemma ride_reached:
  shows "ride_supply = Inr db \<Longrightarrow> tr_step\<^sup>*\<^sup>* (empty_tables [ride_vehicle]) db"
    and "ride_one ids = Inr (r, db) \<Longrightarrow> tr_step\<^sup>*\<^sup>* (empty_tables [ride_vehicle]) db"
    and "ride_two = Inr (r, db) \<Longrightarrow> tr_step\<^sup>*\<^sup>* (empty_tables [ride_vehicle]) db"
    and "ride_paid = Inr (r, db) \<Longrightarrow> tr_step\<^sup>*\<^sup>* (empty_tables [ride_vehicle]) db"
proof -
  show supply_step: "ride_supply = Inr db \<Longrightarrow> tr_step\<^sup>*\<^sup>* (empty_tables [ride_vehicle]) db" for db
    unfolding ride_supply_def by (intro r_into_rtranclp tr_step.Supply)
  show one: "ride_one ids = Inr (r, db) \<Longrightarrow> tr_step\<^sup>*\<^sup>* (empty_tables [ride_vehicle]) db" for ids r db
    unfolding ride_one_def by (auto intro: rtranclp.rtrancl_into_rtrancl [OF supply_step tr_step.Create])
  show "ride_two = Inr (r, db) \<Longrightarrow> tr_step\<^sup>*\<^sup>* (empty_tables [ride_vehicle]) db"
    unfolding ride_two_def by (auto intro: rtranclp.rtrancl_into_rtrancl [OF one tr_step.Create])
  show "ride_paid = Inr (r, db) \<Longrightarrow> tr_step\<^sup>*\<^sup>* (empty_tables [ride_vehicle]) db"
    unfolding ride_paid_def by (auto intro: rtranclp.rtrancl_into_rtrancl [OF one tr_step.Event])
qed

subsection \<open>Capacity\<close>

text \<open>
  C33: no vehicle is promised twice.  In every state the service can reach, two active lines of different, undeleted
  reservations that name the same vehicle have disjoint windows.
\<close>

theorem no_double_booking:
  assumes "tr_step\<^sup>*\<^sup>* (empty_tables vs) db"
    and "l \<in> set (td_lines db)" and "m \<in> set (td_lines db)" and "active_line l" and "active_line m"
    and "line_reservation db l \<noteq> None" and "line_reservation db m \<noteq> None"
    and "ln_reservation_id l \<noteq> ln_reservation_id m" and "ln_vehicle_id l = Some v" and "ln_vehicle_id m = Some v"
  shows "ln_window_end l \<le> ln_window_start m \<or> ln_window_end m \<le> ln_window_start l"
proof -
  from run_inv [OF assms(1)] assms(2,3) have "\<not> clash db l m"
    by (simp add: tr_inv_def exclusive_def list_all_iff)
  with assms(4-10) show ?thesis by (auto simp: clash_def overlaps_def)
qed

theorem no_double_booking_witness:
  "case ride_two of
     Inr (r, db) \<Rightarrow> map ln_vehicle_id (td_lines db) = [Some 7, Some 7]
       \<and> ln_window_end (td_lines db ! 0) \<le> ln_window_start (td_lines db ! 1)
   | Inl _ \<Rightarrow> False"
proof -
  have "case ride_two of
     Inr (r, db) \<Rightarrow> map (\<lambda>l. (ln_vehicle_id l, active_line l, ln_reservation_id l, ln_window_start l)) (td_lines db)
         = [(Some 7, True, 2, 10), (Some 7, True, 4, 20)]
       \<and> list_all (\<lambda>l. line_reservation db l \<noteq> None \<and> ln_window_start l < ln_window_end l) (td_lines db)
   | Inl _ \<Rightarrow> False" by code_simp
  then obtain r db where db: "ride_two = Inr (r, db)"
    and rows: "map (\<lambda>l. (ln_vehicle_id l, active_line l, ln_reservation_id l, ln_window_start l)) (td_lines db)
        = [(Some 7, True, 2, 10), (Some 7, True, 4, 20)]"
    and joined: "list_all (\<lambda>l. line_reservation db l \<noteq> None \<and> ln_window_start l < ln_window_end l) (td_lines db)"
    by (auto split: sum.splits)
  from rows obtain l m where lm: "td_lines db = [l, m]" by (auto simp: map_eq_Cons_conv)
  from rows joined no_double_booking [OF ride_reached(3) [OF db], of l m 7] show ?thesis by (auto simp: lm db)
qed

text \<open>
  C34: no slice of supply is overcommitted.  In every state the service can reach, and at every instant of a declared
  slice, the active lines of its provider and offering occupy at most the units of the slice.
\<close>

theorem no_overcommitment:
  assumes "tr_step\<^sup>*\<^sup>* (empty_tables vs) db" and "s \<in> set (td_supplies db)" and "supply_at pt pid off s t"
  shows "occupancy db pt pid off t \<le> sp_total_units s"
  using run_inv [OF assms(1)] assms(2,3) by (auto simp: tr_inv_def within_supply_def)

theorem no_overcommitment_witness:
  "case ride_two of
     Inr (r, db) \<Rightarrow> occupancy db ''driver'' 3 ''taxi'' 15 = 1 \<and> occupancy db ''driver'' 3 ''taxi'' 15 \<le> 2
   | Inl _ \<Rightarrow> False"
proof -
  have "case ride_two of
     Inr (r, db) \<Rightarrow> occupancy db ''driver'' 3 ''taxi'' 15 = 1
       \<and> map (\<lambda>s. (supply_at ''driver'' 3 ''taxi'' s 15, sp_total_units s)) (td_supplies db) = [(True, 2)]
   | Inl _ \<Rightarrow> False" by code_simp
  then obtain r db where db: "ride_two = Inr (r, db)" and occ: "occupancy db ''driver'' 3 ''taxi'' 15 = 1"
    and rows: "map (\<lambda>s. (supply_at ''driver'' 3 ''taxi'' s 15, sp_total_units s)) (td_supplies db) = [(True, 2)]"
    by (auto split: sum.splits)
  from rows obtain s where "td_supplies db = [s]" "supply_at ''driver'' 3 ''taxi'' s 15" "sp_total_units s = 2"
    by (auto simp: map_eq_Cons_conv)
  with occ no_overcommitment [OF ride_reached(3) [OF db], of s] show ?thesis by (auto simp: db)
qed

text \<open>
  C35: a confirmed reservation has its money.  In every state the service can reach, a reservation in state
  \<open>reserved\<close> that is payable now has received its whole amount, and one with a deposit has received the deposit or the
  whole amount.
\<close>

theorem reserved_is_funded:
  assumes "tr_step\<^sup>*\<^sup>* (empty_tables vs) db" and "r \<in> set (td_reservations db)" and "rv_state r = ''reserved''"
  shows "(rv_payment_timing r = Some ''NOW'' \<longrightarrow>
            (\<exists>a. rv_required_total_amount r = Some a \<and> a \<le> rv_amount_received r))
       \<and> (rv_payment_timing r = Some ''DEPOSIT'' \<longrightarrow>
            (\<exists>a. (rv_deposit_amount r = Some a \<or> rv_required_total_amount r = Some a) \<and> a \<le> rv_amount_received r))"
proof -
  from run_row_ok [OF assms(1)] assms(2) have ok: "row_ok r" by (simp add: list_all_iff)
  then obtain s timing where s: "rv_obligation_state r = obligation_value s" and timing: "rv_payment_timing r = Some timing"
    and req: "required_obligation_for_reserved timing = Some (rv_required_obligations r)"
    by (auto simp: row_ok_def snapshot_ok_def)
  from ok s assms(3) have sat: "obligation_satisfies_reserved (obligation_value s) (rv_required_obligations r)"
    by (simp add: row_ok_def)
  have "s = PAID" if "timing = ''NOW''" using req sat that satisfies_table(1) [of s] by (auto simp: required_table)
  moreover have "s \<noteq> UNPAID" if "timing = ''DEPOSIT''"
    using req sat that satisfies_table(2) [of s] by (auto simp: required_table)
  moreover have "funded r" using ok by (simp add: row_ok_def)
  ultimately show ?thesis using s timing unfolding funded_def by (cases s) auto
qed

theorem reserved_is_funded_witness:
  "case ride_paid of
     Inr (r, db) \<Rightarrow> rv_state r = ''reserved'' \<and> rv_required_total_amount r = Some 50 \<and> 50 \<le> rv_amount_received r
   | Inl _ \<Rightarrow> False"
proof -
  have "case ride_paid of
     Inr (r, db) \<Rightarrow> rv_state r = ''reserved'' \<and> rv_required_total_amount r = Some 50 \<and> rv_payment_timing r = Some ''NOW''
       \<and> td_reservations db = [r]
   | Inl _ \<Rightarrow> False" by code_simp
  then obtain r db where db: "ride_paid = Inr (r, db)" and r: "rv_state r = ''reserved''"
    "rv_required_total_amount r = Some 50" "rv_payment_timing r = Some ''NOW''" "td_reservations db = [r]"
    by (auto split: sum.splits)
  with reserved_is_funded [OF ride_reached(4) [OF db], of r] show ?thesis by (simp add: db)
qed

subsection \<open>The lines of a reservation\<close>

lemma materialised_vehicles:
  "map ln_vehicle_id (materialise_lines (new_reservation env u key fp d rq i) ids n)
     = (if rq_mode rq = ''specific'' then map Some ids else replicate (nat (rq_required_quantity rq)) None)"
  by (auto simp: materialise_lines_def new_reservation_def Let_def intro!: nth_equalityI)

text \<open>
  The lines of a new reservation.  A creation that adds a reservation gives it one line per requested vehicle, in the
  order of the request and with repetitions, or the required number of lines without a vehicle in capacity mode.
  The overlap check looks only at lines that existed before, so a vehicle id given twice is booked twice for the same
  window, as the second half of the witness shows.
\<close>

theorem lines_of_new_reservation:
  assumes "tr_step\<^sup>*\<^sup>* (empty_tables vs) db" and "create_reservation env act key rq db = Inr (r, db')"
    and "length (td_reservations db') \<noteq> length (td_reservations db)"
  shows "map ln_vehicle_id (filter (\<lambda>l. ln_reservation_id l = rv_id r) (td_lines db'))
    = (if rq_mode rq = ''specific'' then map Some (rq_vehicle_ids rq)
       else replicate (nat (rq_required_quantity rq)) None)"
  using assms(2)
proof (cases rule: create_shape)
  case (2 u fp d ls)
  have keys: "keys_ok db" using run_inv [OF assms(1)] by (simp add: tr_inv_def)
  have rid: "rv_id r = td_next_id db" using 2(2) by (simp add: row_key_def)
  have "filter (\<lambda>l. ln_reservation_id l = rv_id r) (td_lines db) = []"
    using keys by (fastforce simp: rid keys_ok_def list_all_iff filter_empty_conv)
  moreover have "filter (\<lambda>l. ln_reservation_id l = rv_id r) ls = ls"
    using materialised(2) [OF 2(1,3)] by (simp add: rid filter_id_conv)
  ultimately show ?thesis by (simp add: 2(3,4) materialised_vehicles)
qed (use assms(3) in simp)

theorem lines_of_new_reservation_witness:
  "case ride_one [7, 7] of
     Inr (r, db) \<Rightarrow> map ln_vehicle_id (filter (\<lambda>l. ln_reservation_id l = rv_id r) (td_lines db)) = [Some 7, Some 7]
       \<and> list_all (\<lambda>l. active_line l \<and> ln_window_start l = 10 \<and> ln_window_end l = 20) (td_lines db)
   | Inl _ \<Rightarrow> False"
proof -
  have "case ride_one [7, 7] of
     Inr (r, db) \<Rightarrow> length (td_reservations db) = 1
       \<and> list_all (\<lambda>l. active_line l \<and> ln_window_start l = 10 \<and> ln_window_end l = 20) (td_lines db)
   | Inl _ \<Rightarrow> False" by code_simp
  then obtain r db where db: "ride_one [7, 7] = Inr (r, db)" and one: "length (td_reservations db) = 1"
    and all: "list_all (\<lambda>l. active_line l \<and> ln_window_start l = 10 \<and> ln_window_end l = 20) (td_lines db)"
    by (auto split: sum.splits)
  from db obtain db0 where db0: "ride_supply = Inr db0"
    and create: "create_reservation (ride_env ''R1'') (Some 1) ''k1'' (ride_request [7, 7] 10 20) db0 = Inr (r, db)"
    by (auto simp: ride_one_def)
  have "length (td_reservations db) \<noteq> length (td_reservations db0)"
    using db0 one by (auto simp: ride_supply_def register_supply_def empty_tables_def)
  from lines_of_new_reservation [OF ride_reached(1) [OF db0] create this] all show ?thesis
    by (simp add: db ride_request_def)
qed

end
