(* ===== verification/Ride_Offers.thy ===== *)
theory Ride_Offers
  imports Run_Systems
begin

section \<open>Offers of a ride to drivers\<close>

text \<open>
  Models the store of transient offers of \<open>app/transport/services/offer_service.py\<close>: one hash per booking and driver with a
  time to live, the set of bookings offered to a driver and the set of drivers offered a booking, in Redis.  A hash is a
  partial function of its key: the strings \<open>transport:offer:{booking}:{driver}\<close> are the pairs of booking reference and driver, with
  no driver for the hash of the earlier layout.  A hash whose time to live has passed reads as missing.  The two Lua scripts
  run alone, as Redis promises.  Whether the store can be reached is an argument of each operation and does not change within
  one.  The order of the members of a set is the order of a list, on which no theorem depends.
\<close>

subsection \<open>The store\<close>

record offer_hash =
  oh_booking_reference :: string
  oh_driver_id :: int
  oh_vehicle_id :: int
  oh_status :: string
  oh_expires_at :: int

record offer_store =
  os_offers :: "string \<times> int option \<Rightarrow> (offer_hash \<times> time) option"
  os_driver_refs :: "int \<Rightarrow> string list"
  os_index :: "string \<Rightarrow> int list"
  os_lock :: "time option"

definition no_offers :: offer_store where
  "no_offers = \<lparr>os_offers = (\<lambda>_. None), os_driver_refs = (\<lambda>_. []), os_index = (\<lambda>_. []), os_lock = None\<rparr>"

text \<open>\<open>HGETALL\<close>, \<open>SADD\<close>, \<open>SREM\<close> and \<open>DEL\<close>.\<close>

definition hgetall :: "time \<Rightarrow> offer_store \<Rightarrow> string \<times> int option \<Rightarrow> offer_hash option" where
  "hgetall now st k = (case os_offers st k of Some (h, expiry) \<Rightarrow> if now < expiry then Some h else None | None \<Rightarrow> None)"

definition sadd :: "'a \<Rightarrow> 'a list \<Rightarrow> 'a list" where
  "sadd x xs = (if x \<in> set xs then xs else xs @ [x])"

definition srem :: "'a list \<Rightarrow> 'a list \<Rightarrow> 'a list" where
  "srem gone xs = filter (\<lambda>x. x \<notin> set gone) xs"

abbreviation "OFFER_STATUS_OFFERED \<equiv> ''offered''"
abbreviation "OFFER_STATUS_ACCEPTED \<equiv> ''accepted''"

subsection \<open>Creating and reading offers\<close>

text \<open>\<open>ttl or cls._ttl()\<close> in seconds, with the configured time as an argument.\<close>

definition offer_ttl :: "int \<Rightarrow> int option \<Rightarrow> int" where
  "offer_ttl configured ttl = (case ttl of Some t \<Rightarrow> if t = 0 then configured else t | None \<Rightarrow> configured)"

definition create_offer ::
  "bool \<Rightarrow> time \<Rightarrow> int \<Rightarrow> string \<Rightarrow> int \<Rightarrow> int \<Rightarrow> int option \<Rightarrow> offer_store \<Rightarrow> (unit + offer_hash) \<times> offer_store" where
  "create_offer up now configured ref d v ttl st =
     (if \<not> up then (Inl (), st)
      else let t = offer_ttl configured ttl;
               h = \<lparr>oh_booking_reference = ref, oh_driver_id = d, oh_vehicle_id = v, oh_status = OFFER_STATUS_OFFERED,
                    oh_expires_at = now div 1000000 + t\<rparr>
           in (Inr h, st\<lparr>os_offers := (os_offers st)((ref, Some d) \<mapsto> (h, now + t * 1000000)),
                         os_driver_refs := (os_driver_refs st)(d := sadd ref (os_driver_refs st d)),
                         os_index := (os_index st)(ref := sadd d (os_index st ref))\<rparr>))"

definition read_offer :: "bool \<Rightarrow> time \<Rightarrow> offer_store \<Rightarrow> string \<Rightarrow> int \<Rightarrow> offer_hash option" where
  "read_offer up now st ref d =
     (if \<not> up then None
      else case hgetall now st (ref, Some d) of
        None \<Rightarrow> None
      | Some h \<Rightarrow> if oh_driver_id h \<noteq> d then None else Some h)"

definition booking_offer :: "bool \<Rightarrow> time \<Rightarrow> offer_store \<Rightarrow> string \<Rightarrow> offer_hash option" where
  "booking_offer up now st ref =
     (case find (\<lambda>d. case read_offer up now st ref d of Some h \<Rightarrow> oh_status h = OFFER_STATUS_OFFERED | None \<Rightarrow> False)
             (os_index st ref) of
        Some d \<Rightarrow> read_offer up now st ref d
      | None \<Rightarrow>
          if \<not> up then None
          else case hgetall now st (ref, None) of
            None \<Rightarrow> None
          | Some h \<Rightarrow> if oh_status h = OFFER_STATUS_OFFERED then Some h else None)"

definition get_offer :: "bool \<Rightarrow> time \<Rightarrow> offer_store \<Rightarrow> string \<Rightarrow> int option \<Rightarrow> offer_hash option" where
  "get_offer up now st ref d = (case d of Some d \<Rightarrow> read_offer up now st ref d | None \<Rightarrow> booking_offer up now st ref)"

text \<open>The live offers of a driver; references whose hash is gone are pruned.\<close>

definition list_driver_offers :: "bool \<Rightarrow> time \<Rightarrow> int \<Rightarrow> offer_store \<Rightarrow> offer_hash list \<times> offer_store" where
  "list_driver_offers up now d st =
     (if \<not> up then ([], st)
      else let refs = os_driver_refs st d;
               found = List.map_filter (\<lambda>ref. read_offer up now st ref d) refs;
               stale = filter (\<lambda>ref. read_offer up now st ref d = None) refs
           in (filter (\<lambda>h. oh_status h = OFFER_STATUS_OFFERED) found,
               st\<lparr>os_driver_refs := (os_driver_refs st)(d := srem stale refs)\<rparr>))"

definition count_driver_offers :: "bool \<Rightarrow> int \<Rightarrow> offer_store \<Rightarrow> nat" where
  "count_driver_offers up d st = (if up then length (os_driver_refs st d) else 0)"

subsection \<open>Accepting, declining and clearing offers\<close>

text \<open>The scripts return whether they changed the store; a field of a missing hash is nil, which equals no argument.\<close>

definition accept_script :: "time \<Rightarrow> string \<Rightarrow> int \<Rightarrow> offer_store \<Rightarrow> bool \<times> offer_store" where
  "accept_script now ref d st =
     (case hgetall now st (ref, Some d) of
        None \<Rightarrow> (False, st)
      | Some h \<Rightarrow>
          if oh_status h \<noteq> OFFER_STATUS_OFFERED \<or> oh_driver_id h \<noteq> d then (False, st)
          else (True, st\<lparr>os_offers := (os_offers st)((ref, Some d) :=
                           map_option (\<lambda>(h, t). (h\<lparr>oh_status := OFFER_STATUS_ACCEPTED\<rparr>, t)) (os_offers st (ref, Some d))),
                         os_driver_refs := (os_driver_refs st)(d := srem [ref] (os_driver_refs st d)),
                         os_index := (os_index st)(ref := srem [d] (os_index st ref))\<rparr>))"

definition decline_script :: "time \<Rightarrow> string \<Rightarrow> int \<Rightarrow> offer_store \<Rightarrow> bool \<times> offer_store" where
  "decline_script now ref d st =
     (case hgetall now st (ref, Some d) of
        None \<Rightarrow> (False, st)
      | Some h \<Rightarrow>
          if oh_driver_id h \<noteq> d then (False, st)
          else (True, st\<lparr>os_offers := (os_offers st)((ref, Some d) := None),
                         os_driver_refs := (os_driver_refs st)(d := srem [ref] (os_driver_refs st d)),
                         os_index := (os_index st)(ref := srem [d] (os_index st ref))\<rparr>))"

datatype offer_error = Offer_unavailable | Offer_expired | Offer_conflict

definition accept_offer :: "bool \<Rightarrow> time \<Rightarrow> string \<Rightarrow> int \<Rightarrow> offer_store \<Rightarrow> (offer_error + unit) \<times> offer_store" where
  "accept_offer up now ref d st =
     (if \<not> up then (Inl Offer_unavailable, st)
      else case accept_script now ref d st of
        (True, st') \<Rightarrow> (Inr (), st')
      | (False, _) \<Rightarrow>
          (Inl (if hgetall now st (ref, Some d) = None \<and> booking_offer up now st ref = None then Offer_expired
                else Offer_conflict), st))"

definition cleanup_offer :: "bool \<Rightarrow> string \<Rightarrow> int option \<Rightarrow> offer_store \<Rightarrow> offer_store" where
  "cleanup_offer up ref d st =
     (if \<not> up then st
      else case d of
        Some d \<Rightarrow> st\<lparr>os_offers := (os_offers st)((ref, Some d) := None),
                      os_driver_refs := (os_driver_refs st)(d := srem [ref] (os_driver_refs st d)),
                      os_index := (os_index st)(ref := srem [d] (os_index st ref))\<rparr>
      | None \<Rightarrow> st\<lparr>os_offers := (\<lambda>(r, d). if r = ref \<and> (case d of None \<Rightarrow> True | Some d \<Rightarrow> d \<in> set (os_index st ref))
                                         then None else os_offers st (r, d)),
                     os_driver_refs := (\<lambda>d. if d \<in> set (os_index st ref) then srem [ref] (os_driver_refs st d)
                                            else os_driver_refs st d),
                     os_index := (os_index st)(ref := [])\<rparr>)"

subsection \<open>The sweep\<close>

text \<open>
  One page of \<open>sweep_expired_page\<close>.  The two \<open>SCAN\<close> calls are arguments: they give the next cursor with the drivers and the bookings
  whose keys the server returned.  \<open>None\<close> is the exception of an unreachable store.
\<close>

record sweep_page =
  sw_cleared :: nat
  sw_driver_cursor :: int
  sw_index_cursor :: int
  sw_has_more :: bool

definition stale_refs :: "time \<Rightarrow> offer_store \<Rightarrow> int \<Rightarrow> string list" where
  "stale_refs now st d = filter (\<lambda>ref. read_offer True now st ref d = None) (os_driver_refs st d)"

primrec prune_drivers :: "time \<Rightarrow> int list \<Rightarrow> offer_store \<Rightarrow> nat \<times> offer_store" where
  "prune_drivers now [] st = (0, st)"
| "prune_drivers now (d # ds) st =
     (let gone = stale_refs now st d;
          (n, st') = prune_drivers now ds (st\<lparr>os_driver_refs := (os_driver_refs st)(d := srem gone (os_driver_refs st d))\<rparr>)
      in (length gone + n, st'))"

primrec prune_index :: "time \<Rightarrow> string list \<Rightarrow> offer_store \<Rightarrow> nat \<times> offer_store" where
  "prune_index now [] st = (0, st)"
| "prune_index now (ref # refs) st =
     (if ref \<noteq> [] \<and> booking_offer True now st ref = None
      then let (n, st') = prune_index now refs (st\<lparr>os_index := (os_index st)(ref := [])\<rparr>) in (Suc n, st')
      else prune_index now refs st)"

definition done_cursor :: "int \<Rightarrow> int" where
  "done_cursor c = (if c = 0 then -1 else c)"

definition sweep_expired_page ::
  "bool \<Rightarrow> time \<Rightarrow> (int \<Rightarrow> int \<times> int list) \<Rightarrow> (int \<Rightarrow> int \<times> string list) \<Rightarrow> int \<Rightarrow> int \<Rightarrow> offer_store \<Rightarrow>
     sweep_page option \<times> offer_store" where
  "sweep_expired_page up now scan_drivers scan_index dc ic st =
     (let locked = (case os_lock st of Some t \<Rightarrow> now < t | None \<Rightarrow> False);
          chain_start = (dc \<le> 0 \<and> ic \<le> 0);
          stop = Some \<lparr>sw_cleared = 0, sw_driver_cursor = -1, sw_index_cursor = -1, sw_has_more = False\<rparr>
      in if \<not> up then (None, st)
         else if chain_start = locked then (stop, st)
         else let st0 = (if chain_start then st\<lparr>os_lock := Some (now + 300 * 1000000)\<rparr> else st);
                  (dc1, ds) = (if dc \<ge> 0 then scan_drivers dc else (-1, []));
                  (n1, st1) = prune_drivers now ds st0;
                  (ic1, refs) = (if ic \<ge> 0 then scan_index ic else (-1, []));
                  (n2, st2) = prune_index now refs st1;
                  more = (done_cursor dc1 \<ge> 0 \<or> done_cursor ic1 \<ge> 0)
              in (Some \<lparr>sw_cleared = n1 + n2, sw_driver_cursor = done_cursor dc1, sw_index_cursor = done_cursor ic1,
                        sw_has_more = more\<rparr>,
                  if more then st2 else st2\<lparr>os_lock := None\<rparr>))"

subsection \<open>Runs of the store\<close>

text \<open>
  The state is the store with a clock that never goes back.  Any operation may find the store unreachable.
\<close>

datatype offer_op =
    Create_offer bool int string int int "int option"
  | List_offers bool int
  | Accept_offer bool string int
  | Decline_offer string int
  | Cleanup_offer bool string "int option"
  | Sweep_page bool "int \<Rightarrow> int \<times> int list" "int \<Rightarrow> int \<times> string list" int int

fun offer_exec :: "time \<Rightarrow> offer_op \<Rightarrow> offer_store \<Rightarrow> offer_store" where
  "offer_exec now (Create_offer up configured ref d v ttl) st = snd (create_offer up now configured ref d v ttl st)"
| "offer_exec now (List_offers up d) st = snd (list_driver_offers up now d st)"
| "offer_exec now (Accept_offer up ref d) st = snd (accept_offer up now ref d st)"
| "offer_exec now (Decline_offer ref d) st = snd (decline_script now ref d st)"
| "offer_exec now (Cleanup_offer up ref d) st = cleanup_offer up ref d st"
| "offer_exec now (Sweep_page up sd si dc ic) st = snd (sweep_expired_page up now sd si dc ic st)"

fun creates :: "offer_op \<Rightarrow> (string \<times> int) option" where
  "creates (Create_offer up configured ref d v ttl) = Some (ref, d)"
| "creates _ = None"

primrec offer_run :: "(time \<times> offer_op) list \<Rightarrow> offer_store \<Rightarrow> offer_store" where
  "offer_run [] st = st"
| "offer_run (x # xs) st = offer_run xs (offer_exec (fst x) (snd x) st)"

inductive offer_step :: "time \<times> offer_store \<Rightarrow> time \<times> offer_store \<Rightarrow> bool" where
  Exec: "t \<le> now \<Longrightarrow> offer_step (t, st) (now, offer_exec now op st)"

text \<open>Every hash is the one of its key, and a live open offer is listed for its driver and its booking.\<close>

definition offers_ok :: "time \<times> offer_store \<Rightarrow> bool" where
  "offers_ok = (\<lambda>(now, st).
     (\<forall>ref d h expiry. os_offers st (ref, Some d) = Some (h, expiry) \<longrightarrow>
        oh_booking_reference h = ref \<and> oh_driver_id h = d
        \<and> (now < expiry \<and> oh_status h = OFFER_STATUS_OFFERED \<longrightarrow>
             ref \<in> set (os_driver_refs st d) \<and> d \<in> set (os_index st ref))))"

lemma offers_ok_later: "offers_ok (t, st) \<Longrightarrow> t \<le> now \<Longrightarrow> offers_ok (now, st)"
  unfolding offers_ok_def by fastforce

lemma no_offers_ok: "offers_ok (now, no_offers)"
  by (simp add: offers_ok_def no_offers_def)

lemma offers_okD:
  assumes "offers_ok (now, st)" and "os_offers st (ref, Some d) = Some (h, t)"
  shows "oh_booking_reference h = ref" and "oh_driver_id h = d"
    and "now < t \<Longrightarrow> read_offer True now st ref d = Some h"
    and "now < t \<Longrightarrow> oh_status h = OFFER_STATUS_OFFERED \<Longrightarrow> ref \<in> set (os_driver_refs st d) \<and> d \<in> set (os_index st ref)"
  using assms unfolding offers_ok_def by (auto simp: read_offer_def hgetall_def)

lemma set_sadd [simp]: "set (sadd x xs) = insert x (set xs)"
  by (auto simp: sadd_def)

lemma set_srem [simp]: "set (srem gone xs) = set xs - set gone"
  by (auto simp: srem_def)

text \<open>Whatever keeps the hashes and only drops references to missing offers keeps the invariant.\<close>

lemma offers_ok_prune:
  assumes "offers_ok (now, st)" and "os_offers st' = os_offers st"
    and "\<And>ref d. ref \<in> set (os_driver_refs st d) \<Longrightarrow> read_offer True now st ref d \<noteq> None \<Longrightarrow> ref \<in> set (os_driver_refs st' d)"
    and "\<And>ref d. d \<in> set (os_index st ref) \<Longrightarrow> booking_offer True now st ref \<noteq> None \<Longrightarrow> d \<in> set (os_index st' ref)"
  shows "offers_ok (now, st')"
  unfolding offers_ok_def split_conv
proof (intro allI impI conjI)
  fix ref d h t
  assume hash: "os_offers st' (ref, Some d) = Some (h, t)"
  then have old: "os_offers st (ref, Some d) = Some (h, t)" by (simp add: assms(2))
  note ok = offers_okD [OF assms(1) old]
  show "oh_booking_reference h = ref" "oh_driver_id h = d" by (fact ok(1,2))+
  assume "now < t \<and> oh_status h = OFFER_STATUS_OFFERED"
  with ok have live: "read_offer True now st ref d = Some h"
    and listed: "ref \<in> set (os_driver_refs st d)" "d \<in> set (os_index st ref)"
    and status: "oh_status h = OFFER_STATUS_OFFERED" by auto
  show "ref \<in> set (os_driver_refs st' d)" using assms(3) listed(1) live by simp
  have "booking_offer True now st ref \<noteq> None"
    using listed(2) live status
    by (auto simp: booking_offer_def find_None_iff split: option.splits dest!: find_SomeD)
  with assms(4) listed(2) show "d \<in> set (os_index st' ref)" by blast
qed

lemma prune_driver_ok:
  assumes "offers_ok (now, st)"
  shows "offers_ok (now, st\<lparr>os_driver_refs := (os_driver_refs st)(d := srem (stale_refs now st d) (os_driver_refs st d))\<rparr>)"
  by (rule offers_ok_prune [OF assms]) (auto simp: stale_refs_def)

lemma prune_drivers_ok: "offers_ok (now, st) \<Longrightarrow> offers_ok (now, snd (prune_drivers now ds st))"
proof (induction ds arbitrary: st)
  case (Cons d ds)
  from Cons.IH [OF prune_driver_ok [OF Cons.prems]] show ?case by (simp add: Let_def split_beta)
qed simp

lemma prune_index_ok: "offers_ok (now, st) \<Longrightarrow> offers_ok (now, snd (prune_index now refs st))"
proof (induction refs arbitrary: st)
  case (Cons ref refs)
  show ?case
  proof (cases "ref \<noteq> [] \<and> booking_offer True now st ref = None")
    case True
    have "offers_ok (now, st\<lparr>os_index := (os_index st)(ref := [])\<rparr>)"
      by (rule offers_ok_prune [OF Cons.prems]) (use True in auto)
    from Cons.IH [OF this] True show ?thesis by (simp add: Let_def split_beta)
  qed (use Cons in auto)
qed simp

lemma offers_ok_lock: "offers_ok (now, st\<lparr>os_lock := l\<rparr>) \<longleftrightarrow> offers_ok (now, st)"
  by (simp add: offers_ok_def)

lemma sweep_ok: "offers_ok (now, st) \<Longrightarrow> offers_ok (now, snd (sweep_expired_page up now sd si dc ic st))"
  by (simp add: sweep_expired_page_def Let_def split_beta offers_ok_lock prune_drivers_ok prune_index_ok)

lemma create_ok: "offers_ok (now, st) \<Longrightarrow> offers_ok (now, snd (create_offer up now configured ref d v ttl st))"
  unfolding offers_ok_def by (auto simp: create_offer_def Let_def)

lemma list_ok: "offers_ok (now, st) \<Longrightarrow> offers_ok (now, snd (list_driver_offers up now d st))"
  using prune_driver_ok [of now st d] by (cases up) (simp_all add: list_driver_offers_def Let_def stale_refs_def)

text \<open>So does whatever closes the offer of one driver and strikes it from the two sets.\<close>

lemma offers_ok_close:
  assumes "offers_ok (now, st)"
    and "\<And>h t. e = Some (h, t) \<Longrightarrow> oh_booking_reference h = ref \<and> oh_driver_id h = d \<and> oh_status h \<noteq> OFFER_STATUS_OFFERED"
  shows "offers_ok (now, st\<lparr>os_offers := (os_offers st)((ref, Some d) := e),
                            os_driver_refs := (os_driver_refs st)(d := srem [ref] (os_driver_refs st d)),
                            os_index := (os_index st)(ref := srem [d] (os_index st ref))\<rparr>)"
  using assms unfolding offers_ok_def by auto

lemma accept_script_ok: "offers_ok (now, st) \<Longrightarrow> offers_ok (now, snd (accept_script now ref d st))"
  unfolding accept_script_def
  by (auto split: option.splits intro!: offers_ok_close dest: offers_okD(1,2))

lemma accept_ok: "offers_ok (now, st) \<Longrightarrow> offers_ok (now, snd (accept_offer up now ref d st))"
  using accept_script_ok [of now st ref d]
  by (cases "accept_script now ref d st") (auto simp: accept_offer_def split: bool.splits)

lemma decline_ok: "offers_ok (now, st) \<Longrightarrow> offers_ok (now, snd (decline_script now ref d st))"
  unfolding decline_script_def by (auto split: option.splits intro!: offers_ok_close)

lemma cleanup_ok: "offers_ok (now, st) \<Longrightarrow> offers_ok (now, cleanup_offer up ref dopt st)"
proof (cases dopt)
  case None
  assume "offers_ok (now, st)"
  with None show ?thesis unfolding offers_ok_def by (auto simp: cleanup_offer_def)
qed (auto simp: cleanup_offer_def intro!: offers_ok_close)

lemma offer_exec_ok: "offers_ok (now, st) \<Longrightarrow> offers_ok (now, offer_exec now op st)"
  by (cases op) (simp_all add: create_ok list_ok accept_ok decline_ok cleanup_ok sweep_ok)

lemma offer_step_ok: "offer_step s s' \<Longrightarrow> offers_ok s \<Longrightarrow> offers_ok s'"
  by (induction rule: offer_step.induct) (blast intro: offer_exec_ok offers_ok_later)

interpretation offers: run_invariant offer_step offers_ok
  by unfold_locales (rule offer_step_ok)

subsection \<open>What drivers see, and who may accept\<close>

text \<open>
  C26: the list of a driver is exact.  After any run of the store, a driver is shown an offer exactly when there is a live hash for
  it that is still open: no other driver's answer, no sweep and no cleanup of another booking hides it, and nothing that is
  accepted, declined or expired is shown.
\<close>

theorem driver_sees_open_offers:
  assumes "offer_step\<^sup>*\<^sup>* (t, no_offers) (t', st)" and "t' \<le> now"
  shows "h \<in> set (fst (list_driver_offers True now d st)) \<longleftrightarrow>
    (\<exists>ref. hgetall now st (ref, Some d) = Some h \<and> oh_status h = OFFER_STATUS_OFFERED)"
proof -
  have ok: "offers_ok (now, st)"
    using offers.run_keeps [OF assms(1)] no_offers_ok assms(2) by (blast intro: offers_ok_later)
  have "(\<exists>ref. hgetall now st (ref, Some d) = Some h \<and> oh_status h = OFFER_STATUS_OFFERED) \<longleftrightarrow>
    (\<exists>ref \<in> set (os_driver_refs st d). read_offer True now st ref d = Some h \<and> oh_status h = OFFER_STATUS_OFFERED)"
    using offers_okD [OF ok] by (fastforce simp: hgetall_def read_offer_def split: option.splits if_splits)
  also have "\<dots> \<longleftrightarrow> h \<in> set (fst (list_driver_offers True now d st))"
    by (auto simp: list_driver_offers_def Let_def map_filter_def image_iff)
  finally show ?thesis ..
qed

definition offer_open :: "offer_store \<Rightarrow> string \<Rightarrow> int \<Rightarrow> bool" where
  "offer_open st ref d \<longleftrightarrow> (case os_offers st (ref, Some d) of Some (h, t) \<Rightarrow> oh_status h = OFFER_STATUS_OFFERED | None \<Rightarrow> False)"

lemma accept_success:
  "fst (accept_offer up now ref d st) = Inr () \<longleftrightarrow>
    up \<and> (\<exists>h. hgetall now st (ref, Some d) = Some h \<and> oh_status h = OFFER_STATUS_OFFERED \<and> oh_driver_id h = d)"
  by (auto simp: accept_offer_def accept_script_def split: option.splits)

lemma accept_closes: "fst (accept_offer up now ref d st) = Inr () \<Longrightarrow> \<not> offer_open (snd (accept_offer up now ref d st)) ref d"
  by (auto simp: accept_offer_def accept_script_def offer_open_def hgetall_def split: option.splits if_splits)

lemma sweep_hashes [simp]: "os_offers (snd (prune_drivers now ds st)) = os_offers st"
  "os_offers (snd (prune_index now refs st)) = os_offers st"
  by (induction ds arbitrary: st) (simp_all add: Let_def split_beta,
      induction refs arbitrary: st, auto simp: Let_def split_beta)

lemma closed_stays_closed:
  assumes "\<not> offer_open st ref d" and "creates op \<noteq> Some (ref, d)"
  shows "\<not> offer_open (offer_exec now op st) ref d"
  using assms
  by (cases op)
    (auto simp: offer_open_def create_offer_def list_driver_offers_def accept_offer_def accept_script_def decline_script_def
      cleanup_offer_def sweep_expired_page_def Let_def split_beta split: option.splits if_splits prod.splits)

lemma run_stays_closed:
  assumes "\<forall>x \<in> set ops. creates (snd x) \<noteq> Some (ref, d)" and "\<not> offer_open st ref d"
  shows "\<not> offer_open (offer_run ops st) ref d"
  using assms by (induction ops arbitrary: st) (simp_all add: closed_stays_closed)

definition demo_offers :: offer_store where
  "demo_offers = snd (create_offer True 0 25 ''TR1'' 8 80 None (snd (create_offer True 0 25 ''TR1'' 7 70 None no_offers)))"

lemmas offer_eval = demo_offers_def no_offers_def create_offer_def offer_ttl_def sadd_def srem_def hgetall_def
  accept_offer_def accept_script_def decline_script_def cleanup_offer_def list_driver_offers_def read_offer_def Let_def

lemma driver_sees_open_offers_witness:
  "\<exists>h. oh_vehicle_id h = 70 \<and> h \<in> set (fst (list_driver_offers True 1000000 7 demo_offers))"
proof -
  have steps: "offer_step\<^sup>*\<^sup>* (0, no_offers) (0, demo_offers)"
    using offer_step.Exec [of 0 0 no_offers "Create_offer True 25 ''TR1'' 7 70 None"]
      offer_step.Exec [of 0 0 "snd (create_offer True 0 25 ''TR1'' 7 70 None no_offers)" "Create_offer True 25 ''TR1'' 8 80 None"]
    by (auto simp: demo_offers_def intro: converse_rtranclp_into_rtranclp)
  define h where "h = \<lparr>oh_booking_reference = ''TR1'', oh_driver_id = 7, oh_vehicle_id = 70, oh_status = ''offered'',
    oh_expires_at = 25\<rparr>"
  have "hgetall 1000000 demo_offers (''TR1'', Some 7) = Some h" by (simp add: offer_eval h_def)
  then have "h \<in> set (fst (list_driver_offers True 1000000 7 demo_offers))"
    using driver_sees_open_offers [OF steps, of 1000000 h 7] by (auto simp: h_def)
  then show ?thesis by (intro exI [of _ h]) (simp add: h_def)
qed

text \<open>
  C25: an offer is accepted once, by its own driver.  A driver's acceptance succeeds exactly when the store has a live open offer for
  that driver on that booking; it leaves the offers of all other drivers as they are; and until the booking is offered to
  the driver again, no later acceptance succeeds, whatever else happens to the store.
\<close>

theorem accepted_once:
  assumes "accept_offer up now ref d st = (Inr (), st')"
  shows "(\<exists>h. hgetall now st (ref, Some d) = Some h \<and> oh_status h = OFFER_STATUS_OFFERED \<and> oh_driver_id h = d)
    \<and> (\<forall>k. k \<noteq> (ref, Some d) \<longrightarrow> os_offers st' k = os_offers st k)
    \<and> (\<forall>ops up' now'. (\<forall>x \<in> set ops. creates (snd x) \<noteq> Some (ref, d)) \<longrightarrow>
         fst (accept_offer up' now' ref d (offer_run ops st')) \<noteq> Inr ())"
proof (intro conjI allI impI)
  show "\<exists>h. hgetall now st (ref, Some d) = Some h \<and> oh_status h = OFFER_STATUS_OFFERED \<and> oh_driver_id h = d"
    using accept_success [of up now ref d st] assms by simp
  show "os_offers st' k = os_offers st k" if "k \<noteq> (ref, Some d)" for k
    using assms that by (auto simp: accept_offer_def accept_script_def split: option.splits if_splits prod.splits bool.splits)
  show "fst (accept_offer up' now' ref d (offer_run ops st')) \<noteq> Inr ()"
    if "\<forall>x \<in> set ops. creates (snd x) \<noteq> Some (ref, d)" for ops up' now'
  proof -
    have "\<not> offer_open (offer_run ops st') ref d"
      using run_stays_closed [OF that] accept_closes [of up now ref d st] assms by simp
    then show ?thesis unfolding accept_success by (auto simp: offer_open_def hgetall_def split: option.splits)
  qed
qed

lemma accepted_once_witness:
  "fst (accept_offer True 1 ''TR1'' 7 demo_offers) = Inr ()
   \<and> os_offers (snd (accept_offer True 1 ''TR1'' 7 demo_offers)) (''TR1'', Some 8) = os_offers demo_offers (''TR1'', Some 8)
   \<and> fst (accept_offer True 3 ''TR1'' 7 (offer_run [(2, Accept_offer True ''TR1'' 8)]
            (snd (accept_offer True 1 ''TR1'' 7 demo_offers)))) \<noteq> Inr ()"
proof -
  have ok: "fst (accept_offer True 1 ''TR1'' 7 demo_offers) = Inr ()" by (simp add: offer_eval)
  then have "accept_offer True 1 ''TR1'' 7 demo_offers = (Inr (), snd (accept_offer True 1 ''TR1'' 7 demo_offers))"
    by (metis prod.collapse)
  from accepted_once [OF this] have "(\<forall>k. k \<noteq> (''TR1'', Some 7) \<longrightarrow>
      os_offers (snd (accept_offer True 1 ''TR1'' 7 demo_offers)) k = os_offers demo_offers k)"
    and "\<forall>ops up' now'. (\<forall>x \<in> set ops. creates (snd x) \<noteq> Some (''TR1'', 7)) \<longrightarrow>
      fst (accept_offer up' now' ''TR1'' 7 (offer_run ops (snd (accept_offer True 1 ''TR1'' 7 demo_offers)))) \<noteq> Inr ()"
    by blast+
  then show ?thesis using ok by (intro conjI) (auto simp del: offer_run.simps)
qed

end
