(* ===== verification/Ride_Dispatch.thy ===== *)
theory Ride_Dispatch
  imports Ride_Offers
begin

section \<open>Rides, drivers and vehicles\<close>

text \<open>
  Models \<open>app/transport/services/assignment_service.py\<close>, the lifecycle operations of \<open>services/booking_service.py\<close> and the trip
  actions of \<open>api/driver_routes.py\<close>, with the columns of \<open>Booking\<close>, \<open>DriverProfile\<close> and \<open>Vehicle\<close> in \<open>models.py\<close> that they read
  or write.  A guarded \<open>UPDATE\<close> returns its row count; an update that breaks a constraint of the table raises
  \<open>Integrity_error\<close>.  A body that ends in \<open>Inl\<close> is rolled back with everything the caller has written before it.  The clock, the
  reachability of the offer store and the configuration are fields of \<open>ride_env\<close>.  The keys of \<open>booking_metadata\<close> that the
  code uses are fields of \<open>ride_meta\<close>, without the entries that are the same in every row.
  Notifications, metrics and read caches are left out.
\<close>

subsection \<open>Rows\<close>

datatype BookingStatus =
    DRAFT | PENDING_PAYMENT | CONFIRMED | ASSIGNED | DRIVER_EN_ROUTE | PICKUP_ARRIVED | IN_PROGRESS
  | COMPLETED | CANCELLED | NO_SHOW | DISPUTED | NO_MATCH

fun ride_status_value :: "BookingStatus \<Rightarrow> string" where
  "ride_status_value DRAFT = ''draft''"
| "ride_status_value PENDING_PAYMENT = ''pending_payment''"
| "ride_status_value CONFIRMED = ''confirmed''"
| "ride_status_value ASSIGNED = ''assigned''"
| "ride_status_value DRIVER_EN_ROUTE = ''driver_en_route''"
| "ride_status_value PICKUP_ARRIVED = ''pickup_arrived''"
| "ride_status_value IN_PROGRESS = ''in_progress''"
| "ride_status_value COMPLETED = ''completed''"
| "ride_status_value CANCELLED = ''cancelled''"
| "ride_status_value NO_SHOW = ''no_show''"
| "ride_status_value DISPUTED = ''disputed''"
| "ride_status_value NO_MATCH = ''no_match''"

datatype ComplianceStatus = PENDING_REVIEW | UNDER_REVIEW | APPROVED | SUSPENDED | REVOKED | BLACKLISTED

text \<open>Values of the JSON documents of the audit trails; of two entries with one key in an object the later one counts.\<close>

datatype json = JNull | JStr string | JInt int | JBool bool | JMoney money | JTime time

abbreviation jopt :: "('a \<Rightarrow> json) \<Rightarrow> 'a option \<Rightarrow> json" where
  "jopt f v \<equiv> (case v of None \<Rightarrow> JNull | Some x \<Rightarrow> f x)"

type_synonym json_object = "(string \<times> json) list"

record driver_cancellation =
  dc_driver_code :: string
  dc_driver_user_public_id :: "string option"
  dc_stage :: BookingStatus
  dc_reason :: string
  dc_at :: time

record cancellation_note =
  cn_fee :: money
  cn_currency :: string
  cn_tier :: string
  cn_refund_amount_estimate :: money
  cn_initiated_by :: string
  cn_scheduled :: bool
  cn_percentage :: int
  cn_at :: time

record no_show_note =
  ns_fee :: money
  ns_currency :: string
  ns_marked_at :: time
  ns_driver_code :: string
  ns_driver_user_public_id :: "string option"
  ns_driver_credit :: money

record driver_credit =
  cr_driver_code :: string
  cr_driver_user_public_id :: "string option"
  cr_amount :: money
  cr_currency :: string
  cr_reason :: string
  cr_at :: time

record offer_entry =
  oe_driver_id :: int
  oe_vehicle_id :: "int option"
  oe_outcome :: string
  oe_at :: time

record ride_meta =
  rm_booking_mode :: "string option"
  rm_matching_started_at :: "time option"
  rm_no_match_cause :: "string option"
  rm_driver_cancellations :: "driver_cancellation list"
  rm_cancellation :: "cancellation_note option"
  rm_no_show :: "no_show_note option"
  rm_driver_credits :: "driver_credit list"
  rm_offer_attempts :: "offer_entry list"
  rm_completed_by :: "(int \<times> string \<times> int) option"

record ride =
  rd_id :: int
  rd_reference :: string
  rd_user_id :: int
  rd_provider_id :: "int option"
  rd_status :: BookingStatus
  rd_no_match_reason :: "string option"
  rd_driver :: "int option"
  rd_vehicle :: "int option"
  rd_driver_assigned_at :: "time option"
  rd_driver_en_route_at :: "time option"
  rd_driver_arrived_at :: "time option"
  rd_pickup_mode :: "string option"
  rd_pickup_time :: "time option"
  rd_pickup_actual_time :: "time option"
  rd_dropoff_actual_time :: "time option"
  rd_final_price :: money
  rd_currency :: "string option"
  rd_confirmed_at :: "time option"
  rd_completed_at :: "time option"
  rd_cancelled_at :: "time option"
  rd_cancellation_reason :: "string option"
  rd_cancellation_reason_category :: "string option"
  rd_cancellation_safety_flag :: bool
  rd_cancelled_stage :: "BookingStatus option"
  rd_cancellation_initiated_by :: "string option"
  rd_cancellation_fee :: money
  rd_meta :: ride_meta
  rd_audit_log :: "json_object list"
  rd_ride_request_id :: "int option"
  rd_search_cycle_id :: "int option"
  rd_is_deleted :: bool

record driver_profile =
  dr_id :: int
  dr_user_id :: int
  dr_user_public_id :: "string option"
  dr_code :: string
  dr_compliance :: ComplianceStatus
  dr_is_online :: bool
  dr_is_deleted :: bool

record fleet_vehicle =
  fv_id :: int
  fv_status :: string
  fv_is_available :: bool
  fv_is_deleted :: bool

record observation =
  ob_public_id :: string
  ob_entity_type :: string
  ob_public_ref :: string
  ob_observed_at :: time
  ob_is_deleted :: bool

record lifecycle_event =
  le_booking_id :: int
  le_endpoint :: string
  le_event_type :: string
  le_observation :: "string option"
  le_actor_user_id :: int
  le_transition_at :: time
  le_freshness :: string
  le_age :: "int option"
  le_reason :: "string option"
  le_captured_by :: string

record dispatch_audit =
  da_action :: string
  da_resource_id :: int
  da_user_id :: "int option"
  da_details :: json_object

record ride_db =
  dd_rides :: "ride list"
  dd_drivers :: "driver_profile list"
  dd_vehicles :: "fleet_vehicle list"
  dd_observations :: "observation list"
  dd_events :: "lifecycle_event list"
  dd_audit :: "dispatch_audit list"
  dd_offers :: offer_store

record ride_env =
  re_now :: time
  re_redis :: bool
  re_offer_ttl :: int
  re_pool_size :: int
  re_window_seconds :: int
  re_lead_minutes :: int

record ride_actor =
  ac_id :: int
  ac_roles :: "string list"

datatype ride_error =
    Booking_unavailable
  | Driver_unavailable
  | Vehicle_unavailable
  | Unauthorized
  | Invalid_state
  | Not_found_error
  | Permission_error
  | Validation_error
  | Service_unavailable_error
  | Integrity_error

subsection \<open>Status sets and the transition table\<close>

definition ACTIVE_ASSIGNMENT_STATUSES :: "BookingStatus list" where
  "ACTIVE_ASSIGNMENT_STATUSES = [ASSIGNED, DRIVER_EN_ROUTE, PICKUP_ARRIVED, IN_PROGRESS, DISPUTED]"

definition TERMINAL_RELEASE_STATUSES :: "BookingStatus list" where
  "TERMINAL_RELEASE_STATUSES = [COMPLETED, CANCELLED, NO_SHOW]"

definition NO_MATCH_REASONS :: "string list" where
  "NO_MATCH_REASONS = [''no_supply'', ''all_rejected'']"

fun STATUS_TRANSITIONS :: "BookingStatus \<Rightarrow> BookingStatus list" where
  "STATUS_TRANSITIONS DRAFT = [PENDING_PAYMENT, CANCELLED]"
| "STATUS_TRANSITIONS PENDING_PAYMENT = [CONFIRMED, CANCELLED]"
| "STATUS_TRANSITIONS CONFIRMED = [ASSIGNED, NO_MATCH, CANCELLED]"
| "STATUS_TRANSITIONS ASSIGNED = [DRIVER_EN_ROUTE, CANCELLED]"
| "STATUS_TRANSITIONS DRIVER_EN_ROUTE = [PICKUP_ARRIVED, CANCELLED]"
| "STATUS_TRANSITIONS PICKUP_ARRIVED = [IN_PROGRESS, NO_SHOW]"
| "STATUS_TRANSITIONS IN_PROGRESS = [COMPLETED, DISPUTED]"
| "STATUS_TRANSITIONS COMPLETED = []"
| "STATUS_TRANSITIONS CANCELLED = []"
| "STATUS_TRANSITIONS NO_SHOW = []"
| "STATUS_TRANSITIONS DISPUTED = [COMPLETED, CANCELLED]"
| "STATUS_TRANSITIONS NO_MATCH = [CONFIRMED]"

definition ride_can_transition :: "BookingStatus \<Rightarrow> BookingStatus \<Rightarrow> bool" where
  "ride_can_transition cur tgt \<longleftrightarrow> tgt \<in> set (STATUS_TRANSITIONS cur)"

definition allowed_transition_values :: "BookingStatus \<Rightarrow> string list" where
  "allowed_transition_values cur = map ride_status_value (STATUS_TRANSITIONS cur)"

subsection \<open>Guarded updates\<close>

text \<open>The constraint \<open>chk_no_match_reason\<close> and the foreign keys of the two assignment columns.\<close>

definition chk_no_match_reason :: "ride \<Rightarrow> bool" where
  "chk_no_match_reason r \<longleftrightarrow>
     (if rd_status r = NO_MATCH
      then (case rd_no_match_reason r of Some m \<Rightarrow> m \<in> set NO_MATCH_REASONS | None \<Rightarrow> False)
      else rd_no_match_reason r = None)"

definition ride_row_ok :: "ride_db \<Rightarrow> ride \<Rightarrow> bool" where
  "ride_row_ok db r \<longleftrightarrow> chk_no_match_reason r
     \<and> (case rd_driver r of None \<Rightarrow> True | Some d \<Rightarrow> d \<in> dr_id ` set (dd_drivers db))
     \<and> (case rd_vehicle r of None \<Rightarrow> True | Some v \<Rightarrow> v \<in> fv_id ` set (dd_vehicles db))"

definition update_rides :: "(ride \<Rightarrow> bool) \<Rightarrow> (ride \<Rightarrow> ride) \<Rightarrow> ride_db \<Rightarrow> ride_error + nat \<times> ride_db" where
  "update_rides p f db =
     (if list_all (\<lambda>r. p r \<longrightarrow> ride_row_ok db (f r)) (dd_rides db)
      then Inr (length (filter p (dd_rides db)), db\<lparr>dd_rides := update_rows p f (dd_rides db)\<rparr>)
      else Inl Integrity_error)"

definition get_ride :: "ride_db \<Rightarrow> int \<Rightarrow> ride option" where
  "get_ride db i = find (\<lambda>r. rd_id r = i) (dd_rides db)"

definition engaged :: "ride \<Rightarrow> bool" where
  "engaged r \<longleftrightarrow> rd_status r \<in> set ACTIVE_ASSIGNMENT_STATUSES \<and> \<not> rd_is_deleted r"

definition driver_engaged_other :: "ride_db \<Rightarrow> int \<Rightarrow> int \<Rightarrow> bool" where
  "driver_engaged_other db d i \<longleftrightarrow> list_ex (\<lambda>r. rd_driver r = Some d \<and> rd_id r \<noteq> i \<and> engaged r) (dd_rides db)"

definition vehicle_engaged_other :: "ride_db \<Rightarrow> int \<Rightarrow> int \<Rightarrow> bool" where
  "vehicle_engaged_other db v i \<longleftrightarrow> list_ex (\<lambda>r. rd_vehicle r = Some v \<and> rd_id r \<noteq> i \<and> engaged r) (dd_rides db)"

definition add_dispatch_audit :: "string \<Rightarrow> int \<Rightarrow> int option \<Rightarrow> json_object \<Rightarrow> ride_db \<Rightarrow> ride_db" where
  "add_dispatch_audit action i user details db =
     db\<lparr>dd_audit := dd_audit db @ [\<lparr>da_action = action, da_resource_id = i, da_user_id = user, da_details = details\<rparr>]\<rparr>"

subsection \<open>Claim\<close>

record claim_args =
  ca_reference :: string
  ca_driver :: int
  ca_vehicle :: int
  ca_actor :: "ride_actor option"
  ca_force :: bool

definition actor_is_admin :: "ride_actor option \<Rightarrow> bool" where
  "actor_is_admin a =
     (case a of None \<Rightarrow> False | Some x \<Rightarrow> list_ex (\<lambda>n. n \<in> {''admin'', ''super_admin'', ''owner''}) (ac_roles x))"

definition claimable :: "ride \<Rightarrow> bool" where
  "claimable r \<longleftrightarrow> rd_status r = CONFIRMED \<and> rd_driver r = None \<and> rd_vehicle r = None \<and> \<not> rd_is_deleted r"

definition driver_claimable :: "ride_db \<Rightarrow> claim_args \<Rightarrow> int \<Rightarrow> driver_profile \<Rightarrow> bool" where
  "driver_claimable db a i d \<longleftrightarrow> dr_id d = ca_driver a \<and> \<not> dr_is_deleted d \<and> dr_compliance d = APPROVED
     \<and> (dr_is_online d \<or> ca_force a) \<and> \<not> driver_engaged_other db (ca_driver a) i"

definition vehicle_claimable :: "ride_db \<Rightarrow> claim_args \<Rightarrow> int \<Rightarrow> fleet_vehicle \<Rightarrow> bool" where
  "vehicle_claimable db a i v \<longleftrightarrow> fv_id v = ca_vehicle a \<and> \<not> fv_is_deleted v \<and> fv_status v = ''active''
     \<and> (fv_is_available v \<or> ca_force a) \<and> \<not> vehicle_engaged_other db (ca_vehicle a) i"

text \<open>The claim in the transaction of its caller (\<open>commit=False\<close>); it returns the key of the booking.\<close>

definition claim_staged :: "ride_env \<Rightarrow> claim_args \<Rightarrow> ride_db \<Rightarrow> ride_error + int \<times> ride_db" where
  "claim_staged env a db =
     (if ca_force a \<and> \<not> actor_is_admin (ca_actor a) then Inl Unauthorized
      else case find (\<lambda>r. rd_reference r = ca_reference a) (dd_rides db) of
        None \<Rightarrow> Inl Booking_unavailable
      | Some b \<Rightarrow>
          if \<not> list_ex (\<lambda>d. dr_id d = ca_driver a) (dd_drivers db) then Inl Driver_unavailable
          else rbind (update_rides (\<lambda>r. rd_id r = rd_id b \<and> claimable r)
                        (\<lambda>r. r\<lparr>rd_status := ASSIGNED, rd_driver := Some (ca_driver a), rd_vehicle := Some (ca_vehicle a),
                                rd_driver_assigned_at := Some (re_now env)\<rparr>) db) (\<lambda>(n, db1).
            if n \<noteq> 1 then Inl Booking_unavailable
            else if \<not> list_ex (driver_claimable db1 a (rd_id b)) (dd_drivers db1) then Inl Driver_unavailable
            else if length (filter (vehicle_claimable db1 a (rd_id b)) (dd_vehicles db1)) \<noteq> 1 then Inl Vehicle_unavailable
            else Inr (rd_id b,
              add_dispatch_audit ''dispatch_claim'' (rd_id b) (map_option ac_id (ca_actor a))
                [(''booking_reference'', JStr (ca_reference a)), (''driver_id'', JInt (ca_driver a)),
                 (''vehicle_id'', JInt (ca_vehicle a)), (''force'', JBool (ca_force a))]
                (db1\<lparr>dd_vehicles := update_rows (vehicle_claimable db1 a (rd_id b)) (\<lambda>v. v\<lparr>fv_is_available := False\<rparr>)
                                       (dd_vehicles db1)\<rparr>))))"

text \<open>The claim that commits, then clears the driver's offer.\<close>

definition claim :: "ride_env \<Rightarrow> claim_args \<Rightarrow> ride_db \<Rightarrow> (ride_error + int) \<times> ride_db" where
  "claim env a db =
     (case claim_staged env a db of
        Inl e \<Rightarrow> (Inl e, db)
      | Inr (i, db') \<Rightarrow>
          (Inr i, db'\<lparr>dd_offers := cleanup_offer (re_redis env) (ca_reference a) (Some (ca_driver a)) (dd_offers db')\<rparr>))"

subsection \<open>Release\<close>

text \<open>The closest observation of a driver that is not after the transition, and the event that refers to it.\<close>

definition closest_observation :: "ride_db \<Rightarrow> string \<Rightarrow> time \<Rightarrow> observation option" where
  "closest_observation db code now =
     (case sort_key (\<lambda>ob. - ob_observed_at ob)
             (filter (\<lambda>ob. ob_entity_type ob = ''driver'' \<and> ob_public_ref ob = code \<and> \<not> ob_is_deleted ob
                         \<and> ob_observed_at ob \<le> now) (dd_observations db)) of
        [] \<Rightarrow> None | ob # _ \<Rightarrow> Some ob)"

definition actual_event :: "ride_db \<Rightarrow> time \<Rightarrow> int \<Rightarrow> string \<Rightarrow> string \<Rightarrow> string \<Rightarrow> driver_profile \<Rightarrow> lifecycle_event" where
  "actual_event db now i endpoint ty captured_by drv =
     (let ob = closest_observation db (dr_code drv) now;
          age = map_option (\<lambda>ob. now - ob_observed_at ob) ob;
          fresh = (case age of None \<Rightarrow> ''missing'' | Some a \<Rightarrow> if a \<le> 120 * 1000000 then ''fresh'' else ''stale'')
      in \<lparr>le_booking_id = i, le_endpoint = endpoint, le_event_type = ty, le_observation = map_option ob_public_id ob,
          le_actor_user_id = dr_user_id drv, le_transition_at = now, le_freshness = fresh, le_age = age,
          le_reason = (if fresh = ''missing'' then Some ''no_observation''
                       else if fresh = ''fresh'' then None else Some ''stale_beyond_threshold''),
          le_captured_by = captured_by\<rparr>)"

definition capture_actual_end :: "ride_env \<Rightarrow> int \<Rightarrow> int option \<Rightarrow> ride_db \<Rightarrow> ride_db" where
  "capture_actual_end env i d db =
     (case d of
        None \<Rightarrow> db
      | Some d \<Rightarrow>
          if d = 0 then db
          else case find (\<lambda>p. dr_id p = d) (dd_drivers db) of
            None \<Rightarrow> db
          | Some drv \<Rightarrow>
              if dr_code drv = [] then db
              else db\<lparr>dd_events := dd_events db @
                        [actual_event db (re_now env) i ''dropoff'' ''ACTUAL_END'' ''assignment_service_release'' drv]\<rparr>)"

text \<open>A vehicle is freed unless another running ride has it.\<close>

definition free_vehicle :: "int option \<Rightarrow> int \<Rightarrow> ride_db \<Rightarrow> ride_db" where
  "free_vehicle v i db =
     (case v of
        None \<Rightarrow> db
      | Some v \<Rightarrow> db\<lparr>dd_vehicles := update_rows (\<lambda>x. fv_id x = v \<and> \<not> fv_is_available x \<and> \<not> fv_is_deleted x
                                                       \<and> \<not> vehicle_engaged_other db v i)
                                       (\<lambda>x. x\<lparr>fv_is_available := True\<rparr>) (dd_vehicles db)\<rparr>)"

record release_args =
  ra_status :: BookingStatus
  ra_actor :: "ride_actor option"
  ra_reason :: "string option"
  ra_extra :: json_object

definition release_body :: "ride_env \<Rightarrow> int \<Rightarrow> release_args \<Rightarrow> ride_db \<Rightarrow> ride_error + bool \<times> ride_db" where
  "release_body env i a db =
     (if ra_status a \<notin> set TERMINAL_RELEASE_STATUSES then Inl Invalid_state
      else case get_ride db i of
        None \<Rightarrow> Inl Booking_unavailable
      | Some row \<Rightarrow>
          let assigned = (rd_driver row \<noteq> None \<or> rd_vehicle row \<noteq> None) in
          rbind (if assigned
                 then rbind (update_rides (\<lambda>r. rd_id r = i \<and> engaged r)
                               (\<lambda>r. r\<lparr>rd_status := ra_status a, rd_driver := None, rd_vehicle := None\<rparr>) db) (\<lambda>(n, db1).
                   if n \<noteq> 1 then Inl Invalid_state
                   else let db2 = (if ra_status a = COMPLETED then capture_actual_end env i (rd_driver row) db1 else db1)
                        in Inr (free_vehicle (rd_vehicle row) i db2))
                 else rbind (update_rides (\<lambda>r. rd_id r = i \<and> \<not> rd_is_deleted r) (\<lambda>r. r\<lparr>rd_status := ra_status a\<rparr>) db)
                   (\<lambda>(n, db1). if n \<noteq> 1 then Inl Invalid_state else Inr db1))
            (\<lambda>db3. Inr (assigned,
               let db4 = add_dispatch_audit ''dispatch_release'' i (map_option ac_id (ra_actor a))
                           ([(''status'', JStr (ride_status_value (ra_status a))), (''reason'', jopt JStr (ra_reason a))]
                            @ ra_extra a) db3
               in db4\<lparr>dd_offers := cleanup_offer (re_redis env) (rd_reference row) None (dd_offers db4)\<rparr>)))"

definition release :: "ride_env \<Rightarrow> int \<Rightarrow> release_args \<Rightarrow> ride_db \<Rightarrow> (ride_error + bool) \<times> ride_db" where
  "release env i a = atomic (release_body env i a)"

subsection \<open>Release to no match\<close>

definition DRIVER_CANCELLABLE :: "BookingStatus list" where
  "DRIVER_CANCELLABLE = [ASSIGNED, DRIVER_EN_ROUTE, PICKUP_ARRIVED]"

text \<open>The result says whether the call released the ride or replayed an earlier close.\<close>

definition release_to_no_match_body ::
  "ride_env \<Rightarrow> int \<Rightarrow> string \<Rightarrow> ride_actor option \<Rightarrow> json_object \<Rightarrow> ride_db \<Rightarrow> ride_error + bool \<times> ride_db" where
  "release_to_no_match_body env i reason actor extra db =
     (if reason \<notin> set NO_MATCH_REASONS then Inl Invalid_state
      else case get_ride db i of
        None \<Rightarrow> Inl Booking_unavailable
      | Some row \<Rightarrow>
          if rd_status row = NO_MATCH then Inr (False, db)
          else if rd_driver row = None \<and> rd_vehicle row = None then Inl Invalid_state
          else if rd_status row \<notin> set DRIVER_CANCELLABLE then Inl Invalid_state
          else rbind (update_rides (\<lambda>r. rd_id r = i \<and> rd_status r \<in> set DRIVER_CANCELLABLE \<and> \<not> rd_is_deleted r)
                        (\<lambda>r. r\<lparr>rd_status := NO_MATCH, rd_no_match_reason := Some reason, rd_driver := None, rd_vehicle := None,
                                rd_driver_assigned_at := None, rd_driver_en_route_at := None, rd_driver_arrived_at := None\<rparr>) db)
                 (\<lambda>(n, db1).
            if n \<noteq> 1 then Inl Invalid_state
            else let db2 = add_dispatch_audit ''dispatch_release'' i (map_option ac_id actor)
                             ([(''status'', JStr ''no_match''), (''reason'', JStr reason), (''cancelled_by'', JStr ''driver'')]
                              @ extra) (free_vehicle (rd_vehicle row) i db1)
                 in Inr (True, db2\<lparr>dd_offers := cleanup_offer (re_redis env) (rd_reference row) None (dd_offers db2)\<rparr>)))"

subsection \<open>Cancellation policy\<close>

text \<open>\<open>_money\<close> rounds with the default mode of \<open>quantize\<close>.\<close>

abbreviation ride_money :: "money \<Rightarrow> money" where
  "ride_money \<equiv> cents round_half_even"

definition ride_booking_mode :: "ride \<Rightarrow> string" where
  "ride_booking_mode r = (case rm_booking_mode (rd_meta r) of None \<Rightarrow> [] | Some m \<Rightarrow> str_lower (str_strip m))"

definition booking_currency_code :: "ride \<Rightarrow> string" where
  "booking_currency_code r =
     str_upper (str_strip (case rd_currency r of Some c \<Rightarrow> if c = [] then ''UGX'' else c | None \<Rightarrow> ''UGX''))"

record fee_policy =
  fp_scheduled :: bool
  fp_fee :: money
  fp_tier :: string
  fp_percentage :: int
  fp_cap :: money

abbreviation no_fee :: "bool \<Rightarrow> string \<Rightarrow> fee_policy" where
  "no_fee scheduled tier \<equiv> \<lparr>fp_scheduled = scheduled, fp_fee = 0, fp_tier = tier, fp_percentage = 0, fp_cap = 0\<rparr>"

abbreviation minutes :: "int \<Rightarrow> int" where
  "minutes n \<equiv> n * 60 * 1000000"

definition ride_cancellation_policy :: "ride \<Rightarrow> time \<Rightarrow> fee_policy" where
  "ride_cancellation_policy r now =
     (if ride_booking_mode r \<noteq> ''scheduled'' then no_fee False ''not_scheduled''
      else case rd_pickup_time r of
        None \<Rightarrow> no_fee True ''unreleased_pickup''
      | Some pickup \<Rightarrow>
          let fare = max 0 (ride_money (rd_final_price r)); delta = pickup - now in
          if delta > minutes 60 then no_fee True ''more_than_1h''
          else let pct = (if delta \<ge> minutes 15 then 20 else 40);
                   cap = (if delta \<ge> minutes 15 then 10000 else 20000);
                   fee = min (min (ride_money (fare * of_int pct / 100)) cap) fare
               in \<lparr>fp_scheduled = True, fp_fee = ride_money fee, fp_tier = (if pct = 20 then ''15m_to_1h'' else ''under_15m''),
                   fp_percentage = pct, fp_cap = cap\<rparr>)"

definition calculate_no_show_fee :: "ride \<Rightarrow> money" where
  "calculate_no_show_fee r =
     (let fare = max 0 (ride_money (rd_final_price r)) in
      ride_money (min (min (ride_money (fare * 4 / 10)) 20000) fare))"

definition append_driver_credit :: "driver_profile \<Rightarrow> money \<Rightarrow> string \<Rightarrow> string \<Rightarrow> time \<Rightarrow> ride_meta \<Rightarrow> ride_meta" where
  "append_driver_credit drv amount cur reason now m =
     (let credit = ride_money amount in
      if credit \<le> 0 then m
      else m\<lparr>rm_driver_credits := rm_driver_credits m @
               [\<lparr>cr_driver_code = dr_code drv, cr_driver_user_public_id = dr_user_public_id drv, cr_amount = credit,
                 cr_currency = cur, cr_reason = reason, cr_at = now\<rparr>]\<rparr>)"

subsection \<open>Transitions of a ride\<close>

text \<open>Attributes that the ORM writes on a loaded row; the constraints are checked when the row is flushed.\<close>

definition set_ride :: "int \<Rightarrow> (ride \<Rightarrow> ride) \<Rightarrow> ride_db \<Rightarrow> ride_error + ride_db" where
  "set_ride i f db = rbind (update_rides (\<lambda>r. rd_id r = i) f db) (\<lambda>(n, db'). Inr db')"

definition live_ride :: "ride_db \<Rightarrow> int \<Rightarrow> ride_error + ride" where
  "live_ride db i =
     (case get_ride db i of Some r \<Rightarrow> if rd_is_deleted r then Inl Not_found_error else Inr r | None \<Rightarrow> Inl Not_found_error)"

definition terminal_fields :: "time \<Rightarrow> BookingStatus \<Rightarrow> string option \<Rightarrow> string \<Rightarrow> ride \<Rightarrow> ride" where
  "terminal_fields now tgt reason by_whom r =
     (if tgt = COMPLETED then r\<lparr>rd_completed_at := Some now\<rparr>
      else if tgt = CANCELLED
      then r\<lparr>rd_cancelled_at := Some now,
             rd_cancellation_reason := Some (case reason of Some x \<Rightarrow> x | None \<Rightarrow> ''admin_action''),
             rd_cancellation_initiated_by := Some by_whom\<rparr>
      else r)"

definition stamp_matching_window_start :: "time \<Rightarrow> ride \<Rightarrow> ride" where
  "stamp_matching_window_start now r = r\<lparr>rd_meta := (rd_meta r)\<lparr>rm_matching_started_at := Some now\<rparr>\<rparr>"

definition matching_window_start :: "ride \<Rightarrow> time option" where
  "matching_window_start r =
     (case rm_matching_started_at (rd_meta r) of Some t \<Rightarrow> Some t | None \<Rightarrow> rd_confirmed_at r)"

definition log_ride :: "json_object \<Rightarrow> ride \<Rightarrow> ride" where
  "log_ride item r = r\<lparr>rd_audit_log := rd_audit_log r @ [item]\<rparr>"

definition status_item :: "string \<Rightarrow> BookingStatus \<Rightarrow> BookingStatus \<Rightarrow> time \<Rightarrow> json_object \<Rightarrow> json_object" where
  "status_item action old new now rest =
     [(''action'', JStr action), (''from'', JStr (ride_status_value old)), (''to'', JStr (ride_status_value new)),
      (''at'', JTime now)] @ rest"

record transition_args =
  tr_reason :: "string option"
  tr_initiated_by :: string
  tr_actor :: "ride_actor option"

definition transition_status_body ::
  "ride_env \<Rightarrow> int \<Rightarrow> BookingStatus \<Rightarrow> transition_args \<Rightarrow> ride_db \<Rightarrow> ride_error + bool option \<times> ride_db" where
  "transition_status_body env i tgt a db =
     rbind (live_ride db i) (\<lambda>b.
     if \<not> ride_can_transition (rd_status b) tgt then Inl Validation_error
     else if tgt \<in> set TERMINAL_RELEASE_STATUSES \<and> (rd_driver b \<noteq> None \<or> rd_vehicle b \<noteq> None)
     then rbind (set_ride i (terminal_fields (re_now env) tgt (tr_reason a) (tr_initiated_by a)) db) (\<lambda>db1.
          rbind (release_body env i
                   \<lparr>ra_status = tgt, ra_actor = tr_actor a, ra_reason = tr_reason a,
                     ra_extra = [(''from'', JStr (ride_status_value (rd_status b)))]\<rparr> db1)
                (\<lambda>(res, db2). Inr (Some res, db2)))
     else let f = (\<lambda>r. log_ride (status_item ''status_changed'' (rd_status b) tgt (re_now env) [(''reason'', jopt JStr (tr_reason a))])
                     (let r1 = r\<lparr>rd_status := tgt\<rparr> in
                      if tgt = CONFIRMED
                      then stamp_matching_window_start (re_now env) (r1\<lparr>rd_confirmed_at := Some (re_now env)\<rparr>)
                      else terminal_fields (re_now env) tgt (tr_reason a) (tr_initiated_by a) r1))
          in case set_ride i f db of Inl _ \<Rightarrow> Inl Service_unavailable_error | Inr db' \<Rightarrow> Inr (None, db'))"

definition transition_status ::
  "ride_env \<Rightarrow> int \<Rightarrow> BookingStatus \<Rightarrow> transition_args \<Rightarrow> ride_db \<Rightarrow> (ride_error + bool option) \<times> ride_db" where
  "transition_status env i tgt a = atomic (transition_status_body env i tgt a)"

subsection \<open>Cancelling a ride\<close>

definition SAFETY_CATEGORIES :: "string list" where
  "SAFETY_CATEGORIES = [''driver_vehicle_mismatch'', ''driver_identity_mismatch'', ''safety_concern'',
     ''driver_requested_cancel'', ''unexpected_driver_behaviour'']"

definition PRE_ASSIGNMENT_STATUSES :: "BookingStatus list" where
  "PRE_ASSIGNMENT_STATUSES = [PENDING_PAYMENT, CONFIRMED]"

record cancel_args =
  cx_reason :: "string option"
  cx_reason_category :: "string option"
  cx_safety_flag :: bool

record cancel_terms =
  ct_fee :: money
  ct_tier :: string
  ct_refund :: money
  ct_initiated_by :: string
  ct_safety :: bool
  ct_percentage :: int

definition cancel_terms_of :: "ride_env \<Rightarrow> int \<Rightarrow> cancel_args \<Rightarrow> ride \<Rightarrow> cancel_terms" where
  "cancel_terms_of env u a b =
     (let safety = (case cx_reason_category a of None \<Rightarrow> False | Some c \<Rightarrow> str_lower c \<in> set SAFETY_CATEGORIES);
          rider = (rd_user_id b = u);
          pol = ride_cancellation_policy b (re_now env);
          fee = (if safety \<or> \<not> rider then 0 else fp_fee pol)
      in \<lparr>ct_fee = fee,
          ct_tier = (if safety then ''safety'' else if rider then fp_tier pol else ''non_rider''),
          ct_refund = ride_money (max 0 (ride_money (rd_final_price b) - fee)),
          ct_initiated_by = (if rider then ''rider'' else ''admin''),
          ct_safety = (cx_safety_flag a \<or> safety),
          ct_percentage = (if safety \<or> \<not> rider then 0 else fp_percentage pol)\<rparr>)"

text \<open>The credit of the assigned driver, if there is a fee and the driver's profile is found.\<close>

definition cancel_credit :: "ride_db \<Rightarrow> int \<Rightarrow> cancel_terms \<Rightarrow> ride \<Rightarrow> (driver_profile \<times> money) option" where
  "cancel_credit db u t b =
     (if rd_user_id b = u \<and> ct_fee t > 0
      then case rd_driver b of
        None \<Rightarrow> None
      | Some d \<Rightarrow> if d = 0 then None
                  else map_option (\<lambda>drv. (drv, ride_money (ct_fee t * 8 / 10))) (find (\<lambda>p. dr_id p = d) (dd_drivers db))
      else None)"

definition cancelled_row :: "ride_env \<Rightarrow> int \<Rightarrow> cancel_args \<Rightarrow> ride_db \<Rightarrow> ride \<Rightarrow> ride \<Rightarrow> ride" where
  "cancelled_row env u a db b r =
     (let t = cancel_terms_of env u a b;
          note = \<lparr>cn_fee = ct_fee t, cn_currency = booking_currency_code b, cn_tier = ct_tier t,
                   cn_refund_amount_estimate = ct_refund t, cn_initiated_by = ct_initiated_by t,
                   cn_scheduled = fp_scheduled (ride_cancellation_policy b (re_now env)),
                   cn_percentage = ct_percentage t, cn_at = re_now env\<rparr>;
          m = (rd_meta b)\<lparr>rm_cancellation := Some note\<rparr>
      in r\<lparr>rd_cancelled_at := Some (re_now env), rd_cancellation_reason := cx_reason a,
           rd_cancellation_reason_category := cx_reason_category a, rd_cancellation_safety_flag := ct_safety t,
           rd_cancelled_stage := Some (rd_status b), rd_cancellation_fee := ct_fee t,
           rd_cancellation_initiated_by := Some (ct_initiated_by t),
           rd_meta := (case cancel_credit db u t b of
                         None \<Rightarrow> m
                       | Some (drv, c) \<Rightarrow>
                           append_driver_credit drv c (booking_currency_code b) ''late_cancellation'' (re_now env) m)\<rparr>)"

definition cancel_audit :: "ride_env \<Rightarrow> int \<Rightarrow> cancel_args \<Rightarrow> ride_db \<Rightarrow> ride \<Rightarrow> json_object" where
  "cancel_audit env u a db b =
     (let t = cancel_terms_of env u a b in
      [(''booking_reference'', JStr (rd_reference b)), (''fee'', JMoney (ct_fee t)),
       (''currency'', JStr (booking_currency_code b)), (''tier'', JStr (ct_tier t)),
       (''scheduled'', JBool (fp_scheduled (ride_cancellation_policy b (re_now env)))),
       (''recorded_uncollected'', JBool True), (''initiated_by'', JStr (ct_initiated_by t)),
       (''safety'', JBool (ct_safety t)),
       (''driver_credit'', JMoney (case cancel_credit db u t b of None \<Rightarrow> 0 | Some (drv, c) \<Rightarrow> c))])"

definition cancel_release :: "ride_env \<Rightarrow> int \<Rightarrow> cancel_args \<Rightarrow> ride_db \<Rightarrow> ride \<Rightarrow> release_args" where
  "cancel_release env u a db b =
     (let t = cancel_terms_of env u a b in
      \<lparr>ra_status = CANCELLED, ra_actor = None, ra_reason = cx_reason a,
       ra_extra = [(''from'', JStr (ride_status_value (rd_status b))),
         (''reason_category'', jopt JStr (cx_reason_category a)), (''safety_flag'', JBool (ct_safety t)),
         (''cancelled_by'', JStr (ct_initiated_by t)), (''cancellation_fee'', JMoney (ct_fee t)),
         (''fee_tier'', JStr (ct_tier t)),
         (''driver_credit'', JMoney (case cancel_credit db u t b of None \<Rightarrow> 0 | Some (drv, c) \<Rightarrow> c))]\<rparr>)"

text \<open>\<open>except DispatchClaimError as e: raise ValidationError(e.message)\<close>\<close>

definition claim_as_validation :: "ride_error \<Rightarrow> ride_error" where
  "claim_as_validation e =
     (if e \<in> {Booking_unavailable, Driver_unavailable, Vehicle_unavailable, Unauthorized, Invalid_state}
      then Validation_error else e)"

definition cancel_booking_body :: "ride_env \<Rightarrow> int \<Rightarrow> int \<Rightarrow> cancel_args \<Rightarrow> ride_db \<Rightarrow> ride_error + cancel_terms \<times> ride_db" where
  "cancel_booking_body env i u a db =
     (case get_ride db i of
        None \<Rightarrow> Inl Not_found_error
      | Some b \<Rightarrow>
          if rd_user_id b \<noteq> u \<and> rd_driver b \<noteq> Some u \<and> rd_provider_id b \<noteq> Some u then Inl Permission_error
          else if rd_is_deleted b then Inl Not_found_error
          else if rd_status b \<notin> set (PRE_ASSIGNMENT_STATUSES @ DRIVER_CANCELLABLE) then Inl Validation_error
          else
            let t = cancel_terms_of env u a b;
                audit = add_dispatch_audit ''booking_cancellation_fee_recorded'' i (Some u) (cancel_audit env u a db b)
            in if rd_status b \<in> set PRE_ASSIGNMENT_STATUSES
               then rbind (update_rides
                             (\<lambda>r. rd_id r = i \<and> rd_status r \<in> set PRE_ASSIGNMENT_STATUSES \<and> \<not> rd_is_deleted r)
                             (\<lambda>r. (cancelled_row env u a db b r)\<lparr>rd_status := CANCELLED\<rparr>) db) (\<lambda>(n, db1).
                    if n \<noteq> 1 then Inl Validation_error else Inr (t, audit db1))
               else rbind (set_ride i (cancelled_row env u a db b) db) (\<lambda>db1.
                    rbind (map_sum claim_as_validation id (release_body env i (cancel_release env u a db b) (audit db1)))
                      (\<lambda>(_, db2). Inr (t, db2))))"

text \<open>A broken constraint is a database error, which the service reports as unavailable.\<close>

definition service_error :: "ride_error \<Rightarrow> ride_error" where
  "service_error e = (if e = Integrity_error then Service_unavailable_error else e)"

definition ride_atomic :: "(ride_db \<Rightarrow> ride_error + 'a \<times> ride_db) \<Rightarrow> ride_db \<Rightarrow> (ride_error + 'a) \<times> ride_db" where
  "ride_atomic body db = (case body db of Inl e \<Rightarrow> (Inl (service_error e), db) | Inr (x, db') \<Rightarrow> (Inr x, db'))"

definition cancel_booking :: "ride_env \<Rightarrow> int \<Rightarrow> int \<Rightarrow> cancel_args \<Rightarrow> ride_db \<Rightarrow> (ride_error + cancel_terms) \<times> ride_db" where
  "cancel_booking env i u a = ride_atomic (cancel_booking_body env i u a)"

subsection \<open>No-show and cancellation by the driver\<close>

definition find_driver :: "ride_db \<Rightarrow> int \<Rightarrow> driver_profile option" where
  "find_driver db u = find (\<lambda>d. dr_user_id d = u \<and> \<not> dr_is_deleted d) (dd_drivers db)"

definition no_show_row :: "ride_env \<Rightarrow> driver_profile \<Rightarrow> string option \<Rightarrow> ride \<Rightarrow> ride \<Rightarrow> ride" where
  "no_show_row env drv reason b r =
     (let fee = calculate_no_show_fee b; cur = booking_currency_code b;
          note = \<lparr>ns_fee = fee, ns_currency = cur, ns_marked_at = re_now env, ns_driver_code = dr_code drv,
                   ns_driver_user_public_id = dr_user_public_id drv, ns_driver_credit = fee\<rparr>
      in r\<lparr>rd_cancellation_fee := fee,
           rd_cancellation_reason := Some (case reason of Some x \<Rightarrow> if x = [] then ''rider_no_show'' else x | None \<Rightarrow> ''rider_no_show''),
           rd_cancellation_reason_category := Some ''rider_no_show'', rd_cancellation_safety_flag := False,
           rd_cancelled_stage := Some PICKUP_ARRIVED, rd_cancellation_initiated_by := Some ''driver'',
           rd_meta := append_driver_credit drv fee cur ''no_show'' (re_now env) ((rd_meta b)\<lparr>rm_no_show := Some note\<rparr>)\<rparr>)"

text \<open>The result says whether the call replays a recorded no-show.\<close>

definition mark_no_show_body :: "ride_env \<Rightarrow> int \<Rightarrow> int \<Rightarrow> string option \<Rightarrow> ride_db \<Rightarrow> ride_error + bool \<times> ride_db" where
  "mark_no_show_body env i u reason db =
     rbind (live_ride db i) (\<lambda>b.
     case find_driver db u of
       None \<Rightarrow> Inl Permission_error
     | Some drv \<Rightarrow>
         if rd_status b = NO_SHOW
         then if map_option ns_driver_code (rm_no_show (rd_meta b)) \<noteq> Some (dr_code drv) then Inl Permission_error
              else Inr (True, db)
         else if rd_driver b \<noteq> Some (dr_id drv) then Inl Permission_error
         else if rd_status b \<noteq> PICKUP_ARRIVED then Inl Validation_error
         else if ride_booking_mode b \<noteq> ''scheduled'' then Inl Validation_error
         else case rd_pickup_time b of
           None \<Rightarrow> Inl Validation_error
         | Some pickup \<Rightarrow>
             if re_now env < pickup + minutes 15 then Inl Validation_error
             else rbind (set_ride i (no_show_row env drv reason b) db) (\<lambda>db1.
               rbind (map_sum claim_as_validation id (transition_status_body env i NO_SHOW
                      \<lparr>tr_reason = Some (case reason of Some x \<Rightarrow> if x = [] then ''rider_no_show'' else x | None \<Rightarrow> ''rider_no_show''),
                        tr_initiated_by = ''driver'', tr_actor = None\<rparr>
                      (add_dispatch_audit ''booking_no_show_recorded'' i (Some u)
                         [(''booking_reference'', JStr (rd_reference b)), (''fee'', JMoney (calculate_no_show_fee b)),
                          (''currency'', JStr (booking_currency_code b)), (''driver_credit'', JMoney (calculate_no_show_fee b)),
                          (''recorded_uncollected'', JBool True), (''driver_code'', JStr (dr_code drv)),
                          (''driver_user_public_id'', jopt JStr (dr_user_public_id drv))] db1)))
                 (\<lambda>(_, db2). Inr (False, db2))))"

definition mark_no_show :: "ride_env \<Rightarrow> int \<Rightarrow> int \<Rightarrow> string option \<Rightarrow> ride_db \<Rightarrow> (ride_error + bool) \<times> ride_db" where
  "mark_no_show env i u reason = ride_atomic (mark_no_show_body env i u reason)"

definition driver_cancelled_row :: "ride_env \<Rightarrow> driver_profile \<Rightarrow> string option \<Rightarrow> ride \<Rightarrow> ride \<Rightarrow> ride" where
  "driver_cancelled_row env drv reason b r =
     (let why = (case reason of Some x \<Rightarrow> if x = [] then ''driver_cancelled'' else x | None \<Rightarrow> ''driver_cancelled'');
          rec = \<lparr>dc_driver_code = dr_code drv, dc_driver_user_public_id = dr_user_public_id drv, dc_stage = rd_status b,
                 dc_reason = why, dc_at = re_now env\<rparr>
      in log_ride (status_item ''driver_cancelled_before_start'' (rd_status b) NO_MATCH (re_now env)
                     [(''reason'', JStr why), (''driver_code'', JStr (dr_code drv)),
                      (''driver_user_public_id'', jopt JStr (dr_user_public_id drv))])
           (r\<lparr>rd_meta := (rd_meta b)\<lparr>rm_no_match_cause := Some ''driver_cancelled'',
                                       rm_driver_cancellations := rm_driver_cancellations (rd_meta b) @ [rec]\<rparr>\<rparr>))"

definition driver_cancel_body :: "ride_env \<Rightarrow> int \<Rightarrow> int \<Rightarrow> string option \<Rightarrow> ride_db \<Rightarrow> ride_error + bool \<times> ride_db" where
  "driver_cancel_body env i u reason db =
     rbind (live_ride db i) (\<lambda>b.
     case find_driver db u of
       None \<Rightarrow> Inl Permission_error
     | Some drv \<Rightarrow>
         if rd_status b = NO_MATCH
         then if rm_no_match_cause (rd_meta b) \<noteq> Some ''driver_cancelled'' then Inl Validation_error
              else if rm_driver_cancellations (rd_meta b) = []
                      \<or> dc_driver_code (last (rm_driver_cancellations (rd_meta b))) \<noteq> dr_code drv then Inl Permission_error
              else Inr (True, db)
         else if rd_status b \<notin> set DRIVER_CANCELLABLE then Inl Validation_error
         else if rd_driver b \<noteq> Some (dr_id drv) then Inl Permission_error
         else rbind (set_ride i (driver_cancelled_row env drv reason b) db) (\<lambda>db1.
           rbind (map_sum claim_as_validation id (release_to_no_match_body env i ''all_rejected'' None
                  [(''from'', JStr (ride_status_value (rd_status b))), (''cancelled_by'', JStr ''driver''),
                   (''driver_code'', JStr (dr_code drv)), (''driver_user_public_id'', jopt JStr (dr_user_public_id drv))] db1))
             (\<lambda>(_, db2). Inr (False, db2))))"

definition driver_cancel :: "ride_env \<Rightarrow> int \<Rightarrow> int \<Rightarrow> string option \<Rightarrow> ride_db \<Rightarrow> (ride_error + bool) \<times> ride_db" where
  "driver_cancel env i u reason = ride_atomic (driver_cancel_body env i u reason)"

subsection \<open>The end of matching and its retry\<close>

definition mark_no_match_body :: "ride_env \<Rightarrow> int \<Rightarrow> string \<Rightarrow> string \<Rightarrow> ride_db \<Rightarrow> ride_error + bool \<times> ride_db" where
  "mark_no_match_body env i reason by_whom db =
     (if reason \<notin> set NO_MATCH_REASONS then Inl Validation_error
      else rbind (live_ride db i) (\<lambda>b.
      if rd_status b = NO_MATCH then Inr (True, db)
      else if rd_status b \<noteq> CONFIRMED then Inl Validation_error
      else if rd_driver b \<noteq> None \<or> rd_vehicle b \<noteq> None then Inl Validation_error
      else rbind (update_rides (\<lambda>r. rd_id r = i \<and> claimable r)
                    (\<lambda>r. r\<lparr>rd_status := NO_MATCH, rd_no_match_reason := Some reason\<rparr>) db) (\<lambda>(n, db1).
        if n \<noteq> 1 then Inl Validation_error
        else rbind (set_ride i (log_ride (status_item ''marked_no_match'' (rd_status b) NO_MATCH (re_now env)
                      [(''reason'', JStr reason), (''initiated_by'', JStr by_whom)])) db1)
             (\<lambda>db2. Inr (False, db2)))))"

definition mark_no_match :: "ride_env \<Rightarrow> int \<Rightarrow> string \<Rightarrow> string \<Rightarrow> ride_db \<Rightarrow> (ride_error + bool) \<times> ride_db" where
  "mark_no_match env i reason by_whom = ride_atomic (mark_no_match_body env i reason by_whom)"

text \<open>The transaction of \<open>retry_matching\<close>; the offers that follow it are in the theory of matching.\<close>

definition reopened_row :: "ride_env \<Rightarrow> ride \<Rightarrow> ride" where
  "reopened_row env r =
     log_ride (status_item ''retry_matching'' NO_MATCH CONFIRMED (re_now env)
                 [(''reason'', JStr ''rider_retry''), (''initiated_by'', JStr ''rider'')])
       (stamp_matching_window_start (re_now env)
          (r\<lparr>rd_status := CONFIRMED, rd_no_match_reason := None, rd_meta := (rd_meta r)\<lparr>rm_no_match_cause := None\<rparr>\<rparr>))"

definition reopen_body :: "ride_env \<Rightarrow> int \<Rightarrow> int \<Rightarrow> ride_db \<Rightarrow> ride_error + unit \<times> ride_db" where
  "reopen_body env i u db =
     rbind (live_ride db i) (\<lambda>b.
     if rd_user_id b \<noteq> u then Inl Permission_error
     else if rd_status b \<noteq> NO_MATCH then Inl Validation_error
     else rbind (set_ride i (reopened_row env) db) (\<lambda>db'. Inr ((), db')))"

subsection \<open>Actions of the driver\<close>

text \<open>
  The table of trip actions: the expected and the target status.  The action \<open>complete\<close> goes through the release, the
  actions \<open>no_show\<close> and \<open>cancel\<close> through their services; the others are guarded updates.  The route checks that the
  driver is assigned to the ride.  The settlement of the fare that follows a completed trip is the subject of the theory of
  marketplace invoices.
\<close>

datatype trip_action = En_route | Arrive | Start | Complete | Action_no_show | Action_cancel

definition trip_started :: "ride_env \<Rightarrow> ride \<Rightarrow> driver_profile \<Rightarrow> ride_db \<Rightarrow> ride_db" where
  "trip_started env b drv db =
     (if rd_driver b = None \<or> rd_driver b = Some 0 \<or> dr_code drv = [] then db
      else db\<lparr>dd_events := dd_events db @
                [actual_event db (re_now env) (rd_id b) ''pickup'' ''ACTUAL_START'' ''driver_trip_action_start'' drv]\<rparr>)"

definition advance_trip ::
  "ride_env \<Rightarrow> ride \<Rightarrow> driver_profile \<Rightarrow> BookingStatus \<Rightarrow> (ride \<Rightarrow> ride) \<Rightarrow> ride_db \<Rightarrow> ride_error + bool \<times> ride_db" where
  "advance_trip env b drv expected f db =
     rbind (update_rides (\<lambda>r. rd_id r = rd_id b \<and> rd_driver r = Some (dr_id drv) \<and> rd_status r = expected \<and> \<not> rd_is_deleted r) f db)
       (\<lambda>(n, db1). if n \<noteq> 1 then Inl Invalid_state else Inr (False, db1))"

definition trip_action_body ::
  "ride_env \<Rightarrow> int \<Rightarrow> int \<Rightarrow> ride_actor option \<Rightarrow> trip_action \<Rightarrow> ride_db \<Rightarrow> ride_error + bool \<times> ride_db" where
  "trip_action_body env i u actor act db =
     (case find_driver db u of
        None \<Rightarrow> Inl Permission_error
      | Some drv \<Rightarrow>
          rbind (live_ride db i) (\<lambda>b.
          if rd_driver b \<noteq> Some (dr_id drv) then Inl Permission_error
          else case act of
            En_route \<Rightarrow> advance_trip env b drv ASSIGNED
                          (\<lambda>r. r\<lparr>rd_status := DRIVER_EN_ROUTE, rd_driver_en_route_at := Some (re_now env)\<rparr>) db
          | Arrive \<Rightarrow> advance_trip env b drv DRIVER_EN_ROUTE
                        (\<lambda>r. r\<lparr>rd_status := PICKUP_ARRIVED, rd_driver_arrived_at := Some (re_now env)\<rparr>) db
          | Start \<Rightarrow> advance_trip env b drv PICKUP_ARRIVED
                       (\<lambda>r. r\<lparr>rd_status := IN_PROGRESS, rd_pickup_actual_time := Some (re_now env)\<rparr>) (trip_started env b drv db)
          | Complete \<Rightarrow>
              rbind (set_ride i (\<lambda>r. r\<lparr>rd_completed_at := Some (re_now env), rd_dropoff_actual_time := Some (re_now env),
                        rd_meta := (rd_meta b)\<lparr>rm_completed_by := Some (dr_id drv, dr_code drv, dr_user_id drv)\<rparr>\<rparr>) db) (\<lambda>db1.
              release_body env i \<lparr>ra_status = COMPLETED, ra_actor = actor, ra_reason = None,
                 ra_extra = [(''initiator'', JStr ''driver''), (''action'', JStr ''complete'')]\<rparr> db1)
          | Action_no_show \<Rightarrow> map_sum service_error id (mark_no_show_body env i (dr_user_id drv) None db)
          | Action_cancel \<Rightarrow> map_sum service_error id (driver_cancel_body env i (dr_user_id drv) None db)))"

definition execute_driver_trip_action ::
  "ride_env \<Rightarrow> int \<Rightarrow> int \<Rightarrow> ride_actor option \<Rightarrow> trip_action \<Rightarrow> ride_db \<Rightarrow> (ride_error + bool) \<times> ride_db" where
  "execute_driver_trip_action env i u actor act = atomic (trip_action_body env i u actor act)"

end
