(* ===== verification/Ride_Correct.thy ===== *)
theory Ride_Correct
  imports Ride_Dispatch
begin

section \<open>No driver and no vehicle on two rides\<close>

text \<open>
  The abstract specification of dispatch is a board that says which driver and vehicle serve which ride.  A crew is put on the
  board only if neither its driver nor its vehicle is on it, and crews are taken off.  Every operation on rides refines this
  board, whatever happens in between to the tables of drivers and vehicles.
\<close>

subsection \<open>The board\<close>

type_synonym board = "int \<Rightarrow> (int \<times> int) option"

inductive board_step :: "board \<Rightarrow> board \<Rightarrow> bool" where
  Take: "B i = None \<Longrightarrow> (\<And>j d' v'. B j = Some (d', v') \<Longrightarrow> d' \<noteq> d \<and> v' \<noteq> v) \<Longrightarrow> board_step B (B(i \<mapsto> (d, v)))"
| Drop: "board_step B (B(i := None))"

definition exclusive :: "board \<Rightarrow> bool" where
  "exclusive B \<longleftrightarrow> (\<forall>i j d v d' v'. i \<noteq> j \<longrightarrow> B i = Some (d, v) \<longrightarrow> B j = Some (d', v') \<longrightarrow> d \<noteq> d' \<and> v \<noteq> v')"

lemma board_step_exclusive: "board_step B B' \<Longrightarrow> exclusive B \<Longrightarrow> exclusive B'"
proof (induction rule: board_step.induct)
  case (Take B i d v)
  then show ?case unfolding exclusive_def fun_upd_apply by (metis option.inject prod.inject)
next
  case (Drop B i)
  then show ?case unfolding exclusive_def fun_upd_apply by (metis option.distinct(1))
qed

definition crew :: "ride \<Rightarrow> (int \<times> int) option" where
  "crew r = (if rd_is_deleted r then None
             else case (rd_driver r, rd_vehicle r) of (Some d, Some v) \<Rightarrow> Some (d, v) | _ \<Rightarrow> None)"

definition board_of :: "ride_db \<Rightarrow> board" where
  "board_of db i = (case get_ride db i of Some r \<Rightarrow> crew r | None \<Rightarrow> None)"

text \<open>What every row satisfies: its constraints, and that a ride with a driver or a vehicle has both and is running.\<close>

definition ride_row_inv :: "ride_db \<Rightarrow> ride \<Rightarrow> bool" where
  "ride_row_inv db r \<longleftrightarrow> ride_row_ok db r
     \<and> (rd_driver r \<noteq> None \<or> rd_vehicle r \<noteq> None \<longrightarrow>
          rd_driver r \<noteq> None \<and> rd_vehicle r \<noteq> None \<and> rd_status r \<in> set ACTIVE_ASSIGNMENT_STATUSES)"

definition rides_ok :: "ride_db \<Rightarrow> bool" where
  "rides_ok db \<longleftrightarrow> distinct (map rd_id (dd_rides db)) \<and> list_all (ride_row_inv db) (dd_rides db)"

subsection \<open>Updates on the board\<close>

lemma update_rides_Inr:
  "update_rides p f db = Inr (n, db') \<longleftrightarrow>
     list_all (\<lambda>r. p r \<longrightarrow> ride_row_ok db (f r)) (dd_rides db) \<and> n = length (filter p (dd_rides db))
     \<and> db' = db\<lparr>dd_rides := update_rows p f (dd_rides db)\<rparr>"
  by (auto simp: update_rides_def)

lemma get_ride_update:
  assumes "\<And>r. rd_id (f r) = rd_id r"
  shows "get_ride (db\<lparr>dd_rides := update_rows p f (dd_rides db)\<rparr>) j = map_option (\<lambda>r. if p r then f r else r) (get_ride db j)"
proof -
  have "find (\<lambda>r. rd_id r = j) (update_rows p f rows) = map_option (\<lambda>r. if p r then f r else r) (find (\<lambda>r. rd_id r = j) rows)" for rows
    by (induction rows) (auto simp: assms)
  then show ?thesis by (simp add: get_ride_def)
qed

lemma map_sum_Inr [simp]: "map_sum f id m = Inr y \<longleftrightarrow> m = Inr y"
  by (cases m) auto

lemma one_row: "length (filter p xs) = 1 \<Longrightarrow> \<exists>x \<in> set xs. p x"
  by (metis filter_empty_conv list.size(3) zero_neq_one)

lemma get_ride_id: "get_ride db i = Some r \<Longrightarrow> r \<in> set (dd_rides db) \<and> rd_id r = i"
  unfolding get_ride_def by (rule find_Some_key)

lemma ride_unique: "rides_ok db \<Longrightarrow> get_ride db i = Some r \<Longrightarrow> x \<in> set (dd_rides db) \<Longrightarrow> rd_id x = i \<Longrightarrow> x = r"
  using find_distinct [of rd_id "dd_rides db" x] by (simp add: rides_ok_def get_ride_def)

lemma board_of_update:
  assumes "\<And>r. rd_id (f r) = rd_id r"
  shows "board_of (db\<lparr>dd_rides := update_rows p f (dd_rides db)\<rparr>) j =
    (case get_ride db j of Some r \<Rightarrow> if p r then crew (f r) else crew r | None \<Rightarrow> None)"
  by (simp add: board_of_def get_ride_update assms split: option.splits)

lemma ride_row_ok_cong:
  "dr_id ` set (dd_drivers db) \<subseteq> dr_id ` set (dd_drivers db') \<Longrightarrow> fv_id ` set (dd_vehicles db) \<subseteq> fv_id ` set (dd_vehicles db') \<Longrightarrow>
   ride_row_ok db r \<Longrightarrow> ride_row_ok db' r"
  by (auto simp: ride_row_ok_def split: option.splits)

text \<open>The effect of an operation: it keeps the invariant and moves the board by steps of the specification.\<close>

definition dispatches :: "ride_db \<Rightarrow> ride_db \<Rightarrow> bool" where
  "dispatches db db' \<longleftrightarrow> rides_ok db \<longrightarrow> rides_ok db' \<and> board_step\<^sup>*\<^sup>* (board_of db) (board_of db')"

lemma dispatchesI: "(rides_ok db \<Longrightarrow> dispatches db db') \<Longrightarrow> dispatches db db'"
  by (simp add: dispatches_def)

lemma dispatches_refl [intro, simp]: "dispatches db db"
  by (simp add: dispatches_def)

lemma dispatches_trans: "dispatches db1 db2 \<Longrightarrow> dispatches db2 db3 \<Longrightarrow> dispatches db1 db3"
  unfolding dispatches_def by auto

text \<open>Tables other than the rides may change, as long as the keys that rides refer to stay.\<close>

lemma dispatches_frame:
  assumes "dd_rides db' = dd_rides db"
    and "dr_id ` set (dd_drivers db) \<subseteq> dr_id ` set (dd_drivers db')" and "fv_id ` set (dd_vehicles db) \<subseteq> fv_id ` set (dd_vehicles db')"
  shows "dispatches db db'"
proof -
  have "board_of db' = board_of db" by (simp add: board_of_def get_ride_def assms(1) fun_eq_iff)
  moreover have "rides_ok db'" if "rides_ok db"
    using that ride_row_ok_cong [OF assms(2,3)] unfolding rides_ok_def ride_row_inv_def
    by (auto simp: assms(1) list_all_iff)
  ultimately show ?thesis by (simp add: dispatches_def)
qed

lemma update_dispatches:
  assumes upd: "update_rides p f db = Inr (n, db')"
    and key: "\<And>r. rd_id (f r) = rd_id r"
    and rows: "\<And>r. r \<in> set (dd_rides db) \<Longrightarrow> p r \<Longrightarrow> ride_row_inv db r \<Longrightarrow> ride_row_ok db (f r) \<Longrightarrow> ride_row_inv db (f r)"
    and board: "rides_ok db \<Longrightarrow> board_step\<^sup>*\<^sup>* (board_of db) (board_of db')"
  shows "dispatches db db'"
  unfolding dispatches_def
proof (intro impI conjI board)
  assume ok: "rides_ok db"
  from upd have db': "db' = db\<lparr>dd_rides := update_rows p f (dd_rides db)\<rparr>"
    and checked: "list_all (\<lambda>r. p r \<longrightarrow> ride_row_ok db (f r)) (dd_rides db)"
    by (simp_all add: update_rides_Inr)
  have "ride_row_inv db' r = ride_row_inv db r" for r by (simp add: db' ride_row_inv_def ride_row_ok_def cong: option.case_cong)
  then have inv: "ride_row_inv db' = ride_row_inv db" by blast
  have "list_all (ride_row_inv db) (update_rows p f (dd_rides db))"
    using ok checked rows unfolding rides_ok_def by (auto simp: list_all_iff update_rows_def)
  then have "list_all (ride_row_inv db') (dd_rides db')" unfolding inv by (simp add: db')
  moreover have "map rd_id (dd_rides db') = map rd_id (dd_rides db)" by (simp add: db' map_update_rows key)
  ultimately show "rides_ok db'" using ok unfolding rides_ok_def by simp
qed

lemma update_keeps_board:
  assumes "update_rides p f db = Inr (n, db')" and "\<And>r. rd_id (f r) = rd_id r"
    and "\<And>r. rd_driver (f r) = rd_driver r \<and> rd_vehicle (f r) = rd_vehicle r \<and> rd_is_deleted (f r) = rd_is_deleted r"
    and "\<And>r. r \<in> set (dd_rides db) \<Longrightarrow> p r \<Longrightarrow> rd_status r \<in> set ACTIVE_ASSIGNMENT_STATUSES \<Longrightarrow> rd_driver r \<noteq> None \<Longrightarrow>
           rd_status (f r) \<in> set ACTIVE_ASSIGNMENT_STATUSES"
  shows "dispatches db db'"
proof (rule update_dispatches [OF assms(1,2)])
  show "ride_row_inv db (f r)" if "r \<in> set (dd_rides db)" "p r" "ride_row_inv db r" "ride_row_ok db (f r)" for r
    using that assms(3,4) [of r] by (auto simp: ride_row_inv_def)
  have "crew (f r) = crew r" for r by (simp add: crew_def assms(3) cong: option.case_cong)
  then have "board_of db' j = board_of db j" for j
    using assms(1) unfolding update_rides_Inr
    by (auto simp: board_of_update [of f, OF assms(2)] board_of_def [of db] split: option.splits)
  then have "board_of db' = board_of db" ..
  then show "board_step\<^sup>*\<^sup>* (board_of db) (board_of db')" by simp
qed

lemma update_clears_board:
  assumes "update_rides (\<lambda>r. rd_id r = i \<and> q r) f db = Inr (n, db')" and "\<And>r. rd_id (f r) = rd_id r"
    and "\<And>r. rd_driver (f r) = None \<and> rd_vehicle (f r) = None"
  shows "dispatches db db'"
proof (rule update_dispatches [OF assms(1,2)])
  show "ride_row_inv db (f r)" if "ride_row_ok db (f r)" for r
    using that assms(3) [of r] by (simp add: ride_row_inv_def)
  have clear: "crew (f r) = None" for r by (simp add: crew_def assms(3))
  have new: "board_of db' j = (case get_ride db j of Some r \<Rightarrow> if rd_id r = i \<and> q r then None else crew r | None \<Rightarrow> None)" for j
    using assms(1) by (auto simp: update_rides_Inr board_of_update assms(2) clear split: option.splits)
  have "board_of db' = board_of db \<or> board_of db' = (board_of db)(i := None)"
  proof (cases "case get_ride db i of Some r \<Rightarrow> q r | None \<Rightarrow> False")
    case True
    then have "board_of db' j = ((board_of db)(i := None)) j" for j
      unfolding new using get_ride_id [of db j] by (auto simp: board_of_def split: option.splits)
    then show ?thesis by blast
  next
    case False
    then have "board_of db' j = board_of db j" for j
      unfolding new using get_ride_id [of db j] by (auto simp: board_of_def split: option.splits)
    then show ?thesis by blast
  qed
  then show "board_step\<^sup>*\<^sup>* (board_of db) (board_of db')" by (metis board_step.Drop rtranclp.rtrancl_refl r_into_rtranclp)
qed

subsection \<open>The operations\<close>

lemma set_ride_dispatches:
  assumes "set_ride i f db = Inr db'" and "\<And>r. rd_id (f r) = rd_id r"
    and "\<And>r. rd_driver (f r) = rd_driver r \<and> rd_vehicle (f r) = rd_vehicle r \<and> rd_is_deleted (f r) = rd_is_deleted r"
    and "\<And>r. r \<in> set (dd_rides db) \<Longrightarrow> rd_id r = i \<Longrightarrow> rd_status r \<in> set ACTIVE_ASSIGNMENT_STATUSES \<Longrightarrow> rd_driver r \<noteq> None \<Longrightarrow>
           rd_status (f r) \<in> set ACTIVE_ASSIGNMENT_STATUSES"
  shows "dispatches db db'"
  using assms update_keeps_board [of "\<lambda>r. rd_id r = i" f db] by (auto simp: set_ride_def)

lemma add_audit_dispatches: "dispatches db (add_dispatch_audit action i u details db)"
  by (rule dispatches_frame) (simp_all add: add_dispatch_audit_def)

lemma offers_dispatch: "dispatches db (db\<lparr>dd_offers := x\<rparr>)"
  by (rule dispatches_frame) simp_all

lemma events_dispatch: "dispatches db (db\<lparr>dd_events := x\<rparr>)"
  by (rule dispatches_frame) simp_all

lemma vehicles_dispatch:
  assumes "map fv_id vs = map fv_id (dd_vehicles db)"
  shows "dispatches db (db\<lparr>dd_vehicles := vs\<rparr>)"
proof (rule dispatches_frame)
  from arg_cong [OF assms, of set] show "fv_id ` set (dd_vehicles db) \<subseteq> fv_id ` set (dd_vehicles (db\<lparr>dd_vehicles := vs\<rparr>))" by simp
qed simp_all

lemma free_vehicle_dispatches: "dispatches db (free_vehicle v i db)"
  by (cases v) (simp_all add: free_vehicle_def vehicles_dispatch map_update_rows)

lemma capture_dispatches: "dispatches db (capture_actual_end env i d db)"
  by (auto simp: capture_actual_end_def events_dispatch split: option.splits)

lemmas dispatch_steps =
  dispatches_trans [OF _ add_audit_dispatches] dispatches_trans [OF _ offers_dispatch]
  dispatches_trans [OF _ events_dispatch] dispatches_trans [OF _ free_vehicle_dispatches]
  dispatches_trans [OF _ capture_dispatches]

lemma driver_engaged_other_iff:
  "driver_engaged_other db d i \<longleftrightarrow> (\<exists>r \<in> set (dd_rides db). rd_driver r = Some d \<and> rd_id r \<noteq> i \<and> engaged r)"
  by (auto simp: driver_engaged_other_def list_ex_iff)

lemma vehicle_engaged_other_iff:
  "vehicle_engaged_other db v i \<longleftrightarrow> (\<exists>r \<in> set (dd_rides db). rd_vehicle r = Some v \<and> rd_id r \<noteq> i \<and> engaged r)"
  by (auto simp: vehicle_engaged_other_def list_ex_iff)

lemma crew_engaged:
  assumes "rides_ok db" and "board_of db j = Some (d, v)"
  shows "\<exists>r \<in> set (dd_rides db). rd_id r = j \<and> engaged r \<and> rd_driver r = Some d \<and> rd_vehicle r = Some v"
proof -
  from assms(2) obtain r where r: "get_ride db j = Some r" "crew r = Some (d, v)" by (auto simp: board_of_def split: option.splits)
  from r(2) have "\<not> rd_is_deleted r" "rd_driver r = Some d" "rd_vehicle r = Some v"
    by (auto simp: crew_def split: option.splits if_splits)
  moreover from get_ride_id [OF r(1)] assms(1) have "ride_row_inv db r" by (simp add: rides_ok_def list_all_iff)
  ultimately show ?thesis using get_ride_id [OF r(1)] by (auto simp: ride_row_inv_def engaged_def)
qed

text \<open>A claim puts a crew on the board that is not on it.\<close>

lemma claim_takes:
  assumes upd: "update_rides (\<lambda>r. rd_id r = i \<and> claimable r)
      (\<lambda>r. r\<lparr>rd_status := ASSIGNED, rd_driver := Some d, rd_vehicle := Some v, rd_driver_assigned_at := Some t\<rparr>) db = Inr (n, db1)"
    and "n = 1" and free: "\<not> driver_engaged_other db1 d i" "\<not> vehicle_engaged_other db1 v i"
  shows "dispatches db db1"
proof (rule update_dispatches [OF upd])
  let ?f = "\<lambda>r. r\<lparr>rd_status := ASSIGNED, rd_driver := Some d, rd_vehicle := Some v, rd_driver_assigned_at := Some t\<rparr>"
  show "ride_row_inv db (?f r)" if "ride_row_ok db (?f r)" for r
    using that by (simp add: ride_row_inv_def ACTIVE_ASSIGNMENT_STATUSES_def)
  assume ok: "rides_ok db"
  from upd have db1: "db1 = db\<lparr>dd_rides := update_rows (\<lambda>r. rd_id r = i \<and> claimable r) ?f (dd_rides db)\<rparr>"
    and n: "n = length (filter (\<lambda>r. rd_id r = i \<and> claimable r) (dd_rides db))" by (simp_all add: update_rides_Inr)
  from n \<open>n = 1\<close> obtain b where b: "b \<in> set (dd_rides db)" "rd_id b = i" "claimable b"
    using one_row [of "\<lambda>r. rd_id r = i \<and> claimable r"] by auto
  then have got: "get_ride db i = Some b"
    using ok find_distinct [of rd_id "dd_rides db" b] by (simp add: get_ride_def rides_ok_def)
  have others: "r \<in> set (dd_rides db1)" if "r \<in> set (dd_rides db)" "rd_id r \<noteq> i" for r
    using that unfolding db1 by (force simp: update_rows_def)
  have "d' \<noteq> d \<and> v' \<noteq> v" if "board_of db j = Some (d', v')" for j d' v'
  proof -
    have "j \<noteq> i" using that got b(3) by (auto simp: board_of_def crew_def claimable_def)
    with crew_engaged [OF ok that] others free show ?thesis
      by (auto simp: driver_engaged_other_iff vehicle_engaged_other_iff)
  qed
  moreover have "board_of db i = None" using got b(3) by (simp add: board_of_def crew_def claimable_def)
  ultimately have "board_step (board_of db) ((board_of db)(i \<mapsto> (d, v)))" by (intro board_step.Take) blast+
  moreover have "board_of db1 j = ((board_of db)(i \<mapsto> (d, v))) j" for j
    using got b get_ride_id [of db j] unfolding db1
    by (auto simp: board_of_update board_of_def [of db] crew_def claimable_def split: option.splits)
  then have "board_of db1 = (board_of db)(i \<mapsto> (d, v))" ..
  ultimately show "board_step\<^sup>*\<^sup>* (board_of db) (board_of db1)" by auto
qed simp

lemma claim_staged_Inr:
  assumes "claim_staged env a db = Inr (i, db')"
  obtains b n db1 where "find (\<lambda>r. rd_reference r = ca_reference a) (dd_rides db) = Some b" and "i = rd_id b"
    and "ca_force a \<Longrightarrow> actor_is_admin (ca_actor a)"
    and "update_rides (\<lambda>r. rd_id r = i \<and> claimable r)
      (\<lambda>r. r\<lparr>rd_status := ASSIGNED, rd_driver := Some (ca_driver a), rd_vehicle := Some (ca_vehicle a),
              rd_driver_assigned_at := Some (re_now env)\<rparr>) db = Inr (n, db1)" and "n = 1"
    and "list_ex (driver_claimable db1 a i) (dd_drivers db1)"
    and "length (filter (vehicle_claimable db1 a i) (dd_vehicles db1)) = 1"
    and "db' = add_dispatch_audit ''dispatch_claim'' i (map_option ac_id (ca_actor a))
                [(''booking_reference'', JStr (ca_reference a)), (''driver_id'', JInt (ca_driver a)),
                 (''vehicle_id'', JInt (ca_vehicle a)), (''force'', JBool (ca_force a))]
                (db1\<lparr>dd_vehicles := update_rows (vehicle_claimable db1 a i) (\<lambda>v. v\<lparr>fv_is_available := False\<rparr>) (dd_vehicles db1)\<rparr>)"
  using assms unfolding claim_staged_def by (auto split: if_splits option.splits)

lemma claim_staged_dispatches: "claim_staged env a db = Inr (i, db') \<Longrightarrow> dispatches db db'"
proof (erule claim_staged_Inr)
  fix b n db1
  let ?vs = "update_rows (vehicle_claimable db1 a i) (\<lambda>v. v\<lparr>fv_is_available := False\<rparr>) (dd_vehicles db1)"
  assume upd: "update_rides (\<lambda>r. rd_id r = i \<and> claimable r)
      (\<lambda>r. r\<lparr>rd_status := ASSIGNED, rd_driver := Some (ca_driver a), rd_vehicle := Some (ca_vehicle a),
              rd_driver_assigned_at := Some (re_now env)\<rparr>) db = Inr (n, db1)" and "n = 1"
    and drv: "list_ex (driver_claimable db1 a i) (dd_drivers db1)"
    and veh: "length (filter (vehicle_claimable db1 a i) (dd_vehicles db1)) = 1"
    and db': "db' = add_dispatch_audit ''dispatch_claim'' i (map_option ac_id (ca_actor a))
                [(''booking_reference'', JStr (ca_reference a)), (''driver_id'', JInt (ca_driver a)),
                 (''vehicle_id'', JInt (ca_vehicle a)), (''force'', JBool (ca_force a))] (db1\<lparr>dd_vehicles := ?vs\<rparr>)"
  from drv have "\<not> driver_engaged_other db1 (ca_driver a) i" by (auto simp: list_ex_iff driver_claimable_def)
  moreover from one_row [OF veh] have "\<not> vehicle_engaged_other db1 (ca_vehicle a) i" by (auto simp: vehicle_claimable_def)
  ultimately have "dispatches db db1" by (rule claim_takes [OF upd \<open>n = 1\<close>])
  moreover have "dispatches db1 (db1\<lparr>dd_vehicles := ?vs\<rparr>)" by (rule vehicles_dispatch) (simp add: map_update_rows)
  ultimately show ?thesis unfolding db' by (blast intro: dispatches_trans dispatch_steps)
qed

lemma claim_dispatches: "dispatches db (snd (claim env a db))"
  using claim_staged_dispatches [of env a db]
  by (auto simp: claim_def split: sum.splits intro: dispatches_trans offers_dispatch)

lemma release_dispatches: "release_body env i a db = Inr (x, db') \<Longrightarrow> dispatches db db'"
proof -
  assume rel: "release_body env i a db = Inr (x, db')"
  then obtain row where row: "get_ride db i = Some row" and fin: "ra_status a \<in> set TERMINAL_RELEASE_STATUSES"
    by (auto simp: release_body_def split: if_splits option.splits)
  let ?ass = "rd_driver row \<noteq> None \<or> rd_vehicle row \<noteq> None"
  obtain db3 where db3: "dispatches db db3"
    and db': "db' = (let db4 = add_dispatch_audit ''dispatch_release'' i (map_option ac_id (ra_actor a))
                           ([(''status'', JStr (ride_status_value (ra_status a))), (''reason'', jopt JStr (ra_reason a))]
                            @ ra_extra a) db3
               in db4\<lparr>dd_offers := cleanup_offer (re_redis env) (rd_reference row) None (dd_offers db4)\<rparr>)"
  proof (cases ?ass)
    case True
    with rel row fin obtain n db1 where upd: "update_rides (\<lambda>r. rd_id r = i \<and> engaged r)
          (\<lambda>r. r\<lparr>rd_status := ra_status a, rd_driver := None, rd_vehicle := None\<rparr>) db = Inr (n, db1)"
      and rest: "db' = (let db4 = add_dispatch_audit ''dispatch_release'' i (map_option ac_id (ra_actor a))
                   ([(''status'', JStr (ride_status_value (ra_status a))), (''reason'', jopt JStr (ra_reason a))] @ ra_extra a)
                   (free_vehicle (rd_vehicle row) i
                      (if ra_status a = COMPLETED then capture_actual_end env i (rd_driver row) db1 else db1))
               in db4\<lparr>dd_offers := cleanup_offer (re_redis env) (rd_reference row) None (dd_offers db4)\<rparr>)"
      by (auto simp: release_body_def Let_def split: if_splits)
    have "dispatches db db1" by (rule update_clears_board [OF upd]) simp_all
    then have "dispatches db (free_vehicle (rd_vehicle row) i
        (if ra_status a = COMPLETED then capture_actual_end env i (rd_driver row) db1 else db1))"
      by (auto intro: dispatch_steps)
    then show ?thesis using rest that by blast
  next
    case False
    with rel row fin obtain n db1 where upd: "update_rides (\<lambda>r. rd_id r = i \<and> \<not> rd_is_deleted r)
          (\<lambda>r. r\<lparr>rd_status := ra_status a\<rparr>) db = Inr (n, db1)"
      and rest: "db' = (let db4 = add_dispatch_audit ''dispatch_release'' i (map_option ac_id (ra_actor a))
                   ([(''status'', JStr (ride_status_value (ra_status a))), (''reason'', jopt JStr (ra_reason a))] @ ra_extra a) db1
               in db4\<lparr>dd_offers := cleanup_offer (re_redis env) (rd_reference row) None (dd_offers db4)\<rparr>)"
      by (auto simp: release_body_def Let_def split: if_splits)
    have "dispatches db db1"
    proof (rule dispatchesI)
      assume ok: "rides_ok db"
      show ?thesis by (rule update_keeps_board [OF upd]) (use False ride_unique [OF ok row] in auto)
    qed
    then show ?thesis using rest that by blast
  qed
  show ?thesis unfolding db' Let_def by (intro dispatch_steps db3)
qed

lemma no_match_dispatches: "release_to_no_match_body env i reason actor extra db = Inr (x, db') \<Longrightarrow> dispatches db db'"
proof -
  assume rel: "release_to_no_match_body env i reason actor extra db = Inr (x, db')"
  then consider "db' = db"
    | v of' det n db1 where "update_rides (\<lambda>r. rd_id r = i \<and> rd_status r \<in> set DRIVER_CANCELLABLE \<and> \<not> rd_is_deleted r)
          (\<lambda>r. r\<lparr>rd_status := NO_MATCH, rd_no_match_reason := Some reason, rd_driver := None, rd_vehicle := None,
                  rd_driver_assigned_at := None, rd_driver_en_route_at := None, rd_driver_arrived_at := None\<rparr>) db = Inr (n, db1)"
        and "db' = (add_dispatch_audit ''dispatch_release'' i (map_option ac_id actor) det (free_vehicle v i db1))\<lparr>dd_offers := of'\<rparr>"
    by (auto simp: release_to_no_match_body_def Let_def split: if_splits option.splits)
  then show "dispatches db db'"
  proof cases
    case (2 v of' det n db1)
    have "dispatches db db1" by (rule update_clears_board [OF 2(1)]) simp_all
    then show ?thesis unfolding 2(2) by (intro dispatch_steps)
  qed simp
qed

lemma terminal_fields_frame [simp]:
  "rd_id (terminal_fields now tgt reason w r) = rd_id r" "rd_driver (terminal_fields now tgt reason w r) = rd_driver r"
  "rd_vehicle (terminal_fields now tgt reason w r) = rd_vehicle r"
  "rd_is_deleted (terminal_fields now tgt reason w r) = rd_is_deleted r"
  "rd_status (terminal_fields now tgt reason w r) = rd_status r"
  by (simp_all add: terminal_fields_def)

lemma log_ride_frame [simp]:
  "rd_id (log_ride x r) = rd_id r" "rd_driver (log_ride x r) = rd_driver r" "rd_vehicle (log_ride x r) = rd_vehicle r"
  "rd_is_deleted (log_ride x r) = rd_is_deleted r" "rd_status (log_ride x r) = rd_status r"
  by (simp_all add: log_ride_def)

lemma stamp_frame [simp]:
  "rd_id (stamp_matching_window_start t r) = rd_id r" "rd_driver (stamp_matching_window_start t r) = rd_driver r"
  "rd_vehicle (stamp_matching_window_start t r) = rd_vehicle r"
  "rd_is_deleted (stamp_matching_window_start t r) = rd_is_deleted r"
  "rd_status (stamp_matching_window_start t r) = rd_status r"
  by (simp_all add: stamp_matching_window_start_def)

lemma live_ride_Inr: "live_ride db i = Inr b \<longleftrightarrow> get_ride db i = Some b \<and> \<not> rd_is_deleted b"
  by (auto simp: live_ride_def split: option.splits)

text \<open>An active ride moves to another active status, unless it ends.\<close>

lemma active_transition:
  "ride_can_transition s t \<Longrightarrow> s \<in> set ACTIVE_ASSIGNMENT_STATUSES \<Longrightarrow>
   t \<in> set ACTIVE_ASSIGNMENT_STATUSES \<or> t \<in> set TERMINAL_RELEASE_STATUSES"
  by (cases s) (auto simp: ride_can_transition_def ACTIVE_ASSIGNMENT_STATUSES_def TERMINAL_RELEASE_STATUSES_def)

lemma transition_dispatches: "transition_status_body env i tgt a db = Inr (x, db') \<Longrightarrow> dispatches db db'"
proof (rule dispatchesI)
  assume tr: "transition_status_body env i tgt a db = Inr (x, db')" and ok: "rides_ok db"
  then obtain b where b: "get_ride db i = Some b" "ride_can_transition (rd_status b) tgt"
    by (auto simp: transition_status_body_def live_ride_Inr split: if_splits)
  show "dispatches db db'"
  proof (cases "tgt \<in> set TERMINAL_RELEASE_STATUSES \<and> (rd_driver b \<noteq> None \<or> rd_vehicle b \<noteq> None)")
    case True
    with tr b obtain db1 y where set1: "set_ride i (terminal_fields (re_now env) tgt (tr_reason a) (tr_initiated_by a)) db = Inr db1"
      and rel: "release_body env i \<lparr>ra_status = tgt, ra_actor = tr_actor a, ra_reason = tr_reason a,
                     ra_extra = [(''from'', JStr (ride_status_value (rd_status b)))]\<rparr> db1 = Inr (y, db')"
      by (auto simp: transition_status_body_def live_ride_Inr split: if_splits)
    have "dispatches db db1" by (rule set_ride_dispatches [OF set1]) simp_all
    with release_dispatches [OF rel] show ?thesis by (rule dispatches_trans [rotated])
  next
    case False
    let ?f = "\<lambda>r. log_ride (status_item ''status_changed'' (rd_status b) tgt (re_now env) [(''reason'', jopt JStr (tr_reason a))])
                     (let r1 = r\<lparr>rd_status := tgt\<rparr> in
                      if tgt = CONFIRMED
                      then stamp_matching_window_start (re_now env) (r1\<lparr>rd_confirmed_at := Some (re_now env)\<rparr>)
                      else terminal_fields (re_now env) tgt (tr_reason a) (tr_initiated_by a) r1)"
    from False tr b have set1: "set_ride i ?f db = Inr db'"
      by (auto simp: transition_status_body_def live_ride_Inr Let_def split: if_splits sum.splits)
    show ?thesis
    proof (rule set_ride_dispatches [OF set1])
      fix r assume "r \<in> set (dd_rides db)" "rd_id r = i" "rd_status r \<in> set ACTIVE_ASSIGNMENT_STATUSES" "rd_driver r \<noteq> None"
      with ride_unique [OF ok b(1)] False active_transition [OF b(2)]
      show "rd_status (?f r) \<in> set ACTIVE_ASSIGNMENT_STATUSES" by (auto simp: Let_def)
    qed (simp_all add: Let_def)
  qed
qed

lemma cancelled_row_frame [simp]:
  "rd_id (cancelled_row env u a db b r) = rd_id r" "rd_driver (cancelled_row env u a db b r) = rd_driver r"
  "rd_vehicle (cancelled_row env u a db b r) = rd_vehicle r"
  "rd_is_deleted (cancelled_row env u a db b r) = rd_is_deleted r"
  "rd_status (cancelled_row env u a db b r) = rd_status r"
  by (simp_all add: cancelled_row_def Let_def)

lemma no_show_row_frame [simp]:
  "rd_id (no_show_row env drv reason b r) = rd_id r" "rd_driver (no_show_row env drv reason b r) = rd_driver r"
  "rd_vehicle (no_show_row env drv reason b r) = rd_vehicle r"
  "rd_is_deleted (no_show_row env drv reason b r) = rd_is_deleted r"
  "rd_status (no_show_row env drv reason b r) = rd_status r"
  by (simp_all add: no_show_row_def Let_def)

lemma driver_cancelled_row_frame [simp]:
  "rd_id (driver_cancelled_row env drv reason b r) = rd_id r"
  "rd_driver (driver_cancelled_row env drv reason b r) = rd_driver r"
  "rd_vehicle (driver_cancelled_row env drv reason b r) = rd_vehicle r"
  "rd_is_deleted (driver_cancelled_row env drv reason b r) = rd_is_deleted r"
  "rd_status (driver_cancelled_row env drv reason b r) = rd_status r"
  by (simp_all add: driver_cancelled_row_def Let_def)

lemma reopened_row_frame [simp]:
  "rd_id (reopened_row env r) = rd_id r" "rd_driver (reopened_row env r) = rd_driver r"
  "rd_vehicle (reopened_row env r) = rd_vehicle r" "rd_is_deleted (reopened_row env r) = rd_is_deleted r"
  "rd_status (reopened_row env r) = CONFIRMED"
  by (simp_all add: reopened_row_def)

lemma pre_assignment_inactive:
  "s \<in> set PRE_ASSIGNMENT_STATUSES \<Longrightarrow> s \<notin> set ACTIVE_ASSIGNMENT_STATUSES"
  by (auto simp: PRE_ASSIGNMENT_STATUSES_def ACTIVE_ASSIGNMENT_STATUSES_def)

lemma cancel_dispatches: "cancel_booking_body env i u a db = Inr (x, db') \<Longrightarrow> dispatches db db'"
proof -
  assume cx: "cancel_booking_body env i u a db = Inr (x, db')"
  then obtain b where b: "get_ride db i = Some b" by (auto simp: cancel_booking_body_def split: option.splits)
  show "dispatches db db'"
  proof (cases "rd_status b \<in> set PRE_ASSIGNMENT_STATUSES")
    case True
    with cx b obtain n db1 where upd: "update_rides
          (\<lambda>r. rd_id r = i \<and> rd_status r \<in> set PRE_ASSIGNMENT_STATUSES \<and> \<not> rd_is_deleted r)
          (\<lambda>r. (cancelled_row env u a db b r)\<lparr>rd_status := CANCELLED\<rparr>) db = Inr (n, db1)"
      and db': "db' = add_dispatch_audit ''booking_cancellation_fee_recorded'' i (Some u) (cancel_audit env u a db b) db1"
      by (auto simp: cancel_booking_body_def Let_def split: if_splits)
    have "dispatches db db1" by (rule update_keeps_board [OF upd]) (auto dest: pre_assignment_inactive)
    then show ?thesis unfolding db' by (intro dispatch_steps)
  next
    case False
    with cx b obtain db1 ra y where set1: "set_ride i (cancelled_row env u a db b) db = Inr db1"
      and rel: "release_body env i ra (add_dispatch_audit ''booking_cancellation_fee_recorded'' i (Some u)
                  (cancel_audit env u a db b) db1) = Inr (y, db')"
      by (auto simp: cancel_booking_body_def Let_def split: if_splits sum.splits)
    have "dispatches db db1" by (rule set_ride_dispatches [OF set1]) simp_all
    then show ?thesis by (blast intro: dispatches_trans dispatch_steps release_dispatches [OF rel])
  qed
qed

lemma no_show_dispatches: "mark_no_show_body env i u reason db = Inr (x, db') \<Longrightarrow> dispatches db db'"
proof -
  assume run: "mark_no_show_body env i u reason db = Inr (x, db')"
  then obtain b drv where "live_ride db i = Inr b" "find_driver db u = Some drv"
    by (cases "find_driver db u") (auto simp: mark_no_show_body_def)
  with run consider "db' = db"
    | drv b db1 ta det y where "set_ride i (no_show_row env drv reason b) db = Inr db1"
      and "transition_status_body env i NO_SHOW ta (add_dispatch_audit ''booking_no_show_recorded'' i (Some u) det db1) = Inr (y, db')"
    by (cases "rd_pickup_time b") (auto simp: mark_no_show_body_def split: if_splits)
  then show "dispatches db db'"
  proof cases
    case (2 drv b db1 ta det y)
    have "dispatches db db1" by (rule set_ride_dispatches [OF 2(1)]) simp_all
    then show ?thesis by (blast intro: dispatches_trans dispatch_steps transition_dispatches [OF 2(2)])
  qed simp
qed

lemma driver_cancel_dispatches: "driver_cancel_body env i u reason db = Inr (x, db') \<Longrightarrow> dispatches db db'"
proof -
  assume run: "driver_cancel_body env i u reason db = Inr (x, db')"
  then obtain b drv where "live_ride db i = Inr b" "find_driver db u = Some drv"
    by (cases "find_driver db u") (auto simp: driver_cancel_body_def)
  with run consider "db' = db"
    | drv b db1 det y where "set_ride i (driver_cancelled_row env drv reason b) db = Inr db1"
      and "release_to_no_match_body env i ''all_rejected'' None det db1 = Inr (y, db')"
    by (auto simp: driver_cancel_body_def split: if_splits)
  then show "dispatches db db'"
  proof cases
    case (2 drv b db1 det y)
    have "dispatches db db1" by (rule set_ride_dispatches [OF 2(1)]) simp_all
    then show ?thesis by (blast intro: dispatches_trans no_match_dispatches [OF 2(2)])
  qed simp
qed

lemma claimable_inactive: "claimable r \<Longrightarrow> rd_driver r = None"
  by (simp add: claimable_def)

lemma mark_no_match_dispatches: "mark_no_match_body env i reason w db = Inr (x, db') \<Longrightarrow> dispatches db db'"
proof -
  assume "mark_no_match_body env i reason w db = Inr (x, db')"
  then consider "db' = db"
    | n db1 item where "update_rides (\<lambda>r. rd_id r = i \<and> claimable r)
          (\<lambda>r. r\<lparr>rd_status := NO_MATCH, rd_no_match_reason := Some reason\<rparr>) db = Inr (n, db1)"
        and "set_ride i (log_ride item) db1 = Inr db'"
    by (auto simp: mark_no_match_body_def split: if_splits)
  then show "dispatches db db'"
  proof cases
    case (2 n db1 item)
    have "dispatches db db1" by (rule update_keeps_board [OF 2(1)]) (auto dest: claimable_inactive)
    moreover have "dispatches db1 db'" by (rule set_ride_dispatches [OF 2(2)]) simp_all
    ultimately show ?thesis by (rule dispatches_trans)
  qed simp
qed

lemma reopen_dispatches: "reopen_body env i u db = Inr (x, db') \<Longrightarrow> dispatches db db'"
proof (rule dispatchesI)
  assume "reopen_body env i u db = Inr (x, db')" and ok: "rides_ok db"
  then obtain b where b: "get_ride db i = Some b" "rd_status b = NO_MATCH" and set1: "set_ride i (reopened_row env) db = Inr db'"
    by (auto simp: reopen_body_def live_ride_Inr split: if_splits)
  show ?thesis
    by (rule set_ride_dispatches [OF set1]) (use ride_unique [OF ok b(1)] b(2) in \<open>auto simp: ACTIVE_ASSIGNMENT_STATUSES_def\<close>)
qed

lemma advance_trip_dispatches:
  assumes "advance_trip env b drv expected f db = Inr (x, db')" and "\<And>r. rd_id (f r) = rd_id r"
    and "\<And>r. rd_driver (f r) = rd_driver r \<and> rd_vehicle (f r) = rd_vehicle r \<and> rd_is_deleted (f r) = rd_is_deleted r"
    and "\<And>r. rd_status (f r) \<in> set ACTIVE_ASSIGNMENT_STATUSES"
  shows "dispatches db db'"
  using assms by (auto simp: advance_trip_def split: if_splits intro: update_keeps_board)

lemma trip_started_dispatches: "dispatches db (trip_started env b drv db)"
  by (simp add: trip_started_def events_dispatch)

lemma trip_action_dispatches: "trip_action_body env i u actor act db = Inr (x, db') \<Longrightarrow> dispatches db db'"
proof -
  assume "trip_action_body env i u actor act db = Inr (x, db')"
  then obtain drv b where run: "(case act of
            En_route \<Rightarrow> advance_trip env b drv ASSIGNED
                          (\<lambda>r. r\<lparr>rd_status := DRIVER_EN_ROUTE, rd_driver_en_route_at := Some (re_now env)\<rparr>) db
          | Arrive \<Rightarrow> advance_trip env b drv DRIVER_EN_ROUTE
                        (\<lambda>r. r\<lparr>rd_status := PICKUP_ARRIVED, rd_driver_arrived_at := Some (re_now env)\<rparr>) db
          | Start \<Rightarrow> advance_trip env b drv PICKUP_ARRIVED
                       (\<lambda>r. r\<lparr>rd_status := IN_PROGRESS, rd_pickup_actual_time := Some (re_now env)\<rparr>) (trip_started env b drv db)
          | Complete \<Rightarrow>
              rbind (set_ride i (\<lambda>r. r\<lparr>rd_completed_at := Some (re_now env), rd_dropoff_actual_time := Some (re_now env),
                        rd_meta := (rd_meta b)\<lparr>rm_completed_by := Some (dr_id drv, dr_code drv, dr_user_id drv)\<rparr>\<rparr>) db) (\<lambda>db1.
              release_body env i \<lparr>ra_status = COMPLETED, ra_actor = actor, ra_reason = None,
                 ra_extra = [(''initiator'', JStr ''driver''), (''action'', JStr ''complete'')]\<rparr> db1)
          | Action_no_show \<Rightarrow> map_sum service_error id (mark_no_show_body env i (dr_user_id drv) None db)
          | Action_cancel \<Rightarrow> map_sum service_error id (driver_cancel_body env i (dr_user_id drv) None db)) = Inr (x, db')"
    unfolding trip_action_body_def by (cases "find_driver db u") (auto split: if_splits)
  note active = ACTIVE_ASSIGNMENT_STATUSES_def
  show "dispatches db db'"
  proof (cases act)
    case Complete
    with run obtain db1 ra where set1: "set_ride i (\<lambda>r. r\<lparr>rd_completed_at := Some (re_now env),
          rd_dropoff_actual_time := Some (re_now env),
          rd_meta := (rd_meta b)\<lparr>rm_completed_by := Some (dr_id drv, dr_code drv, dr_user_id drv)\<rparr>\<rparr>) db = Inr db1"
      and rel: "release_body env i ra db1 = Inr (x, db')" by auto
    have "dispatches db db1" by (rule set_ride_dispatches [OF set1]) simp_all
    then show ?thesis by (rule dispatches_trans) (rule release_dispatches [OF rel])
  next
    case Start
    with run have "dispatches (trip_started env b drv db) db'" by (auto elim!: advance_trip_dispatches simp: active)
    then show ?thesis by (rule dispatches_trans [OF trip_started_dispatches])
  next
    case Action_no_show
    with run show ?thesis by (cases "mark_no_show_body env i (dr_user_id drv) None db") (auto dest: no_show_dispatches)
  next
    case Action_cancel
    with run show ?thesis by (cases "driver_cancel_body env i (dr_user_id drv) None db") (auto dest: driver_cancel_dispatches)
  qed (use run in \<open>auto elim!: advance_trip_dispatches simp: active\<close>)
qed

subsection \<open>Runs\<close>

text \<open>
  The last three steps stand for the rest of the platform: bookings are created without a crew, drivers and vehicles change in any
  way that keeps their keys, and offers and positions come and go.
\<close>

inductive ride_step :: "ride_db \<Rightarrow> ride_db \<Rightarrow> bool" where
  Claim: "ride_step db (snd (claim env a db))"
| Release: "ride_step db (snd (release env i ra db))"
| Transition: "ride_step db (snd (transition_status env i tgt ta db))"
| Cancel: "ride_step db (snd (cancel_booking env i u ca db))"
| No_show: "ride_step db (snd (mark_no_show env i u reason db))"
| Driver_cancel: "ride_step db (snd (driver_cancel env i u reason db))"
| Mark_no_match: "ride_step db (snd (mark_no_match env i why w db))"
| Reopen: "ride_step db (snd (atomic (reopen_body env i u) db))"
| Trip: "ride_step db (snd (execute_driver_trip_action env i u actor act db))"
| New_ride: "rd_id r \<notin> rd_id ` set (dd_rides db) \<Longrightarrow> rd_driver r = None \<Longrightarrow> rd_vehicle r = None \<Longrightarrow> ride_row_ok db r \<Longrightarrow>
    ride_step db (db\<lparr>dd_rides := dd_rides db @ [r]\<rparr>)"
| Fleet: "dr_id ` set (dd_drivers db) \<subseteq> dr_id ` set ds \<Longrightarrow> fv_id ` set (dd_vehicles db) \<subseteq> fv_id ` set vs \<Longrightarrow>
    ride_step db (db\<lparr>dd_drivers := ds, dd_vehicles := vs\<rparr>)"
| World: "ride_step db (db\<lparr>dd_offers := st, dd_observations := obs\<rparr>)"

lemma atomic_dispatches: "(\<And>x db'. body db = Inr (x, db') \<Longrightarrow> dispatches db db') \<Longrightarrow> dispatches db (snd (atomic body db))"
  by (cases "body db") (auto simp: atomic_def)

lemma ride_atomic_dispatches:
  "(\<And>x db'. body db = Inr (x, db') \<Longrightarrow> dispatches db db') \<Longrightarrow> dispatches db (snd (ride_atomic body db))"
  by (cases "body db") (auto simp: ride_atomic_def)

lemma new_ride_dispatches:
  assumes "rd_id r \<notin> rd_id ` set (dd_rides db)" and "rd_driver r = None" and "rd_vehicle r = None" and "ride_row_ok db r"
  shows "dispatches db (db\<lparr>dd_rides := dd_rides db @ [r]\<rparr>)"
proof -
  have "board_of (db\<lparr>dd_rides := dd_rides db @ [r]\<rparr>) j = board_of db j" for j
    using assms(2) by (simp add: board_of_def get_ride_def find_append crew_def split: option.splits)
  then have "board_of (db\<lparr>dd_rides := dd_rides db @ [r]\<rparr>) = board_of db" ..
  moreover have "ride_row_inv (db\<lparr>dd_rides := dd_rides db @ [r]\<rparr>) x = ride_row_inv db x" for x
    by (simp add: ride_row_inv_def ride_row_ok_def cong: option.case_cong)
  then have "rides_ok (db\<lparr>dd_rides := dd_rides db @ [r]\<rparr>)" if "rides_ok db"
    using that assms by (simp add: rides_ok_def ride_row_inv_def [of db r] list_all_iff)
  ultimately show ?thesis by (simp add: dispatches_def)
qed

lemma ride_step_dispatches: "ride_step db db' \<Longrightarrow> dispatches db db'"
proof (induction rule: ride_step.induct)
  case (Claim db env a)
  show ?case by (rule claim_dispatches)
next
  case (Fleet db ds vs)
  then show ?case by (intro dispatches_frame) simp_all
next
  case (World db st obs)
  show ?case by (rule dispatches_frame) simp_all
qed (auto simp: release_def transition_status_def cancel_booking_def mark_no_show_def driver_cancel_def mark_no_match_def
       execute_driver_trip_action_def intro!: atomic_dispatches ride_atomic_dispatches new_ride_dispatches
       intro: release_dispatches transition_dispatches cancel_dispatches no_show_dispatches driver_cancel_dispatches
       mark_no_match_dispatches reopen_dispatches trip_action_dispatches)

interpretation dispatch: simulation ride_step rides_ok board_step board_of
  by unfold_locales (use ride_step_dispatches in \<open>auto simp: dispatches_def\<close>)

interpretation crews: run_invariant board_step exclusive
  by unfold_locales (rule board_step_exclusive)

end
