(* ===== verification/Ride_Requests.thy ===== *)
theory Ride_Requests
  imports Market_Invoices Ride_Correct
begin

section \<open>Requests for a ride\<close>

text \<open>
  Models \<open>app/transport/services/ride_request_dispatch_service.py\<close> and the part of \<open>ride_request_service.py\<close> that stores a request.
  A request owns its reference until a driver accepts; a search cycle offers the ride to the drivers of a ranked pool, one
  after the other, and every offer is an attempt with a deadline.  The booking is inserted in the transaction that accepts it,
  together with its payment row and the claim of driver and vehicle.  A request refers to the invoice of its fare, which
  the theory of marketplace invoices models.

  All calls of the clock in one operation return the same time.  The ranking of drivers, which uses floating point scores, the
  parser of UUIDs and the random references of a booking and of a payment are fields of \<open>request_env\<close>.  A new row has the next key of its
  table.  Columns that the service only copies (locations, service type, vehicle class and the facts of the fare) and notifications are left
  out.  The statuses \<open>converting\<close> and \<open>accepting\<close> that an acceptance writes first are never committed, as the same transaction
  overwrites them or is rolled back.
\<close>

subsection \<open>Rows\<close>

datatype request_status = Searching | Converting | Converted | Request_cancelled

fun request_status_value :: "request_status \<Rightarrow> string" where
  "request_status_value Searching = ''searching''"
| "request_status_value Converting = ''converting''"
| "request_status_value Converted = ''converted''"
| "request_status_value Request_cancelled = ''cancelled''"

datatype cycle_status = Cycle_searching | Cycle_converting | Cycle_completed | Cycle_expired | Cycle_cancelled

fun cycle_status_value :: "cycle_status \<Rightarrow> string" where
  "cycle_status_value Cycle_searching = ''searching''"
| "cycle_status_value Cycle_converting = ''converting''"
| "cycle_status_value Cycle_completed = ''completed''"
| "cycle_status_value Cycle_expired = ''expired''"
| "cycle_status_value Cycle_cancelled = ''cancelled''"

datatype attempt_status =
  Queued | Attempt_offered | Accepting | Declined | Timed_out | Skipped | Claim_failed | Won | Withdrawn

fun attempt_status_value :: "attempt_status \<Rightarrow> string" where
  "attempt_status_value Queued = ''queued''"
| "attempt_status_value Attempt_offered = ''offered''"
| "attempt_status_value Accepting = ''accepting''"
| "attempt_status_value Declined = ''declined''"
| "attempt_status_value Timed_out = ''timed_out''"
| "attempt_status_value Skipped = ''skipped''"
| "attempt_status_value Claim_failed = ''claim_failed''"
| "attempt_status_value Won = ''won''"
| "attempt_status_value Withdrawn = ''withdrawn''"

definition ACTIONABLE_OFFER_STATUSES :: "attempt_status list" where
  "ACTIONABLE_OFFER_STATUSES = [Attempt_offered, Accepting]"

definition ACTIVE_CYCLE_STATUSES :: "cycle_status list" where
  "ACTIVE_CYCLE_STATUSES = [Cycle_searching, Cycle_converting]"

text \<open>What the ranker returns for a driver, and the entry of the pool made of it.\<close>

record candidate =
  cd_driver :: "int option"
  cd_vehicle :: "int option"
  cd_match_score :: "int option"
  cd_estimated_arrival_time :: "int option"

record pool_entry =
  pe_driver :: int
  pe_vehicle :: int
  pe_match_score :: int
  pe_estimated_arrival_time :: int
  pe_rank :: int

record ride_request =
  rq_id :: int
  rq_public_id :: string
  rq_user_id :: int
  rq_idempotency_key :: string
  rq_requested_pickup_time :: "time option"
  rq_passenger_count :: int
  rq_fare_estimate_amount :: "money option"
  rq_currency_code :: "string option"
  rq_payment_method :: "string option"
  rq_status :: request_status
  rq_cancelled_at :: "time option"
  rq_converted_at :: "time option"
  rq_created_at :: time
  rq_trip_hash :: "string option"
  rq_booking_mode :: "string option"
  rq_wallet_invoice_id :: "string option"
  rq_wallet_invoice_status :: "string option"
  rq_retry_count :: int
  rq_last_retry_at :: "time option"
  rq_cancelled_by :: "string option"
  rq_is_deleted :: bool

text \<open>The key of a cycle is the text of the request's key and the number, with a colon between them.\<close>

record search_cycle =
  cy_id :: int
  cy_request :: int
  cy_number :: int
  cy_key :: "string \<times> int"
  cy_status :: cycle_status
  cy_started_at :: time
  cy_deadline :: "time option"
  cy_completed_at :: "time option"
  cy_terminal_reason :: "string option"
  cy_ranked_pool :: "pool_entry list option"
  cy_pool_snapshotted_at :: "time option"
  cy_window_expired_at :: "time option"
  cy_is_deleted :: bool

record offer_attempt =
  oa_id :: int
  oa_cycle :: int
  oa_driver :: int
  oa_vehicle :: int
  oa_number :: int
  oa_rank :: int
  oa_status :: attempt_status
  oa_offered_at :: time
  oa_response_deadline :: "time option"
  oa_responded_at :: "time option"
  oa_detail :: json_object

record vehicle_pairing =
  vp_driver :: int
  vp_vehicle :: int
  vp_ended_at :: "time option"
  vp_is_deleted :: bool

record ride_payment =
  pm_booking :: int
  pm_reference :: string
  pm_amount :: money
  pm_currency :: string
  pm_method :: string
  pm_wallet_invoice :: "uuid option"
  pm_status :: string
  pm_initiated_at :: time

record request_db =
  qd_rides :: ride_db
  qd_market :: market_db
  qd_requests :: "ride_request list"
  qd_cycles :: "search_cycle list"
  qd_attempts :: "offer_attempt list"
  qd_pairings :: "vehicle_pairing list"
  qd_payments :: "ride_payment list"

record request_env =
  qe_ride :: ride_env
  qe_market :: market_env
  qe_ranked :: "string \<Rightarrow> candidate list"
  qe_uuid :: "string \<Rightarrow> uuid option"
  qe_booking_reference :: string
  qe_payment_reference :: string
  qe_public_id :: string

abbreviation qe_now :: "request_env \<Rightarrow> time" where
  "qe_now env \<equiv> re_now (qe_ride env)"

abbreviation seconds :: "int \<Rightarrow> int" where
  "seconds n \<equiv> n * 1000000"

datatype request_error =
    Request_not_found
  | Request_not_retryable
  | Accept_in_progress
  | Already_assigned
  | Request_not_cancellable
  | Already_accepted
  | Request_not_searchable
  | Offer_not_active
  | Matching_window_expired
  | Offer_timed_out
  | Vehicle_assignment_changed
  | Invalid_currency
  | Wallet_invoice_invalid
  | Wallet_invoice_unavailable
  | Wallet_invoice_mismatch
  | Claim_refused ride_error
  | Assignment_conflict
  | Idempotency_conflict
  | Payment_method_invalid market_error
  | Request_service_unavailable
  | Uncaught_error

subsection \<open>Reading and writing rows\<close>

definition next_key :: "int list \<Rightarrow> int" where
  "next_key ids = fold max ids 0 + 1"

definition find_request :: "request_db \<Rightarrow> string \<Rightarrow> ride_request option" where
  "find_request db p = find (\<lambda>r. rq_public_id r = p \<and> \<not> rq_is_deleted r) (qd_requests db)"

definition cycle_for_request :: "request_db \<Rightarrow> int \<Rightarrow> search_cycle option" where
  "cycle_for_request db i =
     (case sort_key (\<lambda>c. - cy_number c) (filter (\<lambda>c. cy_request c = i \<and> \<not> cy_is_deleted c) (qd_cycles db)) of
        [] \<Rightarrow> None | c # _ \<Rightarrow> Some c)"

definition actionable :: "offer_attempt \<Rightarrow> bool" where
  "actionable a \<longleftrightarrow> oa_status a \<in> set ACTIONABLE_OFFER_STATUSES"

definition attempts_of :: "request_db \<Rightarrow> int \<Rightarrow> offer_attempt list" where
  "attempts_of db i = filter (\<lambda>a. oa_cycle a = i) (qd_attempts db)"

definition active_attempt :: "request_db \<Rightarrow> int \<Rightarrow> offer_attempt option" where
  "active_attempt db i = find actionable (attempts_of db i)"

definition offered_attempt :: "request_db \<Rightarrow> int \<Rightarrow> int \<Rightarrow> offer_attempt option" where
  "offered_attempt db i d = find (\<lambda>a. oa_driver a = d \<and> oa_status a = Attempt_offered) (attempts_of db i)"

definition put_request :: "ride_request \<Rightarrow> request_db \<Rightarrow> request_db" where
  "put_request r db = db\<lparr>qd_requests := update_rows (\<lambda>x. rq_id x = rq_id r) (\<lambda>_. r) (qd_requests db)\<rparr>"

definition put_cycle :: "search_cycle \<Rightarrow> request_db \<Rightarrow> request_db" where
  "put_cycle c db = db\<lparr>qd_cycles := update_rows (\<lambda>x. cy_id x = cy_id c) (\<lambda>_. c) (qd_cycles db)\<rparr>"

definition put_offer :: "offer_attempt \<Rightarrow> request_db \<Rightarrow> request_db" where
  "put_offer a db = db\<lparr>qd_attempts := update_rows (\<lambda>x. oa_id x = oa_id a) (\<lambda>_. a) (qd_attempts db)\<rparr>"

definition cycle_status_of :: "request_db \<Rightarrow> int \<Rightarrow> string" where
  "cycle_status_of db i =
     (case find (\<lambda>c. cy_id c = i) (qd_cycles db) of None \<Rightarrow> [] | Some c \<Rightarrow> cycle_status_value (cy_status c))"

text \<open>An attempt whose deadline to respond is set and in the future.\<close>

definition awaits_response :: "time \<Rightarrow> offer_attempt \<Rightarrow> bool" where
  "awaits_response now a \<longleftrightarrow> (case oa_response_deadline a of None \<Rightarrow> False | Some t \<Rightarrow> t > now)"

subsection \<open>The pool of a cycle\<close>

definition MATCHING_POOL_SIZE :: nat where
  "MATCHING_POOL_SIZE = 5"

definition RESPONSE_SECONDS :: int where
  "RESPONSE_SECONDS = 25"

definition or_int :: "int option \<Rightarrow> int \<Rightarrow> int" where
  "or_int x d = (case x of None \<Rightarrow> d | Some n \<Rightarrow> if n = 0 then d else n)"

fun candidate_snapshot :: "candidate list \<Rightarrow> pool_entry list" where
  "candidate_snapshot [] = []"
| "candidate_snapshot (c # cs) =
     (if or_int (cd_driver c) 0 = 0 \<or> or_int (cd_vehicle c) 0 = 0 then candidate_snapshot cs
      else \<lparr>pe_driver = or_int (cd_driver c) 0, pe_vehicle = or_int (cd_vehicle c) 0,
             pe_match_score = or_int (cd_match_score c) 0,
             pe_estimated_arrival_time = or_int (cd_estimated_arrival_time c) 15, pe_rank = 0\<rparr> # candidate_snapshot cs)"

definition ranked_pool :: "candidate list \<Rightarrow> pool_entry list" where
  "ranked_pool ranked =
     map (\<lambda>(n, e). e\<lparr>pe_rank := int n\<rparr>) (enumerate 1 (candidate_snapshot (take MATCHING_POOL_SIZE ranked)))"

text \<open>The pool of a cycle is taken once and kept.\<close>

definition with_pool :: "request_env \<Rightarrow> ride_request \<Rightarrow> search_cycle \<Rightarrow> search_cycle" where
  "with_pool env rq c =
     (case cy_ranked_pool c of
        Some _ \<Rightarrow> c
      | None \<Rightarrow> c\<lparr>cy_ranked_pool := Some (ranked_pool (qe_ranked env (rq_public_id rq))),
                    cy_pool_snapshotted_at := Some (qe_now env)\<rparr>)"

definition pool_of :: "search_cycle \<Rightarrow> pool_entry list" where
  "pool_of c = (case cy_ranked_pool c of None \<Rightarrow> [] | Some es \<Rightarrow> es)"

subsection \<open>Offers\<close>

text \<open>The constraints of the table of attempts.\<close>

definition attempt_row_ok :: "request_db \<Rightarrow> offer_attempt \<Rightarrow> bool" where
  "attempt_row_ok db a \<longleftrightarrow>
     list_all (\<lambda>b. oa_cycle b = oa_cycle a \<longrightarrow>
       oa_number b \<noteq> oa_number a \<and> \<not> (actionable a \<and> actionable b)) (qd_attempts db)
     \<and> oa_driver a \<in> dr_id ` set (dd_drivers (qd_rides db)) \<and> oa_vehicle a \<in> fv_id ` set (dd_vehicles (qd_rides db))"

definition new_attempt :: "time \<Rightarrow> ride_request \<Rightarrow> search_cycle \<Rightarrow> pool_entry \<Rightarrow> int \<Rightarrow> int \<Rightarrow> offer_attempt" where
  "new_attempt now rq c e n i =
     \<lparr>oa_id = i, oa_cycle = cy_id c, oa_driver = pe_driver e, oa_vehicle = pe_vehicle e, oa_number = n,
      oa_rank = (if pe_rank e = 0 then n else pe_rank e), oa_status = Attempt_offered, oa_offered_at = now,
      oa_response_deadline = Some (now + seconds RESPONSE_SECONDS), oa_responded_at = None,
      oa_detail = [(''request_reference'', JStr (rq_public_id rq)),
                   (''estimated_arrival_time'', JInt (or_int (Some (pe_estimated_arrival_time e)) 15))]\<rparr>"

definition insert_offer ::
  "time \<Rightarrow> ride_request \<Rightarrow> search_cycle \<Rightarrow> pool_entry \<Rightarrow> int \<Rightarrow> request_db \<Rightarrow> request_error + offer_attempt \<times> request_db" where
  "insert_offer now rq c e n db =
     (let a = new_attempt now rq c e n (next_key (map oa_id (qd_attempts db))) in
      if attempt_row_ok db a then Inr (a, db\<lparr>qd_attempts := qd_attempts db @ [a]\<rparr>) else Inl Uncaught_error)"

text \<open>An elapsed window closes its cycle and withdraws the open offer.\<close>

definition timed_out_at :: "time \<Rightarrow> offer_attempt \<Rightarrow> offer_attempt" where
  "timed_out_at now a =
     a\<lparr>oa_status := Timed_out, oa_responded_at := Some now,
       oa_detail := oa_detail a @ [(''reason'', JStr ''matching_window_expired''), (''at'', JTime now)]\<rparr>"

definition close_cycle_at_deadline :: "time \<Rightarrow> search_cycle \<Rightarrow> request_db \<Rightarrow> bool \<times> request_db" where
  "close_cycle_at_deadline now c db =
     (case cy_deadline c of
        None \<Rightarrow> (False, db)
      | Some t \<Rightarrow>
          if t > now then (False, db)
          else (True, put_cycle
            (c\<lparr>cy_status := Cycle_expired,
               cy_terminal_reason := Some (if attempts_of db (cy_id c) = [] then ''no_supply'' else ''all_rejected''),
               cy_completed_at := Some now, cy_window_expired_at := Some now\<rparr>)
            (db\<lparr>qd_attempts := update_rows (\<lambda>a. oa_cycle a = cy_id c \<and> actionable a) (timed_out_at now) (qd_attempts db)\<rparr>)))"

definition max_number :: "offer_attempt list \<Rightarrow> int" where
  "max_number as = (case map oa_number as of [] \<Rightarrow> 0 | n # ns \<Rightarrow> fold max ns n)"

text \<open>The outcome of an attempt, and the next offer or the end of the cycle.\<close>

definition advance_locked ::
  "time \<Rightarrow> ride_request \<Rightarrow> search_cycle \<Rightarrow> offer_attempt \<Rightarrow> attempt_status \<Rightarrow> request_db \<Rightarrow>
   request_error + offer_attempt option \<times> request_db" where
  "advance_locked now rq c a outcome db =
     (let db1 = put_offer (a\<lparr>oa_status := outcome, oa_responded_at := Some now,
                             oa_detail := oa_detail a @ [(''terminal_at'', JTime now)]\<rparr>) db;
          previous = attempts_of db1 (cy_id c)
      in case close_cycle_at_deadline now c db1 of
           (True, db2) \<Rightarrow> Inr (None, db2)
         | (False, _) \<Rightarrow>
             (case find (\<lambda>e. pe_driver e \<notin> oa_driver ` set previous) (pool_of c) of
                None \<Rightarrow> Inr (None, put_cycle (c\<lparr>cy_status := Cycle_expired,
                            cy_terminal_reason := Some (if previous = [] then ''no_supply'' else ''all_rejected''),
                            cy_completed_at := Some now\<rparr>) db1)
              | Some e \<Rightarrow> rbind (insert_offer now rq c e (max_number previous + 1) db1) (\<lambda>(n, db2). Inr (Some n, db2))))"

subsection \<open>Starting and retrying a search\<close>

definition advance_reply ::
  "time \<Rightarrow> ride_request \<Rightarrow> search_cycle \<Rightarrow> offer_attempt \<Rightarrow> request_db \<Rightarrow> (request_error + string) \<times> request_db" where
  "advance_reply now rq c a db =
     (case advance_locked now rq c a Timed_out db of
        Inl e \<Rightarrow> (Inl e, db)
      | Inr (_, db') \<Rightarrow> (Inr (cycle_status_of db' (cy_id c)), db'))"

text \<open>The first offer of a cycle; after a failed insert the open attempt of another call is reported.\<close>

definition first_offer :: "request_env \<Rightarrow> ride_request \<Rightarrow> search_cycle \<Rightarrow> request_db \<Rightarrow> (request_error + string) \<times> request_db" where
  "first_offer env rq c db =
     (let c1 = with_pool env rq c in
      case pool_of c1 of
        [] \<Rightarrow> (Inr ''no_supply'', put_cycle (c1\<lparr>cy_status := Cycle_expired, cy_terminal_reason := Some ''no_supply'',
                 cy_completed_at := Some (qe_now env)\<rparr>) db)
      | e # _ \<Rightarrow>
          (case insert_offer (qe_now env) rq c1 e 1 (put_cycle c1 db) of
             Inr (a, db') \<Rightarrow> (Inr ''offered'', db')
           | Inl x \<Rightarrow>
               ((case cycle_for_request db (rq_id rq) of
                   None \<Rightarrow> Inl x
                 | Some c' \<Rightarrow> (case active_attempt db (cy_id c') of
                                 Some a \<Rightarrow> Inr (attempt_status_value (oa_status a)) | None \<Rightarrow> Inl x)), db)))"

definition start_search :: "request_env \<Rightarrow> string \<Rightarrow> request_db \<Rightarrow> (request_error + string) \<times> request_db" where
  "start_search env p db =
     (case find_request db p of
        None \<Rightarrow> (Inl Request_not_found, db)
      | Some rq \<Rightarrow>
          if rq_status rq \<noteq> Searching then (Inr (request_status_value (rq_status rq)), db)
          else case cycle_for_request db (rq_id rq) of
            None \<Rightarrow> (Inr ''no_active_search'', db)
          | Some c \<Rightarrow>
              if cy_status c \<noteq> Cycle_searching then (Inr ''no_active_search'', db)
              else case close_cycle_at_deadline (qe_now env) c db of
                (True, db1) \<Rightarrow> (Inr ''expired'', db1)
              | (False, _) \<Rightarrow>
                  (case active_attempt db (cy_id c) of
                     Some a \<Rightarrow>
                       if oa_status a = Attempt_offered \<and> awaits_response (qe_now env) a then (Inr ''offered'', db)
                       else if oa_status a = Accepting then (Inr ''accepting'', db)
                       else advance_reply (qe_now env) rq c a db
                   | None \<Rightarrow> first_offer env rq c db))"

text \<open>The constraints of the table of cycles.\<close>

definition cycle_row_ok :: "request_db \<Rightarrow> search_cycle \<Rightarrow> bool" where
  "cycle_row_ok db c \<longleftrightarrow>
     list_all (\<lambda>x. cy_request x = cy_request c \<longrightarrow> cy_number x \<noteq> cy_number c \<and> cy_key x \<noteq> cy_key c
       \<and> \<not> (cy_status x \<in> set ACTIVE_CYCLE_STATUSES \<and> cy_status c \<in> set ACTIVE_CYCLE_STATUSES)) (qd_cycles db)"

definition new_cycle :: "request_env \<Rightarrow> ride_request \<Rightarrow> int \<Rightarrow> int \<Rightarrow> search_cycle" where
  "new_cycle env rq n i =
     \<lparr>cy_id = i, cy_request = rq_id rq, cy_number = n, cy_key = (rq_idempotency_key rq, n), cy_status = Cycle_searching,
      cy_started_at = qe_now env, cy_deadline = Some (qe_now env + seconds (re_window_seconds (qe_ride env))),
      cy_completed_at = None, cy_terminal_reason = None, cy_ranked_pool = None, cy_pool_snapshotted_at = None,
      cy_window_expired_at = None, cy_is_deleted = False\<rparr>"

definition open_cycle :: "request_env \<Rightarrow> ride_request \<Rightarrow> int \<Rightarrow> request_db \<Rightarrow> (request_error + string) \<times> request_db" where
  "open_cycle env rq n db =
     (let c = new_cycle env rq n (next_key (map cy_id (qd_cycles db))) in
      if cycle_row_ok db c
      then start_search env (rq_public_id rq)
             (put_request (rq\<lparr>rq_retry_count := rq_retry_count rq + 1, rq_last_retry_at := Some (qe_now env)\<rparr>)
               (db\<lparr>qd_cycles := qd_cycles db @ [c]\<rparr>))
      else (Inl Uncaught_error, db))"

definition retry_search :: "request_env \<Rightarrow> string \<Rightarrow> int \<Rightarrow> request_db \<Rightarrow> (request_error + string) \<times> request_db" where
  "retry_search env p owner db =
     (case find_request db p of
        None \<Rightarrow> (Inl Request_not_found, db)
      | Some rq \<Rightarrow>
          if rq_user_id rq \<noteq> owner then (Inl Request_not_found, db)
          else if rq_status rq \<noteq> Searching then (Inl Request_not_retryable, db)
          else case cycle_for_request db (rq_id rq) of
            None \<Rightarrow> open_cycle env rq 1 db
          | Some c \<Rightarrow>
              if cy_status c = Cycle_searching
              then (case close_cycle_at_deadline (qe_now env) c db of
                      (True, db1) \<Rightarrow> (Inr ''expired'', db1)
                    | (False, _) \<Rightarrow>
                        (case active_attempt db (cy_id c) of
                           Some a \<Rightarrow>
                             if oa_status a = Accepting then (Inl Accept_in_progress, db)
                             else if awaits_response (qe_now env) a then (Inr ''offered'', db)
                             else advance_reply (qe_now env) rq c a db
                         | None \<Rightarrow> start_search env p db))
              else if cy_status c \<notin> {Cycle_expired, Cycle_cancelled} then (Inl Request_not_retryable, db)
              else open_cycle env rq (cy_number c + 1) db)"

subsection \<open>Cancelling and declining\<close>

definition withdrawn_at :: "time \<Rightarrow> offer_attempt \<Rightarrow> offer_attempt" where
  "withdrawn_at now a =
     a\<lparr>oa_status := Withdrawn, oa_responded_at := Some now,
       oa_detail := oa_detail a @ [(''reason'', JStr ''rider_cancelled''), (''at'', JTime now)]\<rparr>"

definition cancel_cycle :: "time \<Rightarrow> search_cycle option \<Rightarrow> request_db \<Rightarrow> request_db" where
  "cancel_cycle now oc db =
     (case oc of
        None \<Rightarrow> db
      | Some c \<Rightarrow>
          if cy_status c \<noteq> Cycle_searching then db
          else put_cycle (c\<lparr>cy_status := Cycle_cancelled, cy_completed_at := Some now, cy_terminal_reason := Some ''rider_cancelled''\<rparr>)
                 (db\<lparr>qd_attempts := update_rows (\<lambda>a. oa_cycle a = cy_id c \<and> actionable a) (withdrawn_at now) (qd_attempts db)\<rparr>))"

text \<open>The reply says whether the request had been cancelled before.\<close>

definition cancel_request :: "time \<Rightarrow> string \<Rightarrow> int \<Rightarrow> request_db \<Rightarrow> (request_error + bool) \<times> request_db" where
  "cancel_request now p owner db =
     (case find_request db p of
        None \<Rightarrow> (Inl Request_not_found, db)
      | Some rq \<Rightarrow>
          if rq_user_id rq \<noteq> owner then (Inl Request_not_found, db)
          else if rq_status rq = Converted then (Inl Already_assigned, db)
          else if rq_status rq = Request_cancelled then (Inr True, db)
          else if rq_status rq \<noteq> Searching then (Inl Request_not_cancellable, db)
          else (Inr False,
            put_request (rq\<lparr>rq_status := Request_cancelled, rq_cancelled_at := Some now, rq_cancelled_by := Some ''rider''\<rparr>)
              (cancel_cycle now (cycle_for_request db (rq_id rq)) db)))"

definition searching_cycle :: "request_db \<Rightarrow> ride_request \<Rightarrow> search_cycle option" where
  "searching_cycle db rq =
     (if rq_status rq \<noteq> Searching then None
      else case cycle_for_request db (rq_id rq) of
        None \<Rightarrow> None
      | Some c \<Rightarrow> if cy_status c = Cycle_searching then Some c else None)"

definition decline_request_offer :: "time \<Rightarrow> string \<Rightarrow> int \<Rightarrow> request_db \<Rightarrow> (request_error + bool) \<times> request_db" where
  "decline_request_offer now p d db =
     (case find_request db p of
        None \<Rightarrow> (Inr False, db)
      | Some rq \<Rightarrow>
          (case searching_cycle db rq of
             None \<Rightarrow> (Inr False, db)
           | Some c \<Rightarrow>
               (case offered_attempt db (cy_id c) d of
                  None \<Rightarrow> (Inr False, db)
                | Some a \<Rightarrow>
                    (case advance_locked now rq c a Declined db of
                       Inl e \<Rightarrow> (Inl e, db)
                     | Inr (_, db') \<Rightarrow> (Inr True, db')))))"

subsection \<open>Recovery of stale offers\<close>

record recovery =
  ry_expired :: nat
  ry_advanced :: nat
  ry_closed :: nat

definition elapsed :: "time \<Rightarrow> time option \<Rightarrow> bool" where
  "elapsed now t \<longleftrightarrow> (case t of None \<Rightarrow> False | Some x \<Rightarrow> x \<le> now)"

text \<open>Ascending order with \<open>NULL\<close> last, as PostgreSQL sorts.\<close>

definition nulls_last :: "('a \<Rightarrow> time option) \<Rightarrow> 'a list \<Rightarrow> 'a list" where
  "nulls_last f xs =
     sort_key (\<lambda>x. case f x of None \<Rightarrow> 0 | Some t \<Rightarrow> t) (filter (\<lambda>x. f x \<noteq> None) xs) @ filter (\<lambda>x. f x = None) xs"

definition cycle_of :: "request_db \<Rightarrow> offer_attempt \<Rightarrow> search_cycle option" where
  "cycle_of db a = find (\<lambda>c. cy_id c = oa_cycle a) (qd_cycles db)"

abbreviation cycle_deadline :: "request_db \<Rightarrow> offer_attempt \<Rightarrow> time option" where
  "cycle_deadline db a \<equiv> Option.bind (cycle_of db a) cy_deadline"

definition stale_attempts :: "time \<Rightarrow> nat \<Rightarrow> request_db \<Rightarrow> offer_attempt list" where
  "stale_attempts now batch db =
     take batch (nulls_last (cycle_deadline db) (nulls_last oa_response_deadline
       (filter (\<lambda>a. oa_status a = Attempt_offered \<and> cycle_of db a \<noteq> None
          \<and> (elapsed now (oa_response_deadline a) \<or> elapsed now (cycle_deadline db a))) (qd_attempts db))))"

definition recover_attempt :: "time \<Rightarrow> offer_attempt \<Rightarrow> recovery \<times> request_db \<Rightarrow> recovery \<times> request_db" where
  "recover_attempt now row s =
     (case s of (n, db) \<Rightarrow>
       let closed = n\<lparr>ry_expired := ry_expired n + 1, ry_closed := ry_closed n + 1\<rparr> in
       case cycle_of db row of
         None \<Rightarrow> s
       | Some c0 \<Rightarrow>
           (case find (\<lambda>r. rq_id r = cy_request c0 \<and> \<not> rq_is_deleted r) (qd_requests db) of
              None \<Rightarrow> s
            | Some rq \<Rightarrow>
                (case searching_cycle db rq of
                   None \<Rightarrow> s
                 | Some c \<Rightarrow>
                     (case find (\<lambda>a. oa_id a = oa_id row \<and> oa_status a = Attempt_offered) (attempts_of db (cy_id c)) of
                        None \<Rightarrow> s
                      | Some a \<Rightarrow>
                          (case close_cycle_at_deadline now c db of
                             (True, db1) \<Rightarrow> (closed, db1)
                           | (False, _) \<Rightarrow>
                               if awaits_response now a then s
                               else (case advance_locked now rq c a Timed_out db of
                                       Inl _ \<Rightarrow> s
                                     | Inr (Some _, db1) \<Rightarrow>
                                         (n\<lparr>ry_expired := ry_expired n + 1, ry_advanced := ry_advanced n + 1\<rparr>, db1)
                                     | Inr (None, db1) \<Rightarrow> (closed, db1)))))))"

text \<open>Searching requests with a searching cycle that has no attempt at all.\<close>

definition silent_requests :: "nat \<Rightarrow> request_db \<Rightarrow> ride_request list" where
  "silent_requests batch db =
     take batch (sort_key rq_created_at
       (filter (\<lambda>r. rq_status r = Searching \<and> \<not> rq_is_deleted r
          \<and> list_ex (\<lambda>c. cy_request c = rq_id r \<and> cy_status c = Cycle_searching \<and> \<not> cy_is_deleted c
              \<and> attempts_of db (cy_id c) = []) (qd_cycles db)) (qd_requests db)))"

definition recover_expired :: "request_env \<Rightarrow> nat \<Rightarrow> request_db \<Rightarrow> recovery \<times> request_db" where
  "recover_expired env batch db =
     (case fold (recover_attempt (qe_now env)) (stale_attempts (qe_now env) batch db)
             (\<lparr>ry_expired = 0, ry_advanced = 0, ry_closed = 0\<rparr>, db) of
        (n, db1) \<Rightarrow>
          (n, fold (\<lambda>r d. snd (start_search env (rq_public_id r) d)) (silent_requests batch db1) db1))"

subsection \<open>Acceptance\<close>

definition CURRENCIES :: "string list" where
  "CURRENCIES = [''USD'', ''EUR'', ''GBP'', ''XOF'', ''XAF'', ''NGN'', ''KES'', ''GHS'', ''ZAR'', ''UGX'']"

definition py_str :: "string option \<Rightarrow> string" where
  "py_str x = (case x of None \<Rightarrow> ''None'' | Some s \<Rightarrow> s)"

definition or_str :: "string option \<Rightarrow> string \<Rightarrow> string" where
  "or_str x d = (case x of None \<Rightarrow> d | Some s \<Rightarrow> if s = [] then d else s)"

definition request_amount :: "ride_request \<Rightarrow> money" where
  "request_amount rq = ride_money (case rq_fare_estimate_amount rq of None \<Rightarrow> 0 | Some x \<Rightarrow> x)"

definition request_currency :: "ride_request \<Rightarrow> string" where
  "request_currency rq = str_upper (or_str (rq_currency_code rq) ''USD'')"

definition request_mode :: "ride_request \<Rightarrow> string" where
  "request_mode rq = str_lower (or_str (rq_booking_mode rq) ''instant'')"

text \<open>The invoice of the fare; a request without a fare fails when the fare is compared.\<close>

definition check_request_invoice :: "request_env \<Rightarrow> ride_request \<Rightarrow> request_db \<Rightarrow> request_error + uuid option" where
  "check_request_invoice env rq db =
     (let raw = or_str (rq_wallet_invoice_id rq) [] in
      if raw = [] then Inr None
      else case qe_uuid env raw of
        None \<Rightarrow> Inl Wallet_invoice_invalid
      | Some u \<Rightarrow>
          (case get_invoice (qd_market db) u of
             Inl _ \<Rightarrow> Inl Wallet_invoice_unavailable
           | Inr iv \<Rightarrow>
               if mi_service_code iv \<noteq> ''transport'' \<or> mi_service_reference iv \<noteq> rq_public_id rq
                  \<or> mi_payer_user_id iv \<noteq> rq_user_id rq then Inl Wallet_invoice_mismatch
               else case rq_fare_estimate_amount rq of
                 None \<Rightarrow> Inl Uncaught_error
               | Some fare \<Rightarrow>
                   if ride_money (mi_amount iv) \<noteq> ride_money fare
                      \<or> str_upper (mi_currency iv) \<noteq> str_upper (py_str (rq_currency_code rq))
                      \<or> str_lower (mi_payment_method iv) \<noteq> str_lower (py_str (rq_payment_method rq))
                      \<or> mi_status iv \<noteq> ''pending'' then Inl Wallet_invoice_mismatch
                   else Inr (Some u)))"

definition request_booking :: "request_env \<Rightarrow> ride_request \<Rightarrow> search_cycle \<Rightarrow> int \<Rightarrow> ride" where
  "request_booking env rq c i =
     (let mode = request_mode rq in
      \<lparr>rd_id = i, rd_reference = qe_booking_reference env, rd_user_id = rq_user_id rq, rd_provider_id = None,
       rd_status = CONFIRMED, rd_no_match_reason = None, rd_driver = None, rd_vehicle = None, rd_driver_assigned_at = None,
       rd_driver_en_route_at = None, rd_driver_arrived_at = None,
       rd_pickup_mode = Some (if mode \<in> {''instant'', ''scheduled''} then mode else ''instant''),
       rd_pickup_time = Some (case rq_requested_pickup_time rq of None \<Rightarrow> qe_now env | Some t \<Rightarrow> t),
       rd_pickup_actual_time = None, rd_dropoff_actual_time = None, rd_final_price = request_amount rq,
       rd_currency = Some (request_currency rq), rd_confirmed_at = Some (qe_now env), rd_completed_at = None,
       rd_cancelled_at = None, rd_cancellation_reason = None, rd_cancellation_reason_category = None,
       rd_cancellation_safety_flag = False, rd_cancelled_stage = None, rd_cancellation_initiated_by = None,
       rd_cancellation_fee = 0,
       rd_meta = \<lparr>rm_booking_mode = Some mode, rm_matching_started_at = None, rm_no_match_cause = None,
         rm_driver_cancellations = [], rm_cancellation = None, rm_no_show = None, rm_driver_credits = [],
         rm_offer_attempts = [], rm_completed_by = None\<rparr>,
       rd_audit_log = [], rd_ride_request_id = Some (rq_id rq), rd_search_cycle_id = Some (cy_id c), rd_is_deleted = False\<rparr>)"

text \<open>The constraints of the table of bookings on a new row: its unique columns, the sane pickup time and the ranges.\<close>

definition booking_row_ok :: "time \<Rightarrow> int \<Rightarrow> ride_db \<Rightarrow> ride \<Rightarrow> bool" where
  "booking_row_ok now passengers db b \<longleftrightarrow>
     list_all (\<lambda>r. rd_reference r \<noteq> rd_reference b
       \<and> (rd_ride_request_id r = None \<or> rd_ride_request_id r \<noteq> rd_ride_request_id b)
       \<and> (rd_search_cycle_id r = None \<or> rd_search_cycle_id r \<noteq> rd_search_cycle_id b)) (dd_rides db)
     \<and> (case rd_pickup_time b of None \<Rightarrow> True | Some t \<Rightarrow> t > now - minutes 5)
     \<and> 0 < passengers \<and> passengers \<le> 100 \<and> 0 \<le> rd_final_price b \<and> ride_row_ok db b"

definition insert_booking :: "request_env \<Rightarrow> ride_request \<Rightarrow> search_cycle \<Rightarrow> ride_db \<Rightarrow> request_error + ride \<times> ride_db" where
  "insert_booking env rq c db =
     (let b = request_booking env rq c (next_key (map rd_id (dd_rides db))) in
      if booking_row_ok (qe_now env) (or_int (Some (rq_passenger_count rq)) 1) db b
      then Inr (b, db\<lparr>dd_rides := dd_rides db @ [b]\<rparr>) else Inl Assignment_conflict)"

text \<open>The payment row of the booking, if it has none: an amount above zero, a method and a new reference.\<close>

definition record_payment ::
  "request_env \<Rightarrow> ride_request \<Rightarrow> uuid option \<Rightarrow> ride \<Rightarrow> ride_payment list \<Rightarrow> request_error + ride_payment list" where
  "record_payment env rq invoice b ps =
     (if list_ex (\<lambda>p. pm_booking p = rd_id b) ps then Inr ps
      else case rq_payment_method rq of
        None \<Rightarrow> Inl Assignment_conflict
      | Some m \<Rightarrow>
          if \<not> request_amount rq > 0 \<or> list_ex (\<lambda>p. pm_reference p = qe_payment_reference env) ps then Inl Assignment_conflict
          else Inr (ps @ [\<lparr>pm_booking = rd_id b, pm_reference = qe_payment_reference env, pm_amount = request_amount rq,
                           pm_currency = request_currency rq, pm_method = m, pm_wallet_invoice = invoice,
                           pm_status = ''pending'', pm_initiated_at = qe_now env\<rparr>]))"

definition claim_error :: "ride_error \<Rightarrow> request_error" where
  "claim_error e = (if e = Integrity_error then Assignment_conflict else Claim_refused e)"

definition skipped_at :: "time \<Rightarrow> offer_attempt \<Rightarrow> offer_attempt" where
  "skipped_at now a =
     a\<lparr>oa_status := Skipped, oa_responded_at := Some now,
       oa_detail := oa_detail a @ [(''reason'', JStr ''another_driver_won''), (''at'', JTime now)]\<rparr>"

definition record_conversion :: "time \<Rightarrow> ride_request \<Rightarrow> search_cycle \<Rightarrow> offer_attempt \<Rightarrow> request_db \<Rightarrow> request_db" where
  "record_conversion now rq c a db =
     put_request (rq\<lparr>rq_status := Converted, rq_converted_at := Some now\<rparr>)
       (put_cycle (c\<lparr>cy_status := Cycle_completed, cy_completed_at := Some now, cy_terminal_reason := None\<rparr>)
         (put_offer (a\<lparr>oa_status := Won, oa_responded_at := Some now,
                       oa_detail := oa_detail a @ [(''accepted_at'', JTime now), (''booking_created'', JBool True)]\<rparr>)
           (db\<lparr>qd_attempts := update_rows (\<lambda>x. oa_cycle x = cy_id c \<and> oa_id x \<noteq> oa_id a \<and> actionable x) (skipped_at now)
                                 (qd_attempts db)\<rparr>)))"

definition convert_body ::
  "request_env \<Rightarrow> ride_request \<Rightarrow> search_cycle \<Rightarrow> offer_attempt \<Rightarrow> ride_actor option \<Rightarrow> request_db \<Rightarrow> request_error + int \<times> request_db" where
  "convert_body env rq c a actor db =
     (if request_currency rq \<notin> set CURRENCIES then Inl Invalid_currency
      else rbind (check_request_invoice env rq db) (\<lambda>invoice.
      rbind (insert_booking env rq c (qd_rides db)) (\<lambda>(b, rides).
      rbind (record_payment env rq invoice b (qd_payments db)) (\<lambda>payments.
      rbind (map_sum claim_error id (claim_staged (qe_ride env)
               \<lparr>ca_reference = rd_reference b, ca_driver = oa_driver a, ca_vehicle = oa_vehicle a, ca_actor = actor,
                 ca_force = False\<rparr> rides)) (\<lambda>(i, rides').
      Inr (i, record_conversion (qe_now env) rq c a (db\<lparr>qd_rides := rides', qd_payments := payments\<rparr>)))))))"

text \<open>An attempt that fails advances the search and the driver sees the error.\<close>

definition give_up ::
  "time \<Rightarrow> ride_request \<Rightarrow> search_cycle \<Rightarrow> offer_attempt \<Rightarrow> attempt_status \<Rightarrow> request_error \<Rightarrow> request_db \<Rightarrow>
   (request_error + int) \<times> request_db" where
  "give_up now rq c a outcome err db =
     (case advance_locked now rq c a outcome db of Inl e \<Rightarrow> (Inl e, db) | Inr (_, db') \<Rightarrow> (Inl err, db'))"

text \<open>
  A refused claim or a broken constraint rolls the conversion back; the rows are read again, are the same, and the
  search advances.  An invalid currency or invoice ends the call with an open transaction, which the end of the web
  request rolls back.
\<close>

definition convert_offer ::
  "request_env \<Rightarrow> ride_request \<Rightarrow> search_cycle \<Rightarrow> offer_attempt \<Rightarrow> ride_actor option \<Rightarrow> request_db \<Rightarrow>
   (request_error + int) \<times> request_db" where
  "convert_offer env rq c a actor db =
     (case convert_body env rq c a actor db of
        Inr (i, db') \<Rightarrow> (Inr i, db')
      | Inl (Claim_refused e) \<Rightarrow> give_up (qe_now env) rq c a Claim_failed (Claim_refused e) db
      | Inl Assignment_conflict \<Rightarrow> give_up (qe_now env) rq c a Claim_failed Assignment_conflict db
      | Inl e \<Rightarrow> (Inl e, db))"

definition accept_request_offer ::
  "request_env \<Rightarrow> string \<Rightarrow> int \<Rightarrow> int \<Rightarrow> ride_actor option \<Rightarrow> request_db \<Rightarrow> (request_error + int) \<times> request_db" where
  "accept_request_offer env p d v actor db =
     (case find_request db p of
        None \<Rightarrow> (Inl Request_not_found, db)
      | Some rq \<Rightarrow>
          if rq_status rq = Converted then (Inl Already_accepted, db)
          else if rq_status rq \<noteq> Searching then (Inl Request_not_searchable, db)
          else case searching_cycle db rq of
            None \<Rightarrow> (Inl Offer_not_active, db)
          | Some c \<Rightarrow>
              (case close_cycle_at_deadline (qe_now env) c db of
                 (True, db1) \<Rightarrow> (Inl Matching_window_expired, db1)
               | (False, _) \<Rightarrow>
                   (case offered_attempt db (cy_id c) d of
                      None \<Rightarrow> (Inl Offer_not_active, db)
                    | Some a \<Rightarrow>
                        if oa_vehicle a \<noteq> v then (Inl Offer_not_active, db)
                        else if \<not> awaits_response (qe_now env) a then give_up (qe_now env) rq c a Timed_out Offer_timed_out db
                        else if \<not> list_ex (\<lambda>h. vp_driver h = d \<and> vp_vehicle h = v \<and> vp_ended_at h = None \<and> \<not> vp_is_deleted h)
                                    (qd_pairings db)
                        then give_up (qe_now env) rq c a Claim_failed Vehicle_assignment_changed db
                        else convert_offer env rq c a actor db)))"

subsection \<open>The offers of a driver\<close>

record driver_offer =
  of_booking_reference :: string
  of_expires_at :: int
  of_ttl_remaining :: int
  of_amount :: money
  of_currency :: "string option"
  of_passenger_count :: int

definition request_driver_offers :: "time \<Rightarrow> int \<Rightarrow> request_db \<Rightarrow> driver_offer list" where
  "request_driver_offers now d db =
     concat (map (\<lambda>a.
       (case cycle_of db a of
          None \<Rightarrow> []
        | Some c \<Rightarrow>
            if cy_status c \<noteq> Cycle_searching then []
            else case find (\<lambda>r. rq_id r = cy_request c) (qd_requests db) of
              None \<Rightarrow> []
            | Some r \<Rightarrow>
                if rq_status r \<noteq> Searching \<or> rq_is_deleted r then []
                else case oa_response_deadline a of
                  None \<Rightarrow> []
                | Some t \<Rightarrow>
                    [\<lparr>of_booking_reference = rq_public_id r, of_expires_at = t div seconds 1,
                      of_ttl_remaining = max 0 ((t - now) div seconds 1),
                      of_amount = (case rq_fare_estimate_amount r of None \<Rightarrow> 0 | Some x \<Rightarrow> x),
                      of_currency = rq_currency_code r,
                      of_passenger_count = or_int (Some (rq_passenger_count r)) 1\<rparr>]))
       (sort_key oa_offered_at
         (filter (\<lambda>a. oa_driver a = d \<and> oa_status a = Attempt_offered \<and> awaits_response now a) (qd_attempts db))))"

subsection \<open>Creating a request\<close>

text \<open>The facts of a trip after their validation, which measures distances and quotes the fare.\<close>

record trip_facts =
  tf_owner :: int
  tf_key :: string
  tf_trip_hash :: string
  tf_pickup_time :: "time option"
  tf_passenger_count :: int
  tf_fare :: money
  tf_fare_version :: Wallet_Ledger.json
  tf_currency :: string
  tf_payment_method :: string
  tf_booking_mode :: string

fun digits :: "nat \<Rightarrow> string" where
  "digits n = (if n < 10 then [char_of (48 + n)] else digits (n div 10) @ [char_of (48 + n mod 10)])"

declare digits.simps [simp del]

definition int_text :: "int \<Rightarrow> string" where
  "int_text n = (if n < 0 then ''-'' @ digits (nat (- n)) else digits (nat n))"

definition request_invoice_args :: "request_env \<Rightarrow> trip_facts \<Rightarrow> invoice_args" where
  "request_invoice_args env t =
     \<lparr>ia_idempotency_key = ''transport-ride:'' @ int_text (tf_owner t) @ '':'' @ tf_key t, ia_service_code = ''transport'',
      ia_service_reference = qe_public_id env, ia_payer_user_id = Some (tf_owner t), ia_amount = Some (tf_fare t),
      ia_currency = tf_currency t, ia_payment_method = tf_payment_method t, ia_settlement_timing = ''pay_on_completion'',
      ia_service_country_code = None, ia_payer_country_code = None,
      ia_metadata = Some [''ride_request_public_id'' \<mapsto> Wallet_Ledger.JStr (qe_public_id env),
        ''fare_version'' \<mapsto> tf_fare_version t, ''trip_hash'' \<mapsto> Wallet_Ledger.JStr (tf_trip_hash t)]\<rparr>"

definition new_request :: "request_env \<Rightarrow> trip_facts \<Rightarrow> market_invoice \<Rightarrow> int \<Rightarrow> ride_request" where
  "new_request env t iv i =
     \<lparr>rq_id = i, rq_public_id = qe_public_id env, rq_user_id = tf_owner t, rq_idempotency_key = tf_key t,
      rq_requested_pickup_time = tf_pickup_time t, rq_passenger_count = tf_passenger_count t,
      rq_fare_estimate_amount = Some (tf_fare t), rq_currency_code = Some (tf_currency t),
      rq_payment_method = Some (tf_payment_method t), rq_status = Searching, rq_cancelled_at = None, rq_converted_at = None,
      rq_created_at = qe_now env, rq_trip_hash = Some (tf_trip_hash t), rq_booking_mode = Some (tf_booking_mode t),
      rq_wallet_invoice_id = Some (me_uuid_text (qe_market env) (mi_id iv)), rq_wallet_invoice_status = Some (mi_status iv),
      rq_retry_count = 0, rq_last_retry_at = None, rq_cancelled_by = None, rq_is_deleted = False\<rparr>"

text \<open>The reply is the request and whether it existed; a deleted row still occupies its key.\<close>

definition create_ride_request ::
  "request_env \<Rightarrow> trip_facts \<Rightarrow> request_db \<Rightarrow> (request_error + ride_request \<times> bool) \<times> request_db" where
  "create_ride_request env t db =
     (case find (\<lambda>r. rq_user_id r = tf_owner t \<and> rq_idempotency_key r = tf_key t \<and> \<not> rq_is_deleted r) (qd_requests db) of
        Some r \<Rightarrow> (if rq_trip_hash r \<noteq> Some (tf_trip_hash t) then Inl Idempotency_conflict else Inr (r, True), db)
      | None \<Rightarrow>
          if list_ex (\<lambda>r. rq_public_id r = qe_public_id env \<or> rq_user_id r = tf_owner t \<and> rq_idempotency_key r = tf_key t)
               (qd_requests db)
          then (Inl Request_service_unavailable, db)
          else case create_invoice (qe_market env) (request_invoice_args env t) (qd_market db) of
            Inl (MarketplaceInvoiceError m) \<Rightarrow> (Inl (Payment_method_invalid (MarketplaceInvoiceError m)), db)
          | Inl DataError \<Rightarrow> (Inl Request_service_unavailable, db)
          | Inl e \<Rightarrow> (Inl Uncaught_error, db)
          | Inr (iv, market) \<Rightarrow>
              let rq = new_request env t iv (next_key (map rq_id (qd_requests db)));
                  c = new_cycle env rq 1 (next_key (map cy_id (qd_cycles db)))
              in (Inr (rq, False),
                  db\<lparr>qd_market := market, qd_requests := qd_requests db @ [rq], qd_cycles := qd_cycles db @ [c]\<rparr>))"

end
