(* ===== verification/Request_Correct.thy ===== *)
theory Request_Correct
  imports Ride_Requests
begin

section \<open>One driver at a time\<close>

text \<open>
  What every operation on requests keeps: a search asks one driver at a time and no driver twice, ended cycles have no open
  offer, ended requests have no searching cycle and keep their end, and the crews of the rides follow the dispatch board.
  The operations change one cycle, open a cycle or insert a request; the invariant is shown for these moves.
\<close>

subsection \<open>The invariant\<close>

text \<open>A cycle with its attempts: at most one is open, exactly one once the first was made, and the drivers are different ones of the pool.\<close>

definition cycle_inv :: "search_cycle \<Rightarrow> offer_attempt list \<Rightarrow> bool" where
  "cycle_inv c as \<longleftrightarrow>
     distinct (map oa_driver as) \<and> oa_driver ` set as \<subseteq> pe_driver ` set (pool_of c) \<and> length (pool_of c) \<le> MATCHING_POOL_SIZE
     \<and> cy_status c \<noteq> Cycle_converting \<and> list_all (\<lambda>a. oa_status a \<noteq> Accepting) as
     \<and> (if cy_status c = Cycle_searching then as = [] \<or> length (filter actionable as) = 1 else filter actionable as = [])"

text \<open>A searching cycle is the current one of its request, which is searching.\<close>

definition cycle_current :: "request_db \<Rightarrow> search_cycle \<Rightarrow> bool" where
  "cycle_current db c \<longleftrightarrow> \<not> cy_is_deleted c
     \<and> (\<forall>x \<in> set (qd_cycles db). cy_request x = cy_request c \<and> cy_id x \<noteq> cy_id c \<and> \<not> cy_is_deleted x \<longrightarrow> cy_number x < cy_number c)
     \<and> (\<exists>r \<in> set (qd_requests db). rq_id r = cy_request c \<and> rq_status r = Searching)"

abbreviation owner_key :: "ride_request \<Rightarrow> int \<times> string" where
  "owner_key r \<equiv> (rq_user_id r, rq_idempotency_key r)"

definition requests_ok :: "request_db \<Rightarrow> bool" where
  "requests_ok db \<longleftrightarrow>
     distinct (map rq_id (qd_requests db)) \<and> distinct (map rq_public_id (qd_requests db))
     \<and> distinct (map owner_key (qd_requests db))
     \<and> distinct (map cy_id (qd_cycles db)) \<and> distinct (map oa_id (qd_attempts db))
     \<and> oa_cycle ` set (qd_attempts db) \<subseteq> cy_id ` set (qd_cycles db)
     \<and> cy_request ` set (qd_cycles db) \<subseteq> rq_id ` set (qd_requests db)
     \<and> (\<forall>c \<in> set (qd_cycles db). cycle_inv c (attempts_of db (cy_id c)) \<and> (cy_status c = Cycle_searching \<longrightarrow> cycle_current db c))"

lemma requests_okD:
  assumes "requests_ok db"
  shows "distinct (map rq_id (qd_requests db))" and "distinct (map rq_public_id (qd_requests db))"
    and "distinct (map owner_key (qd_requests db))" and "distinct (map cy_id (qd_cycles db))"
    and "distinct (map oa_id (qd_attempts db))" and "oa_cycle ` set (qd_attempts db) \<subseteq> cy_id ` set (qd_cycles db)"
    and "\<And>c. c \<in> set (qd_cycles db) \<Longrightarrow> cycle_inv c (attempts_of db (cy_id c))"
    and "\<And>c. c \<in> set (qd_cycles db) \<Longrightarrow> cy_status c = Cycle_searching \<Longrightarrow> cycle_current db c"
    and "cy_request ` set (qd_cycles db) \<subseteq> rq_id ` set (qd_requests db)"
  using assms by (auto simp: requests_ok_def)

subsection \<open>Reading\<close>

lemma find_requestD:
  "find_request db p = Some r \<Longrightarrow> r \<in> set (qd_requests db) \<and> rq_public_id r = p \<and> \<not> rq_is_deleted r"
  unfolding find_request_def by (drule find_SomeD) simp

lemma cycle_for_requestD:
  assumes "cycle_for_request db i = Some c"
  shows "c \<in> set (qd_cycles db)" and "cy_request c = i" and "\<not> cy_is_deleted c"
    and "\<And>x. x \<in> set (qd_cycles db) \<Longrightarrow> cy_request x = i \<Longrightarrow> \<not> cy_is_deleted x \<Longrightarrow> cy_number x \<le> cy_number c"
proof -
  let ?xs = "filter (\<lambda>c. cy_request c = i \<and> \<not> cy_is_deleted c) (qd_cycles db)"
  from assms obtain cs where s: "sort_key (\<lambda>c. - cy_number c) ?xs = c # cs"
    by (auto simp: cycle_for_request_def split: list.splits)
  have set_eq: "set (c # cs) = set ?xs" unfolding s [symmetric] by simp
  then show "c \<in> set (qd_cycles db)" "cy_request c = i" "\<not> cy_is_deleted c" by auto
  have "sorted (map (\<lambda>c. - cy_number c) (c # cs))" unfolding s [symmetric] by simp
  then show "\<And>x. x \<in> set (qd_cycles db) \<Longrightarrow> cy_request x = i \<Longrightarrow> \<not> cy_is_deleted x \<Longrightarrow> cy_number x \<le> cy_number c"
    using set_eq by fastforce
qed

lemma cycle_for_request_None:
  "cycle_for_request db i = None \<Longrightarrow> c \<in> set (qd_cycles db) \<Longrightarrow> cy_request c = i \<Longrightarrow> cy_is_deleted c"
proof -
  assume "cycle_for_request db i = None" and c: "c \<in> set (qd_cycles db)" "cy_request c = i"
  then have "sort_key (\<lambda>c. - cy_number c) (filter (\<lambda>c. cy_request c = i \<and> \<not> cy_is_deleted c) (qd_cycles db)) = []"
    by (auto simp: cycle_for_request_def split: list.splits)
  then have "set (filter (\<lambda>c. cy_request c = i \<and> \<not> cy_is_deleted c) (qd_cycles db)) = {}" by (metis set_empty set_sort)
  with c show ?thesis by (auto simp: filter_empty_conv)
qed

text \<open>The searching cycle of a request is the one the code finds.\<close>

lemma current_cycle:
  assumes "requests_ok db" and "c \<in> set (qd_cycles db)" and "cy_status c = Cycle_searching"
  shows "cycle_for_request db (cy_request c) = Some c"
proof -
  from requests_okD(8) [OF assms] have cur: "cycle_current db c" .
  then obtain x where x: "cycle_for_request db (cy_request c) = Some x"
    using cycle_for_request_None [OF _ assms(2) refl] by (cases "cycle_for_request db (cy_request c)") (auto simp: cycle_current_def)
  have "cy_id x = cy_id c"
  proof (rule ccontr)
    assume "cy_id x \<noteq> cy_id c"
    with cur cycle_for_requestD(1-3) [OF x] have "cy_number x < cy_number c" by (auto simp: cycle_current_def)
    moreover have "cy_number c \<le> cy_number x" using cycle_for_requestD(4) [OF x assms(2) refl] cur by (simp add: cycle_current_def)
    ultimately show False by simp
  qed
  then have "x = c" using requests_okD(4) [OF assms(1)] cycle_for_requestD(1) [OF x] assms(2) by (auto simp: distinct_map dest: inj_onD)
  with x show ?thesis by simp
qed

lemma attempts_of_frame:
  "attempts_of (db\<lparr>qd_rides := x\<rparr>) i = attempts_of db i" "attempts_of (db\<lparr>qd_market := y\<rparr>) i = attempts_of db i"
  "attempts_of (db\<lparr>qd_payments := z\<rparr>) i = attempts_of db i" "attempts_of (db\<lparr>qd_cycles := w\<rparr>) i = attempts_of db i"
  "attempts_of (db\<lparr>qd_requests := v\<rparr>) i = attempts_of db i" "attempts_of (db\<lparr>qd_pairings := u\<rparr>) i = attempts_of db i"
  "attempts_of (put_cycle c db) i = attempts_of db i" "attempts_of (put_request r db) i = attempts_of db i"
  by (simp_all add: attempts_of_def put_cycle_def put_request_def)

lemma attempts_of_append:
  "attempts_of (db\<lparr>qd_attempts := qd_attempts db @ [a]\<rparr>) i = attempts_of db i @ (if oa_cycle a = i then [a] else [])"
  by (simp add: attempts_of_def)

lemma filter_update_rows:
  "(\<And>x. q (f x) = q x) \<Longrightarrow> filter q (update_rows p f xs) = update_rows p f (filter q xs)"
  by (induction xs) auto

lemma attempts_of_update:
  assumes "\<And>x. oa_cycle (f x) = oa_cycle x"
  shows "attempts_of (db\<lparr>qd_attempts := update_rows (\<lambda>a. oa_cycle a = i \<and> q a) f (qd_attempts db)\<rparr>) j =
    (if j = i then update_rows q f (attempts_of db i) else attempts_of db j)"
proof -
  have "filter (\<lambda>a. oa_cycle a = j) (update_rows (\<lambda>a. oa_cycle a = i \<and> q a) f as) =
     (if j = i then update_rows q f (filter (\<lambda>a. oa_cycle a = i) as) else filter (\<lambda>a. oa_cycle a = j) as)" for as
    by (induction as) (auto simp: assms)
  then show ?thesis by (simp add: attempts_of_def)
qed

lemma attempts_of_put:
  assumes "distinct (map oa_id (qd_attempts db))" and "a \<in> set (attempts_of db i)" and "oa_id a' = oa_id a" and "oa_cycle a' = oa_cycle a"
  shows "attempts_of (put_offer a' db) j = (if j = i then update_rows (\<lambda>x. oa_id x = oa_id a) (\<lambda>_. a') (attempts_of db i) else attempts_of db j)"
proof -
  have a: "oa_cycle a = i" "a \<in> set (qd_attempts db)" using assms(2) by (auto simp: attempts_of_def)
  have uniq: "x = a" if "x \<in> set (qd_attempts db)" "oa_id x = oa_id a" for x
    using that assms(1) a by (auto simp: distinct_map dest: inj_onD)
  have "filter (\<lambda>x. oa_cycle x = j) (update_rows (\<lambda>x. oa_id x = oa_id a) (\<lambda>_. a') as) =
     (if j = i then update_rows (\<lambda>x. oa_id x = oa_id a) (\<lambda>_. a') (filter (\<lambda>x. oa_cycle x = i) as)
      else filter (\<lambda>x. oa_cycle x = j) as)" if "set as \<subseteq> set (qd_attempts db)" for as
    using that
  proof (induction as)
    case (Cons x as)
    then show ?case using uniq [of x] a(1) assms(4) by auto
  qed simp
  from this [OF subset_refl] show ?thesis by (simp add: attempts_of_def put_offer_def assms(3))
qed

subsection \<open>Moves\<close>

definition same_terms :: "ride_request \<Rightarrow> ride_request \<Rightarrow> bool" where
  "same_terms r r' \<longleftrightarrow> rq_id r' = rq_id r \<and> rq_public_id r' = rq_public_id r \<and> rq_user_id r' = rq_user_id r
     \<and> rq_idempotency_key r' = rq_idempotency_key r \<and> rq_trip_hash r' = rq_trip_hash r
     \<and> rq_fare_estimate_amount r' = rq_fare_estimate_amount r \<and> rq_currency_code r' = rq_currency_code r
     \<and> rq_payment_method r' = rq_payment_method r \<and> rq_requested_pickup_time r' = rq_requested_pickup_time r
     \<and> rq_is_deleted r' = rq_is_deleted r"

text \<open>Requests keep their terms, and the end of a request is final.\<close>

definition carries :: "request_db \<Rightarrow> request_db \<Rightarrow> bool" where
  "carries db db' \<longleftrightarrow> (\<forall>r \<in> set (qd_requests db). \<exists>r' \<in> set (qd_requests db'). same_terms r r'
     \<and> (rq_status r \<noteq> Searching \<longrightarrow> rq_status r' = rq_status r))"

lemma carries_refl [simp]: "qd_requests db' = qd_requests db \<Longrightarrow> carries db db'"
  by (auto simp: carries_def same_terms_def)

lemma carries_trans:
  assumes "carries db1 db2" and "carries db2 db3"
  shows "carries db1 db3"
  unfolding carries_def
proof
  fix r assume "r \<in> set (qd_requests db1)"
  with assms(1) obtain r' where r': "r' \<in> set (qd_requests db2)" "same_terms r r'" "rq_status r \<noteq> Searching \<longrightarrow> rq_status r' = rq_status r"
    by (auto simp: carries_def)
  with assms(2) obtain r'' where "r'' \<in> set (qd_requests db3)" "same_terms r' r''" "rq_status r' \<noteq> Searching \<longrightarrow> rq_status r'' = rq_status r'"
    by (auto simp: carries_def)
  with r' show "\<exists>r'' \<in> set (qd_requests db3). same_terms r r'' \<and> (rq_status r \<noteq> Searching \<longrightarrow> rq_status r'' = rq_status r)"
    by (intro bexI [of _ r'']) (auto simp: same_terms_def)
qed

definition request_moves :: "request_db \<Rightarrow> request_db \<Rightarrow> bool" where
  "request_moves db db' \<longleftrightarrow> requests_ok db \<longrightarrow> requests_ok db' \<and> carries db db' \<and> dispatches (qd_rides db) (qd_rides db')"

lemma request_moves_refl [simp]: "request_moves db db"
  by (simp add: request_moves_def)

lemma request_moves_trans: "request_moves db1 db2 \<Longrightarrow> request_moves db2 db3 \<Longrightarrow> request_moves db1 db3"
  unfolding request_moves_def using carries_trans dispatches_trans by blast

lemma request_movesI:
  "(requests_ok db \<Longrightarrow> requests_ok db') \<Longrightarrow> (requests_ok db \<Longrightarrow> carries db db') \<Longrightarrow> qd_rides db' = qd_rides db \<Longrightarrow> request_moves db db'"
  by (simp add: request_moves_def)

lemma put_request_rows:
  assumes "distinct (map rq_id (qd_requests db))" and "r \<in> set (qd_requests db)" and "same_terms r r'"
  shows "map rq_id (qd_requests (put_request r' db)) = map rq_id (qd_requests db)"
    and "map rq_public_id (qd_requests (put_request r' db)) = map rq_public_id (qd_requests db)"
    and "map owner_key (qd_requests (put_request r' db)) = map owner_key (qd_requests db)"
    and "set (qd_requests (put_request r' db)) = insert r' (set (qd_requests db) - {r})"
proof -
  have uniq: "x = r" if "x \<in> set (qd_requests db)" "rq_id x = rq_id r" for x
    using that assms(1,2) by (auto simp: distinct_map dest: inj_onD)
  have id: "rq_id r' = rq_id r" using assms(3) by (simp add: same_terms_def)
  have rows: "qd_requests (put_request r' db) = map (\<lambda>x. if x = r then r' else x) (qd_requests db)"
    using uniq by (auto simp: put_request_def update_rows_def id)
  from assms(2) show "set (qd_requests (put_request r' db)) = insert r' (set (qd_requests db) - {r})" by (auto simp: rows)
  show "map rq_id (qd_requests (put_request r' db)) = map rq_id (qd_requests db)"
    "map rq_public_id (qd_requests (put_request r' db)) = map rq_public_id (qd_requests db)"
    "map owner_key (qd_requests (put_request r' db)) = map owner_key (qd_requests db)"
    using assms(3) by (auto simp: rows same_terms_def)
qed

lemma put_request_carries:
  assumes "distinct (map rq_id (qd_requests db))" and "r \<in> set (qd_requests db)" and "same_terms r r'"
    and "rq_status r \<noteq> Searching \<Longrightarrow> rq_status r' = rq_status r"
  shows "carries db (put_request r' db)"
  unfolding carries_def
proof
  fix x assume x: "x \<in> set (qd_requests db)"
  show "\<exists>x' \<in> set (qd_requests (put_request r' db)). same_terms x x' \<and> (rq_status x \<noteq> Searching \<longrightarrow> rq_status x' = rq_status x)"
  proof (cases "x = r")
    case True
    with assms(3,4) show ?thesis by (auto simp: put_request_rows(4) [OF assms(1-3)])
  next
    case False
    with x show ?thesis by (intro bexI [of _ x]) (auto simp: put_request_rows(4) [OF assms(1-3)] same_terms_def)
  qed
qed

text \<open>A move that changes one cycle and its attempts.\<close>

lemma cycle_moves:
  assumes ok: "requests_ok db" and c: "c \<in> set (qd_cycles db)"
    and cyc: "qd_cycles db' = update_rows (\<lambda>x. cy_id x = cy_id c) (\<lambda>_. c') (qd_cycles db)"
    and key: "cy_id c' = cy_id c" "cy_request c' = cy_request c" "cy_number c' = cy_number c" "cy_is_deleted c' = cy_is_deleted c"
    and srch: "cy_status c' = Cycle_searching \<Longrightarrow> cy_status c = Cycle_searching"
    and reqs: "map rq_id (qd_requests db') = map rq_id (qd_requests db)"
      "map rq_public_id (qd_requests db') = map rq_public_id (qd_requests db)"
      "map owner_key (qd_requests db') = map owner_key (qd_requests db)"
    and live: "\<And>x. x \<in> set (qd_cycles db') \<Longrightarrow> cy_status x = Cycle_searching \<Longrightarrow>
      \<exists>r \<in> set (qd_requests db'). rq_id r = cy_request x \<and> rq_status r = Searching"
    and att: "\<And>j. j \<noteq> cy_id c \<Longrightarrow> attempts_of db' j = attempts_of db j" "distinct (map oa_id (qd_attempts db'))"
      "oa_cycle ` set (qd_attempts db') \<subseteq> insert (cy_id c) (oa_cycle ` set (qd_attempts db))"
    and inv: "cycle_inv c' (attempts_of db' (cy_id c))"
  shows "requests_ok db'"
proof -
  note D = requests_okD [OF ok]
  have ids: "map cy_id (qd_cycles db') = map cy_id (qd_cycles db)"
    unfolding cyc using key(1) by (induction "qd_cycles db") (auto simp: update_rows_def)
  have row: "\<exists>y \<in> set (qd_cycles db). cy_id y = cy_id x \<and> cy_request y = cy_request x \<and> cy_number y = cy_number x
      \<and> cy_is_deleted y = cy_is_deleted x" if "x \<in> set (qd_cycles db')" for x
    using that c key by (auto simp: cyc update_rows_def split: if_splits)
  have each: "cycle_inv x (attempts_of db' (cy_id x)) \<and> (cy_status x = Cycle_searching \<longrightarrow> cycle_current db' x)"
    if x: "x \<in> set (qd_cycles db')" for x
  proof -
    obtain y where y: "y \<in> set (qd_cycles db)" "x = (if cy_id y = cy_id c then c' else y)"
      using x by (auto simp: cyc update_rows_def)
    have "cycle_inv x (attempts_of db' (cy_id x))" using y inv D(7) [OF y(1)] att(1) key(1) by auto
    moreover have "cycle_current db' x" if s: "cy_status x = Cycle_searching"
    proof -
      have same: "cy_id y = cy_id x" "cy_request y = cy_request x" "cy_number y = cy_number x" "cy_is_deleted y = cy_is_deleted x"
        and sy: "cy_status y = Cycle_searching"
        using y s key srch c D(4) by (auto simp: distinct_map split: if_splits dest: inj_onD)
      have cur: "cycle_current db y" by (rule D(8) [OF y(1) sy])
      have "cy_number z < cy_number x"
        if z: "z \<in> set (qd_cycles db')" "cy_request z = cy_request x" "cy_id z \<noteq> cy_id x" "\<not> cy_is_deleted z" for z
      proof -
        from row [OF z(1)] obtain w where "w \<in> set (qd_cycles db)" "cy_id w = cy_id z" "cy_request w = cy_request z"
          "cy_number w = cy_number z" "cy_is_deleted w = cy_is_deleted z" by blast
        with cur z(2-4) same show ?thesis by (auto simp: cycle_current_def)
      qed
      moreover have "\<not> cy_is_deleted x" using cur same by (simp add: cycle_current_def)
      ultimately show ?thesis using live [OF x s] by (auto simp: cycle_current_def)
    qed
    ultimately show ?thesis by blast
  qed
  have "oa_cycle ` set (qd_attempts db') \<subseteq> cy_id ` set (qd_cycles db)" using att(3) D(6) c by blast
  then have "oa_cycle ` set (qd_attempts db') \<subseteq> cy_id ` set (qd_cycles db')" using arg_cong [OF ids, of set] by simp
  moreover have "cy_request x \<in> cy_request ` set (qd_cycles db)" if "x \<in> set (qd_cycles db')" for x
    using row [OF that] by (metis imageI)
  then have "cy_request ` set (qd_cycles db') \<subseteq> rq_id ` set (qd_requests db)" using D(9) by blast
  then have "cy_request ` set (qd_cycles db') \<subseteq> rq_id ` set (qd_requests db')" using arg_cong [OF reqs(1), of set] by simp
  ultimately show ?thesis using each ids reqs att(2) D(1-4) by (simp add: requests_ok_def)
qed

lemma live_same:
  assumes "requests_ok db" and "c \<in> set (qd_cycles db)" and "qd_requests db' = qd_requests db"
    and "qd_cycles db' = update_rows (\<lambda>x. cy_id x = cy_id c) (\<lambda>_. c') (qd_cycles db)"
    and "cy_request c' = cy_request c" and "cy_status c' = Cycle_searching \<Longrightarrow> cy_status c = Cycle_searching"
    and "x \<in> set (qd_cycles db')" and "cy_status x = Cycle_searching"
  shows "\<exists>r \<in> set (qd_requests db'). rq_id r = cy_request x \<and> rq_status r = Searching"
proof -
  have "\<exists>r \<in> set (qd_requests db). rq_id r = cy_request y \<and> rq_status r = Searching"
    if "y \<in> set (qd_cycles db)" "cy_status y = Cycle_searching" for y
    using requests_okD(8) [OF assms(1) that] by (simp add: cycle_current_def)
  moreover have "x = c' \<or> x \<in> set (qd_cycles db)" using assms(4,7) by (auto simp: update_rows_def split: if_splits)
  ultimately show ?thesis using assms(2,3,5,6,8) by metis
qed

lemma cycle_moves_same:
  assumes ok: "requests_ok db" and c: "c \<in> set (qd_cycles db)"
    and cyc: "qd_cycles db' = update_rows (\<lambda>x. cy_id x = cy_id c) (\<lambda>_. c') (qd_cycles db)"
    and key: "cy_id c' = cy_id c" "cy_request c' = cy_request c" "cy_number c' = cy_number c" "cy_is_deleted c' = cy_is_deleted c"
    and srch: "cy_status c' = Cycle_searching \<Longrightarrow> cy_status c = Cycle_searching"
    and reqs: "qd_requests db' = qd_requests db"
    and att: "\<And>j. j \<noteq> cy_id c \<Longrightarrow> attempts_of db' j = attempts_of db j" "distinct (map oa_id (qd_attempts db'))"
      "oa_cycle ` set (qd_attempts db') \<subseteq> insert (cy_id c) (oa_cycle ` set (qd_attempts db))"
    and inv: "cycle_inv c' (attempts_of db' (cy_id c))"
  shows "requests_ok db'"
  by (rule cycle_moves [OF ok c cyc key srch _ _ _ live_same [OF ok c reqs cyc key(2) srch] att inv]) (simp_all add: reqs)

subsection \<open>Attempts of one cycle\<close>

lemmas status_defs = actionable_def ACTIONABLE_OFFER_STATUSES_def ACTIVE_CYCLE_STATUSES_def

lemma actionable_simps [simp]:
  "actionable (timed_out_at now a) = False" "actionable (withdrawn_at now a) = False" "actionable (skipped_at now a) = False"
  "oa_driver (timed_out_at now a) = oa_driver a" "oa_driver (withdrawn_at now a) = oa_driver a" "oa_driver (skipped_at now a) = oa_driver a"
  "oa_cycle (timed_out_at now a) = oa_cycle a" "oa_cycle (withdrawn_at now a) = oa_cycle a" "oa_cycle (skipped_at now a) = oa_cycle a"
  "oa_id (timed_out_at now a) = oa_id a" "oa_id (withdrawn_at now a) = oa_id a" "oa_id (skipped_at now a) = oa_id a"
  "oa_status (timed_out_at now a) \<noteq> Accepting" "oa_status (withdrawn_at now a) \<noteq> Accepting" "oa_status (skipped_at now a) \<noteq> Accepting"
  by (simp_all add: status_defs timed_out_at_def withdrawn_at_def skipped_at_def)

lemma cycle_inv_ended:
  assumes "cycle_inv c as" and "cy_ranked_pool c' = cy_ranked_pool c" and "cy_status c' \<notin> set ACTIVE_CYCLE_STATUSES"
    and "map oa_driver as' = map oa_driver as" and "filter actionable as' = []"
    and "list_all (\<lambda>a. oa_status a \<noteq> Accepting) as'"
  shows "cycle_inv c' as'"
proof -
  have "oa_driver ` set as' = oa_driver ` set as" using arg_cong [OF assms(4), of set] by simp
  then show ?thesis using assms by (auto simp: cycle_inv_def pool_of_def status_defs)
qed

lemma ended_attempts:
  assumes "\<And>a. oa_driver (f a) = oa_driver a" and "\<And>a. \<not> actionable (f a)" and "\<And>a. oa_status (f a) \<noteq> Accepting"
    and "list_all (\<lambda>a. oa_status a \<noteq> Accepting) as"
  shows "map oa_driver (update_rows actionable f as) = map oa_driver as"
    and "filter actionable (update_rows actionable f as) = []"
    and "list_all (\<lambda>a. oa_status a \<noteq> Accepting) (update_rows actionable f as)"
  using assms(4) by (induction as) (auto simp: assms(1-3))

text \<open>The open attempt of a cycle gets an outcome.\<close>

lemma one_actionable:
  assumes "length (filter actionable as) = 1" and "a \<in> set as" and "actionable a" and "b \<in> set as" and "actionable b"
  shows "b = a"
proof -
  from assms(1) obtain x where "filter actionable as = [x]" by (auto simp: length_Suc_conv)
  moreover have "a \<in> set (filter actionable as)" "b \<in> set (filter actionable as)" using assms(2-5) by simp_all
  ultimately show ?thesis by simp
qed

lemma decided_attempts:
  assumes "length (filter actionable as) = 1" and "a \<in> set as" and "actionable a" and "distinct (map oa_id as)"
    and "\<not> actionable a'" and "oa_status a' \<noteq> Accepting" and "oa_driver a' = oa_driver a"
    and "list_all (\<lambda>a. oa_status a \<noteq> Accepting) as"
  defines "as' \<equiv> update_rows (\<lambda>x. oa_id x = oa_id a) (\<lambda>_. a') as"
  shows "map oa_driver as' = map oa_driver as" and "filter actionable as' = []" and "list_all (\<lambda>a. oa_status a \<noteq> Accepting) as'"
proof -
  have uniq: "x = a" if "x \<in> set as" "oa_id x = oa_id a" for x
    using that assms(2,4) by (auto simp: distinct_map dest: inj_onD)
  then show "map oa_driver as' = map oa_driver as" using assms(7) by (auto simp: as'_def update_rows_def)
  have "\<not> actionable x" if "x \<in> set as'" for x
    using that one_actionable [OF assms(1-3)] assms(5) by (auto simp: as'_def update_rows_def split: if_splits)
  then show "filter actionable as' = []" by (simp add: filter_empty_conv)
  show "list_all (\<lambda>a. oa_status a \<noteq> Accepting) as'"
    using assms(6,8) by (auto simp: as'_def update_rows_def list_all_iff)
qed

lemma cycle_inv_asked:
  assumes "cycle_inv c as" and "cy_status c = Cycle_searching" and "cy_status c' = Cycle_searching" and "cy_ranked_pool c' = cy_ranked_pool c"
    and "map oa_driver as' = map oa_driver as" and "filter actionable as' = []" and "list_all (\<lambda>a. oa_status a \<noteq> Accepting) as'"
    and "oa_driver n \<notin> oa_driver ` set as'" and "oa_driver n \<in> pe_driver ` set (pool_of c)" and "oa_status n = Attempt_offered"
  shows "cycle_inv c' (as' @ [n])"
proof -
  have "oa_driver ` set as' = oa_driver ` set as" using arg_cong [OF assms(5), of set] by simp
  moreover have "actionable n" using assms(10) by (simp add: status_defs)
  ultimately show ?thesis using assms by (auto simp: cycle_inv_def pool_of_def)
qed

subsection \<open>Closing and advancing a cycle\<close>

lemma fold_max_ge: "x \<in> set xs \<or> x \<le> a \<Longrightarrow> x \<le> fold max xs (a :: int)"
proof (induction xs arbitrary: a)
  case (Cons y ys)
  then have "x \<in> set ys \<or> x \<le> max y a" by auto
  then show ?case using Cons.IH by simp
qed simp

lemma next_key_fresh: "next_key ks \<notin> set ks"
proof
  assume "next_key ks \<in> set ks"
  then have "next_key ks \<le> fold max ks 0" by (simp add: fold_max_ge)
  then show False by (simp add: next_key_def)
qed

lemma put_cycle_frame [simp]:
  "qd_requests (put_cycle c db) = qd_requests db" "qd_attempts (put_cycle c db) = qd_attempts db" "qd_rides (put_cycle c db) = qd_rides db"
  "qd_requests (put_offer a db) = qd_requests db" "qd_cycles (put_offer a db) = qd_cycles db" "qd_rides (put_offer a db) = qd_rides db"
  "qd_cycles (put_request r db) = qd_cycles db" "qd_attempts (put_request r db) = qd_attempts db" "qd_rides (put_request r db) = qd_rides db"
  by (simp_all add: put_cycle_def put_offer_def put_request_def)

lemma put_cycle_rows: "cy_id c' = i \<Longrightarrow> qd_cycles (put_cycle c' db) = update_rows (\<lambda>x. cy_id x = i) (\<lambda>_. c') (qd_cycles db)"
  by (simp add: put_cycle_def)

lemma update_ids:
  assumes "\<And>a. g (f a) = g a"
  shows "g ` set (update_rows q f as) = g ` set as"
  using arg_cong [OF map_update_rows [of g f q as, OF assms], of set] by simp

definition same_cycle :: "search_cycle \<Rightarrow> search_cycle \<Rightarrow> bool" where
  "same_cycle c c' \<longleftrightarrow> cy_id c' = cy_id c \<and> cy_request c' = cy_request c \<and> cy_number c' = cy_number c
     \<and> cy_is_deleted c' = cy_is_deleted c \<and> cy_ranked_pool c' = cy_ranked_pool c"

lemma close_cycle_True:
  assumes "close_cycle_at_deadline now c db = (True, db')"
  obtains c' where "same_cycle c c'" and "cy_status c' = Cycle_expired"
    and "db' = put_cycle c' (db\<lparr>qd_attempts := update_rows (\<lambda>a. oa_cycle a = cy_id c \<and> actionable a) (timed_out_at now) (qd_attempts db)\<rparr>)"
proof -
  let ?c = "c\<lparr>cy_status := Cycle_expired,
               cy_terminal_reason := Some (if attempts_of db (cy_id c) = [] then ''no_supply'' else ''all_rejected''),
               cy_completed_at := Some now, cy_window_expired_at := Some now\<rparr>"
  from assms have "db' = put_cycle ?c (db\<lparr>qd_attempts := update_rows (\<lambda>a. oa_cycle a = cy_id c \<and> actionable a) (timed_out_at now) (qd_attempts db)\<rparr>)"
    by (cases "cy_deadline c") (auto simp: close_cycle_at_deadline_def split: if_splits)
  then show thesis by (intro that [of ?c]) (simp_all add: same_cycle_def)
qed

lemma close_cycle_moves:
  assumes "close_cycle_at_deadline now c db = (True, db')" and "c \<in> set (qd_cycles db)"
  shows "request_moves db db'"
proof -
  let ?f = "timed_out_at now"
  define db1 where "db1 = db\<lparr>qd_attempts := update_rows (\<lambda>a. oa_cycle a = cy_id c \<and> actionable a) ?f (qd_attempts db)\<rparr>"
  from assms(1) obtain c' where db': "db' = put_cycle c' db1" and c': "cy_id c' = cy_id c" "cy_request c' = cy_request c"
    "cy_number c' = cy_number c" "cy_is_deleted c' = cy_is_deleted c" "cy_status c' = Cycle_expired" "cy_ranked_pool c' = cy_ranked_pool c"
    by (rule close_cycle_True) (simp add: db1_def same_cycle_def)
  have att: "attempts_of db' j = (if j = cy_id c then update_rows actionable ?f (attempts_of db (cy_id c)) else attempts_of db j)" for j
    by (simp add: db' attempts_of_frame db1_def attempts_of_update)
  show ?thesis
  proof (rule request_movesI)
    assume ok: "requests_ok db"
    note D = requests_okD [OF ok]
    from D(7) [OF assms(2)] have inv: "cycle_inv c (attempts_of db (cy_id c))" .
    then have "list_all (\<lambda>a. oa_status a \<noteq> Accepting) (attempts_of db (cy_id c))" by (simp add: cycle_inv_def)
    note ended = ended_attempts [where f = ?f, OF _ _ _ this, simplified]
    show "requests_ok db'"
    proof (rule cycle_moves_same [OF ok assms(2), of _ c'])
      show "qd_cycles db' = update_rows (\<lambda>x. cy_id x = cy_id c) (\<lambda>_. c') (qd_cycles db)"
        by (simp add: db' put_cycle_rows c' db1_def)
      show "cycle_inv c' (attempts_of db' (cy_id c))"
        unfolding att by (simp, rule cycle_inv_ended [OF inv]) (simp_all add: c' status_defs ended)
      show "distinct (map oa_id (qd_attempts db'))" using D(5) by (simp add: db' db1_def map_update_rows)
      show "oa_cycle ` set (qd_attempts db') \<subseteq> insert (cy_id c) (oa_cycle ` set (qd_attempts db))"
        by (auto simp: db' db1_def update_ids)
    qed (simp_all add: c' att, simp_all add: db' db1_def)
  qed (simp_all add: db' db1_def)
qed

lemma put_same_cycle:
  assumes "distinct (map cy_id xs)" and "c \<in> set xs"
  shows "update_rows (\<lambda>x. cy_id x = cy_id c) (\<lambda>_. c) xs = xs"
  using assms unfolding update_rows_def by (intro map_idI) (auto simp: distinct_map dest: inj_onD)

lemma insert_offer_Inr:
  assumes "insert_offer now rq c e k db = Inr (n, db')"
  shows "db' = db\<lparr>qd_attempts := qd_attempts db @ [n]\<rparr>" and "oa_cycle n = cy_id c" and "oa_driver n = pe_driver e"
    and "oa_vehicle n = pe_vehicle e" and "oa_status n = Attempt_offered" and "oa_id n \<notin> oa_id ` set (qd_attempts db)"
    and "oa_response_deadline n = Some (now + seconds RESPONSE_SECONDS)" and "oa_number n = k"
  using assms next_key_fresh [of "map oa_id (qd_attempts db)"] by (auto simp: insert_offer_def new_attempt_def Let_def split: if_splits)

text \<open>The three outcomes of an advance: the window has elapsed, nobody is left to ask, or the next driver is asked.\<close>

lemma advance_cases:
  assumes "advance_locked now rq c a outcome db = Inr (n, db')"
  obtains (Elapsed) c' db1 where "n = None" and "db1 = put_offer (a\<lparr>oa_status := outcome, oa_responded_at := Some now,
        oa_detail := oa_detail a @ [(''terminal_at'', JTime now)]\<rparr>) db"
      and "db' = put_cycle c' (db1\<lparr>qd_attempts := update_rows (\<lambda>x. oa_cycle x = cy_id c \<and> actionable x) (timed_out_at now) (qd_attempts db1)\<rparr>)"
      and "same_cycle c c'" and "cy_status c' = Cycle_expired"
  | (Exhausted) c' db1 where "n = None" and "db1 = put_offer (a\<lparr>oa_status := outcome, oa_responded_at := Some now,
        oa_detail := oa_detail a @ [(''terminal_at'', JTime now)]\<rparr>) db"
      and "db' = put_cycle c' db1"
      and "same_cycle c c'" and "cy_status c' = Cycle_expired"
      and "pe_driver ` set (pool_of c) \<subseteq> oa_driver ` set (attempts_of db1 (cy_id c))"
  | (Asked) e k x db1 where "n = Some x" and "db1 = put_offer (a\<lparr>oa_status := outcome, oa_responded_at := Some now,
        oa_detail := oa_detail a @ [(''terminal_at'', JTime now)]\<rparr>) db"
      and "insert_offer now rq c e k db1 = Inr (x, db')" and "e \<in> set (pool_of c)"
      and "pe_driver e \<notin> oa_driver ` set (attempts_of db1 (cy_id c))"
proof -
  define db1 where "db1 = put_offer (a\<lparr>oa_status := outcome, oa_responded_at := Some now,
        oa_detail := oa_detail a @ [(''terminal_at'', JTime now)]\<rparr>) db"
  note run = assms [unfolded advance_locked_def Let_def, folded db1_def]
  obtain b db2 where close: "close_cycle_at_deadline now c db1 = (b, db2)" by (cases "close_cycle_at_deadline now c db1")
  show thesis
  proof (cases b)
    case True
    with run close have "n = None" "db' = db2" by simp_all
    moreover from close True have "close_cycle_at_deadline now c db1 = (True, db2)" by simp
    then obtain c' where "same_cycle c c'" "cy_status c' = Cycle_expired"
      "db2 = put_cycle c' (db1\<lparr>qd_attempts := update_rows (\<lambda>x. oa_cycle x = cy_id c \<and> actionable x) (timed_out_at now) (qd_attempts db1)\<rparr>)"
      by (rule close_cycle_True)
    ultimately show thesis using Elapsed [OF _ db1_def] by blast
  next
    case False
    let ?p = "\<lambda>e. pe_driver e \<notin> oa_driver ` set (attempts_of db1 (cy_id c))"
    show thesis
    proof (cases "find ?p (pool_of c)")
      case None
      from run close False None have r: "n = None" "db' = put_cycle (c\<lparr>cy_status := Cycle_expired,
            cy_terminal_reason := Some (if attempts_of db1 (cy_id c) = [] then ''no_supply'' else ''all_rejected''),
            cy_completed_at := Some now\<rparr>) db1" by simp_all
      have "pe_driver ` set (pool_of c) \<subseteq> oa_driver ` set (attempts_of db1 (cy_id c))"
        using None by (auto simp: find_None_iff)
      then show thesis by (intro Exhausted [OF r(1) db1_def r(2)]) (simp_all add: same_cycle_def)
    next
      case (Some e)
      from find_SomeD [OF Some] have e: "e \<in> set (pool_of c)" "?p e" by blast+
      from run close False Some obtain x k where "n = Some x" "insert_offer now rq c e k db1 = Inr (x, db')" by auto
      with e show thesis by (intro Asked [OF _ db1_def]) simp_all
    qed
  qed
qed

lemma advance_moves:
  assumes run: "advance_locked now rq c a outcome db = Inr (n, db')" and c: "c \<in> set (qd_cycles db)"
    and s: "cy_status c = Cycle_searching" and a: "a \<in> set (attempts_of db (cy_id c))" and act: "actionable a"
    and out: "outcome \<notin> set ACTIONABLE_OFFER_STATUSES"
  shows "request_moves db db'"
proof (rule request_movesI)
  assume ok: "requests_ok db"
  note D = requests_okD [OF ok]
  let ?a = "a\<lparr>oa_status := outcome, oa_responded_at := Some now, oa_detail := oa_detail a @ [(''terminal_at'', JTime now)]\<rparr>"
  let ?as = "attempts_of db (cy_id c)"
  define as1 where "as1 = update_rows (\<lambda>x. oa_id x = oa_id a) (\<lambda>_. ?a) ?as"
  from D(7) [OF c] have inv: "cycle_inv c ?as" .
  with a s have one: "length (filter actionable ?as) = 1" "list_all (\<lambda>a. oa_status a \<noteq> Accepting) ?as" by (auto simp: cycle_inv_def)
  have "distinct (map oa_id ?as)" using D(5) by (simp add: attempts_of_def distinct_map_filter)
  note dec = decided_attempts [OF one(1) a act this _ _ _ one(2), of ?a, folded as1_def]
  have as1: "map oa_driver as1 = map oa_driver ?as" "filter actionable as1 = []" "list_all (\<lambda>a. oa_status a \<noteq> Accepting) as1"
    using dec out by (simp_all add: status_defs)
  have att: "attempts_of (put_offer ?a db) j = (if j = cy_id c then as1 else attempts_of db j)" for j
    using attempts_of_put [OF D(5) a, of ?a j] by (simp add: as1_def)
  have same: "map oa_id (qd_attempts (put_offer ?a db)) = map oa_id (qd_attempts db)"
    by (simp add: put_offer_def update_rows_def)
  have in_c: "oa_cycle a = cy_id c" using a by (simp add: attempts_of_def)
  have cyc: "oa_cycle ` set (qd_attempts (put_offer ?a db)) \<subseteq> insert (cy_id c) (oa_cycle ` set (qd_attempts db))"
    using in_c by (auto simp: put_offer_def update_rows_def split: if_splits)
  from run show "requests_ok db'"
  proof (cases rule: advance_cases)
    case (Elapsed c' db1)
    then have c': "cy_id c' = cy_id c" "cy_request c' = cy_request c" "cy_number c' = cy_number c" "cy_is_deleted c' = cy_is_deleted c"
      "cy_status c' = Cycle_expired" "cy_ranked_pool c' = cy_ranked_pool c" by (simp_all add: same_cycle_def)
    note db1 = Elapsed(2) and db' = Elapsed(3)
    have none: "update_rows actionable (timed_out_at now) as1 = as1" using as1(2) by (intro update_rows_none) (auto simp: filter_empty_conv)
    have att': "attempts_of db' j = (if j = cy_id c then as1 else attempts_of db j)" for j
      unfolding db' attempts_of_frame by (subst attempts_of_update) (simp_all add: db1 att none)
    show ?thesis
    proof (rule cycle_moves_same [OF ok c, of _ c'])
      show "cycle_inv c' (attempts_of db' (cy_id c))"
        unfolding att' by (simp, rule cycle_inv_ended [OF inv]) (simp_all add: c' status_defs as1)
      show "distinct (map oa_id (qd_attempts db'))" using D(5) same by (simp add: db' db1 map_update_rows)
      show "oa_cycle ` set (qd_attempts db') \<subseteq> insert (cy_id c) (oa_cycle ` set (qd_attempts db))"
        using cyc by (simp add: db' db1 update_ids)
    qed (simp_all add: c' att', simp_all add: db' db1 put_cycle_rows c')
  next
    case (Exhausted c' db1)
    then have c': "cy_id c' = cy_id c" "cy_request c' = cy_request c" "cy_number c' = cy_number c" "cy_is_deleted c' = cy_is_deleted c"
      "cy_status c' = Cycle_expired" "cy_ranked_pool c' = cy_ranked_pool c" by (simp_all add: same_cycle_def)
    note db1 = Exhausted(2) and db' = Exhausted(3)
    have att': "attempts_of db' j = (if j = cy_id c then as1 else attempts_of db j)" for j
      by (simp add: db' attempts_of_frame db1 att)
    show ?thesis
    proof (rule cycle_moves_same [OF ok c, of _ c'])
      show "cycle_inv c' (attempts_of db' (cy_id c))"
        unfolding att' by (simp, rule cycle_inv_ended [OF inv]) (simp_all add: c' status_defs as1)
      show "distinct (map oa_id (qd_attempts db'))" using D(5) same by (simp add: db' db1)
      show "oa_cycle ` set (qd_attempts db') \<subseteq> insert (cy_id c) (oa_cycle ` set (qd_attempts db))" using cyc by (simp add: db' db1)
    qed (simp_all add: c' att', simp_all add: db' db1 put_cycle_rows c')
  next
    case (Asked e k x db1)
    note db1 = Asked(2) and ins = insert_offer_Inr [OF Asked(3)]
    have att': "attempts_of db' j = (if j = cy_id c then as1 @ [x] else attempts_of db j)" for j
      unfolding ins(1) attempts_of_append by (simp add: db1 att ins(2))
    show ?thesis
    proof (rule cycle_moves_same [OF ok c, of _ c])
      show "qd_cycles db' = update_rows (\<lambda>x. cy_id x = cy_id c) (\<lambda>_. c) (qd_cycles db)"
        by (simp add: ins(1) db1 put_same_cycle [OF D(4) c])
      have "oa_driver x \<notin> oa_driver ` set as1" using Asked(5) att [of "cy_id c"] by (simp add: ins(3) db1)
      then show "cycle_inv c (attempts_of db' (cy_id c))"
        unfolding att' using Asked(4) by (simp, intro cycle_inv_asked [OF inv s s refl as1]) (simp_all add: ins)
      show "distinct (map oa_id (qd_attempts db'))" using D(5) same ins(6) by (simp add: ins(1) db1 flip: set_map)
      show "oa_cycle ` set (qd_attempts db') \<subseteq> insert (cy_id c) (oa_cycle ` set (qd_attempts db))"
        using cyc by (simp add: ins(1,2) db1)
    qed (simp_all add: att', simp_all add: ins(1) db1)
  qed
next
  have "qd_requests db' = qd_requests db \<and> qd_rides db' = qd_rides db"
    using run by (cases rule: advance_cases) (auto dest: insert_offer_Inr(1))
  then show "carries db db'" "qd_rides db' = qd_rides db" by simp_all
qed

subsection \<open>Operations\<close>

lemma length_ranked_pool: "length (ranked_pool cs) \<le> MATCHING_POOL_SIZE"
proof -
  have "length (candidate_snapshot xs) \<le> length xs" for xs by (induction xs) auto
  from this [of "take MATCHING_POOL_SIZE cs"] show ?thesis by (simp add: ranked_pool_def)
qed

lemma with_pool_simps [simp]:
  "cy_id (with_pool env rq c) = cy_id c" "cy_request (with_pool env rq c) = cy_request c" "cy_number (with_pool env rq c) = cy_number c"
  "cy_is_deleted (with_pool env rq c) = cy_is_deleted c" "cy_status (with_pool env rq c) = cy_status c"
  by (simp_all add: with_pool_def split: option.splits)

lemma length_with_pool: "cycle_inv c as \<Longrightarrow> length (pool_of (with_pool env rq c)) \<le> MATCHING_POOL_SIZE"
  using length_ranked_pool by (auto simp: cycle_inv_def with_pool_def pool_of_def split: option.splits)

lemma silent_cycle:
  assumes "requests_ok db" and "c \<in> set (qd_cycles db)" and "cy_status c = Cycle_searching" and "active_attempt db (cy_id c) = None"
  shows "attempts_of db (cy_id c) = []"
proof -
  have "filter actionable (attempts_of db (cy_id c)) = []"
    using assms(4) by (auto simp: active_attempt_def find_None_iff filter_empty_conv)
  then show ?thesis using requests_okD(7) [OF assms(1,2)] assms(3) by (simp add: cycle_inv_def)
qed

lemma first_offer_moves:
  assumes c: "c \<in> set (qd_cycles db)" and s: "cy_status c = Cycle_searching" and none: "active_attempt db (cy_id c) = None"
  shows "request_moves db (snd (first_offer env rq c db))"
proof (cases "pool_of (with_pool env rq c)")
  case Nil
  define c' where "c' = (with_pool env rq c)\<lparr>cy_status := Cycle_expired, cy_terminal_reason := Some ''no_supply'',
    cy_completed_at := Some (qe_now env)\<rparr>"
  have run: "snd (first_offer env rq c db) = put_cycle c' db" using Nil by (simp add: first_offer_def c'_def)
  show ?thesis unfolding run
  proof (rule request_movesI)
    assume ok: "requests_ok db"
    note D = requests_okD [OF ok]
    show "requests_ok (put_cycle c' db)"
    proof (rule cycle_moves_same [OF ok c, of _ c'])
      show "cycle_inv c' (attempts_of (put_cycle c' db) (cy_id c))"
        using silent_cycle [OF ok c s none] length_with_pool [OF D(7) [OF c], of env rq]
        by (simp add: attempts_of_frame cycle_inv_def c'_def pool_of_def)
    qed (use D(5) in \<open>auto simp: put_cycle_rows c'_def attempts_of_frame\<close>)
  qed simp_all
next
  case (Cons e es)
  let ?c = "with_pool env rq c"
  show ?thesis
  proof (cases "insert_offer (qe_now env) rq ?c e 1 (put_cycle ?c db)")
    case (Inl x)
    with Cons have "snd (first_offer env rq c db) = db" by (simp add: first_offer_def)
    then show ?thesis by simp
  next
    case (Inr y)
    obtain x db' where y: "y = (x, db')" by (cases y)
    with Inr Cons have run: "snd (first_offer env rq c db) = db'" by (simp add: first_offer_def)
    note ins = insert_offer_Inr [OF Inr [unfolded y]]
    show ?thesis unfolding run
    proof (rule request_movesI)
      assume ok: "requests_ok db"
      note D = requests_okD [OF ok]
      have att: "attempts_of db' j = (if j = cy_id c then [x] else attempts_of db j)" for j
        unfolding ins(1) attempts_of_append attempts_of_frame using silent_cycle [OF ok c s none] by (simp add: ins(2))
      show "requests_ok db'"
      proof (rule cycle_moves_same [OF ok c, of _ ?c])
        show "cycle_inv ?c (attempts_of db' (cy_id c))"
          using length_with_pool [OF D(7) [OF c], of env rq] ins(3,5) Cons s by (simp add: att cycle_inv_def status_defs)
        show "distinct (map oa_id (qd_attempts db'))" using D(5) ins(6) by (simp add: ins(1))
        show "oa_cycle ` set (qd_attempts db') \<subseteq> insert (cy_id c) (oa_cycle ` set (qd_attempts db))" by (auto simp: ins(1,2))
      qed (simp_all add: att, simp_all add: ins(1) put_cycle_rows)
    qed (simp_all add: ins(1))
  qed
qed

lemma active_attemptD: "active_attempt db i = Some a \<Longrightarrow> a \<in> set (attempts_of db i) \<and> actionable a"
  unfolding active_attempt_def by (drule find_SomeD) simp

lemma advance_reply_moves:
  assumes "c \<in> set (qd_cycles db)" and "cy_status c = Cycle_searching" and "active_attempt db (cy_id c) = Some a"
  shows "request_moves db (snd (advance_reply now rq c a db))"
proof (cases "advance_locked now rq c a Timed_out db")
  case (Inr y)
  obtain n db' where "y = (n, db')" by (cases y)
  with Inr advance_moves [OF _ assms(1,2), of now rq a Timed_out n db'] active_attemptD [OF assms(3)]
  show ?thesis by (simp add: advance_reply_def status_defs)
qed (simp add: advance_reply_def)

lemma close_cases:
  obtains (Closed) db1 where "close_cycle_at_deadline now c db = (True, db1)"
  | (Open) "close_cycle_at_deadline now c db = (False, db)"
proof (cases "close_cycle_at_deadline now c db")
  case (Pair b db1)
  moreover have "db1 = db" if "\<not> b"
    using Pair that by (cases "cy_deadline c") (auto simp: close_cycle_at_deadline_def split: if_splits)
  ultimately show thesis using Closed Open by (cases b) auto
qed

lemma start_search_moves: "request_moves db (snd (start_search env p db))"
proof (cases "find_request db p")
  case (Some rq)
  show ?thesis
  proof (cases "rq_status rq = Searching")
    case True
    show ?thesis
    proof (cases "cycle_for_request db (rq_id rq)")
      case cyc: (Some c)
      note c = cycle_for_requestD(1) [OF cyc]
      show ?thesis
      proof (cases "cy_status c = Cycle_searching")
        case s: True
        note run = start_search_def Some cyc s True
        show ?thesis
        proof (cases rule: close_cases [of "qe_now env" c db])
          case (Closed db1)
          then show ?thesis using close_cycle_moves [OF Closed c] by (simp add: run)
        next
          case Open
          show ?thesis
          proof (cases "active_attempt db (cy_id c)")
            case None
            then show ?thesis using first_offer_moves [OF c s None, of env rq] by (simp add: run Open)
          next
            case (Some a)
            then show ?thesis using advance_reply_moves [OF c s Some, of "qe_now env" rq] by (simp add: run Open)
          qed
        qed
      qed (simp add: start_search_def Some cyc True)
    qed (simp add: start_search_def Some True)
  qed (simp add: start_search_def Some)
qed (simp add: start_search_def)

text \<open>A new cycle of a searching request whose earlier cycles have ended.\<close>

lemma new_cycle_moves:
  assumes rq: "rq \<in> set (qd_requests db)" "rq_status rq = Searching"
    and c: "c = new_cycle env rq n (next_key (map cy_id (qd_cycles db)))" and row: "cycle_row_ok db c"
    and top: "\<And>x. x \<in> set (qd_cycles db) \<Longrightarrow> cy_request x = rq_id rq \<Longrightarrow> \<not> cy_is_deleted x \<Longrightarrow> cy_number x < n"
    and r': "same_terms rq r'" "rq_status r' = Searching"
    and db': "db' = put_request r' (db\<lparr>qd_cycles := qd_cycles db @ [c]\<rparr>)"
  shows "request_moves db db'"
proof (rule request_movesI)
  assume ok: "requests_ok db"
  note D = requests_okD [OF ok]
  let ?db = "db\<lparr>qd_cycles := qd_cycles db @ [c]\<rparr>"
  have put: "put_request r' ?db = (put_request r' db)\<lparr>qd_cycles := qd_cycles db @ [c]\<rparr>" by (simp add: put_request_def)
  note reqs = put_request_rows [OF D(1) rq(1) r'(1)]
  show "carries db db'" using put_request_carries [OF D(1) rq(1) r'(1)] rq(2) by (simp add: db' put carries_def)
  have fresh: "cy_id c \<notin> cy_id ` set (qd_cycles db)" using next_key_fresh [of "map cy_id (qd_cycles db)"] by (simp add: c new_cycle_def)
  have "oa_cycle a \<noteq> cy_id c" if "a \<in> set (qd_attempts db)" for a using imageI [OF that, of oa_cycle] fresh D(6) by auto
  then have none: "attempts_of db (cy_id c) = []" by (simp add: attempts_of_def filter_empty_conv)
  have att: "attempts_of db' j = attempts_of db j" for j by (simp add: db' put attempts_of_frame)
  have other: "cycle_current db' x" if x: "x \<in> set (qd_cycles db)" and s: "cy_status x = Cycle_searching" for x
  proof -
    from D(8) [OF x s] have cur: "cycle_current db x" .
    have "cy_request x \<noteq> rq_id rq" using row x s by (auto simp: cycle_row_ok_def list_all_iff c new_cycle_def status_defs)
    moreover from cur obtain r where r: "r \<in> set (qd_requests db)" "rq_id r = cy_request x" "rq_status r = Searching"
      by (auto simp: cycle_current_def)
    moreover have "\<exists>r \<in> set (qd_requests db'). rq_id r = cy_request x \<and> rq_status r = Searching"
      using r reqs(4) calculation(1) by (auto simp: db' put)
    ultimately show ?thesis using cur by (auto simp: cycle_current_def db' put c new_cycle_def)
  qed
  have "\<exists>r \<in> set (qd_requests db'). rq_id r = rq_id rq \<and> rq_status r = Searching"
    using reqs(4) r' by (auto simp: db' put same_terms_def)
  then have mine: "cycle_current db' c" using top fresh by (auto simp: cycle_current_def db' put c new_cycle_def)
  have "cycle_inv c []" by (simp add: c new_cycle_def cycle_inv_def pool_of_def MATCHING_POOL_SIZE_def)
  then have "\<forall>x \<in> set (qd_cycles db'). cycle_inv x (attempts_of db' (cy_id x)) \<and> (cy_status x = Cycle_searching \<longrightarrow> cycle_current db' x)"
    using D(7) other mine none unfolding att by (auto simp: db' put)
  moreover have "rq_id ` set (qd_requests db') = rq_id ` set (qd_requests db)" using arg_cong [OF reqs(1), of set] by (simp add: db' put)
  then have "cy_request ` set (qd_cycles db') \<subseteq> rq_id ` set (qd_requests db')" using D(9) rq(1) by (auto simp: db' put c new_cycle_def)
  ultimately show "requests_ok db'" using D(1-6) reqs(1-3) fresh by (auto simp: requests_ok_def db' put)
qed (simp add: db')

lemma open_cycle_moves:
  assumes "rq \<in> set (qd_requests db)" and "rq_status rq = Searching"
    and "\<And>x. x \<in> set (qd_cycles db) \<Longrightarrow> cy_request x = rq_id rq \<Longrightarrow> \<not> cy_is_deleted x \<Longrightarrow> cy_number x < n"
  shows "request_moves db (snd (open_cycle env rq n db))"
proof (cases "cycle_row_ok db (new_cycle env rq n (next_key (map cy_id (qd_cycles db))))")
  case True
  show ?thesis
    unfolding open_cycle_def Let_def using True
    by (simp, intro request_moves_trans [OF new_cycle_moves [OF assms(1,2) refl True assms(3) _ _ refl] start_search_moves])
       (simp_all add: same_terms_def assms(2))
qed (simp add: open_cycle_def Let_def)

lemma retry_search_moves: "request_moves db (snd (retry_search env p owner db))"
proof (cases "find_request db p")
  case (Some rq)
  note rq = find_requestD [OF Some]
  show ?thesis
  proof (cases "rq_user_id rq = owner \<and> rq_status rq = Searching")
    case True
    show ?thesis
    proof (cases "cycle_for_request db (rq_id rq)")
      case None
      have "request_moves db (snd (open_cycle env rq 1 db))"
        using rq True cycle_for_request_None [OF None] by (intro open_cycle_moves) auto
      then show ?thesis by (simp add: retry_search_def Some None True)
    next
      case cyc: (Some c)
      note D = cycle_for_requestD [OF cyc]
      show ?thesis
      proof (cases "cy_status c = Cycle_searching")
        case s: True
        show ?thesis
        proof (cases rule: close_cases [of "qe_now env" c db])
          case (Closed db1)
          then show ?thesis using close_cycle_moves [OF Closed D(1)] by (simp add: retry_search_def Some True cyc s)
        next
          case Open
          then show ?thesis
            using start_search_moves [of db env p] advance_reply_moves [OF D(1) s, of _ "qe_now env" rq]
            by (cases "active_attempt db (cy_id c)") (simp_all add: retry_search_def Some True cyc s)
        qed
      next
        case s: False
        have "request_moves db (snd (open_cycle env rq (cy_number c + 1) db))"
        proof (rule open_cycle_moves)
          show "cy_number x < cy_number c + 1" if "x \<in> set (qd_cycles db)" "cy_request x = rq_id rq" "\<not> cy_is_deleted x" for x
            using D(4) [OF that] by simp
        qed (use rq True in simp_all)
        then show ?thesis by (simp add: retry_search_def Some True cyc s)
      qed
    qed
  qed (auto simp: retry_search_def Some)
qed (simp add: retry_search_def)

subsection \<open>The end of a request\<close>

lemma ended_live:
  assumes "requests_ok db" and rq: "rq \<in> set (qd_requests db)" and r': "same_terms rq r'"
    and none: "\<And>y. y \<in> set (qd_cycles db) \<Longrightarrow> cy_status y = Cycle_searching \<Longrightarrow> cy_request y = rq_id rq \<Longrightarrow> y = c"
    and x: "x \<in> set (qd_cycles db)" "cy_status x = Cycle_searching" "x \<noteq> c"
  shows "\<exists>r \<in> set (qd_requests (put_request r' db)). rq_id r = cy_request x \<and> rq_status r = Searching"
proof -
  from requests_okD(8) [OF assms(1) x(1,2)] obtain r where r: "r \<in> set (qd_requests db)" "rq_id r = cy_request x" "rq_status r = Searching"
    by (auto simp: cycle_current_def)
  with none x have "r \<noteq> rq" by auto
  with r show ?thesis using put_request_rows(4) [OF requests_okD(1) [OF assms(1)] rq r'] by blast
qed

lemma only_current:
  assumes "requests_ok db" and "cycle_for_request db i = oc" and "y \<in> set (qd_cycles db)" and "cy_status y = Cycle_searching" and "cy_request y = i"
  shows "oc = Some y"
  using current_cycle [OF assms(1,3,4)] assms(2,5) by simp

lemma end_request:
  assumes ok: "requests_ok db" and rq: "rq \<in> set (qd_requests db)" and r': "same_terms rq r'"
    and cyc: "cycle_for_request db (rq_id rq) = Some c" and same: "same_cycle c c'" and st: "cy_status c' \<notin> set ACTIVE_CYCLE_STATUSES"
    and cycles: "qd_cycles db' = update_rows (\<lambda>x. cy_id x = cy_id c) (\<lambda>_. c') (qd_cycles db)"
    and reqs: "qd_requests db' = qd_requests (put_request r' db)"
    and att: "\<And>j. j \<noteq> cy_id c \<Longrightarrow> attempts_of db' j = attempts_of db j" "distinct (map oa_id (qd_attempts db'))"
      "oa_cycle ` set (qd_attempts db') \<subseteq> insert (cy_id c) (oa_cycle ` set (qd_attempts db))"
    and inv: "cycle_inv c' (attempts_of db' (cy_id c))"
  shows "requests_ok db'"
proof (rule cycle_moves [OF ok cycle_for_requestD(1) [OF cyc] cycles])
  show "\<exists>r \<in> set (qd_requests db'). rq_id r = cy_request x \<and> rq_status r = Searching"
    if x: "x \<in> set (qd_cycles db')" "cy_status x = Cycle_searching" for x
  proof -
    have "x \<noteq> c'" using x(2) st by (auto simp: status_defs)
    with x(1) have y: "x \<in> set (qd_cycles db)" "cy_id x \<noteq> cy_id c" by (auto simp: cycles update_rows_def split: if_splits)
    have "y = c" if "y \<in> set (qd_cycles db)" "cy_status y = Cycle_searching" "cy_request y = rq_id rq" for y
      using only_current [OF ok cyc that] by simp
    from ended_live [OF ok rq r' this y(1) x(2)] y(2) show ?thesis unfolding reqs by blast
  qed
qed (use same st put_request_rows [OF requests_okD(1) [OF ok] rq r'] in \<open>auto simp: same_cycle_def reqs att inv status_defs\<close>)

lemma end_request_idle:
  assumes ok: "requests_ok db" and rq: "rq \<in> set (qd_requests db)" and r': "same_terms rq r'"
    and none: "\<And>y. y \<in> set (qd_cycles db) \<Longrightarrow> cy_status y = Cycle_searching \<Longrightarrow> cy_request y \<noteq> rq_id rq"
  shows "requests_ok (put_request r' db)"
proof -
  note D = requests_okD [OF ok]
  have "cycle_current (put_request r' db) x" if x: "x \<in> set (qd_cycles db)" "cy_status x = Cycle_searching" for x
  proof -
    from D(8) [OF x] obtain r where cur: "cycle_current db x" "r \<in> set (qd_requests db)" "rq_id r = cy_request x" "rq_status r = Searching"
      by (auto simp: cycle_current_def)
    with none [OF x] have "r \<in> set (qd_requests (put_request r' db))" unfolding put_request_rows(4) [OF D(1) rq r'] by auto
    with cur show ?thesis unfolding cycle_current_def by auto
  qed
  moreover have "rq_id ` set (qd_requests (put_request r' db)) = rq_id ` set (qd_requests db)"
    using arg_cong [OF put_request_rows(1) [OF D(1) rq r'], of set] by simp
  ultimately show ?thesis using D put_request_rows(1-3) [OF D(1) rq r'] by (simp add: requests_ok_def attempts_of_frame)
qed

lemma cancel_request_moves: "request_moves db (snd (cancel_request now p owner db))"
proof (cases "find_request db p")
  case (Some rq)
  note rq = find_requestD [OF Some]
  define r' where "r' = rq\<lparr>rq_status := Request_cancelled, rq_cancelled_at := Some now, rq_cancelled_by := Some ''rider''\<rparr>"
  have r': "same_terms rq r'" by (simp add: r'_def same_terms_def)
  let ?db = "put_request r' (cancel_cycle now (cycle_for_request db (rq_id rq)) db)"
  have frame: "qd_requests (cancel_cycle now oc db) = qd_requests db" "qd_rides (cancel_cycle now oc db) = qd_rides db" for oc
    by (simp_all add: cancel_cycle_def split: option.splits)
  have "request_moves db ?db" if s: "rq_status rq = Searching"
  proof (rule request_movesI)
    assume ok: "requests_ok db"
    note D = requests_okD [OF ok]
    have "carries db (put_request r' db)" using put_request_carries [OF D(1) _ r'] rq s by simp
    then show "carries db ?db" by (simp add: carries_def put_request_def frame)
    show "requests_ok ?db"
    proof (cases "\<exists>c. cycle_for_request db (rq_id rq) = Some c \<and> cy_status c = Cycle_searching")
      case True
      then obtain c where cyc: "cycle_for_request db (rq_id rq) = Some c" and cs: "cy_status c = Cycle_searching" by blast
      let ?c = "c\<lparr>cy_status := Cycle_cancelled, cy_completed_at := Some now, cy_terminal_reason := Some ''rider_cancelled''\<rparr>"
      define db1 where "db1 = db\<lparr>qd_attempts := update_rows (\<lambda>a. oa_cycle a = cy_id c \<and> actionable a) (withdrawn_at now) (qd_attempts db)\<rparr>"
      have run: "?db = put_request r' (put_cycle ?c db1)" by (simp add: cyc cancel_cycle_def cs db1_def)
      have att: "attempts_of ?db j = (if j = cy_id c then update_rows actionable (withdrawn_at now) (attempts_of db (cy_id c)) else attempts_of db j)" for j
        unfolding run attempts_of_frame db1_def by (subst attempts_of_update) simp_all
      from D(7) [OF cycle_for_requestD(1) [OF cyc]] have inv: "cycle_inv c (attempts_of db (cy_id c))" .
      then have "list_all (\<lambda>a. oa_status a \<noteq> Accepting) (attempts_of db (cy_id c))" by (simp add: cycle_inv_def)
      note ended = ended_attempts [where f = "withdrawn_at now", OF _ _ _ this, simplified]
      show ?thesis
      proof (rule end_request [OF ok _ r' cyc, of ?c])
        show "cycle_inv ?c (attempts_of ?db (cy_id c))"
          unfolding att by (simp, rule cycle_inv_ended [OF inv]) (simp_all add: status_defs ended)
        show "distinct (map oa_id (qd_attempts ?db))" using D(5) by (simp add: run db1_def map_update_rows)
        show "oa_cycle ` set (qd_attempts ?db) \<subseteq> insert (cy_id c) (oa_cycle ` set (qd_attempts db))"
          by (auto simp: run db1_def update_ids)
        show "qd_cycles ?db = update_rows (\<lambda>x. cy_id x = cy_id c) (\<lambda>_. ?c) (qd_cycles db)" unfolding run by (simp add: put_cycle_def db1_def)
        show "qd_requests ?db = qd_requests (put_request r' db)" unfolding run by (simp add: put_request_def db1_def)
      qed (use rq in \<open>simp_all add: att same_cycle_def status_defs\<close>)
    next
      case False
      then have "cancel_cycle now (cycle_for_request db (rq_id rq)) db = db" by (auto simp: cancel_cycle_def split: option.splits)
      moreover have "cy_request y \<noteq> rq_id rq" if "y \<in> set (qd_cycles db)" "cy_status y = Cycle_searching" for y
        using False only_current [OF ok refl that] that(2) by metis
      ultimately show ?thesis using end_request_idle [OF ok _ r'] rq by simp
    qed
  qed (simp add: frame)
  then show ?thesis by (simp add: cancel_request_def Some r'_def)
qed (simp add: cancel_request_def)

lemma searching_cycleD:
  "searching_cycle db rq = Some c \<Longrightarrow> rq_status rq = Searching \<and> cycle_for_request db (rq_id rq) = Some c \<and> cy_status c = Cycle_searching"
  by (auto simp: searching_cycle_def split: if_splits option.splits)

lemma offered_attemptD:
  "offered_attempt db i d = Some a \<Longrightarrow> a \<in> set (attempts_of db i) \<and> actionable a \<and> oa_driver a = d"
  unfolding offered_attempt_def by (drule find_SomeD) (simp add: status_defs)

lemma decline_moves: "request_moves db (snd (decline_request_offer now p d db))"
proof (cases "find_request db p")
  case (Some rq)
  show ?thesis
  proof (cases "searching_cycle db rq")
    case cyc: (Some c)
    note c = searching_cycleD [OF cyc]
    show ?thesis
    proof (cases "offered_attempt db (cy_id c) d")
      case a: (Some a)
      show ?thesis
      proof (cases "advance_locked now rq c a Declined db")
        case (Inr y)
        obtain n db' where y: "y = (n, db')" by (cases y)
        with Inr have "request_moves db db'"
          using c offered_attemptD [OF a] by (intro advance_moves [of now rq c a Declined db n]) (auto dest: cycle_for_requestD(1) simp: status_defs)
        then show ?thesis by (simp add: decline_request_offer_def Some cyc a Inr y)
      qed (simp add: decline_request_offer_def Some cyc a)
    qed (simp add: decline_request_offer_def Some cyc)
  qed (simp add: decline_request_offer_def Some)
qed (simp add: decline_request_offer_def)

end
