(* ===== verification/Request_Runs.thy ===== *)
theory Request_Runs
  imports Request_Correct
begin

section \<open>Runs of the request service\<close>

text \<open>
  The remaining operations, recovery, acceptance and creation, the runs of the service together with the ride services, and what holds
  along them.  A run may also change the market, the pairings of drivers and vehicles, and the rides by any step of
  the ride services.
\<close>

subsection \<open>Recovery\<close>

lemma recover_attempt_moves: "request_moves (snd s) (snd (recover_attempt now row s))"
proof (cases s)
  case (Pair n db)
  note run = recover_attempt_def Pair
  show ?thesis
  proof (cases "cycle_of db row")
    case c0: (Some c0)
    show ?thesis
    proof (cases "find (\<lambda>r. rq_id r = cy_request c0 \<and> \<not> rq_is_deleted r) (qd_requests db)")
      case rq: (Some rq)
      show ?thesis
      proof (cases "searching_cycle db rq")
        case cyc: (Some c)
        note c = searching_cycleD [OF cyc]
        then have c_in: "c \<in> set (qd_cycles db)" using cycle_for_requestD(1) by blast
        show ?thesis
        proof (cases "find (\<lambda>a. oa_id a = oa_id row \<and> oa_status a = Attempt_offered) (attempts_of db (cy_id c))")
          case a: (Some a)
          from find_SomeD [OF a] have act: "a \<in> set (attempts_of db (cy_id c))" "actionable a" by (simp_all add: status_defs)
          show ?thesis
          proof (cases rule: close_cases [of now c db])
            case (Closed db1)
            then show ?thesis using close_cycle_moves [OF Closed c_in] by (simp add: run c0 rq cyc a)
          next
            case Open
            show ?thesis
            proof (cases "advance_locked now rq c a Timed_out db")
              case (Inr y)
              obtain m db' where y: "y = (m, db')" by (cases y)
              have "request_moves db db'"
                using Inr c act by (intro advance_moves [of now rq c a Timed_out db m] c_in) (simp_all add: y status_defs)
              then show ?thesis by (cases m) (simp_all add: run c0 rq cyc a Open Inr y)
            qed (simp add: run c0 rq cyc a Open)
          qed
        qed (simp add: run c0 rq cyc)
      qed (simp add: run c0 rq)
    qed (simp add: run c0)
  qed (simp add: run)
qed

lemma fold_moves:
  assumes "\<And>x t. request_moves (g t) (g (f x t))"
  shows "request_moves (g s) (g (fold f xs s))"
proof (induction xs arbitrary: s)
  case (Cons x xs)
  show ?case using request_moves_trans [OF assms [of s x] Cons.IH] by simp
qed simp

lemma recover_expired_moves: "request_moves db (snd (recover_expired env batch db))"
proof -
  obtain n db1 where first: "fold (recover_attempt (qe_now env)) (stale_attempts (qe_now env) batch db)
      (\<lparr>ry_expired = 0, ry_advanced = 0, ry_closed = 0\<rparr>, db) = (n, db1)"
    by (cases "fold (recover_attempt (qe_now env)) (stale_attempts (qe_now env) batch db) (\<lparr>ry_expired = 0, ry_advanced = 0, ry_closed = 0\<rparr>, db)")
  have "request_moves db db1"
    using fold_moves [where g = snd and f = "recover_attempt (qe_now env)", OF recover_attempt_moves,
        of "(\<lparr>ry_expired = 0, ry_advanced = 0, ry_closed = 0\<rparr>, db)" "stale_attempts (qe_now env) batch db"] first by simp
  moreover have "request_moves db1 (fold (\<lambda>r d. snd (start_search env (rq_public_id r) d)) (silent_requests batch db1) db1)"
    by (rule fold_moves [where g = "\<lambda>d. d"]) (rule start_search_moves)
  ultimately show ?thesis by (simp add: recover_expired_def first request_moves_trans)
qed

subsection \<open>Acceptance\<close>

lemma give_up_moves:
  assumes "searching_cycle db rq = Some c" and "offered_attempt db (cy_id c) d = Some a" and "outcome \<notin> set ACTIONABLE_OFFER_STATUSES"
  shows "request_moves db (snd (give_up now rq c a outcome err db))"
proof (cases "advance_locked now rq c a outcome db")
  case (Inr y)
  obtain n db' where y: "y = (n, db')" by (cases y)
  note c = searching_cycleD [OF assms(1)] and a = offered_attemptD [OF assms(2)]
  have "request_moves db db'"
    using Inr c a assms(3) cycle_for_requestD(1) by (intro advance_moves [of now rq c a outcome db n]) (auto simp: y)
  then show ?thesis by (simp add: give_up_def Inr y)
qed (simp add: give_up_def)

lemma insert_booking_Inr:
  assumes "insert_booking env rq c db = Inr (b, db')"
  shows "b = request_booking env rq c (rd_id b)" and "db' = db\<lparr>dd_rides := dd_rides db @ [b]\<rparr>"
    and "rd_id b \<notin> rd_id ` set (dd_rides db)" and "booking_row_ok (qe_now env) (or_int (Some (rq_passenger_count rq)) 1) db b"
  using assms next_key_fresh [of "map rd_id (dd_rides db)"]
  by (auto simp: insert_booking_def Let_def request_booking_def split: if_splits)

lemma request_booking_simps [simp]:
  "rd_driver (request_booking env rq c i) = None" "rd_vehicle (request_booking env rq c i) = None"
  "rd_status (request_booking env rq c i) = CONFIRMED" "rd_id (request_booking env rq c i) = i"
  "rd_reference (request_booking env rq c i) = qe_booking_reference env" "rd_is_deleted (request_booking env rq c i) = False"
  by (simp_all add: request_booking_def Let_def)

lemma insert_booking_dispatches:
  assumes "insert_booking env rq c db = Inr (b, db')"
  shows "dispatches db db'"
proof -
  note b = insert_booking_Inr [OF assms]
  have "rd_driver b = None" "rd_vehicle b = None" by (subst b(1), simp)+
  with b(3,4) show ?thesis unfolding b(2) by (intro new_ride_dispatches) (simp_all add: booking_row_ok_def)
qed

lemma convert_body_Inr:
  assumes "convert_body env rq c a actor db = Inr (i, db')"
  obtains inv b rides payments rides' where "check_request_invoice env rq db = Inr inv"
    and "insert_booking env rq c (qd_rides db) = Inr (b, rides)"
    and "record_payment env rq inv b (qd_payments db) = Inr payments"
    and "claim_staged (qe_ride env) \<lparr>ca_reference = rd_reference b, ca_driver = oa_driver a, ca_vehicle = oa_vehicle a, ca_actor = actor,
           ca_force = False\<rparr> rides = Inr (i, rides')"
    and "db' = record_conversion (qe_now env) rq c a (db\<lparr>qd_rides := rides', qd_payments := payments\<rparr>)"
    and "request_currency rq \<in> set CURRENCIES"
proof -
  have ms: "map_sum claim_error id m = Inr z \<longleftrightarrow> m = Inr z" for m :: "ride_error + int \<times> ride_db" and z
    by (cases m) simp_all
  show thesis
    using assms that unfolding convert_body_def by (auto simp: ms split: if_splits)
qed

text \<open>In a cycle with one open attempt, winning it leaves no other to skip.\<close>

lemma record_conversion_moves:
  assumes c: "searching_cycle db rq = Some c" and a: "offered_attempt db (cy_id c) d = Some a" and rq: "rq \<in> set (qd_requests db)"
    and disp: "dispatches (qd_rides db) rides'"
    and db': "db' = record_conversion now rq c a (db\<lparr>qd_rides := rides', qd_payments := payments\<rparr>)"
  shows "request_moves db db'"
proof -
  note c = searching_cycleD [OF c] and a = offered_attemptD [OF a]
  let ?a = "a\<lparr>oa_status := Won, oa_responded_at := Some now,
      oa_detail := oa_detail a @ [(''accepted_at'', JTime now), (''booking_created'', JBool True)]\<rparr>"
  let ?c = "c\<lparr>cy_status := Cycle_completed, cy_completed_at := Some now, cy_terminal_reason := None\<rparr>"
  define r' where "r' = rq\<lparr>rq_status := Converted, rq_converted_at := Some now\<rparr>"
  have r': "same_terms rq r'" by (simp add: r'_def same_terms_def)
  have "requests_ok db' \<and> carries db db' \<and> qd_rides db' = rides'" if ok: "requests_ok db"
  proof -
    note D = requests_okD [OF ok]
    let ?as = "attempts_of db (cy_id c)"
    from c have c_in: "c \<in> set (qd_cycles db)" by (auto dest: cycle_for_requestD(1))
    from D(7) [OF c_in] have inv: "cycle_inv c ?as" .
    with a c have one: "length (filter actionable ?as) = 1" "list_all (\<lambda>a. oa_status a \<noteq> Accepting) ?as" by (auto simp: cycle_inv_def)
    have "\<not> (oa_cycle x = cy_id c \<and> oa_id x \<noteq> oa_id a \<and> actionable x)" if "x \<in> set (qd_attempts db)" for x
      using one_actionable [OF one(1), of a x] a that by (auto simp: attempts_of_def)
    then have skip: "update_rows (\<lambda>x. oa_cycle x = cy_id c \<and> oa_id x \<noteq> oa_id a \<and> actionable x) (skipped_at now) (qd_attempts db) = qd_attempts db"
      by (rule update_rows_none)
    have run: "db' = put_request r' (put_cycle ?c (put_offer ?a (db\<lparr>qd_rides := rides', qd_payments := payments\<rparr>)))"
      unfolding db' record_conversion_def r'_def using skip by simp
    have ids: "distinct (map oa_id ?as)" using D(5) by (simp add: attempts_of_def distinct_map_filter)
    define as1 where "as1 = update_rows (\<lambda>x. oa_id x = oa_id a) (\<lambda>_. ?a) ?as"
    have as1: "map oa_driver as1 = map oa_driver ?as" "filter actionable as1 = []" "list_all (\<lambda>a. oa_status a \<noteq> Accepting) as1"
      using decided_attempts [OF one(1) conjunct1 [OF a] _ ids _ _ _ one(2), of ?a, folded as1_def] a by (simp_all add: status_defs)
    have "attempts_of (put_offer ?a db) j = (if j = cy_id c then as1 else attempts_of db j)" for j
      using attempts_of_put [OF D(5) conjunct1 [OF a], of ?a j] by (simp add: as1_def)
    then have att: "attempts_of db' j = (if j = cy_id c then as1 else attempts_of db j)" for j
      by (simp add: run attempts_of_frame) (simp add: attempts_of_def put_offer_def)
    have "requests_ok db'"
    proof (rule end_request [OF ok rq r' _, of c ?c])
      show "qd_cycles db' = update_rows (\<lambda>x. cy_id x = cy_id c) (\<lambda>_. ?c) (qd_cycles db)" by (simp add: run put_cycle_def)
      show "qd_requests db' = qd_requests (put_request r' db)" by (simp add: run put_request_def)
      show "distinct (map oa_id (qd_attempts db'))"
      proof -
        have "map oa_id (qd_attempts db') = map oa_id (qd_attempts db)" by (auto simp: run put_offer_def update_rows_def)
        with D(5) show ?thesis by simp
      qed
      show "oa_cycle ` set (qd_attempts db') \<subseteq> insert (cy_id c) (oa_cycle ` set (qd_attempts db))"
        using a by (auto simp: run put_offer_def update_rows_def attempts_of_def split: if_splits)
      show "cycle_inv ?c (attempts_of db' (cy_id c))"
        unfolding att by (simp, rule cycle_inv_ended [OF inv]) (simp_all add: status_defs as1)
    qed (use c in \<open>simp_all add: att same_cycle_def status_defs\<close>)
    moreover have "carries db (put_request r' db)" using put_request_carries [OF D(1) rq r'] c by simp
    then have "carries db db'" by (simp add: carries_def run put_request_def)
    ultimately show ?thesis by (simp add: run)
  qed
  with disp show ?thesis by (simp add: request_moves_def)
qed

lemma convert_offer_moves:
  assumes "rq \<in> set (qd_requests db)" and "searching_cycle db rq = Some c" and "offered_attempt db (cy_id c) d = Some a"
  shows "request_moves db (snd (convert_offer env rq c a actor db))"
proof (cases "convert_body env rq c a actor db")
  case (Inl e)
  have "Claim_failed \<notin> set ACTIONABLE_OFFER_STATUSES" by (simp add: status_defs)
  with Inl show ?thesis using give_up_moves [OF assms(2,3)] by (cases e) (simp_all add: convert_offer_def)
next
  case (Inr y)
  obtain i db' where y: "y = (i, db')" by (cases y)
  from Inr [unfolded y] have "request_moves db db'"
  proof (rule convert_body_Inr)
    fix inv b rides payments rides'
    assume ins: "insert_booking env rq c (qd_rides db) = Inr (b, rides)"
      and cl: "claim_staged (qe_ride env) \<lparr>ca_reference = rd_reference b, ca_driver = oa_driver a, ca_vehicle = oa_vehicle a,
           ca_actor = actor, ca_force = False\<rparr> rides = Inr (i, rides')"
      and db': "db' = record_conversion (qe_now env) rq c a (db\<lparr>qd_rides := rides', qd_payments := payments\<rparr>)"
    have "dispatches (qd_rides db) rides'"
      by (rule dispatches_trans [OF insert_booking_dispatches [OF ins] claim_staged_dispatches [OF cl]])
    then show ?thesis by (rule record_conversion_moves [OF assms(2,3,1) _ db'])
  qed
  then show ?thesis by (simp add: convert_offer_def Inr y)
qed

lemma accept_moves: "request_moves db (snd (accept_request_offer env p d v actor db))"
proof (cases "find_request db p")
  case (Some rq)
  note rq = find_requestD [OF Some]
  show ?thesis
  proof (cases "searching_cycle db rq")
    case cyc: (Some c)
    note c = searching_cycleD [OF cyc]
    show ?thesis
    proof (cases rule: close_cases [of "qe_now env" c db])
      case (Closed db1)
      have "c \<in> set (qd_cycles db)" using c by (auto dest: cycle_for_requestD(1))
      from close_cycle_moves [OF Closed this] c show ?thesis by (simp add: accept_request_offer_def Some cyc Closed)
    next
      case Open
      show ?thesis
      proof (cases "offered_attempt db (cy_id c) d")
        case a: (Some a)
        have "Timed_out \<notin> set ACTIONABLE_OFFER_STATUSES" "Claim_failed \<notin> set ACTIONABLE_OFFER_STATUSES" by (simp_all add: status_defs)
        then show ?thesis
          using give_up_moves [OF cyc a] convert_offer_moves [OF _ cyc a] rq c
          by (simp add: accept_request_offer_def Some cyc Open a)
      qed (use c in \<open>simp add: accept_request_offer_def Some cyc Open\<close>)
    qed
  qed (simp add: accept_request_offer_def Some)
qed (simp add: accept_request_offer_def)

subsection \<open>Creation\<close>

lemma new_request_ok:
  assumes ok: "requests_ok db" and fresh: "rq_id rq \<notin> rq_id ` set (qd_requests db)" "rq_public_id rq \<notin> rq_public_id ` set (qd_requests db)"
      "owner_key rq \<notin> owner_key ` set (qd_requests db)"
    and db': "db' = db\<lparr>qd_market := m, qd_requests := qd_requests db @ [rq]\<rparr>"
  shows "requests_ok db'" and "carries db db'"
proof -
  note D = requests_okD [OF ok]
  have "cycle_current db' c" if "cycle_current db c" for c using that by (auto simp: cycle_current_def db')
  then show "requests_ok db'"
    using D fresh by (auto simp: requests_ok_def db' attempts_of_def)
  show "carries db db'" by (force simp: carries_def db' same_terms_def)
qed

lemma put_same_request:
  assumes "distinct (map rq_id (qd_requests db))" and "r \<in> set (qd_requests db)"
  shows "put_request r db = db"
proof -
  have "update_rows (\<lambda>x. rq_id x = rq_id r) (\<lambda>_. r) (qd_requests db) = qd_requests db"
    using assms unfolding update_rows_def by (intro map_idI) (auto simp: distinct_map dest: inj_onD)
  then show ?thesis by (simp add: put_request_def)
qed

lemma insert_request_moves:
  assumes "\<not> list_ex (\<lambda>r. rq_public_id r = rq_public_id rq \<or> rq_user_id r = rq_user_id rq \<and> rq_idempotency_key r = rq_idempotency_key rq) (qd_requests db)"
    and "rq_id rq = next_key (map rq_id (qd_requests db))" and "rq_status rq = Searching"
    and c: "c = new_cycle env rq 1 (next_key (map cy_id (qd_cycles db)))"
    and db': "db' = db\<lparr>qd_market := m, qd_requests := qd_requests db @ [rq], qd_cycles := qd_cycles db @ [c]\<rparr>"
  shows "request_moves db db'"
proof (rule request_movesI)
  define db1 where "db1 = db\<lparr>qd_market := m, qd_requests := qd_requests db @ [rq]\<rparr>"
  have "requests_ok db' \<and> carries db db'" if ok: "requests_ok db"
  proof -
    have fresh: "rq_id rq \<notin> rq_id ` set (qd_requests db)" using next_key_fresh [of "map rq_id (qd_requests db)"] by (simp add: assms(2))
    have "rq_public_id rq \<notin> rq_public_id ` set (qd_requests db)" "owner_key rq \<notin> owner_key ` set (qd_requests db)"
      using assms(1) by (auto simp: list_ex_iff image_iff)
    note new = new_request_ok [OF ok fresh this db1_def]
    have none: "cy_request x \<noteq> rq_id rq" if "x \<in> set (qd_cycles db)" for x
      using imageI [OF that, of cy_request] requests_okD(9) [OF ok] fresh by auto
    have put: "put_request rq (db1\<lparr>qd_cycles := qd_cycles db1 @ [c]\<rparr>) = db'"
      using put_same_request [of "db1\<lparr>qd_cycles := qd_cycles db1 @ [c]\<rparr>" rq] requests_okD(1) [OF new(1)]
      by (simp add: db' db1_def)
    have "request_moves db1 db'"
    proof (rule new_cycle_moves [of rq db1 c env 1 rq])
      show "cycle_row_ok db1 c" using none by (auto simp: cycle_row_ok_def list_all_iff db1_def c new_cycle_def)
    qed (use none in \<open>auto simp: db1_def c assms(3) same_terms_def put [symmetric]\<close>)
    with new show ?thesis by (auto simp: request_moves_def intro: carries_trans)
  qed
  then show "requests_ok db'" "carries db db'" if "requests_ok db" using that by blast+
qed (simp add: db')

lemma create_moves: "request_moves db (snd (create_ride_request env t db))"
proof (cases "find (\<lambda>r. rq_user_id r = tf_owner t \<and> rq_idempotency_key r = tf_key t \<and> \<not> rq_is_deleted r) (qd_requests db)")
  case None
  show ?thesis
  proof (cases "list_ex (\<lambda>r. rq_public_id r = qe_public_id env \<or> rq_user_id r = tf_owner t \<and> rq_idempotency_key r = tf_key t) (qd_requests db)")
    case new: False
    show ?thesis
    proof (cases "create_invoice (qe_market env) (request_invoice_args env t) (qd_market db)")
      case (Inl e)
      with None new show ?thesis by (cases e) (simp_all add: create_ride_request_def)
    next
      case (Inr y)
      obtain iv m where y: "y = (iv, m)" by (cases y)
      let ?rq = "new_request env t iv (next_key (map rq_id (qd_requests db)))"
      have "snd (create_ride_request env t db) = db\<lparr>qd_market := m, qd_requests := qd_requests db @ [?rq],
          qd_cycles := qd_cycles db @ [new_cycle env ?rq 1 (next_key (map cy_id (qd_cycles db)))]\<rparr>"
        by (simp add: create_ride_request_def None new Inr y Let_def)
      moreover have "\<not> list_ex (\<lambda>r. rq_public_id r = rq_public_id ?rq \<or> rq_user_id r = rq_user_id ?rq
          \<and> rq_idempotency_key r = rq_idempotency_key ?rq) (qd_requests db)" using new by (simp add: new_request_def)
      ultimately show ?thesis by (intro insert_request_moves [of ?rq]) (simp_all add: new_request_def)
    qed
  qed (simp add: create_ride_request_def None)
qed (simp add: create_ride_request_def)

subsection \<open>Runs\<close>

inductive request_step :: "request_db \<Rightarrow> request_db \<Rightarrow> bool" where
  Create_request: "request_step db (snd (create_ride_request env t db))"
| Start_search: "request_step db (snd (start_search env p db))"
| Retry_search: "request_step db (snd (retry_search env p u db))"
| Cancel_request: "request_step db (snd (cancel_request now p u db))"
| Decline_offer: "request_step db (snd (decline_request_offer now p d db))"
| Accept_offer: "request_step db (snd (accept_request_offer env p d v actor db))"
| Recover: "request_step db (snd (recover_expired env batch db))"
| Rides: "ride_step (qd_rides db) rides \<Longrightarrow> request_step db (db\<lparr>qd_rides := rides\<rparr>)"
| Platform: "request_step db (db\<lparr>qd_market := m, qd_pairings := ps, qd_payments := pays\<rparr>)"

lemma requests_ok_cong:
  "qd_requests db' = qd_requests db \<Longrightarrow> qd_cycles db' = qd_cycles db \<Longrightarrow> qd_attempts db' = qd_attempts db \<Longrightarrow> requests_ok db' = requests_ok db"
  by (simp add: requests_ok_def cycle_current_def attempts_of_def)

lemma request_step_moves: "request_step db db' \<Longrightarrow> request_moves db db'"
proof (induction rule: request_step.induct)
  case (Rides db rides)
  then show ?case
    using ride_step_dispatches [OF Rides] requests_ok_cong [of "db\<lparr>qd_rides := rides\<rparr>" db] by (simp add: request_moves_def)
next
  case (Platform db pays ps m)
  then show ?case
    using requests_ok_cong [of "db\<lparr>qd_market := m, qd_pairings := ps, qd_payments := pays\<rparr>" db] by (simp add: request_moves_def)
qed (auto intro: create_moves start_search_moves retry_search_moves cancel_request_moves decline_moves accept_moves recover_expired_moves)

interpretation search: run_effect request_step requests_ok carries
  by unfold_locales (use request_step_moves carries_trans in \<open>auto simp: request_moves_def\<close>)

interpretation board: simulation request_step "\<lambda>db. requests_ok db \<and> rides_ok (qd_rides db)" board_step "\<lambda>db. board_of (qd_rides db)"
  by unfold_locales (use request_step_moves in \<open>auto simp: request_moves_def dispatches_def\<close>)

end
