(* ===== verification/Ride_Claims.thy ===== *)
theory Ride_Claims
  imports Ride_Correct
begin

section \<open>What claims and releases promise\<close>

text \<open>
  The properties of rides: the board is refined and exclusive, a claim succeeds exactly when it may, a released crew can be
  claimed again, fees follow their schedule; and two places where the code departs from its comments.
\<close>

subsection \<open>A small fleet\<close>

definition demo_meta :: ride_meta where
  "demo_meta = \<lparr>rm_booking_mode = Some ''scheduled'', rm_matching_started_at = None, rm_no_match_cause = None,
     rm_driver_cancellations = [], rm_cancellation = None, rm_no_show = None, rm_driver_credits = [],
     rm_offer_attempts = [], rm_completed_by = None\<rparr>"

definition demo_ride :: ride where
  "demo_ride = \<lparr>rd_id = 1, rd_reference = ''TR1'', rd_user_id = 10, rd_provider_id = None, rd_status = CONFIRMED,
     rd_no_match_reason = None, rd_driver = None, rd_vehicle = None, rd_driver_assigned_at = None,
     rd_driver_en_route_at = None, rd_driver_arrived_at = None, rd_pickup_mode = Some ''scheduled'',
     rd_pickup_time = Some 1200000000, rd_pickup_actual_time = None, rd_dropoff_actual_time = None,
     rd_final_price = 30000, rd_currency = Some ''UGX'', rd_confirmed_at = Some 0, rd_completed_at = None,
     rd_cancelled_at = None, rd_cancellation_reason = None, rd_cancellation_reason_category = None,
     rd_cancellation_safety_flag = False, rd_cancelled_stage = None, rd_cancellation_initiated_by = None,
     rd_cancellation_fee = 0, rd_meta = demo_meta, rd_audit_log = [], rd_ride_request_id = None,
     rd_search_cycle_id = None, rd_is_deleted = False\<rparr>"

definition demo_driver :: driver_profile where
  "demo_driver = \<lparr>dr_id = 7, dr_user_id = 70, dr_user_public_id = None, dr_code = ''D7'', dr_compliance = APPROVED,
     dr_is_online = True, dr_is_deleted = False\<rparr>"

definition demo_vehicle :: fleet_vehicle where
  "demo_vehicle = \<lparr>fv_id = 5, fv_status = ''active'', fv_is_available = True, fv_is_deleted = False\<rparr>"

definition demo_fleet :: ride_db where
  "demo_fleet = \<lparr>dd_rides = [demo_ride, demo_ride\<lparr>rd_id := 2, rd_reference := ''TR2''\<rparr>], dd_drivers = [demo_driver],
     dd_vehicles = [demo_vehicle], dd_observations = [], dd_events = [], dd_audit = [], dd_offers = no_offers\<rparr>"

definition demo_ride_env :: ride_env where
  "demo_ride_env = \<lparr>re_now = 1000000, re_redis = True, re_offer_ttl = 25, re_pool_size = 5, re_window_seconds = 180,
     re_lead_minutes = 30\<rparr>"

definition demo_claim :: claim_args where
  "demo_claim = \<lparr>ca_reference = ''TR1'', ca_driver = 7, ca_vehicle = 5, ca_actor = None, ca_force = False\<rparr>"

lemmas fleet_defs = demo_fleet_def demo_ride_def demo_meta_def demo_driver_def demo_vehicle_def demo_ride_env_def demo_claim_def

lemmas ride_status_defs = ACTIVE_ASSIGNMENT_STATUSES_def TERMINAL_RELEASE_STATUSES_def DRIVER_CANCELLABLE_def
  PRE_ASSIGNMENT_STATUSES_def NO_MATCH_REASONS_def

lemmas ride_row_defs = ride_row_inv_def ride_row_ok_def chk_no_match_reason_def

lemma demo_fleet_ok: "rides_ok demo_fleet"
  by (simp add: rides_ok_def ride_row_defs fleet_defs)

lemma demo_fleet_exclusive: "exclusive (board_of demo_fleet)"
  by (simp add: exclusive_def board_of_def get_ride_def crew_def fleet_defs)

subsection \<open>No driver and no vehicle on two rides\<close>

text \<open>
  C21: the ride services refine the dispatch board.  On every run of claims, releases, transitions, cancellations, no-shows, trip
  actions and retries, interleaved with new bookings and with any change of drivers and vehicles, the crews of the rides change
  only by putting a free crew on a ride that has none and by taking crews off.
\<close>

theorem rides_refine_board:
  assumes "ride_step\<^sup>*\<^sup>* db db'" and "rides_ok db"
  shows "board_step\<^sup>*\<^sup>* (board_of db) (board_of db') \<and> rides_ok db'"
  using dispatch.run_simulated [OF assms] dispatch.run_keeps [OF assms] by blast

lemma demo_claim_runs: "fst (claim demo_ride_env demo_claim demo_fleet) = Inr 1"
  by (simp add: claim_def claim_staged_def update_rides_def ride_row_defs fleet_defs claimable_def driver_claimable_def
      vehicle_claimable_def driver_engaged_other_def vehicle_engaged_other_def engaged_def ride_status_defs update_rows_def)

lemma demo_run: "ride_step\<^sup>*\<^sup>* demo_fleet (snd (claim demo_ride_env demo_claim demo_fleet))"
  by (simp add: r_into_rtranclp ride_step.Claim)

lemma rides_refine_board_witness:
  "board_step\<^sup>*\<^sup>* (board_of demo_fleet) (board_of (snd (claim demo_ride_env demo_claim demo_fleet)))"
  using rides_refine_board [OF demo_run demo_fleet_ok] by blast

text \<open>
  C20: no driver and no vehicle serves two rides.  After every such run from a state where the board is exclusive, two different
  rides that are not deleted share neither driver nor vehicle, and a ride that has a driver has a vehicle and is under way.
\<close>

theorem no_crew_shared:
  assumes "ride_step\<^sup>*\<^sup>* db db'" and "rides_ok db" and "exclusive (board_of db)"
    and "r \<in> set (dd_rides db')" and "s \<in> set (dd_rides db')" and "r \<noteq> s" and "\<not> rd_is_deleted r" and "\<not> rd_is_deleted s"
    and "rd_driver r \<noteq> None"
  shows "rd_driver r \<noteq> rd_driver s \<and> rd_vehicle r \<noteq> rd_vehicle s \<and> rd_vehicle r \<noteq> None \<and> engaged r"
proof -
  from dispatch.run_keeps [OF assms(1,2)] have ok: "rides_ok db'" .
  from dispatch.abstract_invariant [OF crews.run_invariant_axioms assms(1,2,3)] have ex: "exclusive (board_of db')" .
  from ok assms(4,5) have rows: "ride_row_inv db' r" "ride_row_inv db' s" by (auto simp: rides_ok_def list_all_iff)
  have got: "get_ride db' (rd_id x) = Some x" if "x \<in> set (dd_rides db')" for x
    using that ok find_distinct [of rd_id "dd_rides db'" x] by (simp add: rides_ok_def get_ride_def)
  with assms(4-6) have ids: "rd_id r \<noteq> rd_id s" by (metis option.inject)
  from rows(1) assms(9) obtain d v where dv: "rd_driver r = Some d" "rd_vehicle r = Some v" by (auto simp: ride_row_inv_def)
  with got [OF assms(4)] assms(7) have B: "board_of db' (rd_id r) = Some (d, v)" by (simp add: board_of_def crew_def)
  have "rd_driver s \<noteq> Some d \<and> rd_vehicle s \<noteq> Some v"
  proof (cases "rd_driver s = None")
    case True
    with rows(2) show ?thesis by (auto simp: ride_row_inv_def)
  next
    case False
    with rows(2) obtain d' v' where dv': "rd_driver s = Some d'" "rd_vehicle s = Some v'" by (auto simp: ride_row_inv_def)
    with got [OF assms(5)] assms(8) have "board_of db' (rd_id s) = Some (d', v')" by (simp add: board_of_def crew_def)
    with ex ids B dv' show ?thesis unfolding exclusive_def by (metis option.inject)
  qed
  then show ?thesis using dv rows(1) assms(7) by (auto simp: ride_row_inv_def engaged_def)
qed

lemma claimed_rides:
  "dd_rides (snd (claim demo_ride_env demo_claim demo_fleet)) =
     [demo_ride\<lparr>rd_status := ASSIGNED, rd_driver := Some 7, rd_vehicle := Some 5, rd_driver_assigned_at := Some 1000000\<rparr>,
      demo_ride\<lparr>rd_id := 2, rd_reference := ''TR2''\<rparr>]"
  by (simp add: claim_def claim_staged_def update_rides_def ride_row_defs fleet_defs claimable_def driver_claimable_def
      vehicle_claimable_def driver_engaged_other_def vehicle_engaged_other_def engaged_def ride_status_defs update_rows_def
      add_dispatch_audit_def)

lemma no_crew_shared_witness:
  "\<exists>r s. r \<noteq> s \<and> {r, s} \<subseteq> set (dd_rides (snd (claim demo_ride_env demo_claim demo_fleet))) \<and> rd_driver r = Some 7
     \<and> rd_driver r \<noteq> rd_driver s \<and> engaged r"
proof -
  let ?r = "demo_ride\<lparr>rd_status := ASSIGNED, rd_driver := Some 7, rd_vehicle := Some 5, rd_driver_assigned_at := Some 1000000\<rparr>"
  let ?s = "demo_ride\<lparr>rd_id := 2, rd_reference := ''TR2''\<rparr>"
  have "rd_driver ?r \<noteq> rd_driver ?s \<and> rd_vehicle ?r \<noteq> rd_vehicle ?s \<and> rd_vehicle ?r \<noteq> None \<and> engaged ?r"
    by (rule no_crew_shared [OF demo_run demo_fleet_ok demo_fleet_exclusive]) (simp_all add: claimed_rides demo_ride_def)
  then show ?thesis by (intro exI [of _ ?r] exI [of _ ?s]) (simp add: claimed_rides demo_ride_def)
qed

subsection \<open>When a claim succeeds\<close>

lemma one_key:
  assumes "distinct (map key xs)"
  shows "length (filter (\<lambda>x. key x = k \<and> q x) xs) = 1 \<longleftrightarrow> (\<exists>x \<in> set xs. key x = k \<and> q x)"
proof
  assume "\<exists>x \<in> set xs. key x = k \<and> q x"
  then obtain x where x: "x \<in> set xs" "key x = k" "q x" by blast
  have "filter (\<lambda>x. key x = k \<and> q x) xs = [x]"
    using assms x by (induction xs) (auto simp: filter_empty_conv image_iff)
  then show "length (filter (\<lambda>x. key x = k \<and> q x) xs) = 1" by simp
qed (use one_row in blast)

text \<open>The guards of a claim on the tables before it: the ride that the claim assigns is not under way before.\<close>

lemma claimed_engaged:
  assumes "rides_ok db" and "b \<in> set (dd_rides db)" and "claimable b"
    and "db1 = db\<lparr>dd_rides := update_rows (\<lambda>r. rd_id r = rd_id b \<and> claimable r) f (dd_rides db)\<rparr>" and "\<And>r. rd_id (f r) = rd_id r"
  shows "driver_engaged_other db1 d (rd_id b) \<longleftrightarrow> (\<exists>r \<in> set (dd_rides db). engaged r \<and> rd_driver r = Some d)"
    and "vehicle_engaged_other db1 v (rd_id b) \<longleftrightarrow> (\<exists>r \<in> set (dd_rides db). engaged r \<and> rd_vehicle r = Some v)"
proof -
  have got: "get_ride db (rd_id b) = Some b"
    using assms(1,2) find_distinct [of rd_id "dd_rides db" b] by (simp add: get_ride_def rides_ok_def)
  have b: "rd_id r \<noteq> rd_id b" if "r \<in> set (dd_rides db)" "engaged r" for r
    using that assms(3) ride_unique [OF assms(1) got that(1)] by (auto simp: engaged_def claimable_def ride_status_defs)
  show "driver_engaged_other db1 d (rd_id b) \<longleftrightarrow> (\<exists>r \<in> set (dd_rides db). engaged r \<and> rd_driver r = Some d)"
    using b unfolding driver_engaged_other_iff assms(4) by (auto simp: update_rows_def assms(5))
  show "vehicle_engaged_other db1 v (rd_id b) \<longleftrightarrow> (\<exists>r \<in> set (dd_rides db). engaged r \<and> rd_vehicle r = Some v)"
    using b unfolding vehicle_engaged_other_iff assms(4) by (auto simp: update_rows_def assms(5))
qed

lemma claim_conditions:
  assumes "rides_ok db" and "distinct (map rd_reference (dd_rides db))" and "distinct (map fv_id (dd_vehicles db))"
  shows "(\<exists>i db'. claim_staged env a db = Inr (i, db')) \<longleftrightarrow>
      (ca_force a \<longrightarrow> actor_is_admin (ca_actor a))
      \<and> (\<exists>b \<in> set (dd_rides db). rd_reference b = ca_reference a \<and> claimable b)
      \<and> (\<exists>d \<in> set (dd_drivers db). dr_id d = ca_driver a \<and> \<not> dr_is_deleted d \<and> dr_compliance d = APPROVED
            \<and> (dr_is_online d \<or> ca_force a))
      \<and> (\<exists>v \<in> set (dd_vehicles db). fv_id v = ca_vehicle a \<and> \<not> fv_is_deleted v \<and> fv_status v = ''active''
            \<and> (fv_is_available v \<or> ca_force a))
      \<and> (\<forall>r \<in> set (dd_rides db). engaged r \<longrightarrow> rd_driver r \<noteq> Some (ca_driver a) \<and> rd_vehicle r \<noteq> Some (ca_vehicle a))"
    (is "?L \<longleftrightarrow> ?adm \<and> ?b \<and> ?d \<and> ?v \<and> ?free")
proof
  let ?f = "\<lambda>r. r\<lparr>rd_status := ASSIGNED, rd_driver := Some (ca_driver a), rd_vehicle := Some (ca_vehicle a),
                 rd_driver_assigned_at := Some (re_now env)\<rparr>"
  {
    assume ?L
    then obtain i db' where "claim_staged env a db = Inr (i, db')" by blast
    then show "?adm \<and> ?b \<and> ?d \<and> ?v \<and> ?free"
    proof (rule claim_staged_Inr)
      fix b n db1
      assume found: "find (\<lambda>r. rd_reference r = ca_reference a) (dd_rides db) = Some b" and i: "i = rd_id b"
        and adm: "ca_force a \<Longrightarrow> actor_is_admin (ca_actor a)"
        and upd: "update_rides (\<lambda>r. rd_id r = i \<and> claimable r) ?f db = Inr (n, db1)" "n = 1"
        and drv: "list_ex (driver_claimable db1 a i) (dd_drivers db1)"
        and veh: "length (filter (vehicle_claimable db1 a i) (dd_vehicles db1)) = 1"
      from find_Some_key [OF found] have b: "b \<in> set (dd_rides db)" "rd_reference b = ca_reference a" by auto
      from upd have db1: "db1 = db\<lparr>dd_rides := update_rows (\<lambda>r. rd_id r = rd_id b \<and> claimable r) ?f (dd_rides db)\<rparr>"
        and one: "length (filter (\<lambda>r. rd_id r = i \<and> claimable r) (dd_rides db)) = 1" by (simp_all add: update_rides_Inr i)
      from one_row [OF one] obtain x where x: "x \<in> set (dd_rides db)" "rd_id x = rd_id b" "claimable x" by (auto simp: i)
      with b(1) assms(1) have "x = b" by (auto simp: rides_ok_def distinct_map dest: inj_onD)
      with x have c: "claimable b" by simp
      note eng = claimed_engaged [OF assms(1) b(1) c db1]
      from drv have ?d and "\<not> driver_engaged_other db1 (ca_driver a) i" by (auto simp: list_ex_iff driver_claimable_def db1)
      moreover from one_row [OF veh] have ?v and "\<not> vehicle_engaged_other db1 (ca_vehicle a) i"
        by (auto simp: vehicle_claimable_def db1)
      ultimately show ?thesis using adm b c eng by (auto simp: i)
    qed
  next
    assume R: "?adm \<and> ?b \<and> ?d \<and> ?v \<and> ?free"
    then obtain b where b: "b \<in> set (dd_rides db)" "rd_reference b = ca_reference a" "claimable b" by blast
    let ?p = "\<lambda>r. rd_id r = rd_id b \<and> claimable r"
    define db1 where "db1 = db\<lparr>dd_rides := update_rows ?p ?f (dd_rides db)\<rparr>"
    have found: "find (\<lambda>r. rd_reference r = ca_reference a) (dd_rides db) = Some b"
      using find_distinct [OF assms(2) b(1)] b(2) by simp
    from R have keys: "ca_driver a \<in> dr_id ` set (dd_drivers db)" "ca_vehicle a \<in> fv_id ` set (dd_vehicles db)"
      by (metis image_eqI)+
    have "rd_no_match_reason r = None" if "r \<in> set (dd_rides db)" "?p r" for r
      using that assms(1) by (auto simp: rides_ok_def list_all_iff ride_row_defs claimable_def)
    with keys have "ride_row_ok db (?f r)" if "r \<in> set (dd_rides db)" "?p r" for r
      using that by (simp add: ride_row_ok_def chk_no_match_reason_def)
    moreover have one: "length (filter ?p (dd_rides db)) = 1"
      using b assms(1) one_key [of rd_id "dd_rides db" "rd_id b" claimable] by (auto simp: rides_ok_def)
    ultimately have upd: "update_rides ?p ?f db = Inr (1, db1)" by (simp add: update_rides_def list_all_iff db1_def)
    note eng = claimed_engaged [OF assms(1) b(1,3) db1_def]
    have "list_ex (driver_claimable db1 a (rd_id b)) (dd_drivers db1)"
      using R eng(1) [of "ca_driver a"] by (auto simp: list_ex_iff driver_claimable_def db1_def)
    moreover have "length (filter (vehicle_claimable db1 a (rd_id b)) (dd_vehicles db1)) = 1"
      using R eng(2) [of "ca_vehicle a"] assms(3) unfolding vehicle_claimable_def
      by (subst one_key) (auto simp: db1_def)
    moreover have "list_ex (\<lambda>d. dr_id d = ca_driver a) (dd_drivers db)" using R by (auto simp: list_ex_iff)
    ultimately show ?L using R found upd by (simp add: claim_staged_def)
  }
qed

text \<open>
  C22: a claim succeeds exactly when it may.  A claim names a booking, a driver and a vehicle.  It succeeds if and only if a forced claim
  comes from an administrator; the booking is confirmed, without crew and not deleted; the driver is approved, not
  deleted and online unless the claim is forced; the vehicle is active, not deleted and available unless the claim is forced;
  and neither serves a ride under way.  A claim that fails changes nothing.
\<close>

theorem claim_exact:
  assumes "rides_ok db" and "distinct (map rd_reference (dd_rides db))" and "distinct (map fv_id (dd_vehicles db))"
  shows "((\<exists>i. fst (claim env a db) = Inr i) \<longleftrightarrow>
      (ca_force a \<longrightarrow> actor_is_admin (ca_actor a))
      \<and> (\<exists>b \<in> set (dd_rides db). rd_reference b = ca_reference a \<and> claimable b)
      \<and> (\<exists>d \<in> set (dd_drivers db). dr_id d = ca_driver a \<and> \<not> dr_is_deleted d \<and> dr_compliance d = APPROVED
            \<and> (dr_is_online d \<or> ca_force a))
      \<and> (\<exists>v \<in> set (dd_vehicles db). fv_id v = ca_vehicle a \<and> \<not> fv_is_deleted v \<and> fv_status v = ''active''
            \<and> (fv_is_available v \<or> ca_force a))
      \<and> (\<forall>r \<in> set (dd_rides db). engaged r \<longrightarrow> rd_driver r \<noteq> Some (ca_driver a) \<and> rd_vehicle r \<noteq> Some (ca_vehicle a)))
    \<and> ((\<exists>e. fst (claim env a db) = Inl e) \<longrightarrow> snd (claim env a db) = db)"
proof (intro conjI impI)
  let ?b = "\<exists>b \<in> set (dd_rides db). rd_reference b = ca_reference a \<and> claimable b"
  let ?d = "\<exists>d \<in> set (dd_drivers db). dr_id d = ca_driver a \<and> \<not> dr_is_deleted d \<and> dr_compliance d = APPROVED
    \<and> (dr_is_online d \<or> ca_force a)"
  let ?v = "\<exists>v \<in> set (dd_vehicles db). fv_id v = ca_vehicle a \<and> \<not> fv_is_deleted v \<and> fv_status v = ''active''
    \<and> (fv_is_available v \<or> ca_force a)"
  let ?free = "\<forall>r \<in> set (dd_rides db). engaged r \<longrightarrow> rd_driver r \<noteq> Some (ca_driver a) \<and> rd_vehicle r \<noteq> Some (ca_vehicle a)"
  show "(\<exists>i. fst (claim env a db) = Inr i) \<longleftrightarrow> (ca_force a \<longrightarrow> actor_is_admin (ca_actor a)) \<and> ?b \<and> ?d \<and> ?v \<and> ?free"
  proof -
    have "(\<exists>i. fst (claim env a db) = Inr i) \<longleftrightarrow> (\<exists>i db'. claim_staged env a db = Inr (i, db'))"
      by (auto simp: claim_def split: sum.splits)
    then show ?thesis using claim_conditions [OF assms] by simp
  qed
  show "snd (claim env a db) = db" if "\<exists>e. fst (claim env a db) = Inl e"
    using that by (auto simp: claim_def split: sum.splits)
qed

lemma claim_exact_witness:
  "(\<exists>i. fst (claim demo_ride_env demo_claim demo_fleet) = Inr i)
   \<and> (\<exists>b \<in> set (dd_rides demo_fleet). rd_reference b = ''TR1'' \<and> claimable b)"
  using claim_exact [OF demo_fleet_ok, of demo_ride_env demo_claim] demo_claim_runs
  by (auto simp: demo_fleet_def demo_ride_def demo_claim_def)

subsection \<open>What a release gives back\<close>

definition demo_assigned :: ride_db where
  "demo_assigned = demo_fleet\<lparr>dd_rides := [demo_ride\<lparr>rd_status := ASSIGNED, rd_driver := Some 7, rd_vehicle := Some 5\<rparr>],
     dd_vehicles := [demo_vehicle\<lparr>fv_is_available := False\<rparr>]\<rparr>"

lemma get_ride_of: "rides_ok db \<Longrightarrow> r \<in> set (dd_rides db) \<Longrightarrow> get_ride db (rd_id r) = Some r"
  using find_distinct [of rd_id "dd_rides db" r] by (simp add: get_ride_def rides_ok_def)

lemma ride_rowD: "rides_ok db \<Longrightarrow> get_ride db i = Some r \<Longrightarrow> ride_row_inv db r"
  using get_ride_id [of db i r] by (simp add: rides_ok_def list_all_iff)

lemma update_one:
  assumes "rides_ok db" and "get_ride db i = Some r" and "q r" and "ride_row_ok db (f r)"
  shows "update_rides (\<lambda>x. rd_id x = i \<and> q x) f db = Inr (1, db\<lparr>dd_rides := update_rows (\<lambda>x. rd_id x = i \<and> q x) f (dd_rides db)\<rparr>)"
proof -
  from get_ride_id [OF assms(2)] have r: "r \<in> set (dd_rides db)" "rd_id r = i" by auto
  with assms(1,3) have "length (filter (\<lambda>x. rd_id x = i \<and> q x) (dd_rides db)) = 1"
    using one_key [of rd_id "dd_rides db" i q] by (auto simp: rides_ok_def)
  moreover have "list_all (\<lambda>x. rd_id x = i \<and> q x \<longrightarrow> ride_row_ok db (f x)) (dd_rides db)"
    using ride_unique [OF assms(1,2)] assms(4) by (auto simp: list_all_iff)
  ultimately show ?thesis by (simp add: update_rides_def)
qed

lemma capture_frame [simp]:
  "dd_rides (capture_actual_end env i d db) = dd_rides db" "dd_vehicles (capture_actual_end env i d db) = dd_vehicles db"
  by (simp_all add: capture_actual_end_def split: option.splits)

lemma free_vehicle_rides [simp]: "dd_rides (free_vehicle v i db) = dd_rides db"
  by (simp add: free_vehicle_def split: option.splits)

lemma get_ride_cong: "dd_rides db' = dd_rides db \<Longrightarrow> get_ride db' = get_ride db"
  by (simp add: get_ride_def fun_eq_iff)

lemma terminal_inactive: "t \<in> set TERMINAL_RELEASE_STATUSES \<Longrightarrow> t \<noteq> NO_MATCH \<and> t \<notin> set ACTIVE_ASSIGNMENT_STATUSES"
  by (auto simp: ride_status_defs)

lemma engaged_reason: "ride_row_inv db r \<Longrightarrow> engaged r \<Longrightarrow> rd_no_match_reason r = None"
  by (auto simp: ride_row_defs engaged_def ride_status_defs)

lemma release_engaged:
  assumes "rides_ok db" and "get_ride db i = Some r" and "engaged r" and "rd_driver r = Some d" and "rd_vehicle r = Some v"
    and "ra_status ra \<in> set TERMINAL_RELEASE_STATUSES"
  obtains db1 db' where "release_body env i ra db = Inr (True, db')"
    and "db1 = db\<lparr>dd_rides := update_rows (\<lambda>x. rd_id x = i \<and> engaged x)
           (\<lambda>x. x\<lparr>rd_status := ra_status ra, rd_driver := None, rd_vehicle := None\<rparr>) (dd_rides db)\<rparr>"
    and "dd_rides db' = dd_rides db1"
    and "dd_vehicles db' = update_rows (\<lambda>x. fv_id x = v \<and> \<not> fv_is_available x \<and> \<not> fv_is_deleted x
           \<and> \<not> vehicle_engaged_other db1 v i) (\<lambda>x. x\<lparr>fv_is_available := True\<rparr>) (dd_vehicles db)"
proof -
  let ?f = "\<lambda>x. x\<lparr>rd_status := ra_status ra, rd_driver := None, rd_vehicle := None\<rparr>"
  define db1 where "db1 = db\<lparr>dd_rides := update_rows (\<lambda>x. rd_id x = i \<and> engaged x) ?f (dd_rides db)\<rparr>"
  have "ride_row_ok db (?f r)"
    using engaged_reason [OF ride_rowD [OF assms(1,2)] assms(3)] terminal_inactive [OF assms(6)]
    by (simp add: ride_row_ok_def chk_no_match_reason_def)
  from update_one [where q = engaged and f = ?f, OF assms(1,2,3) this] have upd: "update_rides (\<lambda>x. rd_id x = i \<and> engaged x) ?f db = Inr (1, db1)"
    by (simp add: db1_def)
  let ?db2 = "if ra_status ra = COMPLETED then capture_actual_end env i (Some d) db1 else db1"
  have "vehicle_engaged_other ?db2 v i = vehicle_engaged_other db1 v i"
    by (simp add: vehicle_engaged_other_def)
  moreover have "dd_rides ?db2 = dd_rides db1" "dd_vehicles ?db2 = dd_vehicles db" by (simp_all add: db1_def)
  ultimately have freed: "dd_rides (free_vehicle (Some v) i ?db2) = dd_rides db1"
    "dd_vehicles (free_vehicle (Some v) i ?db2) = update_rows (\<lambda>x. fv_id x = v \<and> \<not> fv_is_available x \<and> \<not> fv_is_deleted x
       \<and> \<not> vehicle_engaged_other db1 v i) (\<lambda>x. x\<lparr>fv_is_available := True\<rparr>) (dd_vehicles db)"
    by (simp_all add: free_vehicle_def)
  obtain db' where run: "release_body env i ra db = Inr (True, db')" and "dd_rides db' = dd_rides (free_vehicle (Some v) i ?db2)"
      "dd_vehicles db' = dd_vehicles (free_vehicle (Some v) i ?db2)"
    using assms(2,4-6) upd by (simp add: release_body_def Let_def add_dispatch_audit_def)
  then show thesis using that [OF run db1_def] unfolding freed by blast
qed

lemma made_available:
  "\<forall>x \<in> set (update_rows (\<lambda>x. fv_id x = v \<and> \<not> fv_is_available x \<and> \<not> fv_is_deleted x) (\<lambda>x. x\<lparr>fv_is_available := True\<rparr>) vs).
     fv_id x = v \<and> \<not> fv_is_deleted x \<longrightarrow> fv_is_available x"
proof
  fix x
  assume "x \<in> set (update_rows (\<lambda>x. fv_id x = v \<and> \<not> fv_is_available x \<and> \<not> fv_is_deleted x) (\<lambda>x. x\<lparr>fv_is_available := True\<rparr>) vs)"
  then obtain y where "x = (if fv_id y = v \<and> \<not> fv_is_available y \<and> \<not> fv_is_deleted y then y\<lparr>fv_is_available := True\<rparr> else y)"
    unfolding update_rows_def set_map by (elim imageE)
  then show "fv_id x = v \<and> \<not> fv_is_deleted x \<longrightarrow> fv_is_available x"
    by (cases "fv_id y = v \<and> \<not> fv_is_available y \<and> \<not> fv_is_deleted y") (simp, simp, blast)
qed

text \<open>
  C23: a release gives the crew back.  When a ride under way ends, the release succeeds, the ride is in its final status without crew, no
  ride that is not deleted still has its driver or its vehicle, and the vehicle is available again.  With the conditions of a
  claim, both can serve the next ride.
\<close>

theorem release_frees_crew:
  assumes "rides_ok db" and "exclusive (board_of db)" and "get_ride db i = Some r" and "engaged r"
    and "rd_driver r = Some d" and "rd_vehicle r = Some v" and "ra_status ra \<in> set TERMINAL_RELEASE_STATUSES"
  shows "\<exists>db'. release env i ra db = (Inr True, db')
    \<and> get_ride db' i = Some (r\<lparr>rd_status := ra_status ra, rd_driver := None, rd_vehicle := None\<rparr>)
    \<and> (\<forall>x \<in> set (dd_rides db'). \<not> rd_is_deleted x \<longrightarrow> rd_driver x \<noteq> Some d \<and> rd_vehicle x \<noteq> Some v)
    \<and> (\<forall>x \<in> set (dd_vehicles db'). fv_id x = v \<and> \<not> fv_is_deleted x \<longrightarrow> fv_is_available x)"
  using assms(1,3-7)
proof (rule release_engaged [of _ _ _ _ _ _ env])
  fix db1 db'
  let ?f = "\<lambda>x. x\<lparr>rd_status := ra_status ra, rd_driver := None, rd_vehicle := None\<rparr>"
  assume run: "release_body env i ra db = Inr (True, db')"
    and db1: "db1 = db\<lparr>dd_rides := update_rows (\<lambda>x. rd_id x = i \<and> engaged x) ?f (dd_rides db)\<rparr>"
    and rides: "dd_rides db' = dd_rides db1"
    and veh: "dd_vehicles db' = update_rows (\<lambda>x. fv_id x = v \<and> \<not> fv_is_available x \<and> \<not> fv_is_deleted x
           \<and> \<not> vehicle_engaged_other db1 v i) (\<lambda>x. x\<lparr>fv_is_available := True\<rparr>) (dd_vehicles db)"
  have B: "board_of db i = Some (d, v)" using assms(3-6) by (simp add: board_of_def crew_def engaged_def)
  have others: "rd_driver x \<noteq> Some d \<and> rd_vehicle x \<noteq> Some v"
    if x: "x \<in> set (dd_rides db)" "rd_id x \<noteq> i" "\<not> rd_is_deleted x" for x
  proof (rule ccontr)
    assume "\<not> (rd_driver x \<noteq> Some d \<and> rd_vehicle x \<noteq> Some v)"
    then obtain d' v' where "rd_driver x = Some d'" "rd_vehicle x = Some v'" "d' = d \<or> v' = v"
      using ride_rowD [OF assms(1) get_ride_of [OF assms(1) x(1)]] by (auto simp: ride_row_inv_def)
    moreover from this x have "board_of db (rd_id x) = Some (d', v')"
      by (simp add: board_of_def get_ride_of [OF assms(1)] crew_def)
    ultimately show False using assms(2) B x(2) unfolding exclusive_def by blast
  qed
  have free: "rd_driver x \<noteq> Some d \<and> rd_vehicle x \<noteq> Some v" if x: "x \<in> set (dd_rides db')" "\<not> rd_is_deleted x" for x
  proof -
    from x(1) obtain y where y: "y \<in> set (dd_rides db)" "x = (if rd_id y = i \<and> engaged y then ?f y else y)"
      by (auto simp: rides db1 update_rows_def)
    show ?thesis
    proof (cases "rd_id y = i")
      case True
      with ride_unique [OF assms(1,3) y(1)] assms(4) y(2) show ?thesis by simp
    next
      case False
      with others [OF y(1)] y(2) x(2) show ?thesis by simp
    qed
  qed
  then have "\<not> vehicle_engaged_other db1 v i" by (auto simp: vehicle_engaged_other_iff rides engaged_def)
  then have "\<forall>x \<in> set (dd_vehicles db'). fv_id x = v \<and> \<not> fv_is_deleted x \<longrightarrow> fv_is_available x"
    unfolding veh by (simp add: made_available)
  moreover have "get_ride db' i = Some (?f r)"
    unfolding get_ride_cong [OF rides] using assms(3,4) get_ride_id [OF assms(3)] by (simp add: db1 get_ride_update)
  ultimately show ?thesis using run free by (auto simp: release_def atomic_def)
qed

lemma demo_assigned_ok: "rides_ok demo_assigned"
  by (simp add: rides_ok_def ride_row_defs demo_assigned_def fleet_defs ride_status_defs)

lemma demo_assigned_ride:
  "get_ride demo_assigned 1 = Some (demo_ride\<lparr>rd_status := ASSIGNED, rd_driver := Some 7, rd_vehicle := Some 5\<rparr>)"
  by (simp add: get_ride_def demo_assigned_def fleet_defs)

lemma demo_assigned_exclusive: "exclusive (board_of demo_assigned)"
  by (simp add: exclusive_def board_of_def get_ride_def crew_def demo_assigned_def fleet_defs)

lemma release_frees_crew_witness:
  "\<exists>db'. release demo_ride_env 1 \<lparr>ra_status = COMPLETED, ra_actor = None, ra_reason = None, ra_extra = []\<rparr> demo_assigned = (Inr True, db')
    \<and> (\<forall>x \<in> set (dd_vehicles db'). fv_id x = 5 \<and> \<not> fv_is_deleted x \<longrightarrow> fv_is_available x)"
  using release_frees_crew [OF demo_assigned_ok demo_assigned_exclusive demo_assigned_ride, of 7 5
      "\<lparr>ra_status = COMPLETED, ra_actor = None, ra_reason = None, ra_extra = []\<rparr>" demo_ride_env]
  by (auto simp: engaged_def ride_status_defs demo_ride_def)

subsection \<open>Fees of a cancelled ride\<close>

lemma whole_cents_min: "whole_cents x \<Longrightarrow> whole_cents y \<Longrightarrow> whole_cents (min x y)"
  by (simp add: min_def)

definition capped_fee :: "money \<Rightarrow> money \<Rightarrow> int \<Rightarrow> money" where
  "capped_fee fare cap pct = ride_money (min (min (ride_money (fare * of_int pct / 100)) cap) fare)"

lemma capped_fee:
  assumes "whole_cents fare" and "0 \<le> fare" and "whole_cents cap" and "0 \<le> cap" and "0 \<le> pct"
  shows "0 \<le> capped_fee fare cap pct" and "capped_fee fare cap pct \<le> fare" and "capped_fee fare cap pct \<le> cap"
    and "whole_cents (capped_fee fare cap pct)"
proof -
  let ?x = "ride_money (fare * of_int pct / 100)"
  have x: "0 \<le> ?x" using assms(2,5) by (intro half_even.quantize_ge_whole) simp_all
  have eq: "capped_fee fare cap pct = min (min ?x cap) fare"
    unfolding capped_fee_def
    using assms(1,3) by (intro half_even.quantize_whole_cents whole_cents_min half_even.whole_cents_quantize)
  show "0 \<le> capped_fee fare cap pct" using x assms(2,4) unfolding eq by (metis min.boundedI)
  show "capped_fee fare cap pct \<le> fare" unfolding eq by (rule min.cobounded2)
  show "capped_fee fare cap pct \<le> cap" unfolding eq by (meson min.cobounded1 min.cobounded2 order_trans)
  show "whole_cents (capped_fee fare cap pct)" unfolding capped_fee_def by (rule half_even.whole_cents_quantize)
qed

text \<open>The fee by the time that is left until the pickup.\<close>

lemma policy_fee_eq:
  assumes "whole_cents (rd_final_price b)" and "0 \<le> rd_final_price b"
  shows "fp_fee (ride_cancellation_policy b now) =
    (if ride_booking_mode b \<noteq> ''scheduled'' then 0
     else case rd_pickup_time b of
       None \<Rightarrow> 0
     | Some p \<Rightarrow> if p - now > minutes 60 then 0
                 else if p - now \<ge> minutes 15 then capped_fee (rd_final_price b) 10000 20
                 else capped_fee (rd_final_price b) 20000 40)"
proof -
  have fare: "max 0 (ride_money (rd_final_price b)) = rd_final_price b"
    using assms(2) unfolding half_even.quantize_whole_cents [OF assms(1)] by simp
  show ?thesis
    unfolding ride_cancellation_policy_def fare capped_fee_def Let_def by (cases "rd_pickup_time b") simp_all
qed

lemma capped_fee_share:
  assumes "whole_cents fare" and "0 \<le> fare" and "whole_cents cap" and "0 \<le> cap"
  shows "capped_fee fare cap pct \<le> fare * of_int pct / 100 + 1 / 100"
proof -
  have "capped_fee fare cap pct \<le> ride_money (ride_money (fare * of_int pct / 100))"
    unfolding capped_fee_def by (rule half_even.quantize_mono) (simp add: min_le_iff_disj)
  also have "\<dots> = ride_money (fare * of_int pct / 100)" by (rule half_even.quantize_idem)
  also have "\<dots> \<le> fare * of_int pct / 100 + 1 / 100"
    using abs_le_D1 [OF less_imp_le [OF half_even.quantize_error [of 2 "fare * of_int pct / 100"]]] by simp
  finally show ?thesis .
qed

lemma capped_fee_mono: "0 \<le> fare \<Longrightarrow> pct \<le> pct' \<Longrightarrow> cap \<le> cap' \<Longrightarrow> capped_fee fare cap pct \<le> capped_fee fare cap' pct'"
  unfolding capped_fee_def
  by (intro half_even.quantize_mono min.mono divide_right_mono mult_left_mono) simp_all

lemma fee_caps: "whole_cents 10000" "whole_cents 20000"
  using whole_cents_int [of 10000] whole_cents_int [of 20000] by simp_all

lemma policy_fee:
  assumes "whole_cents (rd_final_price b)" and "0 \<le> rd_final_price b"
  shows "0 \<le> fp_fee (ride_cancellation_policy b now) \<and> fp_fee (ride_cancellation_policy b now) \<le> rd_final_price b
    \<and> whole_cents (fp_fee (ride_cancellation_policy b now))"
  using capped_fee [OF assms fee_caps(1), of 20] capped_fee [OF assms fee_caps(2), of 40] assms(2) whole_cents_int [of 0]
  by (simp add: policy_fee_eq [OF assms] split: option.splits)

lemma policy_fee_later:
  assumes "whole_cents (rd_final_price b)" and "0 \<le> rd_final_price b" and "now \<le> now'"
  shows "fp_fee (ride_cancellation_policy b now) \<le> fp_fee (ride_cancellation_policy b now')"
  using capped_fee [OF assms(1,2) fee_caps(1), of 20] capped_fee [OF assms(1,2) fee_caps(2), of 40] assms(3)
    capped_fee_mono [OF assms(2), of 20 40 10000 20000]
  by (auto simp: policy_fee_eq [OF assms(1,2)] split: option.splits)

lemma policy_fee_tier:
  assumes "whole_cents (rd_final_price b)" and "0 \<le> rd_final_price b" and "fp_fee (ride_cancellation_policy b now) \<noteq> 0"
  shows "ride_booking_mode b = ''scheduled'' \<and> (\<exists>p. rd_pickup_time b = Some p \<and> p \<le> now + minutes 60
    \<and> fp_fee (ride_cancellation_policy b now) \<le> (if p < now + minutes 15 then 20000 else 10000)
    \<and> fp_fee (ride_cancellation_policy b now) \<le> rd_final_price b * (if p < now + minutes 15 then 40 else 20) / 100 + 1 / 100)"
proof -
  note low = capped_fee [OF assms(1,2) fee_caps(1), of 20] capped_fee_share [OF assms(1,2) fee_caps(1), of 20]
  note high = capped_fee [OF assms(1,2) fee_caps(2), of 40] capped_fee_share [OF assms(1,2) fee_caps(2), of 40]
  from assms(3) obtain p where p: "ride_booking_mode b = ''scheduled''" "rd_pickup_time b = Some p" "p - now \<le> minutes 60"
    by (auto simp: policy_fee_eq [OF assms(1,2)] split: if_splits option.splits)
  with low high show ?thesis by (cases "p < now + minutes 15") (simp_all add: policy_fee_eq [OF assms(1,2)])
qed

text \<open>
  C24: the fee of a cancelled ride follows its schedule.  For a fare in whole cents fee and refund are not negative and add up to the
  fare, and a driver's credit is part of the fee.  There is a fee only if the rider cancels a scheduled ride at most an hour before its pickup and
  gives no reason of safety.  From fifteen minutes on before the pickup it is at most 20 per cent of the fare and 10000, later at most 40
  per cent and 20000, where the percentage is rounded by less than a cent; and to cancel later never costs less.
\<close>

theorem cancellation_fee_bounds:
  assumes "whole_cents (rd_final_price b)" and "0 \<le> rd_final_price b" and "t = cancel_terms_of env u a b"
  shows "0 \<le> ct_fee t \<and> ct_fee t \<le> rd_final_price b \<and> ct_fee t + ct_refund t = rd_final_price b
    \<and> (\<forall>drv c. cancel_credit db u t b = Some (drv, c) \<longrightarrow> 0 \<le> c \<and> c \<le> ct_fee t \<and> rd_driver b = Some (dr_id drv))
    \<and> (ct_fee t \<noteq> 0 \<longrightarrow> rd_user_id b = u \<and> ride_booking_mode b = ''scheduled''
         \<and> (\<exists>p. rd_pickup_time b = Some p \<and> p \<le> re_now env + minutes 60
              \<and> ct_fee t \<le> (if p < re_now env + minutes 15 then 20000 else 10000)
              \<and> ct_fee t \<le> rd_final_price b * (if p < re_now env + minutes 15 then 40 else 20) / 100 + 1 / 100)
         \<and> (\<forall>c. cx_reason_category a = Some c \<longrightarrow> str_lower c \<notin> set SAFETY_CATEGORIES))
    \<and> (\<forall>env'. re_now env \<le> re_now env' \<longrightarrow> ct_fee t \<le> ct_fee (cancel_terms_of env' u a b))"
proof -
  note pf = policy_fee [OF assms(1,2), of "re_now env"]
  have fee: "ct_fee t = 0 \<or> (ct_fee t = fp_fee (ride_cancellation_policy b (re_now env)) \<and> rd_user_id b = u
      \<and> (\<forall>c. cx_reason_category a = Some c \<longrightarrow> str_lower c \<notin> set SAFETY_CATEGORIES))"
    by (auto simp: assms(3) cancel_terms_of_def Let_def split: option.splits)
  then have bounds: "0 \<le> ct_fee t" "ct_fee t \<le> rd_final_price b" "whole_cents (ct_fee t)"
    using pf assms(2) whole_cents_int [of 0] by auto
  have "ct_refund t = ride_money (max 0 (rd_final_price b - ct_fee t))"
    by (simp add: assms(3) cancel_terms_of_def Let_def half_even.quantize_whole_cents [OF assms(1)])
  then have refund: "ct_fee t + ct_refund t = rd_final_price b"
    using bounds half_even.quantize_whole_cents [OF whole_cents_diff [OF assms(1) bounds(3)]] by simp
  have credit: "0 \<le> c \<and> c \<le> ct_fee t \<and> rd_driver b = Some (dr_id drv)" if "cancel_credit db u t b = Some (drv, c)" for drv c
  proof -
    from that have c: "c = ride_money (ct_fee t * 8 / 10)" and "0 < ct_fee t" and "rd_driver b = Some (dr_id drv)"
      by (auto simp: cancel_credit_def split: if_splits option.splits dest: find_Some_key)
    moreover from this bounds(3) have "c \<le> ct_fee t" unfolding c by (intro half_even.quantize_le_whole) simp_all
    moreover have "0 \<le> c" unfolding c using bounds(1) by (intro half_even.quantize_ge_whole) simp_all
    ultimately show ?thesis by blast
  qed
  have later: "ct_fee t \<le> ct_fee (cancel_terms_of env' u a b)" if "re_now env \<le> re_now env'" for env'
    using policy_fee_later [OF assms(1,2) that] by (simp add: assms(3) cancel_terms_of_def Let_def)
  have tier: "ride_booking_mode b = ''scheduled'' \<and> (\<exists>p. rd_pickup_time b = Some p \<and> p \<le> re_now env + minutes 60
      \<and> ct_fee t \<le> (if p < re_now env + minutes 15 then 20000 else 10000)
      \<and> ct_fee t \<le> rd_final_price b * (if p < re_now env + minutes 15 then 40 else 20) / 100 + 1 / 100)" if "ct_fee t \<noteq> 0"
    using policy_fee_tier [OF assms(1,2), of "re_now env"] fee that by simp
  from bounds(1,2) refund credit fee tier later show ?thesis by blast
qed

lemma demo_fee: "ct_fee (cancel_terms_of demo_ride_env 10 \<lparr>cx_reason = None, cx_reason_category = None, cx_safety_flag = False\<rparr> demo_ride) = 6000"
proof -
  have m: "ride_money 30000 = 30000" "ride_money 6000 = 6000"
    using half_even.quantize_int [of 2 30000] half_even.quantize_int [of 2 6000] by simp_all
  have "ride_booking_mode demo_ride = ''scheduled''" by code_simp
  with m show ?thesis
    by (simp add: cancel_terms_of_def ride_cancellation_policy_def Let_def demo_ride_def demo_ride_env_def)
qed

lemma cancellation_fee_bounds_witness:
  "ct_fee (cancel_terms_of demo_ride_env 10 \<lparr>cx_reason = None, cx_reason_category = None, cx_safety_flag = False\<rparr> demo_ride) = 6000
   \<and> ct_refund (cancel_terms_of demo_ride_env 10 \<lparr>cx_reason = None, cx_reason_category = None, cx_safety_flag = False\<rparr> demo_ride) = 24000"
proof -
  have "whole_cents (rd_final_price demo_ride)" using whole_cents_int [of 30000] by (simp add: demo_ride_def)
  from cancellation_fee_bounds [OF this _ refl, of demo_ride_env 10
      "\<lparr>cx_reason = None, cx_reason_category = None, cx_safety_flag = False\<rparr>" demo_fleet] demo_fee
  show ?thesis by (simp add: demo_ride_def)
qed

subsection \<open>Where the code departs from its comments\<close>

lemma set_ride_one:
  assumes "rides_ok db" and "get_ride db i = Some r" and "ride_row_ok db (f r)"
  shows "set_ride i f db = Inr (db\<lparr>dd_rides := update_rows (\<lambda>x. rd_id x = i) f (dd_rides db)\<rparr>)"
proof -
  have "list_all (\<lambda>x. rd_id x = i \<longrightarrow> ride_row_ok db (f x)) (dd_rides db)"
    using ride_unique [OF assms(1,2)] assms(3) by (auto simp: list_all_iff)
  then show ?thesis by (simp add: set_ride_def update_rides_def)
qed

text \<open>
  A driver can complete a trip that has not begun.  The driver of a ride under way completes it with one action whatever its status is: when
  the ride has only been assigned, too, though the table of transitions leads from there only to the driver's way and to cancellation.  The table
  of the trip actions gives the status that the action expects, but completion never compares it.
\<close>

theorem trip_completes_early:
  assumes "rides_ok db" and "get_ride db i = Some r" and "engaged r" and "find_driver db u = Some drv" and "rd_driver r = Some (dr_id drv)"
  shows "\<exists>db' r'. execute_driver_trip_action env i u actor Complete db = (Inr True, db')
    \<and> get_ride db' i = Some r' \<and> rd_status r' = COMPLETED \<and> rd_driver r' = None \<and> \<not> ride_can_transition ASSIGNED COMPLETED"
proof -
  let ?ra = "\<lparr>ra_status = COMPLETED, ra_actor = actor, ra_reason = None,
     ra_extra = [(''initiator'', JStr ''driver''), (''action'', JStr ''complete'')]\<rparr>"
  define f where "f = (\<lambda>x::ride. x\<lparr>rd_completed_at := Some (re_now env), rd_dropoff_actual_time := Some (re_now env),
     rd_meta := (rd_meta r)\<lparr>rm_completed_by := Some (dr_id drv, dr_code drv, dr_user_id drv)\<rparr>\<rparr>)"
  have frame: "rd_id (f x) = rd_id x" "rd_status (f x) = rd_status x" "rd_driver (f x) = rd_driver x" "rd_vehicle (f x) = rd_vehicle x"
    "rd_is_deleted (f x) = rd_is_deleted x" "rd_no_match_reason (f x) = rd_no_match_reason x" for x by (simp_all add: f_def)
  define db1 where "db1 = db\<lparr>dd_rides := update_rows (\<lambda>x. rd_id x = i) f (dd_rides db)\<rparr>"
  note inv = ride_rowD [OF assms(1,2)]
  then obtain v where v: "rd_vehicle r = Some v" using assms(5) by (auto simp: ride_row_inv_def)
  have set1: "set_ride i f db = Inr db1"
    unfolding db1_def using inv by (intro set_ride_one [OF assms(1,2)]) (simp add: ride_row_defs frame)
  then have ok: "rides_ok db1" using set_ride_dispatches [OF set1] assms(1) frame by (simp add: dispatches_def)
  have got: "get_ride db1 i = Some (f r)"
    using assms(2) get_ride_id [OF assms(2)] frame(1) by (simp add: db1_def get_ride_update)
  have eng: "engaged (f r)" using assms(3) by (simp add: engaged_def frame)
  have fd: "rd_driver (f r) = Some (dr_id drv)" and fv: "rd_vehicle (f r) = Some v"
    and fin: "ra_status ?ra \<in> set TERMINAL_RELEASE_STATUSES"
    using assms(5) v by (simp_all add: frame ride_status_defs)
  obtain db2 db' where run: "release_body env i ?ra db1 = Inr (True, db')"
    and db2: "db2 = db1\<lparr>dd_rides := update_rows (\<lambda>x. rd_id x = i \<and> engaged x)
           (\<lambda>x. x\<lparr>rd_status := ra_status ?ra, rd_driver := None, rd_vehicle := None\<rparr>) (dd_rides db1)\<rparr>"
    and rides: "dd_rides db' = dd_rides db2"
    by (rule release_engaged [OF ok got eng fd fv fin, of env])
  have "get_ride db' i = Some ((f r)\<lparr>rd_status := COMPLETED, rd_driver := None, rd_vehicle := None\<rparr>)"
    unfolding get_ride_cong [OF rides] using got eng get_ride_id [OF got] by (simp add: db2 get_ride_update)
  moreover have "trip_action_body env i u actor Complete db = Inr (True, db')"
    using assms set1 run by (simp add: trip_action_body_def live_ride_def engaged_def f_def)
  ultimately show ?thesis by (simp add: execute_driver_trip_action_def atomic_def ride_can_transition_def)
qed

lemma trip_completes_early_witness:
  "\<exists>db' r'. execute_driver_trip_action demo_ride_env 1 70 None Complete demo_assigned = (Inr True, db')
    \<and> get_ride db' 1 = Some r' \<and> rd_status r' = COMPLETED"
  using trip_completes_early [OF demo_assigned_ok demo_assigned_ride, of 70 demo_driver demo_ride_env None]
  by (auto simp: engaged_def ride_status_defs find_driver_def demo_assigned_def fleet_defs)

text \<open>
  A release rewrites the outcome of a finished ride.  A ride that has ended and is released again, to any final status, takes that status and
  keeps everything else: a completed ride becomes a cancelled one.  The comment of the release calls the repetition idempotent.
\<close>

theorem release_overwrites_outcome:
  assumes "rides_ok db" and "get_ride db i = Some r" and "\<not> rd_is_deleted r" and "rd_status r \<in> set TERMINAL_RELEASE_STATUSES"
    and "ra_status ra \<in> set TERMINAL_RELEASE_STATUSES"
  shows "\<exists>db'. release env i ra db = (Inr False, db') \<and> get_ride db' i = Some (r\<lparr>rd_status := ra_status ra\<rparr>)"
proof -
  let ?f = "\<lambda>x::ride. x\<lparr>rd_status := ra_status ra\<rparr>"
  define db1 where "db1 = db\<lparr>dd_rides := update_rows (\<lambda>x. rd_id x = i \<and> \<not> rd_is_deleted x) ?f (dd_rides db)\<rparr>"
  note inv = ride_rowD [OF assms(1,2)]
  have idle: "rd_driver r = None" "rd_vehicle r = None" using inv assms(4) by (auto simp: ride_row_inv_def ride_status_defs)
  have "rd_no_match_reason r = None" using inv assms(4) by (auto simp: ride_row_defs ride_status_defs)
  then have "ride_row_ok db (?f r)" using terminal_inactive [OF assms(5)] idle by (simp add: ride_row_ok_def chk_no_match_reason_def)
  from update_one [where q = "\<lambda>x. \<not> rd_is_deleted x" and f = ?f, OF assms(1,2,3) this]
  have upd: "update_rides (\<lambda>x. rd_id x = i \<and> \<not> rd_is_deleted x) ?f db = Inr (1, db1)" by (simp add: db1_def)
  obtain db' where run: "release_body env i ra db = Inr (False, db')" and rides: "dd_rides db' = dd_rides db1"
    using assms(2,5) idle upd by (simp add: release_body_def Let_def add_dispatch_audit_def)
  have "get_ride db' i = Some (?f r)"
    unfolding get_ride_cong [OF rides] using assms(2,3) get_ride_id [OF assms(2)] by (simp add: db1_def get_ride_update)
  with run show ?thesis by (simp add: release_def atomic_def)
qed

lemma release_overwrites_outcome_witness:
  "\<exists>db'. release demo_ride_env 1 \<lparr>ra_status = CANCELLED, ra_actor = None, ra_reason = None, ra_extra = []\<rparr>
      (demo_fleet\<lparr>dd_rides := [demo_ride\<lparr>rd_status := COMPLETED\<rparr>]\<rparr>) = (Inr False, db')
    \<and> get_ride db' 1 = Some (demo_ride\<lparr>rd_status := CANCELLED\<rparr>)"
proof -
  let ?db = "demo_fleet\<lparr>dd_rides := [demo_ride\<lparr>rd_status := COMPLETED\<rparr>]\<rparr>"
  have "rides_ok ?db" by (simp add: rides_ok_def ride_row_defs fleet_defs)
  moreover have "get_ride ?db 1 = Some (demo_ride\<lparr>rd_status := COMPLETED\<rparr>)" by (simp add: get_ride_def fleet_defs)
  ultimately show ?thesis
    using release_overwrites_outcome [of ?db 1 "demo_ride\<lparr>rd_status := COMPLETED\<rparr>"
        "\<lparr>ra_status = CANCELLED, ra_actor = None, ra_reason = None, ra_extra = []\<rparr>" demo_ride_env]
    by (simp add: ride_status_defs demo_ride_def)
qed

end
