(* ===== verification/Request_Claims.thy ===== *)
theory Request_Claims
  imports Request_Runs Ride_Claims Market_Correct
begin

section \<open>What the search for a driver promises\<close>

text \<open>
  One driver is asked at a time and none twice in a cycle; a search that only meets declines ends; an acceptance converts the request
  into one assigned booking or leaves rides and payments as they were; a repeated creation returns the request; the crews stay exclusive; and
  a request that is older than five minutes can no longer be accepted.
\<close>

subsection \<open>Frames\<close>

lemma advance_frame:
  assumes "advance_locked now rq c a outcome db = Inr (n, db')"
  shows "qd_rides db' = qd_rides db" and "qd_payments db' = qd_payments db" and "qd_requests db' = qd_requests db"
proof -
  have "qd_rides db' = qd_rides db \<and> qd_payments db' = qd_payments db \<and> qd_requests db' = qd_requests db"
    using assms by (cases rule: advance_cases) (auto simp: put_offer_def put_cycle_def dest: insert_offer_Inr(1))
  then show "qd_rides db' = qd_rides db" "qd_payments db' = qd_payments db" "qd_requests db' = qd_requests db" by simp_all
qed

lemma give_up_frame:
  "give_up now rq c a outcome err db = (res, db') \<Longrightarrow> (\<exists>e. res = Inl e) \<and> qd_rides db' = qd_rides db \<and> qd_payments db' = qd_payments db"
  by (cases "advance_locked now rq c a outcome db") (auto simp: give_up_def dest: advance_frame)

lemma close_frame:
  "close_cycle_at_deadline now c db = (b, db') \<Longrightarrow> qd_rides db' = qd_rides db \<and> qd_payments db' = qd_payments db"
  by (cases "cy_deadline c") (auto simp: close_cycle_at_deadline_def put_cycle_def split: if_splits)

subsection \<open>One driver at a time\<close>

lemma open_offer_cycle:
  assumes "requests_ok db" and "a \<in> set (qd_attempts db)" and "actionable a" and "cycle_of db a = Some c"
  shows "c \<in> set (qd_cycles db)" and "cy_status c = Cycle_searching"
    and "length (filter actionable (attempts_of db (cy_id c))) = 1" and "a \<in> set (attempts_of db (cy_id c))"
proof -
  from find_Some_key [of cy_id "oa_cycle a" "qd_cycles db" c] assms(4) have c: "c \<in> set (qd_cycles db)" "cy_id c = oa_cycle a"
    by (auto simp: cycle_of_def)
  with assms(2) have a: "a \<in> set (attempts_of db (cy_id c))" by (simp add: attempts_of_def)
  moreover have "cy_status c = Cycle_searching \<and> length (filter actionable (attempts_of db (cy_id c))) = 1"
    using requests_okD(7) [OF assms(1) c(1)] a assms(3) by (auto simp: cycle_inv_def filter_empty_conv split: if_splits)
  ultimately show "c \<in> set (qd_cycles db)" "cy_status c = Cycle_searching"
    "length (filter actionable (attempts_of db (cy_id c))) = 1" "a \<in> set (attempts_of db (cy_id c))" using c by simp_all
qed

text \<open>
  C28: a search asks one driver at a time.  After every run of the service, two open offers of the cycles of one request are the same offer; its cycle is the
  current one of a request that is still searching.
\<close>

theorem one_driver_at_a_time:
  assumes "request_step\<^sup>*\<^sup>* db db'" and "requests_ok db"
    and "a \<in> set (qd_attempts db')" and "actionable a" and "cycle_of db' a = Some c"
    and "b \<in> set (qd_attempts db')" and "actionable b" and "cycle_of db' b = Some c'" and "cy_request c' = cy_request c"
  shows "a = b \<and> cycle_for_request db' (cy_request c) = Some c
    \<and> (\<exists>r \<in> set (qd_requests db'). rq_id r = cy_request c \<and> rq_status r = Searching)"
proof -
  from search.run_keeps [OF assms(1,2)] have ok: "requests_ok db'" .
  note A = open_offer_cycle [OF ok assms(3-5)] and B = open_offer_cycle [OF ok assms(6-8)]
  have cur: "cycle_for_request db' (cy_request c) = Some c" by (rule current_cycle [OF ok A(1,2)])
  with current_cycle [OF ok B(1,2)] assms(9) have "c' = c" by simp
  with one_actionable [OF A(3,4) assms(4)] B(4) assms(7) have "a = b" by simp
  with cur requests_okD(8) [OF ok A(1,2)] show ?thesis by (simp add: cycle_current_def)
qed

lemma bounded_attempts: "requests_ok db \<Longrightarrow> c \<in> set (qd_cycles db) \<Longrightarrow> length (attempts_of db (cy_id c)) \<le> MATCHING_POOL_SIZE"
proof -
  assume "requests_ok db" "c \<in> set (qd_cycles db)"
  from requests_okD(7) [OF this] have inv: "distinct (map oa_driver (attempts_of db (cy_id c)))"
    "oa_driver ` set (attempts_of db (cy_id c)) \<subseteq> pe_driver ` set (pool_of c)" "length (pool_of c) \<le> MATCHING_POOL_SIZE"
    by (simp_all add: cycle_inv_def)
  have "length (attempts_of db (cy_id c)) = card (set (map oa_driver (attempts_of db (cy_id c))))" using distinct_card [OF inv(1)] by simp
  also have "\<dots> \<le> card (pe_driver ` set (pool_of c))" using inv(2) by (intro card_mono) simp_all
  also have "\<dots> \<le> length (pool_of c)" by (metis card_length length_map set_map)
  finally show ?thesis using inv(3) by simp
qed

text \<open>
  A cycle is short.  After every run, the attempts of a cycle are at most five, and they go to different drivers of its pool.
\<close>

theorem cycle_is_bounded:
  assumes "request_step\<^sup>*\<^sup>* db db'" and "requests_ok db" and "c \<in> set (qd_cycles db')"
  shows "length (attempts_of db' (cy_id c)) \<le> 5 \<and> distinct (map oa_driver (attempts_of db' (cy_id c)))
    \<and> oa_driver ` set (attempts_of db' (cy_id c)) \<subseteq> pe_driver ` set (pool_of c)"
proof -
  from search.run_keeps [OF assms(1,2)] have ok: "requests_ok db'" .
  show ?thesis using bounded_attempts [OF ok assms(3)] requests_okD(7) [OF ok assms(3)] by (simp add: cycle_inv_def MATCHING_POOL_SIZE_def)
qed

subsection \<open>Acceptance\<close>

lemma claimed_row:
  assumes "claim_staged env a db = Inr (i, db')" and "find (\<lambda>r. rd_reference r = ca_reference a) (dd_rides db) = Some b"
  shows "i = rd_id b" and "dd_rides db' = update_rows (\<lambda>r. rd_id r = rd_id b \<and> claimable r)
    (\<lambda>r. r\<lparr>rd_status := ASSIGNED, rd_driver := Some (ca_driver a), rd_vehicle := Some (ca_vehicle a),
            rd_driver_assigned_at := Some (re_now env)\<rparr>) (dd_rides db)"
  using assms by (auto elim!: claim_staged_Inr simp: update_rides_Inr add_dispatch_audit_def)

lemma converted_ride:
  assumes ins: "insert_booking env rq c db = Inr (b, rides)"
    and cl: "claim_staged env' a rides = Inr (i, rides')" and ref: "ca_reference a = rd_reference b"
  shows "i = rd_id b" and "dd_rides rides' = dd_rides db @ [b\<lparr>rd_status := ASSIGNED, rd_driver := Some (ca_driver a),
    rd_vehicle := Some (ca_vehicle a), rd_driver_assigned_at := Some (re_now env')\<rparr>]"
proof -
  note B = insert_booking_Inr [OF ins]
  have b: "claimable b" by (subst B(1)) (simp add: claimable_def)
  have "find (\<lambda>r. rd_reference r = rd_reference b) (dd_rides db) = None"
    using B(4) by (auto simp: booking_row_ok_def list_all_iff find_None_iff)
  then have found: "find (\<lambda>r. rd_reference r = ca_reference a) (dd_rides rides) = Some b"
    by (simp add: B(2) find_append ref)
  note row = claimed_row [OF cl found]
  have "update_rows (\<lambda>r. rd_id r = rd_id b \<and> claimable r) f (dd_rides db) = dd_rides db" for f
    using B(3) by (intro update_rows_none) (metis imageI)
  with b show "dd_rides rides' = dd_rides db @ [b\<lparr>rd_status := ASSIGNED, rd_driver := Some (ca_driver a),
      rd_vehicle := Some (ca_vehicle a), rd_driver_assigned_at := Some (re_now env')\<rparr>]"
    by (simp add: row(2) B(2)) (simp add: update_rows_def)
  show "i = rd_id b" by (rule row(1))
qed

lemma convert_offer_cases:
  assumes "convert_offer env rq c a actor db = (res, db')"
  shows "(\<exists>i. res = Inr i \<and> convert_body env rq c a actor db = Inr (i, db'))
    \<or> (\<exists>e. res = Inl e) \<and> qd_rides db' = qd_rides db \<and> qd_payments db' = qd_payments db"
proof (cases "convert_body env rq c a actor db")
  case (Inl e)
  with assms show ?thesis by (cases e) (auto simp: convert_offer_def dest: give_up_frame)
next
  case (Inr y)
  with assms show ?thesis by (cases y) (simp add: convert_offer_def)
qed

text \<open>An acceptance either converts an open offer that its driver answers in time, or fails and leaves rides and payments alone.\<close>

lemma accept_cases:
  assumes "accept_request_offer env p d v actor db = (res, db')"
  obtains (Converted) i rq c a where "res = Inr i" and "find_request db p = Some rq" and "searching_cycle db rq = Some c"
      and "offered_attempt db (cy_id c) d = Some a" and "oa_vehicle a = v" and "awaits_response (qe_now env) a"
      and "list_ex (\<lambda>h. vp_driver h = d \<and> vp_vehicle h = v \<and> vp_ended_at h = None \<and> \<not> vp_is_deleted h) (qd_pairings db)"
      and "convert_body env rq c a actor db = Inr (i, db')"
  | (Failed) e where "res = Inl e" and "qd_rides db' = qd_rides db" and "qd_payments db' = qd_payments db"
proof (cases "find_request db p")
  case None
  with assms have "res = Inl Request_not_found" "db' = db" by (simp_all add: accept_request_offer_def)
  with Failed show thesis by simp
next
  case rq: (Some rq)
  show thesis
  proof (cases "searching_cycle db rq")
    case None
    with assms rq have "(\<exists>e. res = Inl e) \<and> db' = db" by (auto simp: accept_request_offer_def split: if_splits)
    with Failed show thesis by auto
  next
    case cyc: (Some c)
    note run = assms [unfolded accept_request_offer_def] rq cyc searching_cycleD [OF cyc]
    show thesis
    proof (cases rule: close_cases [of "qe_now env" c db])
      case (Closed db1)
      with run have "res = Inl Matching_window_expired" "db' = db1" by simp_all
      with close_frame [OF Closed] show thesis by (intro Failed) simp_all
    next
      case Open
      show thesis
      proof (cases "offered_attempt db (cy_id c) d")
        case None
        with run Open have "res = Inl Offer_not_active" "db' = db" by simp_all
        with Failed show thesis by simp
      next
        case a: (Some a)
        let ?pair = "list_ex (\<lambda>h. vp_driver h = d \<and> vp_vehicle h = v \<and> vp_ended_at h = None \<and> \<not> vp_is_deleted h) (qd_pairings db)"
        show thesis
        proof (cases "oa_vehicle a = v \<and> awaits_response (qe_now env) a \<and> ?pair")
          case True
          with run Open a have "convert_offer env rq c a actor db = (res, db')" by simp
          from convert_offer_cases [OF this] True rq cyc a Converted Failed show thesis by blast
        next
          case False
          with run Open a have "(\<exists>e. res = Inl e) \<and> qd_rides db' = qd_rides db \<and> qd_payments db' = qd_payments db"
            by (auto split: if_splits dest: give_up_frame)
          with Failed show thesis by blast
        qed
      qed
    qed
  qed
qed

lemma record_payment_booking: "record_payment env rq iv b ps = Inr ps' \<Longrightarrow> \<exists>q \<in> set ps'. pm_booking q = rd_id b"
  by (auto simp: record_payment_def list_ex_iff split: if_splits option.splits)

lemma record_conversion_frame:
  "qd_rides (record_conversion now rq c a db) = qd_rides db" "qd_payments (record_conversion now rq c a db) = qd_payments db"
  "qd_requests (record_conversion now rq c a db) = qd_requests (put_request (rq\<lparr>rq_status := Converted, rq_converted_at := Some now\<rparr>) db)"
  by (simp_all add: record_conversion_def put_request_def put_cycle_def put_offer_def)

lemma found_converted:
  assumes "requests_ok db" and "find_request db p = Some rq" and "same_terms rq r'"
    and "qd_requests db' = qd_requests (put_request r' db)"
  shows "find_request db' p = Some r'"
proof -
  note rq = find_requestD [OF assms(2)] and D = requests_okD [OF assms(1)]
  have rows: "r' \<in> set (qd_requests db')" "distinct (map rq_public_id (qd_requests db'))"
    using put_request_rows [OF D(1) _ assms(3)] rq D(2) by (simp_all add: assms(4))
  show ?thesis unfolding find_request_def
    by (rule find_distinct_key [where key = rq_public_id, OF rows(2,1)]) (use rq assms(3) in \<open>auto simp: same_terms_def\<close>)
qed

lemma acceptance_booking:
  assumes "requests_ok db" and "accept_request_offer env p d v actor db = (res, db')"
  shows "(\<exists>i rq c a b. res = Inr i \<and> find_request db p = Some rq \<and> searching_cycle db rq = Some c
      \<and> offered_attempt db (cy_id c) d = Some a \<and> oa_vehicle a = v \<and> awaits_response (qe_now env) a
      \<and> list_ex (\<lambda>h. vp_driver h = d \<and> vp_vehicle h = v \<and> vp_ended_at h = None \<and> \<not> vp_is_deleted h) (qd_pairings db)
      \<and> find_request db' p = Some (rq\<lparr>rq_status := Converted, rq_converted_at := Some (qe_now env)\<rparr>)
      \<and> dd_rides (qd_rides db') = dd_rides (qd_rides db) @ [b]
      \<and> rd_id b = i \<and> rd_status b = ASSIGNED \<and> rd_driver b = Some d \<and> rd_vehicle b = Some v \<and> rd_user_id b = rq_user_id rq \<and> \<not> rd_is_deleted b
      \<and> rd_ride_request_id b = Some (rq_id rq) \<and> rd_final_price b = request_amount rq
      \<and> (\<exists>q \<in> set (qd_payments db'). pm_booking q = i))
    \<or> (\<exists>e. res = Inl e) \<and> qd_rides db' = qd_rides db \<and> qd_payments db' = qd_payments db"
  using assms(2)
proof (cases rule: accept_cases)
  case (Converted i rq c a)
  note a = offered_attemptD [OF Converted(4)]
  from Converted(8) show ?thesis
  proof (rule convert_body_Inr)
    fix iv and b :: ride and rides payments rides'
    let ?ca = "\<lparr>ca_reference = rd_reference b, ca_driver = oa_driver a, ca_vehicle = oa_vehicle a, ca_actor = actor, ca_force = False\<rparr>"
    let ?b = "b\<lparr>rd_status := ASSIGNED, rd_driver := Some d, rd_vehicle := Some v, rd_driver_assigned_at := Some (qe_now env)\<rparr>"
    assume ins: "insert_booking env rq c (qd_rides db) = Inr (b, rides)"
      and pay: "record_payment env rq iv b (qd_payments db) = Inr payments"
      and cl: "claim_staged (qe_ride env) ?ca rides = Inr (i, rides')"
      and db': "db' = record_conversion (qe_now env) rq c a (db\<lparr>qd_rides := rides', qd_payments := payments\<rparr>)"
    note ride = converted_ride [OF ins cl]
    have b: "rd_user_id b = rq_user_id rq" "\<not> rd_is_deleted b" "rd_ride_request_id b = Some (rq_id rq)" "rd_final_price b = request_amount rq"
      by (subst insert_booking_Inr(1) [OF ins], simp add: request_booking_def Let_def)+
    have "dd_rides (qd_rides db') = dd_rides (qd_rides db) @ [?b]"
      using ride(2) Converted(5) a by (simp add: db' record_conversion_frame)
    moreover have "\<exists>q \<in> set (qd_payments db'). pm_booking q = i"
      using record_payment_booking [OF pay] ride(1) by (simp add: db' record_conversion_frame)
    moreover have "find_request db' p = Some (rq\<lparr>rq_status := Converted, rq_converted_at := Some (qe_now env)\<rparr>)"
      by (rule found_converted [OF assms(1) Converted(2)]) (simp_all add: same_terms_def db' record_conversion_frame put_request_def)
    moreover have "rd_id ?b = i" "rd_status ?b = ASSIGNED" "rd_driver ?b = Some d" "rd_vehicle ?b = Some v"
      "rd_user_id ?b = rq_user_id rq" "\<not> rd_is_deleted ?b" "rd_ride_request_id ?b = Some (rq_id rq)" "rd_final_price ?b = request_amount rq"
      using ride(1) b by simp_all
    ultimately show ?thesis using Converted(1-7) by blast
  qed
next
  case (Failed e)
  then show ?thesis by simp
qed

text \<open>
  C27: an acceptance converts the request or changes no ride.  When a driver's acceptance succeeds, the request was searching and the driver had an open offer with
  this vehicle in its current cycle, in time and with the vehicle still paired; the request is converted, and exactly one booking has been
  added: assigned to this driver and vehicle, for the rider and at the fare of the request, with a payment row.  An
  acceptance that fails adds no booking and no payment.
\<close>

theorem acceptance_converts:
  assumes "requests_ok db" and "accept_request_offer env p d v actor db = (res, db')"
  shows "(\<exists>i rq c a b. res = Inr i \<and> find_request db p = Some rq \<and> searching_cycle db rq = Some c
      \<and> offered_attempt db (cy_id c) d = Some a \<and> oa_vehicle a = v \<and> awaits_response (qe_now env) a
      \<and> list_ex (\<lambda>h. vp_driver h = d \<and> vp_vehicle h = v \<and> vp_ended_at h = None \<and> \<not> vp_is_deleted h) (qd_pairings db)
      \<and> find_request db' p = Some (rq\<lparr>rq_status := Converted, rq_converted_at := Some (qe_now env)\<rparr>)
      \<and> dd_rides (qd_rides db') = dd_rides (qd_rides db) @ [b]
      \<and> rd_id b = i \<and> rd_status b = ASSIGNED \<and> rd_driver b = Some d \<and> rd_vehicle b = Some v \<and> rd_user_id b = rq_user_id rq \<and> \<not> rd_is_deleted b
      \<and> rd_ride_request_id b = Some (rq_id rq) \<and> rd_final_price b = request_amount rq
      \<and> (\<exists>q \<in> set (qd_payments db'). pm_booking q = i))
    \<or> (\<exists>e. res = Inl e) \<and> qd_rides db' = qd_rides db \<and> qd_payments db' = qd_payments db"
  using assms by (rule acceptance_booking)

subsection \<open>Old requests\<close>

text \<open>The request of a public id after a run has the terms it had before.\<close>

lemma run_same_request:
  assumes "request_step\<^sup>*\<^sup>* db db'" and "requests_ok db" and "find_request db p = Some rq"
  shows "\<exists>rq'. find_request db' p = Some rq' \<and> same_terms rq rq' \<and> (rq_status rq \<noteq> Searching \<longrightarrow> rq_status rq' = rq_status rq)"
proof -
  note rq = find_requestD [OF assms(3)]
  from search.run_eff [OF assms(1,2)] rq obtain rq' where rq': "rq' \<in> set (qd_requests db')" "same_terms rq rq'"
      "rq_status rq \<noteq> Searching \<longrightarrow> rq_status rq' = rq_status rq" by (auto simp: carries_def)
  have "distinct (map rq_public_id (qd_requests db'))" by (rule requests_okD(2) [OF search.run_keeps [OF assms(1,2)]])
  then have "find_request db' p = Some rq'" unfolding find_request_def
    by (rule find_distinct_key [where key = rq_public_id]) (use rq rq' in \<open>auto simp: same_terms_def\<close>)
  with rq' show ?thesis by blast
qed

text \<open>
  C32: an old request is never converted.  The pickup time of an instant request is the time it was made.  From five minutes after the pickup time of a request on, whatever
  runs before, no acceptance succeeds, because the booking would break the constraint on pickup times; a rider may still retry the search, and every driver
  who accepts is turned away.
\<close>

theorem old_request_never_converts:
  assumes "request_step\<^sup>*\<^sup>* db db'" and "requests_ok db" and "find_request db p = Some rq"
    and "rq_requested_pickup_time rq = Some t" and "t + minutes 5 \<le> qe_now env"
  shows "\<exists>e db''. accept_request_offer env p d v actor db' = (Inl e, db'') \<and> qd_rides db'' = qd_rides db'"
proof -
  obtain res db'' where run: "accept_request_offer env p d v actor db' = (res, db'')" by (cases "accept_request_offer env p d v actor db'")
  from run show ?thesis
  proof (cases rule: accept_cases)
    case (Converted i rq' c a)
    from run_same_request [OF assms(1-3)] Converted(2) assms(4) have t: "rq_requested_pickup_time rq' = Some t" by (auto simp: same_terms_def)
    have "insert_booking env rq' c (qd_rides db') = Inl Assignment_conflict"
      using assms(5) by (simp add: insert_booking_def Let_def booking_row_ok_def request_booking_def t)
    with Converted(8) show ?thesis by (auto elim!: convert_body_Inr)
  qed (use run in blast)
qed

subsection \<open>Repeated creation and crews\<close>

lemma created_request:
  assumes "create_ride_request env t db = (Inr (r, b), db')"
  shows "r \<in> set (qd_requests db')" and "owner_key r = (tf_owner t, tf_key t)" and "rq_trip_hash r = Some (tf_trip_hash t)" and "\<not> rq_is_deleted r"
proof -
  let ?p = "\<lambda>r. rq_user_id r = tf_owner t \<and> rq_idempotency_key r = tf_key t \<and> \<not> rq_is_deleted r"
  have "r \<in> set (qd_requests db') \<and> owner_key r = (tf_owner t, tf_key t) \<and> rq_trip_hash r = Some (tf_trip_hash t) \<and> \<not> rq_is_deleted r"
  proof (cases "find ?p (qd_requests db)")
    case None
    then show ?thesis
      using assms by (auto simp: create_ride_request_def new_request_def Let_def split: if_splits sum.splits market_error.splits)
  next
    case (Some x)
    with assms find_SomeD [OF Some] show ?thesis by (auto simp: create_ride_request_def split: if_splits)
  qed
  then show "r \<in> set (qd_requests db')" "owner_key r = (tf_owner t, tf_key t)" "rq_trip_hash r = Some (tf_trip_hash t)" "\<not> rq_is_deleted r"
    by simp_all
qed

text \<open>
  C31: a request is created once.  After a creation and any run that follows, the same call returns the request of the first one, reports that it
  existed and changes nothing.
\<close>

theorem request_created_once:
  assumes "requests_ok db" and "create_ride_request env t db = (Inr (r, b), db1)" and "request_step\<^sup>*\<^sup>* db1 db2"
  shows "\<exists>r'. create_ride_request env' t db2 = (Inr (r', True), db2) \<and> same_terms r r'"
proof -
  note r = created_request [OF assms(2)]
  have ok1: "requests_ok db1" using create_moves [of db env t] assms(1,2) by (simp add: request_moves_def)
  from search.run_eff [OF assms(3) ok1] r(1) obtain r' where r': "r' \<in> set (qd_requests db2)" "same_terms r r'" by (auto simp: carries_def)
  have "distinct (map owner_key (qd_requests db2))" by (rule requests_okD(3) [OF search.run_keeps [OF assms(3) ok1]])
  then have "find (\<lambda>r. rq_user_id r = tf_owner t \<and> rq_idempotency_key r = tf_key t \<and> \<not> rq_is_deleted r) (qd_requests db2) = Some r'"
    by (rule find_distinct_key [where key = owner_key]) (use r r' in \<open>auto simp: same_terms_def\<close>)
  with r r' have "create_ride_request env' t db2 = (Inr (r', True), db2)" by (simp add: create_ride_request_def same_terms_def)
  with r'(2) show ?thesis by blast
qed

text \<open>
  C30: requests and rides together keep crews exclusive.  On every run of the request service and the ride services together, the crews of the rides follow the dispatch board,
  and a board that is exclusive stays so.
\<close>

theorem requests_keep_crews:
  assumes "request_step\<^sup>*\<^sup>* db db'" and "requests_ok db" and "rides_ok (qd_rides db)"
  shows "board_step\<^sup>*\<^sup>* (board_of (qd_rides db)) (board_of (qd_rides db')) \<and> rides_ok (qd_rides db')
    \<and> (exclusive (board_of (qd_rides db)) \<longrightarrow> exclusive (board_of (qd_rides db')))"
  using board.run_simulated [OF assms(1)] board.run_keeps [OF assms(1)] assms(2,3)
    board.abstract_invariant [OF crews.run_invariant_axioms assms(1)] by blast

subsection \<open>A search that only meets declines\<close>

text \<open>The driver who is asked declines.\<close>

definition decline_current :: "string \<Rightarrow> time \<Rightarrow> request_db \<Rightarrow> request_db" where
  "decline_current p now db =
     (case Option.bind (find_request db p) (searching_cycle db) of
        None \<Rightarrow> db
      | Some c \<Rightarrow>
          (case active_attempt db (cy_id c) of
             None \<Rightarrow> db
           | Some a \<Rightarrow> snd (decline_request_offer now p (oa_driver a) db)))"

definition pool_known :: "request_db \<Rightarrow> search_cycle \<Rightarrow> bool" where
  "pool_known db c \<longleftrightarrow> list_all (\<lambda>e. pe_driver e \<in> dr_id ` set (dd_drivers (qd_rides db))
     \<and> pe_vehicle e \<in> fv_id ` set (dd_vehicles (qd_rides db))) (pool_of c)"

lemma max_number_ge: "a \<in> set as \<Longrightarrow> oa_number a \<le> max_number as"
proof (cases as)
  case (Cons b bs)
  moreover assume "a \<in> set as"
  ultimately have "oa_number a \<in> set (map oa_number bs) \<or> oa_number a \<le> oa_number b" by auto
  then show ?thesis unfolding max_number_def Cons using fold_max_ge by simp
qed simp

lemma advance_succeeds:
  assumes "requests_ok db" and "c \<in> set (qd_cycles db)" and "cy_status c = Cycle_searching" and "active_attempt db (cy_id c) = Some a"
    and "pool_known db c" and "outcome \<notin> set ACTIONABLE_OFFER_STATUSES"
  shows "\<exists>n db'. advance_locked now rq c a outcome db = Inr (n, db')"
proof (rule ccontr)
  let ?a = "a\<lparr>oa_status := outcome, oa_responded_at := Some now, oa_detail := oa_detail a @ [(''terminal_at'', JTime now)]\<rparr>"
  let ?as = "attempts_of (put_offer ?a db) (cy_id c)"
  note a = active_attemptD [OF assms(4)] and D = requests_okD [OF assms(1)]
  assume not: "\<nexists>n db'. advance_locked now rq c a outcome db = Inr (n, db')"
  have "close_cycle_at_deadline now c (put_offer ?a db) = (False, put_offer ?a db)"
    using not by (cases rule: close_cases [of now c "put_offer ?a db"]) (auto simp: advance_locked_def Let_def)
  with not obtain e where e: "find (\<lambda>e. pe_driver e \<notin> oa_driver ` set ?as) (pool_of c) = Some e"
    and fail: "\<And>n db'. insert_offer now rq c e (max_number ?as + 1) (put_offer ?a db) \<noteq> Inr (n, db')"
    by (cases "find (\<lambda>e. pe_driver e \<notin> oa_driver ` set ?as) (pool_of c)") (auto simp: advance_locked_def Let_def)
  let ?n = "new_attempt now rq c e (max_number ?as + 1) (next_key (map oa_id (qd_attempts (put_offer ?a db))))"
  have inv: "cycle_inv c (attempts_of db (cy_id c))" by (rule D(7) [OF assms(2)])
  then have one: "length (filter actionable (attempts_of db (cy_id c))) = 1" using a assms(3) by (auto simp: cycle_inv_def)
  have ids: "distinct (map oa_id (attempts_of db (cy_id c)))" using D(5) by (simp add: attempts_of_def distinct_map_filter)
  have "filter actionable ?as = []"
    using decided_attempts(2) [OF one conjunct1 [OF a] conjunct2 [OF a] ids, of ?a] inv assms(6)
      attempts_of_put [OF D(5) conjunct1 [OF a], of ?a "cy_id c"] by (simp add: cycle_inv_def status_defs)
  then have "\<not> actionable b \<and> oa_number b \<noteq> max_number ?as + 1" if "b \<in> set (qd_attempts (put_offer ?a db))" "oa_cycle b = cy_id c" for b
    using that max_number_ge [of b ?as] by (auto simp: attempts_of_def filter_empty_conv)
  moreover have "pe_driver e \<in> dr_id ` set (dd_drivers (qd_rides db))" "pe_vehicle e \<in> fv_id ` set (dd_vehicles (qd_rides db))"
    using assms(5) find_SomeD [OF e] by (auto simp: pool_known_def list_all_iff)
  ultimately have "attempt_row_ok (put_offer ?a db) ?n" by (auto simp: attempt_row_ok_def list_all_iff new_attempt_def)
  then have "insert_offer now rq c e (max_number ?as + 1) (put_offer ?a db) =
      Inr (?n, (put_offer ?a db)\<lparr>qd_attempts := qd_attempts (put_offer ?a db) @ [?n]\<rparr>)" by (simp add: insert_offer_def Let_def)
  with fail show False by blast
qed

text \<open>The state of a search that waits for an answer, and of one that has ended.\<close>

definition asking :: "request_db \<Rightarrow> string \<Rightarrow> ride_request \<Rightarrow> search_cycle \<Rightarrow> nat \<Rightarrow> bool" where
  "asking db p rq c k \<longleftrightarrow> requests_ok db \<and> find_request db p = Some rq \<and> searching_cycle db rq = Some c \<and> pool_known db c
     \<and> active_attempt db (cy_id c) \<noteq> None \<and> length (attempts_of db (cy_id c)) = k"

definition search_over :: "request_db \<Rightarrow> string \<Rightarrow> ride_request \<Rightarrow> search_cycle \<Rightarrow> bool" where
  "search_over db p rq c \<longleftrightarrow> find_request db p = Some rq \<and> searching_cycle db rq = None
     \<and> (\<exists>c' \<in> set (qd_cycles db). cy_id c' = cy_id c \<and> cy_status c' = Cycle_expired)"

lemma over_after:
  assumes ok: "requests_ok db" and f: "find_request db p = Some rq" and cyc: "searching_cycle db rq = Some c"
    and req: "qd_requests db' = qd_requests db" and "same_cycle c c'" and "cy_status c' = Cycle_expired"
    and cycles: "qd_cycles db' = update_rows (\<lambda>x. cy_id x = cy_id c) (\<lambda>_. c') (qd_cycles db)"
  shows "search_over db' p rq c"
proof -
  note c = searching_cycleD [OF cyc]
  then have c_in: "c \<in> set (qd_cycles db)" by (auto dest: cycle_for_requestD(1))
  have "searching_cycle db' rq = None"
  proof (rule ccontr)
    assume "searching_cycle db' rq \<noteq> None"
    then obtain x where "searching_cycle db' rq = Some x" by blast
    from searching_cycleD [OF this] have x: "x \<in> set (qd_cycles db')" "cy_request x = rq_id rq" "cy_status x = Cycle_searching"
      by (auto dest: cycle_for_requestD(1,2))
    with assms(6) have "x \<in> set (qd_cycles db)" "cy_id x \<noteq> cy_id c" by (auto simp: cycles update_rows_def split: if_splits)
    with only_current [OF ok _ this(1) x(3,2)] c show False by auto
  qed
  moreover have "c' \<in> set (qd_cycles db')" using c_in by (force simp: cycles update_rows_def)
  ultimately show ?thesis using f assms(5,6) by (auto simp: search_over_def same_cycle_def find_request_def req)
qed

lemma decline_step:
  assumes "asking db p rq c k"
  shows "asking (decline_current p now db) p rq c (k + 1) \<or> search_over (decline_current p now db) p rq c"
proof -
  from assms obtain a where ok: "requests_ok db" and f: "find_request db p = Some rq" and cyc: "searching_cycle db rq = Some c"
    and known: "pool_known db c" and act: "active_attempt db (cy_id c) = Some a" and k: "length (attempts_of db (cy_id c)) = k"
    by (auto simp: asking_def)
  note c = searching_cycleD [OF cyc] and a = active_attemptD [OF act]
  then have c_in: "c \<in> set (qd_cycles db)" by (auto dest: cycle_for_requestD(1))
  have inv: "cycle_inv c (attempts_of db (cy_id c))" by (rule requests_okD(7) [OF ok c_in])
  have "oa_status a = Attempt_offered" using inv a by (auto simp: cycle_inv_def list_all_iff status_defs)
  moreover have "distinct (map oa_driver (attempts_of db (cy_id c)))" using inv by (simp add: cycle_inv_def)
  ultimately have off: "offered_attempt db (cy_id c) (oa_driver a) = Some a"
    unfolding offered_attempt_def by (intro find_distinct_key [where key = oa_driver]) (use a in auto)
  obtain n db' where adv: "advance_locked now rq c a Declined db = Inr (n, db')"
    using advance_succeeds [OF ok c_in _ act known, where outcome = Declined and now = now and rq = rq] c by (auto simp: status_defs)
  have run: "decline_current p now db = db'" by (simp add: decline_current_def decline_request_offer_def f cyc act off adv)
  have ok': "requests_ok db'"
    using advance_moves [OF adv c_in] c a ok by (simp add: request_moves_def status_defs)
  note frame = advance_frame [OF adv]
  let ?a = "a\<lparr>oa_status := Declined, oa_responded_at := Some now, oa_detail := oa_detail a @ [(''terminal_at'', JTime now)]\<rparr>"
  from adv have "asking db' p rq c (k + 1) \<or> search_over db' p rq c"
  proof (cases rule: advance_cases)
    case (Elapsed c' db1)
    then show ?thesis by (intro disjI2 over_after [OF ok f cyc frame(3), of c']) (auto simp: put_cycle_def same_cycle_def)
  next
    case (Exhausted c' db1)
    then show ?thesis by (intro disjI2 over_after [OF ok f cyc frame(3), of c']) (auto simp: put_cycle_def same_cycle_def)
  next
    case (Asked e m x db1)
    note ins = insert_offer_Inr [OF Asked(3)]
    have "attempts_of db1 (cy_id c) = update_rows (\<lambda>x. oa_id x = oa_id a) (\<lambda>_. ?a) (attempts_of db (cy_id c))"
      using attempts_of_put [OF requests_okD(5) [OF ok] conjunct1 [OF a], of ?a "cy_id c"] by (simp add: Asked(2))
    then have att: "attempts_of db' (cy_id c) = update_rows (\<lambda>x. oa_id x = oa_id a) (\<lambda>_. ?a) (attempts_of db (cy_id c)) @ [x]"
      unfolding ins(1) attempts_of_append by (simp add: ins(2))
    then have "active_attempt db' (cy_id c) \<noteq> None" using ins(5) by (auto simp: active_attempt_def find_None_iff status_defs)
    moreover have "cycle_for_request db' = cycle_for_request db" by (simp add: ins(1) Asked(2) cycle_for_request_def fun_eq_iff)
    then have "searching_cycle db' rq = searching_cycle db rq" by (simp add: searching_cycle_def)
    ultimately show ?thesis using ok' f cyc known k att frame by (simp add: asking_def find_request_def pool_known_def)
  qed
  then show ?thesis by (simp add: run)
qed

lemma over_stays: "search_over db p rq c \<Longrightarrow> decline_current p now db = db"
  by (simp add: search_over_def decline_current_def)

lemma declines:
  assumes "asking db p rq c k"
  shows "asking (fold (decline_current p) nows db) p rq c (k + length nows) \<or> search_over (fold (decline_current p) nows db) p rq c"
  using assms
proof (induction nows arbitrary: db k)
  case (Cons now nows)
  have over: "fold (decline_current p) xs d = d" if "search_over d p rq c" for d xs
    using that by (induction xs) (simp_all add: over_stays)
  from decline_step [OF Cons.prems, of now] Cons.IH [of "decline_current p now db" "k + 1"] over show ?case by fastforce
qed simp

text \<open>
  C29: a search that only meets declines ends.  When a driver is asked and the drivers and vehicles of the pool exist, five declines, at any times, end the cycle: it is
  expired, no cycle of the request is searching, and the request can be retried.
\<close>

theorem declined_search_ends:
  assumes "requests_ok db" and "find_request db p = Some rq" and "searching_cycle db rq = Some c" and "pool_known db c"
    and "active_attempt db (cy_id c) \<noteq> None" and "5 \<le> length nows"
  shows "find_request (fold (decline_current p) nows db) p = Some rq \<and> rq_status rq = Searching
    \<and> searching_cycle (fold (decline_current p) nows db) rq = None
    \<and> (\<exists>c' \<in> set (qd_cycles (fold (decline_current p) nows db)). cy_id c' = cy_id c \<and> cy_status c' = Cycle_expired)"
proof -
  let ?db = "fold (decline_current p) nows db" and ?k = "length (attempts_of db (cy_id c))"
  have start: "asking db p rq c ?k" using assms by (simp add: asking_def)
  have "0 < ?k" using assms(5) by (auto simp: active_attempt_def)
  have "\<not> asking ?db p rq c (?k + length nows)"
  proof
    assume "asking ?db p rq c (?k + length nows)"
    then have "requests_ok ?db" "searching_cycle ?db rq = Some c" "length (attempts_of ?db (cy_id c)) = ?k + length nows" by (simp_all add: asking_def)
    moreover from this(2) have "c \<in> set (qd_cycles ?db)" by (auto dest!: searching_cycleD dest: cycle_for_requestD(1))
    ultimately show False using bounded_attempts [of ?db c] \<open>0 < ?k\<close> assms(6) by (simp add: MATCHING_POOL_SIZE_def)
  qed
  with declines [OF start] have "search_over ?db p rq c" by blast
  then show ?thesis using searching_cycleD [OF assms(3)] by (simp add: search_over_def)
qed

subsection \<open>An example\<close>

definition demo_request :: ride_request where
  "demo_request = \<lparr>rq_id = 1, rq_public_id = ''Q1'', rq_user_id = 10, rq_idempotency_key = ''k1'', rq_requested_pickup_time = Some 1000000,
     rq_passenger_count = 1, rq_fare_estimate_amount = Some 30, rq_currency_code = Some ''USD'', rq_payment_method = Some ''cash'',
     rq_status = Searching, rq_cancelled_at = None, rq_converted_at = None, rq_created_at = 1000000, rq_trip_hash = Some ''h1'',
     rq_booking_mode = Some ''instant'', rq_wallet_invoice_id = None, rq_wallet_invoice_status = None, rq_retry_count = 0,
     rq_last_retry_at = None, rq_cancelled_by = None, rq_is_deleted = False\<rparr>"

definition demo_cycle :: search_cycle where
  "demo_cycle = \<lparr>cy_id = 1, cy_request = 1, cy_number = 1, cy_key = (''k1'', 1), cy_status = Cycle_searching, cy_started_at = 1000000,
     cy_deadline = Some 181000000, cy_completed_at = None, cy_terminal_reason = None,
     cy_ranked_pool = Some [\<lparr>pe_driver = 7, pe_vehicle = 5, pe_match_score = 1, pe_estimated_arrival_time = 4, pe_rank = 1\<rparr>],
     cy_pool_snapshotted_at = Some 1000000, cy_window_expired_at = None, cy_is_deleted = False\<rparr>"

definition demo_attempt :: offer_attempt where
  "demo_attempt = \<lparr>oa_id = 1, oa_cycle = 1, oa_driver = 7, oa_vehicle = 5, oa_number = 1, oa_rank = 1, oa_status = Attempt_offered,
     oa_offered_at = 1000000, oa_response_deadline = Some 26000000, oa_responded_at = None, oa_detail = []\<rparr>"

definition demo_search :: request_db where
  "demo_search = \<lparr>qd_rides = demo_fleet, qd_market = market_demo, qd_requests = [demo_request], qd_cycles = [demo_cycle],
     qd_attempts = [demo_attempt], qd_pairings = [\<lparr>vp_driver = 7, vp_vehicle = 5, vp_ended_at = None, vp_is_deleted = False\<rparr>],
     qd_payments = []\<rparr>"

definition demo_request_env :: request_env where
  "demo_request_env = \<lparr>qe_ride = demo_ride_env, qe_market = market_env0, qe_ranked = (\<lambda>_. []), qe_uuid = (\<lambda>_. None),
     qe_booking_reference = ''TR9'', qe_payment_reference = ''PAY9'', qe_public_id = ''Q2''\<rparr>"

lemmas search_defs = demo_request_def demo_cycle_def demo_attempt_def demo_search_def demo_request_env_def

lemma demo_search_ok: "requests_ok demo_search"
  by (simp add: requests_ok_def cycle_inv_def cycle_current_def attempts_of_def pool_of_def status_defs MATCHING_POOL_SIZE_def search_defs)

lemma demo_search_facts:
  "find_request demo_search ''Q1'' = Some demo_request" "searching_cycle demo_search demo_request = Some demo_cycle"
  "active_attempt demo_search 1 = Some demo_attempt" "offered_attempt demo_search 1 7 = Some demo_attempt"
  "cycle_of demo_search demo_attempt = Some demo_cycle" "pool_known demo_search demo_cycle"
  by (simp_all add: find_request_def searching_cycle_def cycle_for_request_def active_attempt_def offered_attempt_def attempts_of_def
      cycle_of_def pool_known_def pool_of_def status_defs search_defs demo_fleet_def demo_driver_def demo_vehicle_def)

lemma one_driver_at_a_time_witness:
  "cycle_for_request demo_search 1 = Some demo_cycle \<and> (\<exists>r \<in> set (qd_requests demo_search). rq_id r = 1 \<and> rq_status r = Searching)"
  using one_driver_at_a_time [OF rtranclp.rtrancl_refl demo_search_ok, of demo_attempt demo_cycle demo_attempt demo_cycle] demo_search_facts
  by (simp add: search_defs status_defs)

lemma cycle_is_bounded_witness: "length (attempts_of demo_search 1) \<le> 5 \<and> demo_cycle \<in> set (qd_cycles demo_search)"
  using cycle_is_bounded [OF rtranclp.rtrancl_refl demo_search_ok, of demo_cycle] by (simp add: search_defs)

lemma declined_search_ends_witness:
  "searching_cycle (fold (decline_current ''Q1'') [2000000, 3000000, 4000000, 5000000, 6000000] demo_search) demo_request = None"
  using declined_search_ends [OF demo_search_ok demo_search_facts(1,2,6), of "[2000000, 3000000, 4000000, 5000000, 6000000]"] demo_search_facts(3)
  by (simp add: demo_cycle_def)

lemma demo_accept: "fst (accept_request_offer demo_request_env ''Q1'' 7 5 None demo_search) = Inr 3"
proof -
  have m: "ride_money 30 = 30" using half_even.quantize_int [of 2 30] by simp
  have cur: "request_currency demo_request = ''USD''" "request_mode demo_request = ''instant''" by code_simp+
  have open_window: "close_cycle_at_deadline 1000000 demo_cycle demo_search = (False, demo_search)"
    by (simp add: close_cycle_at_deadline_def demo_cycle_def)
  have no_invoice: "check_request_invoice demo_request_env demo_request demo_search = Inr None"
    by (simp add: check_request_invoice_def or_str_def demo_request_def)
  have key: "next_key (map rd_id (dd_rides demo_fleet)) = 3" by (simp add: next_key_def demo_fleet_def demo_ride_def)
  define b where "b = request_booking demo_request_env demo_request demo_cycle 3"
  define rides where "rides = demo_fleet\<lparr>dd_rides := dd_rides demo_fleet @ [b]\<rparr>"
  have row: "booking_row_ok (qe_now demo_request_env) (rq_passenger_count demo_request) demo_fleet b"
    by (simp add: b_def booking_row_ok_def request_booking_def Let_def request_amount_def or_int_def ride_row_defs m
        demo_request_def demo_cycle_def demo_request_env_def fleet_defs)
  moreover have "or_int (Some (rq_passenger_count demo_request)) 1 = rq_passenger_count demo_request"
    by (simp add: or_int_def demo_request_def)
  ultimately have ins: "insert_booking demo_request_env demo_request demo_cycle demo_fleet = Inr (b, rides)"
    by (simp add: insert_booking_def key Let_def b_def rides_def)
  have pay: "\<exists>ps. record_payment demo_request_env demo_request None b [] = Inr ps"
    by (simp add: record_payment_def request_amount_def m demo_request_def)
  have "\<exists>rides'. claim_staged demo_ride_env \<lparr>ca_reference = ''TR9'', ca_driver = 7, ca_vehicle = 5, ca_actor = None, ca_force = False\<rparr> rides
      = Inr (3, rides')"
    by (simp add: claim_staged_def update_rides_def rides_def b_def request_booking_def Let_def ride_row_defs fleet_defs demo_request_env_def
        claimable_def driver_claimable_def vehicle_claimable_def driver_engaged_other_def vehicle_engaged_other_def engaged_def
        ride_status_defs update_rows_def)
  then obtain rides' where cl: "claim_staged demo_ride_env \<lparr>ca_reference = ''TR9'', ca_driver = 7, ca_vehicle = 5, ca_actor = None,
      ca_force = False\<rparr> rides = Inr (3, rides')" by blast
  have sel: "qd_rides demo_search = demo_fleet" "qd_payments demo_search = []" "qe_ride demo_request_env = demo_ride_env"
    "rd_reference b = ''TR9''" "oa_driver demo_attempt = 7" "oa_vehicle demo_attempt = 5"
    by (simp_all add: demo_search_def demo_request_env_def demo_attempt_def b_def request_booking_def Let_def)
  obtain ps where ps: "record_payment demo_request_env demo_request None b [] = Inr ps" using pay by blast
  have "\<exists>db'. convert_body demo_request_env demo_request demo_cycle demo_attempt None demo_search = Inr (3, db')"
    by (simp add: convert_body_def CURRENCIES_def cur no_invoice ins ps cl sel)
  then show ?thesis using open_window demo_search_facts
    by (auto simp: accept_request_offer_def convert_offer_def awaits_response_def demo_request_env_def demo_ride_env_def
        demo_cycle_def demo_attempt_def demo_search_def demo_request_def)
qed

text \<open>The acceptance of the example succeeds, and the theorem gives the booking.\<close>

lemma acceptance_converts_witness:
  "\<exists>b. dd_rides (qd_rides (snd (accept_request_offer demo_request_env ''Q1'' 7 5 None demo_search))) = dd_rides demo_fleet @ [b]
    \<and> rd_id b = 3 \<and> rd_status b = ASSIGNED \<and> rd_driver b = Some 7 \<and> rd_vehicle b = Some 5"
proof -
  obtain db' where run: "accept_request_offer demo_request_env ''Q1'' 7 5 None demo_search = (Inr 3, db')"
    using demo_accept by (cases "accept_request_offer demo_request_env ''Q1'' 7 5 None demo_search") simp
  have "qd_rides demo_search = demo_fleet" by (simp add: demo_search_def)
  with acceptance_converts [OF demo_search_ok run] run show ?thesis by auto
qed

lemma old_request_never_converts_witness:
  "\<exists>e db''. accept_request_offer (demo_request_env\<lparr>qe_ride := demo_ride_env\<lparr>re_now := 301000000\<rparr>\<rparr>) ''Q1'' 7 5 None demo_search = (Inl e, db'')
    \<and> qd_rides db'' = qd_rides demo_search"
  by (rule old_request_never_converts [OF rtranclp.rtrancl_refl demo_search_ok demo_search_facts(1), where t = 1000000])
    (simp_all add: demo_request_def)

text \<open>A second request of the rider, with a new key.\<close>

definition demo_trip :: trip_facts where
  "demo_trip = \<lparr>tf_owner = 10, tf_key = ''k2'', tf_trip_hash = ''h2'', tf_pickup_time = Some 1000000, tf_passenger_count = 1, tf_fare = 30,
     tf_fare_version = Wallet_Ledger.JStr ''v1'', tf_currency = ''USD'', tf_payment_method = ''cash'', tf_booking_mode = ''instant''\<rparr>"

lemma demo_trip_text:
  "str_strip (''transport-ride:'' @ int_text 10 @ '':'' @ ''k2'') = ''transport-ride:10:k2''" "str_strip ''Q2'' = ''Q2''"
  by code_simp+

lemma demo_invoice_created:
  "\<exists>iv market. create_invoice market_env0 (request_invoice_args demo_request_env demo_trip) market_demo = Inr (iv, market)"
  unfolding request_invoice_args_def
  by (simp add: create_invoice_def check_invoice_args_def invoice_terms_def existing_invoice_def method_config_for_def
      find_config_def supports_currency_def allows_timing_def amount_in_range_def check_wallet_method_def insert_invoice_def
      invoice_money_def market_text market_request_text cents_30 demo_trip_def demo_trip_text [simplified] demo_request_env_def
      SUPPORTED_SETTLEMENT_TIMINGS_def market_demo_def market_ride_def Let_def)

lemma demo_created: "\<exists>r db1. create_ride_request demo_request_env demo_trip demo_search = (Inr (r, False), db1)"
proof -
  obtain iv market where inv: "create_invoice market_env0 (request_invoice_args demo_request_env demo_trip) market_demo = Inr (iv, market)"
    using demo_invoice_created by blast
  have sel: "qe_market demo_request_env = market_env0" "qd_market demo_search = market_demo" "qe_public_id demo_request_env = ''Q2''"
    "qd_requests demo_search = [demo_request]" "rq_public_id demo_request = ''Q1''" "rq_idempotency_key demo_request = ''k1''" "tf_key demo_trip = ''k2''"
    by (simp_all add: search_defs demo_trip_def)
  show ?thesis by (simp add: create_ride_request_def sel inv Let_def)
qed

lemma request_created_once_witness:
  "\<exists>r r' db1. create_ride_request demo_request_env demo_trip demo_search = (Inr (r, False), db1)
    \<and> create_ride_request demo_request_env demo_trip db1 = (Inr (r', True), db1) \<and> same_terms r r'"
proof -
  obtain r db1 where run: "create_ride_request demo_request_env demo_trip demo_search = (Inr (r, False), db1)" using demo_created by blast
  from request_created_once [OF demo_search_ok run rtranclp.rtrancl_refl] run show ?thesis by blast
qed

text \<open>The acceptance of the example puts driver 7 and vehicle 5 on the board.\<close>

lemma demo_accept_board:
  "board_of demo_fleet 3 = None"
  "board_of (qd_rides (snd (accept_request_offer demo_request_env ''Q1'' 7 5 None demo_search))) 3 = Some (7, 5)"
proof -
  have ids: "map rd_id (dd_rides demo_fleet) = [1, 2]" by (simp add: demo_fleet_def demo_ride_def)
  then have new: "find (\<lambda>r. rd_id r = 3) (dd_rides demo_fleet) = None" by (auto simp: find_None_iff image_iff)
  then show "board_of demo_fleet 3 = None" by (simp add: board_of_def get_ride_def)
  obtain db' where run: "accept_request_offer demo_request_env ''Q1'' 7 5 None demo_search = (Inr 3, db')"
    using demo_accept by (cases "accept_request_offer demo_request_env ''Q1'' 7 5 None demo_search") simp
  have "qd_rides demo_search = demo_fleet" by (simp add: demo_search_def)
  with acceptance_booking [OF demo_search_ok run] obtain b where b: "dd_rides (qd_rides db') = dd_rides demo_fleet @ [b]"
      "rd_id b = 3" "rd_driver b = Some 7" "rd_vehicle b = Some 5" "\<not> rd_is_deleted b" by auto
  have "find p (xs @ [b]) = (case find p xs of None \<Rightarrow> if p b then Some b else None | Some x \<Rightarrow> Some x)" for p and xs :: "ride list"
    by (induction xs) simp_all
  with b new show "board_of (qd_rides (snd (accept_request_offer demo_request_env ''Q1'' 7 5 None demo_search))) 3 = Some (7, 5)"
    by (simp add: run board_of_def get_ride_def crew_def)
qed

lemma requests_keep_crews_witness:
  "let db' = snd (accept_request_offer demo_request_env ''Q1'' 7 5 None demo_search)
   in board_of demo_fleet 3 = None \<and> board_of (qd_rides db') 3 = Some (7, 5)
      \<and> board_step\<^sup>*\<^sup>* (board_of demo_fleet) (board_of (qd_rides db')) \<and> exclusive (board_of (qd_rides db'))"
proof -
  have "request_step\<^sup>*\<^sup>* demo_search (snd (accept_request_offer demo_request_env ''Q1'' 7 5 None demo_search))"
    by (intro r_into_rtranclp request_step.Accept_offer)
  moreover have "qd_rides demo_search = demo_fleet" by (simp add: demo_search_def)
  ultimately show ?thesis
    using requests_keep_crews [OF _ demo_search_ok] demo_fleet_ok demo_fleet_exclusive demo_accept_board by (simp add: Let_def)
qed

end
