(* ===== verification/Stay_Availability.thy ===== *)
theory Stay_Availability
  imports Prelude
begin

section \<open>Availability of accommodation\<close>

text \<open>
  Models \<open>app/accommodation/services/availability_service.py\<close> with the rows of
  \<open>app/accommodation/models/availability.py\<close> and \<open>room.py\<close>, \<open>HostService.available_units\<close> of \<open>host_service.py\<close> and the step
  of \<open>BookingService.create_booking\<close> that holds or converts the inventory of a new booking.  A date is a number of days since
  1970-01-01.  Of a booking only the columns that the availability queries read are kept.  Rows get their keys
  from one counter; foreign keys of the arguments are taken to exist.  The search for nearby properties, which uses
  binary floating point distances, is not modelled.
\<close>

subsection \<open>Rows\<close>

datatype AccommodationBlockedReason = BOOKED | TEMPORARY_HOLD | OWNER_BLOCKED | MAINTENANCE | SEASONAL

fun blocked_reason_value :: "AccommodationBlockedReason \<Rightarrow> string" where
  "blocked_reason_value BOOKED = ''booked''"
| "blocked_reason_value TEMPORARY_HOLD = ''temporary_hold''"
| "blocked_reason_value OWNER_BLOCKED = ''owner_blocked''"
| "blocked_reason_value MAINTENANCE = ''maintenance''"
| "blocked_reason_value SEASONAL = ''seasonal''"

record blocked_date =
  bd_id :: int
  bd_property_id :: int
  bd_booking_id :: "int option"
  bd_date :: day
  bd_reason :: string
  bd_created_by :: "int option"
  bd_created_at :: time

record room_hold =
  rh_id :: int
  rh_property_id :: int
  rh_room_type_id :: "int option"
  rh_booking_id :: "int option"
  rh_guest_user_id :: "int option"
  rh_check_in :: day
  rh_check_out :: day
  rh_units :: int
  rh_hold_minutes :: int
  rh_expires_at :: time
  rh_status :: string
  rh_release_reason :: "string option"
  rh_hold_type :: string
  rh_approval_sla_hours :: "int option"

record availability_rule =
  ru_property_id :: int
  ru_day_of_week :: "int option"
  ru_start_date :: "day option"
  ru_end_date :: "day option"
  ru_is_available :: bool

record room_type =
  rt_id :: int
  rt_property_id :: int
  rt_max_guests :: int
  rt_total_units :: int
  rt_is_active :: bool

record inventory_block =
  ib_id :: int
  ib_room_type_id :: int
  ib_booking_id :: "int option"
  ib_start :: day
  ib_end :: day
  ib_units :: int
  ib_reason :: string
  ib_created_by :: "int option"

record stay_booking =
  sb_id :: int
  sb_property_id :: int
  sb_room_type_id :: "int option"
  sb_status :: string
  sb_check_in :: day
  sb_check_out :: day
  sb_rooms_requested :: "int option"

record stay_db =
  sd_blocked :: "blocked_date list"
  sd_holds :: "room_hold list"
  sd_rules :: "availability_rule list"
  sd_room_types :: "room_type list"
  sd_blocks :: "inventory_block list"
  sd_bookings :: "stay_booking list"
  sd_next_id :: int

text \<open>Python truthiness of an optional identifier.\<close>

definition given :: "int option \<Rightarrow> bool" where
  "given i \<longleftrightarrow> i \<notin> {None, Some 0}"

definition is_hold_expired :: "time \<Rightarrow> room_hold \<Rightarrow> bool" where
  "is_hold_expired now h \<longleftrightarrow> rh_status h = ''active'' \<and> rh_expires_at h \<le> now"

definition hold_mark_released :: "string option \<Rightarrow> room_hold \<Rightarrow> room_hold" where
  "hold_mark_released reason h = h\<lparr>rh_status := ''released'', rh_release_reason := reason\<rparr>"

definition hold_mark_expired :: "room_hold \<Rightarrow> room_hold" where
  "hold_mark_expired h = h\<lparr>rh_status := ''expired'', rh_release_reason := Some ''Hold expired''\<rparr>"

definition hold_mark_converted :: "int \<Rightarrow> room_hold \<Rightarrow> room_hold" where
  "hold_mark_converted b h =
     h\<lparr>rh_status := ''converted'', rh_booking_id := Some b, rh_release_reason := Some ''Converted to booking''\<rparr>"

text \<open>Monday is 0; 1970-01-01 was a Thursday.\<close>

definition weekday :: "day \<Rightarrow> int" where
  "weekday d = (d + 3) mod 7"

definition applies_to_date :: "availability_rule \<Rightarrow> day \<Rightarrow> bool" where
  "applies_to_date r d =
     (case ru_day_of_week r of
        Some w \<Rightarrow> w = weekday d
      | None \<Rightarrow>
          (case (ru_start_date r, ru_end_date r) of
             (Some a, Some b) \<Rightarrow> a \<le> d \<and> d \<le> b
           | _ \<Rightarrow> False))"

text \<open>The validator of \<open>InventoryBlock.reason\<close>: a member name or a member value; anything else raises \<open>ValueError\<close>.\<close>

definition validate_block_reason :: "string \<Rightarrow> string option" where
  "validate_block_reason v =
     (if v = ''TEMPORARY_HOLD'' then Some ''temporary_hold''
      else if v \<in> {''MAINTENANCE'', ''RENOVATION'', ''SEASONAL_CLOSE'', ''OWNER_BLOCK'', ''temporary_hold''} then Some v
      else None)"

subsection \<open>Units of a room type\<close>

definition ACTIVE_BOOKING_STATUSES :: "string list" where
  "ACTIVE_BOOKING_STATUSES = [''confirmed'', ''checked_in'', ''pending'']"

definition get_room_type :: "stay_db \<Rightarrow> int \<Rightarrow> room_type option" where
  "get_room_type db i = find (\<lambda>r. rt_id r = i) (sd_room_types db)"

definition rooms_of :: "stay_booking \<Rightarrow> int" where
  "rooms_of b = (case sb_rooms_requested b of None \<Rightarrow> 1 | Some n \<Rightarrow> n)"

definition counted_booking :: "int \<Rightarrow> int option \<Rightarrow> stay_booking \<Rightarrow> bool" where
  "counted_booking rt excl b \<longleftrightarrow>
     sb_room_type_id b = Some rt \<and> sb_status b \<in> set ACTIVE_BOOKING_STATUSES
     \<and> (given excl \<longrightarrow> sb_id b \<noteq> the excl)"

definition counted_block :: "int \<Rightarrow> inventory_block \<Rightarrow> bool" where
  "counted_block rt k \<longleftrightarrow> ib_room_type_id k = rt \<and> ib_reason k \<noteq> ''booked''"

definition available_units :: "stay_db \<Rightarrow> int \<Rightarrow> day \<Rightarrow> day \<Rightarrow> int option \<Rightarrow> int" where
  "available_units db rt ci co excl =
     (case get_room_type db rt of
        None \<Rightarrow> 0
      | Some r \<Rightarrow>
          let booked = sum_where (\<lambda>b. counted_booking rt excl b \<and> sb_check_in b < co \<and> sb_check_out b > ci) rooms_of
                         (sd_bookings db);
              blocked = sum_where (\<lambda>k. counted_block rt k \<and> ib_start k < co \<and> ib_end k > ci) ib_units (sd_blocks db)
          in max 0 (rt_total_units r - booked - blocked))"

text \<open>The occupancy of the current date; without a business time zone every unit counts as taken.\<close>

definition booked_units_today :: "stay_db \<Rightarrow> day option \<Rightarrow> room_type \<Rightarrow> int" where
  "booked_units_today db today r =
     (case today of
        None \<Rightarrow> rt_total_units r
      | Some d \<Rightarrow>
          sum_where (\<lambda>b. sb_room_type_id b = Some (rt_id r) \<and> sb_status b \<in> {''confirmed'', ''checked_in''}
                         \<and> sb_check_in b \<le> d \<and> sb_check_out b > d) rooms_of (sd_bookings db)
          + sum_where (\<lambda>k. counted_block (rt_id r) k \<and> ib_start k \<le> d \<and> ib_end k > d) ib_units (sd_blocks db))"

definition available_units_today :: "stay_db \<Rightarrow> day option \<Rightarrow> room_type \<Rightarrow> int" where
  "available_units_today db today r = max 0 (rt_total_units r - booked_units_today db today r)"

subsection \<open>Availability of dates\<close>

definition find_blocked :: "stay_db \<Rightarrow> int \<Rightarrow> day \<Rightarrow> blocked_date option" where
  "find_blocked db p d = find (\<lambda>b. bd_property_id b = p \<and> bd_date b = d) (sd_blocked db)"

definition rules_allow :: "stay_db \<Rightarrow> int \<Rightarrow> day \<Rightarrow> bool" where
  "rules_allow db p d =
     (case find (\<lambda>r. ru_property_id r = p \<and> applies_to_date r d) (sd_rules db) of
        None \<Rightarrow> True
      | Some r \<Rightarrow> ru_is_available r)"

definition is_date_available :: "stay_db \<Rightarrow> int \<Rightarrow> day \<Rightarrow> int option \<Rightarrow> bool" where
  "is_date_available db p d excl =
     (case find_blocked db p d of
        Some b \<Rightarrow> given excl \<and> bd_booking_id b = excl
      | None \<Rightarrow>
          let rts = filter (\<lambda>r. rt_property_id r = p \<and> rt_is_active r) (sd_room_types db) in
          if (if rts \<noteq> [] then \<not> list_ex (\<lambda>r. available_units db (rt_id r) d (d + 1) excl > 0) rts
              else list_ex (\<lambda>b. sb_property_id b = p \<and> sb_status b \<in> {''confirmed'', ''checked_in''}
                              \<and> sb_check_in b \<le> d \<and> sb_check_out b > d \<and> (given excl \<longrightarrow> sb_id b \<noteq> the excl))
                     (sd_bookings db))
          then False
          else rules_allow db p d)"

datatype stay_error =
    Checkout_not_after_checkin
  | Date_not_available day
  | Only_units int int
  | Dates_already_on_hold
  | Could_not_hold
  | Room_type_not_found
  | Insufficient_units int int
  | Invalid_block_reason string

text \<open>The loop over the nights of a stay.\<close>

definition nights_of :: "day \<Rightarrow> day \<Rightarrow> day list" where
  "nights_of ci co = [ci..co - 1]"

definition is_range_available ::
  "stay_db \<Rightarrow> int \<Rightarrow> day \<Rightarrow> day \<Rightarrow> int option \<Rightarrow> bool \<times> day list \<times> stay_error option" where
  "is_range_available db p ci co excl =
     (if co \<le> ci then (False, [], Some Checkout_not_after_checkin)
      else let bad = filter (\<lambda>d. \<not> is_date_available db p d excl) (nights_of ci co)
           in if bad \<noteq> [] then (False, bad, Some (Date_not_available (hd bad))) else (True, [], None))"

definition get_available_dates :: "stay_db \<Rightarrow> int \<Rightarrow> day \<Rightarrow> day \<Rightarrow> int \<Rightarrow> day list" where
  "get_available_dates db p a b max_dates =
     filter (\<lambda>d. is_date_available db p d None) [a..min b (a + max_dates)]"

definition get_available_units :: "stay_db \<Rightarrow> int \<Rightarrow> day \<Rightarrow> day \<Rightarrow> int option \<Rightarrow> int" where
  "get_available_units db rt ci co excl = available_units db rt ci co excl"

definition is_room_type_available :: "stay_db \<Rightarrow> int \<Rightarrow> day \<Rightarrow> day \<Rightarrow> int \<Rightarrow> bool \<times> stay_error option" where
  "is_room_type_available db rt ci co n =
     (let available = get_available_units db rt ci co None in
      if available \<ge> n then (True, None) else (False, Some (Only_units available n)))"

definition check_availability_for_dates ::
  "stay_db \<Rightarrow> int \<Rightarrow> day \<Rightarrow> day \<Rightarrow> int option \<Rightarrow> int option \<Rightarrow> int \<Rightarrow> bool \<times> day list \<times> stay_error option" where
  "check_availability_for_dates db p ci co excl rt n =
     (if co \<le> ci then (False, [], Some Checkout_not_after_checkin)
      else if given rt then
        let available = get_available_units db (the rt) ci co excl in
        if available < n then (False, [], Some (Only_units available n)) else (True, [], None)
      else is_range_available db p ci co excl)"

record room_offer =
  ro_room_type :: room_type
  ro_available :: int
  ro_rooms_needed :: int
  ro_can_accommodate :: bool
  ro_is_available :: bool
  ro_status :: string
  ro_blocked_dates :: "day list"

text \<open>Python's floor division; a room type without guests raises, so \<open>max_guests\<close> is positive.\<close>

definition room_offer_of :: "stay_db \<Rightarrow> day \<Rightarrow> day \<Rightarrow> int \<Rightarrow> int \<Rightarrow> int option \<Rightarrow> room_type \<Rightarrow> room_offer" where
  "room_offer_of db ci co guests rooms excl r =
     (let available = available_units db (rt_id r) ci co excl;
          needed = (if guests > 0 then max 1 ((guests + rt_max_guests r - 1) div rt_max_guests r) else rooms);
          fits = (rt_max_guests r \<ge> guests \<or> needed \<le> available);
          required = max rooms needed;
          bad = filter (\<lambda>d. available_units db (rt_id r) d (d + 1) excl \<le> 0) (nights_of ci co);
          ok = (available \<ge> required \<and> fits)
      in \<lparr>ro_room_type = r, ro_available = available, ro_rooms_needed = needed, ro_can_accommodate = fits,
          ro_is_available = ok,
          ro_status = (if bad \<noteq> [] \<and> available > 0 then ''partial''
                       else if ok then ''available'' else if available > 0 then ''limited'' else ''sold_out''),
          ro_blocked_dates = bad\<rparr>)"

definition get_room_type_availability ::
  "stay_db \<Rightarrow> int \<Rightarrow> day \<Rightarrow> day \<Rightarrow> int \<Rightarrow> int \<Rightarrow> int option \<Rightarrow> room_offer list" where
  "get_room_type_availability db p ci co guests rooms excl =
     map (room_offer_of db ci co guests rooms excl)
       (filter (\<lambda>r. rt_property_id r = p \<and> rt_is_active r) (sd_room_types db))"

subsection \<open>Blocking dates\<close>

definition block_day ::
  "time \<Rightarrow> int \<Rightarrow> string \<Rightarrow> int option \<Rightarrow> int option \<Rightarrow> day \<Rightarrow> nat \<times> stay_db \<Rightarrow> nat \<times> stay_db" where
  "block_day now p reason bk by d = (\<lambda>(n, db).
     (if find_blocked db p d \<noteq> None then (n, db)
      else (n + 1, db\<lparr>sd_blocked := sd_blocked db @
             [\<lparr>bd_id = sd_next_id db, bd_property_id = p, bd_booking_id = bk, bd_date = d, bd_reason = reason,
               bd_created_by = by, bd_created_at = now\<rparr>],
             sd_next_id := sd_next_id db + 1\<rparr>)))"

text \<open>The number of dates blocked; dates that are already blocked are left as they are.\<close>

definition block_dates ::
  "time \<Rightarrow> int \<Rightarrow> day \<Rightarrow> day \<Rightarrow> string \<Rightarrow> int option \<Rightarrow> int option \<Rightarrow> stay_db \<Rightarrow> nat \<times> stay_db" where
  "block_dates now p ci co reason bk by db = fold (block_day now p reason bk by) (nights_of ci co) (0, db)"

definition in_nights :: "day \<Rightarrow> day \<Rightarrow> day \<Rightarrow> bool" where
  "in_nights ci co d \<longleftrightarrow> ci \<le> d \<and> d \<le> co - 1"

text \<open>A bulk delete, with the number of deleted rows.\<close>

definition delete_blocked :: "(blocked_date \<Rightarrow> bool) \<Rightarrow> stay_db \<Rightarrow> nat \<times> stay_db" where
  "delete_blocked p db =
     (length (filter p (sd_blocked db)), db\<lparr>sd_blocked := filter (\<lambda>b. \<not> p b) (sd_blocked db)\<rparr>)"

definition unblock_dates ::
  "int \<Rightarrow> day \<Rightarrow> day \<Rightarrow> int option \<Rightarrow> string option \<Rightarrow> stay_db \<Rightarrow> nat \<times> stay_db" where
  "unblock_dates p ci co bk reason db =
     delete_blocked (\<lambda>b. bd_property_id b = p \<and> in_nights ci co (bd_date b) \<and> (given bk \<longrightarrow> bd_booking_id b = bk)
       \<and> (reason \<notin> {None, Some []} \<longrightarrow> bd_reason b = the reason)) db"

subsection \<open>Holds\<close>

text \<open>The insert of a hold is subject to the check constraints of the table.\<close>

definition insert_room_hold :: "room_hold \<Rightarrow> stay_db \<Rightarrow> stay_db option" where
  "insert_room_hold h db =
     (if rh_check_out h \<le> rh_check_in h \<or> rh_hold_minutes h \<le> 0 then None
      else Some (db\<lparr>sd_holds := sd_holds db @ [h], sd_next_id := sd_next_id db + 1\<rparr>))"

definition insert_block ::
  "int \<Rightarrow> int option \<Rightarrow> day \<Rightarrow> day \<Rightarrow> int \<Rightarrow> string \<Rightarrow> int option \<Rightarrow> stay_db \<Rightarrow> stay_db" where
  "insert_block rt bk ci co units reason by db =
     db\<lparr>sd_blocks := sd_blocks db @
          [\<lparr>ib_id = sd_next_id db, ib_room_type_id = rt, ib_booking_id = bk, ib_start = ci, ib_end = co,
            ib_units = units, ib_reason = reason, ib_created_by = by\<rparr>],
        sd_next_id := sd_next_id db + 1\<rparr>"

text \<open>A room type with several units is held by an inventory block, anything else by dates of the whole property.\<close>

definition is_multi_unit :: "stay_db \<Rightarrow> int option \<Rightarrow> bool" where
  "is_multi_unit db rt =
     (given rt \<and> (case get_room_type db (the rt) of None \<Rightarrow> False | Some r \<Rightarrow> rt_total_units r > 1))"

record hold_args =
  ha_property_id :: int
  ha_check_in :: day
  ha_check_out :: day
  ha_created_by :: int
  ha_room_type_id :: "int option"
  ha_units :: int
  ha_hold_minutes :: int
  ha_hold_type :: string
  ha_approval_sla_hours :: int

definition hold_inventory :: "time \<Rightarrow> hold_args \<Rightarrow> stay_db \<Rightarrow> stay_error + stay_db" where
  "hold_inventory now a db =
     (if is_multi_unit db (ha_room_type_id a) then
        let rt = the (ha_room_type_id a); available = get_available_units db rt (ha_check_in a) (ha_check_out a) None in
        if available < ha_units a then Inl (Only_units available (ha_units a))
        else Inr (insert_block rt None (ha_check_in a) (ha_check_out a) (ha_units a) ''temporary_hold''
                    (Some (ha_created_by a)) db)
      else
        let (n, db1) = block_dates now (ha_property_id a) (ha_check_in a) (ha_check_out a) ''temporary_hold'' None
                         (Some (ha_created_by a)) db in
        if n = 0 then Inl Dates_already_on_hold else Inr db1)"

text \<open>
  A failure after the dates were blocked rolls back to the commit at the end of \<open>block_dates\<close>; the inventory block of a
  room type has not been committed and is rolled back.
\<close>

definition create_hold :: "time \<Rightarrow> hold_args \<Rightarrow> stay_db \<Rightarrow> (stay_error + int) \<times> stay_db" where
  "create_hold now a db =
     (let minutes = (if ha_hold_type a = ''approval'' then ha_approval_sla_hours a * 60 else ha_hold_minutes a) in
      case hold_inventory now a db of
        Inl e \<Rightarrow> (Inl e, db)
      | Inr db1 \<Rightarrow>
          (case insert_room_hold
                  \<lparr>rh_id = sd_next_id db1, rh_property_id = ha_property_id a, rh_room_type_id = ha_room_type_id a,
                   rh_booking_id = None, rh_guest_user_id = Some (ha_created_by a), rh_check_in = ha_check_in a,
                   rh_check_out = ha_check_out a, rh_units = ha_units a, rh_hold_minutes = minutes,
                   rh_expires_at = now + minutes * 60000000, rh_status = ''active'', rh_release_reason = None,
                   rh_hold_type = ha_hold_type a,
                   rh_approval_sla_hours =
                     (if ha_hold_type a = ''approval'' then Some (ha_approval_sla_hours a) else None)\<rparr> db1 of
             None \<Rightarrow> (Inl Could_not_hold, if is_multi_unit db (ha_room_type_id a) then db else db1)
           | Some db2 \<Rightarrow> (Inr (sd_next_id db1), db2)))"

definition release_hold :: "int \<Rightarrow> day \<Rightarrow> day \<Rightarrow> int option \<Rightarrow> stay_db \<Rightarrow> nat \<times> stay_db" where
  "release_hold p ci co by db =
     (let (n, db1) = delete_blocked (\<lambda>b. bd_property_id b = p \<and> in_nights ci co (bd_date b)
                       \<and> bd_reason b = ''temporary_hold'' \<and> (given by \<longrightarrow> bd_created_by b = by)) db
      in (n, db1\<lparr>sd_holds := update_rows (\<lambda>h. rh_property_id h = p \<and> rh_check_in h = ci \<and> rh_check_out h = co
                               \<and> rh_status h = ''active'' \<and> (given by \<longrightarrow> rh_guest_user_id h = by))
                             (hold_mark_released (Some ''Released by checkout flow'')) (sd_holds db1)\<rparr>))"

subsection \<open>Expiry\<close>

record sweep_result =
  sr_released :: nat
  sr_has_more :: bool
  sr_after_blocked :: int
  sr_after_hold :: int

definition release_expired_holds ::
  "time \<Rightarrow> int \<Rightarrow> int \<Rightarrow> int \<Rightarrow> int \<Rightarrow> stay_db \<Rightarrow> sweep_result \<times> stay_db" where
  "release_expired_holds now hold_minutes batch_size after_b after_h db =
     (let n = nat (max 1 (min batch_size 100)); cut = now - hold_minutes * 60000000;
          ab = max 0 after_b; ah = max 0 after_h;
          bs = take n (sort_key bd_id (filter (\<lambda>b. bd_reason b = ''temporary_hold'' \<and> bd_created_at b < cut \<and> bd_id b > ab)
                 (sd_blocked db)));
          hs = take n (sort_key rh_id (filter (\<lambda>h. is_hold_expired now h \<and> rh_id h > ah) (sd_holds db)))
      in (\<lparr>sr_released = length bs + length hs, sr_has_more = (length bs \<ge> n \<or> length hs \<ge> n),
           sr_after_blocked = (if length bs \<ge> n then bd_id (last bs) else ab),
           sr_after_hold = (if length hs \<ge> n then rh_id (last hs) else ah)\<rparr>,
          db\<lparr>sd_blocked := filter (\<lambda>b. bd_id b \<notin> set (map bd_id bs)) (sd_blocked db),
             sd_holds := update_rows (\<lambda>h. rh_id h \<in> set (map rh_id hs)) hold_mark_expired (sd_holds db)\<rparr>))"

definition release_room_type_blocks :: "int \<Rightarrow> day \<Rightarrow> day \<Rightarrow> int option \<Rightarrow> stay_db \<Rightarrow> nat \<times> stay_db" where
  "release_room_type_blocks rt ci co bk db =
     (let p = (\<lambda>k. ib_room_type_id k = rt \<and> ib_start k = ci \<and> ib_end k = co \<and> (given bk \<longrightarrow> ib_booking_id k = bk))
      in (length (filter p (sd_blocks db)), db\<lparr>sd_blocks := filter (\<lambda>k. \<not> p k) (sd_blocks db)\<rparr>))"

definition expire_room_hold :: "room_hold \<Rightarrow> stay_db \<Rightarrow> stay_db" where
  "expire_room_hold h db =
     (let db1 = snd (delete_blocked (\<lambda>b. bd_property_id b = rh_property_id h
                  \<and> in_nights (rh_check_in h) (rh_check_out h) (bd_date b)
                  \<and> bd_reason b = ''temporary_hold'' \<and> bd_created_by b = rh_guest_user_id h) db);
          db2 = (if given (rh_room_type_id h)
                 then snd (release_room_type_blocks (the (rh_room_type_id h)) (rh_check_in h) (rh_check_out h)
                             (rh_booking_id h) db1)
                 else db1)
      in db2\<lparr>sd_holds := update_rows (\<lambda>x. rh_id x = rh_id h) hold_mark_expired (sd_holds db2)\<rparr>)"

definition expire_room_holds :: "time \<Rightarrow> stay_db \<Rightarrow> nat \<times> stay_db" where
  "expire_room_holds now db =
     (let hs = filter (is_hold_expired now) (sd_holds db) in (length hs, fold expire_room_hold hs db))"

subsection \<open>Blocking units\<close>

definition block_room_type_units ::
  "int \<Rightarrow> day \<Rightarrow> day \<Rightarrow> int \<Rightarrow> string \<Rightarrow> int option \<Rightarrow> int option \<Rightarrow> stay_db \<Rightarrow> stay_error + stay_db" where
  "block_room_type_units rt ci co units reason bk by db =
     (case get_room_type db rt of
        None \<Rightarrow> Inl Room_type_not_found
      | Some _ \<Rightarrow>
          let available = get_available_units db rt ci co None in
          if available < units then Inl (Insufficient_units available units)
          else (case validate_block_reason reason of
                  None \<Rightarrow> Inl (Invalid_block_reason reason)
                | Some v \<Rightarrow> Inr (insert_block rt bk ci co units v by db)))"

text \<open>
  Step 7 of \<open>create_booking\<close>: an existing hold is converted, otherwise inventory is held for the booking.  A failure to
  block units is only logged.
\<close>

definition hold_for_booking :: "time \<Rightarrow> bool \<Rightarrow> int \<Rightarrow> stay_booking \<Rightarrow> stay_db \<Rightarrow> stay_db" where
  "hold_for_booking now skip_hold_creation guest b db =
     (if skip_hold_creation then
        let db1 = db\<lparr>sd_blocked := update_rows (\<lambda>x. bd_property_id x = sb_property_id b
                       \<and> in_nights (sb_check_in b) (sb_check_out b) (bd_date x) \<and> bd_reason x = ''temporary_hold'')
                     (\<lambda>x. x\<lparr>bd_reason := ''booked'', bd_booking_id := Some (sb_id b)\<rparr>) (sd_blocked db)\<rparr> in
        if given (sb_room_type_id b) then
          db1\<lparr>sd_blocks := update_rows (\<lambda>k. ib_room_type_id k = the (sb_room_type_id b) \<and> ib_start k = sb_check_in b
                   \<and> ib_end k = sb_check_out b \<and> ib_reason k = ''temporary_hold'' \<and> ib_booking_id k = None)
                 (\<lambda>k. k\<lparr>ib_reason := ''booked'', ib_booking_id := Some (sb_id b)\<rparr>) (sd_blocks db1)\<rparr>
        else db1
      else if given (sb_room_type_id b) then
        (case block_room_type_units (the (sb_room_type_id b)) (sb_check_in b) (sb_check_out b)
                (if given (sb_rooms_requested b) then the (sb_rooms_requested b) else 1) ''temporary_hold''
                (Some (sb_id b)) (Some guest) db of
           Inl _ \<Rightarrow> db
         | Inr db' \<Rightarrow> db')
      else snd (block_dates now (sb_property_id b) (sb_check_in b) (sb_check_out b) ''temporary_hold'' (Some (sb_id b))
                  (Some guest) db))"

end
