(* ===== verification/Stay_Inventory.thy ===== *)
theory Stay_Inventory
  imports Stay_Availability Run_Systems
begin

section \<open>Correctness of accommodation availability\<close>

text \<open>
  The units that blocks and bookings take along every run without conversions, the exact condition under which nights
  of a single-unit property are held, and two consequences of what the accounting leaves out: blocks of expired holds
  and blocks converted to bookings.
\<close>

subsection \<open>Occupancy per night\<close>

definition booked_on :: "stay_db \<Rightarrow> int \<Rightarrow> day \<Rightarrow> int" where
  "booked_on db rt d =
     sum_where (\<lambda>b. counted_booking rt None b \<and> sb_check_in b \<le> d \<and> d < sb_check_out b) rooms_of (sd_bookings db)"

definition blocked_on :: "stay_db \<Rightarrow> int \<Rightarrow> day \<Rightarrow> int" where
  "blocked_on db rt d =
     sum_where (\<lambda>k. counted_block rt k \<and> ib_start k \<le> d \<and> d < ib_end k) ib_units (sd_blocks db)"

definition units_ok :: "stay_db \<Rightarrow> bool" where
  "units_ok db \<longleftrightarrow>
     list_all (\<lambda>k. 0 \<le> ib_units k) (sd_blocks db) \<and> list_all (\<lambda>b. 0 \<le> rooms_of b) (sd_bookings db)"

definition not_overbooked :: "stay_db \<Rightarrow> bool" where
  "not_overbooked db \<longleftrightarrow>
     (\<forall>rt r d. get_room_type db rt = Some r \<longrightarrow> booked_on db rt d + blocked_on db rt d \<le> rt_total_units r)"

text \<open>The units that all blocks of a room type take on a night, whatever their reason, and the state without converted holds.\<close>

definition taken_on :: "stay_db \<Rightarrow> int \<Rightarrow> day \<Rightarrow> int" where
  "taken_on db rt d = sum_where (\<lambda>k. ib_room_type_id k = rt \<and> ib_start k \<le> d \<and> d < ib_end k) ib_units (sd_blocks db)"

definition unconverted :: "stay_db \<Rightarrow> bool" where
  "unconverted db \<longleftrightarrow> list_all (\<lambda>k. ib_reason k \<noteq> ''booked'') (sd_blocks db)"

lemma taken_unconverted: "unconverted db \<Longrightarrow> taken_on db rt d = blocked_on db rt d"
  unfolding taken_on_def blocked_on_def unconverted_def sum_where_def counted_block_def
  by (intro arg_cong [where f = sum_list] arg_cong [where f = "map ib_units"] filter_cong) (auto simp: list_all_iff)

text \<open>
  The operations of the availability service and the inventory step of a new booking that holds its own inventory, for
  positive numbers of units.  The conversion of an existing hold is not among them.
\<close>

inductive stay_step :: "stay_db \<Rightarrow> stay_db \<Rightarrow> bool" where
  Hold: "ha_units a > 0 \<Longrightarrow> stay_step db (snd (create_hold now a db))"
| Release: "stay_step db (snd (release_hold p ci co by db))"
| Sweep: "stay_step db (snd (release_expired_holds now m n ab ah db))"
| Expire: "stay_step db (snd (expire_room_holds now db))"
| Block_units: "units > 0 \<Longrightarrow> block_room_type_units rt ci co units reason bk by db = Inr db' \<Longrightarrow> stay_step db db'"
| Release_units: "stay_step db (snd (release_room_type_blocks rt ci co bk db))"
| Block_dates: "stay_step db (snd (block_dates now p ci co reason bk by db))"
| Unblock_dates: "stay_step db (snd (unblock_dates p ci co bk reason db))"
| Hold_booking: "rooms_of b > 0 \<Longrightarrow> stay_step db (hold_for_booking now False g b db)"

subsection \<open>Steps that only remove blocks\<close>

text \<open>The unit accounting of \<open>db'\<close> is that of \<open>db\<close> with fewer counted blocks.\<close>

definition shrinks :: "stay_db \<Rightarrow> stay_db \<Rightarrow> bool" where
  "shrinks db db' \<longleftrightarrow>
     sd_bookings db' = sd_bookings db \<and> sd_room_types db' = sd_room_types db \<and> set (sd_blocks db') \<subseteq> set (sd_blocks db)
     \<and> (list_all (\<lambda>k. 0 \<le> ib_units k) (sd_blocks db) \<longrightarrow>
          list_all (\<lambda>k. 0 \<le> ib_units k) (sd_blocks db') \<and> (\<forall>rt d. blocked_on db' rt d \<le> blocked_on db rt d))"

lemma shrinks_refl: "sd_bookings db' = sd_bookings db \<Longrightarrow> sd_room_types db' = sd_room_types db \<Longrightarrow>
    sd_blocks db' = sd_blocks db \<Longrightarrow> shrinks db db'"
  by (simp add: shrinks_def blocked_on_def)

lemma shrinks_trans: "shrinks a b \<Longrightarrow> shrinks b c \<Longrightarrow> shrinks a c"
  unfolding shrinks_def by (metis order_trans)

lemma shrinks_fold: "(\<And>x db. shrinks db (f x db)) \<Longrightarrow> shrinks db (fold f xs db)"
proof (induction xs arbitrary: db)
  case (Cons x xs)
  then show ?case by (auto intro: shrinks_trans)
qed (simp add: shrinks_refl)

lemma shrinks_inv: "shrinks db db' \<Longrightarrow> units_ok db \<Longrightarrow> not_overbooked db \<Longrightarrow> units_ok db' \<and> not_overbooked db'"
  unfolding shrinks_def units_ok_def not_overbooked_def booked_on_def get_room_type_def
  by (metis (no_types, lifting) add_left_mono order_trans)

lemma shrinks_unconverted: "shrinks db db' \<Longrightarrow> unconverted db \<Longrightarrow> unconverted db'"
  by (auto simp: shrinks_def unconverted_def list_all_iff)

lemma sum_where_filter_le:
  fixes f :: "'r \<Rightarrow> int"
  assumes "list_all (\<lambda>x. 0 \<le> f x) xs"
  shows "sum_where p f (filter q xs) \<le> sum_where p f xs"
  using assms by (induction xs) (auto simp: add_increasing)

lemma release_units_shrinks: "shrinks db (snd (release_room_type_blocks rt ci co bk db))"
  by (auto simp: shrinks_def release_room_type_blocks_def Let_def blocked_on_def list_all_iff
      intro!: sum_where_filter_le)

lemma block_day_shrinks: "shrinks db (snd (block_day now p reason bk by d (n, db)))"
  by (auto simp: block_day_def intro!: shrinks_refl)

lemma block_dates_shrinks: "shrinks db (snd (block_dates now p ci co reason bk by db))"
proof -
  have "shrinks db (snd (fold (block_day now p reason bk by) ds (n, db)))" for ds n db
  proof (induction ds arbitrary: n db)
    case (Cons d ds)
    obtain m db1 where one: "block_day now p reason bk by d (n, db) = (m, db1)" by fastforce
    then have "shrinks db db1" using block_day_shrinks by (metis snd_conv)
    with Cons one show ?case by (auto intro: shrinks_trans)
  qed (simp add: shrinks_refl)
  then show ?thesis by (simp add: block_dates_def)
qed

lemma delete_blocked_shrinks: "shrinks db (snd (delete_blocked p db))"
  by (simp add: delete_blocked_def shrinks_refl)

lemma expire_hold_shrinks: "shrinks db (expire_room_hold h db)"
proof -
  let ?db1 = "snd (delete_blocked (\<lambda>b. bd_property_id b = rh_property_id h
                  \<and> in_nights (rh_check_in h) (rh_check_out h) (bd_date b)
                  \<and> bd_reason b = ''temporary_hold'' \<and> bd_created_by b = rh_guest_user_id h) db)"
  let ?db2 = "if given (rh_room_type_id h)
                 then snd (release_room_type_blocks (the (rh_room_type_id h)) (rh_check_in h) (rh_check_out h)
                             (rh_booking_id h) ?db1)
                 else ?db1"
  have "shrinks db ?db1" by (rule delete_blocked_shrinks)
  also have "shrinks ?db1 ?db2" by (simp add: release_units_shrinks shrinks_refl)
  finally (shrinks_trans) have "shrinks db ?db2" .
  then show ?thesis
    by (rule shrinks_trans) (simp add: expire_room_hold_def Let_def shrinks_refl)
qed

subsection \<open>Steps that block units\<close>

lemma available_per_night:
  assumes "units_ok db" and "get_room_type db rt = Some r" and "0 < n" and "n \<le> available_units db rt ci co None"
    and "ci \<le> d" and "d < co"
  shows "booked_on db rt d + (blocked_on db rt d + n) \<le> rt_total_units r"
proof -
  let ?booked = "sum_where (\<lambda>b. counted_booking rt None b \<and> sb_check_in b < co \<and> sb_check_out b > ci) rooms_of (sd_bookings db)"
  let ?blocked = "sum_where (\<lambda>k. counted_block rt k \<and> ib_start k < co \<and> ib_end k > ci) ib_units (sd_blocks db)"
  have "booked_on db rt d \<le> ?booked" and "blocked_on db rt d \<le> ?blocked"
    unfolding booked_on_def blocked_on_def
    using assms(1,5,6) by (auto intro!: sum_where_mono simp: units_ok_def list_all_iff)
  moreover have "n \<le> rt_total_units r - ?booked - ?blocked"
    using assms(3,4) by (simp add: available_units_def assms(2))
  ultimately show ?thesis by simp
qed

lemma insert_block_inv:
  assumes "units_ok db" and "not_overbooked db" and "0 < n" and "get_room_type db rt \<noteq> None"
    and "n \<le> available_units db rt ci co None"
  shows "units_ok (insert_block rt bk ci co n v u db) \<and> not_overbooked (insert_block rt bk ci co n v u db)"
proof -
  let ?db' = "insert_block rt bk ci co n v u db"
  have on: "booked_on ?db' x d = booked_on db x d"
    "blocked_on ?db' x d = blocked_on db x d + (if x = rt \<and> v \<noteq> ''booked'' \<and> ci \<le> d \<and> d < co then n else 0)"
    "get_room_type ?db' x = get_room_type db x" for x d
    by (auto simp: insert_block_def booked_on_def blocked_on_def counted_block_def get_room_type_def)
  have "not_overbooked ?db'"
    unfolding not_overbooked_def on
    using assms(2) available_per_night [OF assms(1) _ assms(3,5)] assms(3) by (auto simp: not_overbooked_def)
  moreover have "units_ok ?db'" using assms(1,3) by (simp add: units_ok_def insert_block_def)
  ultimately show ?thesis by simp
qed

lemma block_units_inv:
  assumes "units_ok db" and "not_overbooked db" and "0 < n" and "block_room_type_units rt ci co n reason bk u db = Inr db'"
  shows "units_ok db' \<and> not_overbooked db'"
proof -
  from assms(4) obtain r v where r: "get_room_type db rt = Some r" and n: "n \<le> available_units db rt ci co None"
    and db': "db' = insert_block rt bk ci co n v u db"
    by (auto simp: block_room_type_units_def get_available_units_def Let_def split: option.splits if_splits)
  show ?thesis unfolding db' by (rule insert_block_inv [OF assms(1-3) _ n]) (simp add: r)
qed

lemma hold_inventory_inv:
  assumes "units_ok db" and "not_overbooked db" and "0 < ha_units a" and "hold_inventory now a db = Inr db'"
  shows "units_ok db' \<and> not_overbooked db'"
proof (cases "is_multi_unit db (ha_room_type_id a)")
  case True
  let ?rt = "the (ha_room_type_id a)"
  from True have r: "get_room_type db ?rt \<noteq> None" by (auto simp: is_multi_unit_def split: option.splits)
  from True assms(4) have n: "ha_units a \<le> available_units db ?rt (ha_check_in a) (ha_check_out a) None"
    and db': "db' = insert_block ?rt None (ha_check_in a) (ha_check_out a) (ha_units a) ''temporary_hold''
                (Some (ha_created_by a)) db"
    by (auto simp: hold_inventory_def get_available_units_def Let_def split: if_splits)
  show ?thesis unfolding db' by (rule insert_block_inv [OF assms(1-3) r n])
next
  case False
  with assms(4) have "db' = snd (block_dates now (ha_property_id a) (ha_check_in a) (ha_check_out a) ''temporary_hold'' None
                         (Some (ha_created_by a)) db)"
    by (auto simp: hold_inventory_def Let_def split_beta split: if_splits)
  with block_dates_shrinks have "shrinks db db'" by simp
  from shrinks_inv [OF this assms(1,2)] show ?thesis .
qed

lemma create_hold_inv:
  assumes "units_ok db" and "not_overbooked db" and "0 < ha_units a"
  shows "units_ok (snd (create_hold now a db)) \<and> not_overbooked (snd (create_hold now a db))"
proof (cases "hold_inventory now a db")
  case (Inr db1)
  from hold_inventory_inv [OF assms Inr] have "units_ok db1" "not_overbooked db1" by auto
  moreover have "insert_room_hold h db1 = Some db2 \<Longrightarrow> shrinks db1 db2" for h db2
    by (auto simp: insert_room_hold_def intro!: shrinks_refl split: if_splits)
  ultimately show ?thesis
    using assms(1,2) shrinks_inv by (auto simp: create_hold_def Let_def Inr split: option.splits)
qed (use assms in \<open>simp add: create_hold_def Let_def\<close>)

lemma stay_step_inv:
  assumes "stay_step db db'" and "units_ok db" and "not_overbooked db"
  shows "units_ok db' \<and> not_overbooked db'"
  using assms(1)
proof cases
  case (Hold a now)
  then show ?thesis using create_hold_inv [OF assms(2,3)] by simp
next
  case (Release p ci co u)
  have "shrinks db db'"
    unfolding Release release_hold_def split_beta Let_def snd_conv
    by (rule shrinks_trans [OF delete_blocked_shrinks shrinks_refl]) simp_all
  from shrinks_inv [OF this assms(2,3)] show ?thesis .
next
  case (Sweep now m n ab ah)
  have "shrinks db db'" unfolding Sweep release_expired_holds_def Let_def snd_conv by (rule shrinks_refl) simp_all
  from shrinks_inv [OF this assms(2,3)] show ?thesis .
next
  case (Expire now)
  have "shrinks db db'"
    unfolding Expire expire_room_holds_def Let_def snd_conv by (intro shrinks_fold expire_hold_shrinks)
  from shrinks_inv [OF this assms(2,3)] show ?thesis .
next
  case (Block_units units rt ci co reason bk u)
  then show ?thesis using block_units_inv [OF assms(2,3)] by simp
next
  case (Release_units rt ci co bk)
  from shrinks_inv [OF release_units_shrinks assms(2,3)] Release_units show ?thesis by simp
next
  case (Block_dates now p ci co reason bk u)
  from shrinks_inv [OF block_dates_shrinks assms(2,3)] Block_dates show ?thesis by simp
next
  case (Unblock_dates p ci co bk reason)
  from shrinks_inv [OF delete_blocked_shrinks assms(2,3)] Unblock_dates show ?thesis by (simp add: unblock_dates_def)
next
  case (Hold_booking b now g)
  have rooms: "(if given (sb_rooms_requested b) then the (sb_rooms_requested b) else 1) > 0"
    using Hold_booking(2) by (auto simp: rooms_of_def given_def split: option.splits)
  have "block_room_type_units rt ci co (if given (sb_rooms_requested b) then the (sb_rooms_requested b) else 1) reason bk u db
      = Inr d \<Longrightarrow> units_ok d \<and> not_overbooked d" for rt ci co reason bk u d
    using block_units_inv [OF assms(2,3) rooms] .
  moreover note shrinks_inv [OF block_dates_shrinks assms(2,3)]
  ultimately show ?thesis
    using assms(2,3) unfolding Hold_booking hold_for_booking_def by (auto split: sum.splits)
qed

interpretation stays: run_invariant stay_step "\<lambda>db. units_ok db \<and> not_overbooked db"
  by unfold_locales (use stay_step_inv in blast)

lemma insert_block_unconverted: "v \<noteq> ''booked'' \<Longrightarrow> unconverted db \<Longrightarrow> unconverted (insert_block rt bk ci co n v u db)"
  by (simp add: unconverted_def insert_block_def)

lemma block_units_unconverted:
  "block_room_type_units rt ci co n reason bk u db = Inr db' \<Longrightarrow> unconverted db \<Longrightarrow> unconverted db'"
  by (auto simp: block_room_type_units_def Let_def validate_block_reason_def intro!: insert_block_unconverted
      split: option.splits if_splits)

lemma stay_step_unconverted:
  assumes "stay_step db db'" and "unconverted db"
  shows "unconverted db'"
  using assms(1)
proof cases
  case (Hold a now)
  have inv: "unconverted db1" if "hold_inventory now a db = Inr db1" for db1
  proof (cases "is_multi_unit db (ha_room_type_id a)")
    case True
    with that assms(2) show ?thesis by (auto simp: hold_inventory_def Let_def intro!: insert_block_unconverted split: if_splits)
  next
    case False
    with that have "db1 = snd (block_dates now (ha_property_id a) (ha_check_in a) (ha_check_out a) ''temporary_hold'' None
                         (Some (ha_created_by a)) db)"
      by (auto simp: hold_inventory_def Let_def split_beta split: if_splits)
    with shrinks_unconverted [OF block_dates_shrinks assms(2)] show ?thesis by simp
  qed
  moreover have "unconverted d = unconverted db1" if "insert_room_hold h db1 = Some d" for h db1 d
    using that by (auto simp: insert_room_hold_def unconverted_def split: if_splits)
  ultimately show ?thesis
    using assms(2) unfolding Hold by (auto simp: create_hold_def Let_def split: sum.splits option.splits)
next
  case (Release p ci co u)
  have "shrinks db db'"
    unfolding Release release_hold_def split_beta Let_def snd_conv
    by (rule shrinks_trans [OF delete_blocked_shrinks shrinks_refl]) simp_all
  then show ?thesis using assms(2) by (rule shrinks_unconverted)
next
  case (Sweep now m n ab ah)
  have "shrinks db db'" unfolding Sweep release_expired_holds_def Let_def snd_conv by (rule shrinks_refl) simp_all
  then show ?thesis using assms(2) by (rule shrinks_unconverted)
next
  case (Expire now)
  have "shrinks db db'"
    unfolding Expire expire_room_holds_def Let_def snd_conv by (intro shrinks_fold expire_hold_shrinks)
  then show ?thesis using assms(2) by (rule shrinks_unconverted)
next
  case (Block_units units rt ci co reason bk u)
  then show ?thesis using block_units_unconverted assms(2) by blast
next
  case (Release_units rt ci co bk)
  with shrinks_unconverted [OF release_units_shrinks assms(2)] show ?thesis by simp
next
  case (Block_dates now p ci co reason bk u)
  with shrinks_unconverted [OF block_dates_shrinks assms(2)] show ?thesis by simp
next
  case (Unblock_dates p ci co bk reason)
  with shrinks_unconverted [OF delete_blocked_shrinks assms(2)] show ?thesis by (simp add: unblock_dates_def)
next
  case (Hold_booking b now g)
  then show ?thesis
    using assms(2) block_units_unconverted shrinks_unconverted [OF block_dates_shrinks assms(2)]
    by (auto simp: hold_for_booking_def split: sum.splits)
qed

interpretation unconv: run_invariant stay_step unconverted
  by unfold_locales (rule stay_step_unconverted)

text \<open>
  C36: units are not oversold while holds are not converted.  Along every run of the availability service and of new bookings that hold
  their own inventory, for positive numbers of units, the units of all inventory blocks of a room type, whatever their
  reason, and the rooms of its bookings in an active status take at most its total units on every night, if they did
  so at the start and no block had been converted.  With conversions this fails, as the last theorem of this theory shows.
\<close>

theorem no_room_overbooked:
  assumes "stay_step\<^sup>*\<^sup>* db db'" and "units_ok db" and "not_overbooked db" and "unconverted db"
    and "get_room_type db' rt = Some r"
  shows "booked_on db' rt d + taken_on db' rt d \<le> rt_total_units r"
proof -
  from assms(1-3) have "units_ok db' \<and> not_overbooked db'" using stays.run_keeps by simp
  moreover have "taken_on db' rt d = blocked_on db' rt d" by (rule taken_unconverted [OF unconv.run_keeps [OF assms(1,4)]])
  ultimately show ?thesis using assms(5) by (simp add: not_overbooked_def)
qed

definition demo_hotel :: stay_db where
  "demo_hotel = \<lparr>sd_blocked = [], sd_holds = [], sd_rules = [],
     sd_room_types = [\<lparr>rt_id = 5, rt_property_id = 1, rt_max_guests = 2, rt_total_units = 3, rt_is_active = True\<rparr>],
     sd_blocks = [], sd_bookings = [], sd_next_id = 1\<rparr>"

definition demo_hold :: "int \<Rightarrow> int option \<Rightarrow> int \<Rightarrow> hold_args" where
  "demo_hold guest rt units = \<lparr>ha_property_id = 1, ha_check_in = 10, ha_check_out = 12, ha_created_by = guest,
     ha_room_type_id = rt, ha_units = units, ha_hold_minutes = 15, ha_hold_type = ''payment'', ha_approval_sla_hours = 48\<rparr>"

theorem no_room_overbooked_witness:
  "let db = snd (create_hold 0 (demo_hold 8 (Some 5) 2) demo_hotel)
   in fst (create_hold 0 (demo_hold 9 (Some 5) 2) db) = Inl (Only_units 1 2)
      \<and> booked_on db 5 11 + taken_on db 5 11 \<le> 3 \<and> taken_on db 5 11 = 2"
proof -
  let ?db = "snd (create_hold 0 (demo_hold 8 (Some 5) 2) demo_hotel)"
  have "stay_step demo_hotel ?db" by (rule stay_step.Hold) (simp add: demo_hold_def)
  then have run: "stay_step\<^sup>*\<^sup>* demo_hotel ?db" by (rule r_into_rtranclp)
  have ok: "units_ok demo_hotel" "not_overbooked demo_hotel"
    by (auto simp: demo_hotel_def units_ok_def not_overbooked_def booked_on_def blocked_on_def get_room_type_def split: if_splits)
  have r: "get_room_type ?db 5 = Some \<lparr>rt_id = 5, rt_property_id = 1, rt_max_guests = 2, rt_total_units = 3, rt_is_active = True\<rparr>"
    by code_simp
  have "fst (create_hold 0 (demo_hold 9 (Some 5) 2) ?db) = Inl (Only_units 1 2)" and "taken_on ?db 5 11 = 2"
    by code_simp+
  moreover have "unconverted demo_hotel" by (simp add: unconverted_def demo_hotel_def)
  ultimately show ?thesis using no_room_overbooked [OF run ok _ r, of 11] by (simp add: Let_def)
qed

subsection \<open>Nights of a single-unit property\<close>

lemma find_blocked_block_day:
  "find_blocked (snd (block_day now p reason bk u d (n, db))) q e =
     (case find_blocked db q e of
        Some b \<Rightarrow> Some b
      | None \<Rightarrow> if q = p \<and> e = d
                then Some \<lparr>bd_id = sd_next_id db, bd_property_id = p, bd_booking_id = bk, bd_date = d, bd_reason = reason,
                           bd_created_by = u, bd_created_at = now\<rparr>
                else None)"
  by (auto simp: block_day_def find_blocked_def find_append split: option.splits)

lemma fst_block_day: "fst (block_day now p reason bk u d (n, db)) = (if find_blocked db p d = None then n + 1 else n)"
  by (simp add: block_day_def)

lemma block_fold_keeps:
  "find_blocked db p e = Some b \<Longrightarrow> find_blocked (snd (fold (block_day now p reason bk u) ds (n, db))) p e = Some b"
proof (induction ds arbitrary: n db)
  case (Cons d ds)
  let ?one = "block_day now p reason bk u d (n, db)"
  from Cons.prems have "find_blocked (snd ?one) p e = Some b" by (simp add: find_blocked_block_day)
  from Cons.IH [OF this, of "fst ?one"] show ?case by simp
qed simp

lemma block_fold_count:
  "distinct ds \<Longrightarrow> fst (fold (block_day now p reason bk u) ds (n, db))
     = n + length (filter (\<lambda>d. find_blocked db p d = None) ds)"
proof (induction ds arbitrary: n db)
  case (Cons d ds)
  let ?one = "block_day now p reason bk u d (n, db)"
  have "filter (\<lambda>e. find_blocked (snd ?one) p e = None) ds = filter (\<lambda>e. find_blocked db p e = None) ds"
    using Cons.prems by (intro filter_cong) (auto simp: find_blocked_block_day split: option.splits)
  moreover have "fold (block_day now p reason bk u) (d # ds) (n, db) = fold (block_day now p reason bk u) ds (fst ?one, snd ?one)"
    by simp
  ultimately show ?case using Cons.IH [of "fst ?one" "snd ?one"] Cons.prems by (simp add: fst_block_day del: fold_simps prod.collapse)
qed simp

lemma block_fold_new:
  "find_blocked db p e = None \<Longrightarrow> e \<in> set ds \<Longrightarrow>
     \<exists>b. find_blocked (snd (fold (block_day now p reason bk u) ds (n, db))) p e = Some b
       \<and> bd_created_by b = u \<and> bd_reason b = reason \<and> bd_booking_id b = bk"
proof (induction ds arbitrary: n db)
  case (Cons d ds)
  let ?one = "block_day now p reason bk u d (n, db)"
  show ?case
  proof (cases "e = d")
    case True
    with Cons.prems obtain b where "find_blocked (snd ?one) p e = Some b"
      "bd_created_by b = u" "bd_reason b = reason" "bd_booking_id b = bk" by (simp add: find_blocked_block_day)
    with block_fold_keeps [of "snd ?one" p e b now reason bk u ds "fst ?one"] show ?thesis by auto
  next
    case False
    with Cons.prems have "find_blocked (snd ?one) p e = None" "e \<in> set ds" by (auto simp: find_blocked_block_day)
    from Cons.IH [OF this, of "fst ?one"] show ?thesis by simp
  qed
qed simp

text \<open>
  Holding the nights of a single-unit property.  A hold with a positive duration fails exactly when every night of the
  stay is already blocked.  When it succeeds, every night is blocked: free nights for the holder, nights that
  someone else had blocked still for that other.
\<close>

theorem single_unit_hold_exact:
  assumes "\<not> is_multi_unit db (ha_room_type_id a)" and "ha_hold_type a \<noteq> ''approval''" and "ha_hold_minutes a > 0"
    and "ha_check_in a < ha_check_out a"
  shows "if \<forall>d. ha_check_in a \<le> d \<and> d < ha_check_out a \<longrightarrow> find_blocked db (ha_property_id a) d \<noteq> None
    then isl (fst (create_hold now a db))
    else \<not> isl (fst (create_hold now a db))
      \<and> (\<forall>d. ha_check_in a \<le> d \<and> d < ha_check_out a \<longrightarrow>
          (case find_blocked db (ha_property_id a) d of
             Some b \<Rightarrow> find_blocked (snd (create_hold now a db)) (ha_property_id a) d = Some b
           | None \<Rightarrow> map_option bd_created_by (find_blocked (snd (create_hold now a db)) (ha_property_id a) d)
               = Some (Some (ha_created_by a))))"
proof -
  let ?ds = "nights_of (ha_check_in a) (ha_check_out a)" and ?p = "ha_property_id a"
  let ?step = "block_day now ?p ''temporary_hold'' None (Some (ha_created_by a))"
  have ds: "distinct ?ds" "set ?ds = {ha_check_in a..<ha_check_out a}" by (auto simp: nights_of_def)
  obtain n db1 where res: "fold ?step ?ds (0, db) = (n, db1)" by fastforce
  have n: "n = 0 \<longleftrightarrow> (\<forall>d. ha_check_in a \<le> d \<and> d < ha_check_out a \<longrightarrow> find_blocked db ?p d \<noteq> None)"
    using block_fold_count [OF ds(1), of now ?p "''temporary_hold''" None "Some (ha_created_by a)" 0 db] ds(2)
    by (auto simp: res filter_empty_conv)
  have hold: "if n = 0 then isl (fst (create_hold now a db))
      else \<not> isl (fst (create_hold now a db)) \<and> sd_blocked (snd (create_hold now a db)) = sd_blocked db1"
    using assms by (simp add: create_hold_def hold_inventory_def block_dates_def res insert_room_hold_def Let_def)
  have "case find_blocked db ?p d of
         Some b \<Rightarrow> find_blocked db1 ?p d = Some b
       | None \<Rightarrow> map_option bd_created_by (find_blocked db1 ?p d) = Some (Some (ha_created_by a))"
    if "ha_check_in a \<le> d" "d < ha_check_out a" for d
  proof -
    have "d \<in> set ?ds" using that by (simp add: ds)
    note new = block_fold_new [OF _ this, of db ?p now "''temporary_hold''" None "Some (ha_created_by a)" 0, unfolded res]
      and keep = block_fold_keeps [of db ?p d _ now "''temporary_hold''" None "Some (ha_created_by a)" ?ds 0, unfolded res]
    show ?thesis using new keep by (auto split: option.splits)
  qed
  moreover have "find_blocked (snd (create_hold now a db)) ?p d = find_blocked db1 ?p d" if "n \<noteq> 0" for d
    using hold that by (simp add: find_blocked_def)
  ultimately show ?thesis unfolding n [symmetric] using hold by (cases "n = 0") (simp_all cong: option.case_cong)
qed

theorem single_unit_hold_exact_witness:
  "let db = snd (create_hold 0 (demo_hold 8 None 1) demo_hotel); later = (demo_hold 9 None 1)\<lparr>ha_check_out := 13\<rparr>
   in isl (fst (create_hold 0 (demo_hold 9 None 1) db)) \<and> \<not> isl (fst (create_hold 0 later db))
      \<and> map_option bd_created_by (find_blocked (snd (create_hold 0 later db)) 1 11) = Some (Some 8)"
proof -
  define db where "db = snd (create_hold 0 (demo_hold 8 None 1) demo_hotel)"
  define later where "later = (demo_hold 9 None 1)\<lparr>ha_check_out := 13\<rparr>"
  have rows: "map_option bd_created_by (find_blocked db 1 10) = Some (Some 8)"
    "map_option bd_created_by (find_blocked db 1 11) = Some (Some 8)" "find_blocked db 1 12 = None"
    unfolding db_def by code_simp+
  have two: "d = 10 \<or> d = 11" if "10 \<le> d" "d < 12" for d :: int using that by linarith
  have "\<not> is_multi_unit db (ha_room_type_id x)" "ha_hold_type x \<noteq> ''approval''" "ha_hold_minutes x > 0"
    "ha_check_in x < ha_check_out x" if "x \<in> {demo_hold 9 None 1, later}" for x
    using that by (auto simp: demo_hold_def later_def is_multi_unit_def given_def)
  note exact = single_unit_hold_exact [OF this, of _ 0]
  have fields: "ha_check_in later = 10" "ha_check_out later = 13" "ha_property_id later = 1" "ha_created_by later = 9"
    by (simp_all add: later_def demo_hold_def)
  have "\<forall>d. 10 \<le> d \<and> d < 12 \<longrightarrow> find_blocked db 1 d \<noteq> None" using rows two by fastforce
  then have "isl (fst (create_hold 0 (demo_hold 9 None 1) db))"
    using exact [of "demo_hold 9 None 1"] by (simp add: demo_hold_def)
  moreover have "\<not> (\<forall>d. 10 \<le> d \<and> d < 13 \<longrightarrow> find_blocked db 1 d \<noteq> None)" using rows(3) by fastforce
  then have "\<not> isl (fst (create_hold 0 later db)) \<and> (\<forall>d. 10 \<le> d \<and> d < 13 \<longrightarrow>
          (case find_blocked db 1 d of
             Some b \<Rightarrow> find_blocked (snd (create_hold 0 later db)) 1 d = Some b
           | None \<Rightarrow> map_option bd_created_by (find_blocked (snd (create_hold 0 later db)) 1 d) = Some (Some 9)))"
    using exact [of later, unfolded fields] by (simp split: if_splits)
  then have "\<not> isl (fst (create_hold 0 later db))"
    "map_option bd_created_by (find_blocked (snd (create_hold 0 later db)) 1 11) = Some (Some 8)"
    using rows(2) by (auto dest!: spec [of _ 11] split: option.splits)
  ultimately show ?thesis unfolding db_def [symmetric] later_def [symmetric] Let_def by blast
qed

subsection \<open>What the accounting leaves out\<close>

text \<open>
  The sweep frees no units.  The task that expires room holds marks them expired but leaves their inventory blocks, so
  the available units of every room type and range stay what they were.
\<close>

theorem sweep_frees_no_units:
  "available_units (snd (release_expired_holds now m n ab ah db)) rt ci co excl = available_units db rt ci co excl"
  by (simp add: release_expired_holds_def Let_def available_units_def get_room_type_def cong: option.case_cong)

text \<open>
  A converted hold is sold again.  A room type of several units without bookings or blocks is held completely by one
  guest; the hold is converted for a booking, whose status \<open>held\<close> the unit accounting does not count.  A second
  guest can then hold every unit for the same nights.
\<close>

theorem converted_hold_is_sold_again:
  assumes "get_room_type db rt = Some r" and "rt \<noteq> 0" and "rt_total_units r > 1" and "sd_blocks db = []" and "sd_bookings db = []"
    and "a = \<lparr>ha_property_id = p, ha_check_in = ci, ha_check_out = co, ha_created_by = g, ha_room_type_id = Some rt,
              ha_units = rt_total_units r, ha_hold_minutes = 15, ha_hold_type = ''payment'', ha_approval_sla_hours = 48\<rparr>"
    and "ci < co"
    and "b = \<lparr>sb_id = i, sb_property_id = p, sb_room_type_id = Some rt, sb_status = ''held'', sb_check_in = ci,
              sb_check_out = co, sb_rooms_requested = Some (rt_total_units r)\<rparr>"
  shows "let db1 = snd (create_hold now a db); db2 = hold_for_booking now True g b (db1\<lparr>sd_bookings := [b]\<rparr>)
         in fst (create_hold now (a\<lparr>ha_created_by := g'\<rparr>) db1) = Inl (Only_units 0 (rt_total_units r))
            \<and> \<not> isl (fst (create_hold now (a\<lparr>ha_created_by := g'\<rparr>) db2))"
  using assms
  by (simp add: Let_def create_hold_def hold_inventory_def is_multi_unit_def given_def get_available_units_def
      insert_room_hold_def insert_block_def available_units_def get_room_type_def counted_block_def hold_for_booking_def
      counted_booking_def ACTIVE_BOOKING_STATUSES_def)

theorem converted_hold_is_sold_again_witness:
  "let a = demo_hold 8 (Some 5) 3; db1 = snd (create_hold 0 a demo_hotel);
       b = \<lparr>sb_id = 90, sb_property_id = 1, sb_room_type_id = Some 5, sb_status = ''held'', sb_check_in = 10,
            sb_check_out = 12, sb_rooms_requested = Some 3\<rparr>;
       db2 = hold_for_booking 0 True 8 b (db1\<lparr>sd_bookings := [b]\<rparr>)
   in fst (create_hold 0 (a\<lparr>ha_created_by := 9\<rparr>) db1) = Inl (Only_units 0 3)
      \<and> \<not> isl (fst (create_hold 0 (a\<lparr>ha_created_by := 9\<rparr>) db2))"
proof -
  have hotel: "get_room_type demo_hotel 5
      = Some \<lparr>rt_id = 5, rt_property_id = 1, rt_max_guests = 2, rt_total_units = 3, rt_is_active = True\<rparr>"
    "sd_blocks demo_hotel = []" "sd_bookings demo_hotel = []"
    by (simp_all add: demo_hotel_def get_room_type_def)
  show ?thesis
    using converted_hold_is_sold_again [OF hotel(1) _ _ hotel(2,3) _ _ refl, of "demo_hold 8 (Some 5) 3" 1 10 12 8 0 90 9]
    by (simp add: demo_hold_def Let_def)
qed

end
