(* ===== verification/Stay_Policy.thy ===== *)
theory Stay_Policy
  imports Payment_States
begin

section \<open>Prices, cancellation and confirmation of a stay\<close>

text \<open>
  Models \<open>app/accommodation/services/pricing_service.py\<close> with \<open>app/utils/money.py\<close>, the policy engine of
  \<open>app/accommodation/models/cancellation_policy.py\<close>, the quotes of \<open>AccommodationBooking\<close> in
  \<open>models/booking.py\<close> with \<open>PropertyBookingPolicy.get_cancellation_refund\<close>, and
  \<open>app/accommodation/state_machine/policy_evaluator.py\<close>.  Texts of messages are left out.  Products and sums of the
  stored amounts have fewer than 28 digits and are exact; where the code divides, the 28 significant digits of
  Python's decimal context are modelled by \<open>dec28\<close>.
\<close>

subsection \<open>The decimal context\<close>

text \<open>The number of decimal places that keep 28 significant digits; the amounts lie far above \<open>10 ^ -72\<close>.\<close>

fun places :: "nat \<Rightarrow> rat \<Rightarrow> nat" where
  "places 0 x = 0"
| "places (Suc n) x = (if x * 10 < 10 ^ 28 then Suc (places n (x * 10)) else 0)"

definition dec28 :: "rat \<Rightarrow> rat" where
  "dec28 x = quantize_to (places 100 x) round_half_even x"

subsection \<open>Prices\<close>

definition price_money :: "money \<Rightarrow> money" where
  "price_money x = cents round_half_up x"

record rate_card =
  rc_property_id :: int
  rc_base_price_per_night :: money
  rc_cleaning_fee :: money
  rc_service_fee_pct :: rat

record price =
  pr_nightly_rate :: money
  pr_nights :: int
  pr_rooms :: int
  pr_subtotal :: money
  pr_cleaning_fee :: money
  pr_service_fee :: money
  pr_taxes :: money
  pr_gross_total :: money
  pr_discount_total :: money
  pr_total :: money

datatype price_error = Checkout_must_be_after_checkin | Room_type_not_of_property

definition price_breakdown :: "rate_card \<Rightarrow> int \<Rightarrow> int \<Rightarrow> money \<Rightarrow> money \<Rightarrow> money \<Rightarrow> rat \<Rightarrow> price" where
  "price_breakdown rates nights rooms promo loyalty credit tax =
     (let rate = price_money (rc_base_price_per_night rates);
          cleaning = price_money (rc_cleaning_fee rates) * of_int rooms;
          subtotal = price_money (rate * of_int nights * of_int rooms);
          service = price_money (subtotal * (rc_service_fee_pct rates / 100));
          taxable = subtotal + cleaning + service;
          taxes = price_money (taxable * (tax / 100));
          gross = price_money (taxable + taxes);
          discount = min (price_money (price_money promo + price_money loyalty + price_money credit)) gross
      in \<lparr>pr_nightly_rate = rate, pr_nights = nights, pr_rooms = rooms, pr_subtotal = subtotal,
          pr_cleaning_fee = cleaning, pr_service_fee = service, pr_taxes = taxes, pr_gross_total = gross,
          pr_discount_total = discount, pr_total = price_money (gross - discount)\<rparr>)"

text \<open>
  The rate card of the property and, when a room type is given, the lookup of its card.  The property has no tax
  column, so a missing tax rate is 0.
\<close>

definition calculate_total ::
  "rate_card \<Rightarrow> rate_card option option \<Rightarrow> day \<Rightarrow> day \<Rightarrow> int option \<Rightarrow> money \<Rightarrow> money \<Rightarrow> money \<Rightarrow> rat option \<Rightarrow> price_error + price" where
  "calculate_total prop room ci co num_rooms promo loyalty credit tax =
     (let nights = co - ci; rooms = max 1 (case num_rooms of None \<Rightarrow> 1 | Some n \<Rightarrow> if n = 0 then 1 else n) in
      rbind (check (nights > 0) Checkout_must_be_after_checkin) (\<lambda>_.
      rbind (case room of
               None \<Rightarrow> Inr prop
             | Some None \<Rightarrow> Inl Room_type_not_of_property
             | Some (Some r) \<Rightarrow> if rc_property_id r \<noteq> rc_property_id prop then Inl Room_type_not_of_property else Inr r) (\<lambda>rates.
      Inr (price_breakdown rates nights rooms promo loyalty credit (case tax of None \<Rightarrow> 0 | Some t \<Rightarrow> t)))))"

text \<open>The price of a new booking, step 5 of \<open>create_booking\<close>: the number of requested rooms is not passed on.\<close>

definition booking_price :: "rate_card \<Rightarrow> rate_card option option \<Rightarrow> day \<Rightarrow> day \<Rightarrow> int \<Rightarrow> price_error + price" where
  "booking_price prop room ci co rooms_requested = calculate_total prop room ci co (Some 1) 0 0 0 None"

record modification =
  mo_nights :: int
  mo_subtotal :: money
  mo_new_total :: money
  mo_old_total :: money
  mo_delta :: money
  mo_refund :: money
  mo_owed :: money

record booked_terms =
  bt_nightly_rate :: money
  bt_cleaning_fee :: money
  bt_service_fee :: money
  bt_taxes :: money
  bt_total_amount :: money

definition calculate_modification_price :: "booked_terms \<Rightarrow> day \<Rightarrow> day \<Rightarrow> price_error + modification" where
  "calculate_modification_price b ci co =
     (let nights = co - ci in
      rbind (check (\<not> nights < 0) Checkout_must_be_after_checkin) (\<lambda>_.
      let subtotal = price_money (price_money (bt_nightly_rate b) * of_int nights);
          new = price_money (subtotal + price_money (bt_cleaning_fee b) + price_money (bt_service_fee b)
                             + price_money (bt_taxes b));
          old = price_money (bt_total_amount b);
          delta = price_money (new - old)
      in Inr \<lparr>mo_nights = nights, mo_subtotal = subtotal, mo_new_total = new, mo_old_total = old, mo_delta = delta,
              mo_refund = (if delta < 0 then price_money (- delta) else price_money 0),
              mo_owed = (if delta > 0 then price_money delta else price_money 0)\<rparr>))"

definition calculate_refund :: "string \<Rightarrow> money \<Rightarrow> day \<Rightarrow> day \<Rightarrow> money" where
  "calculate_refund policy total_amount ci cancellation_date =
     (let days = ci - cancellation_date in
      if policy = ''flexible'' then (if days \<ge> 1 then total_amount else 0)
      else if policy = ''moderate'' then (if days \<ge> 5 then total_amount else if days \<ge> 1 then total_amount * (1/2) else 0)
      else if policy = ''strict'' then (if days \<ge> 7 then total_amount * (1/2) else 0)
      else 0)"

subsection \<open>Cancellation policies\<close>

record cancellation_policy =
  cp_name :: string
  cp_property_id :: "int option"
  cp_pre_checkin_days :: int
  cp_pre_checkin_refund_pct :: rat
  cp_mid_stay_refund_pct :: rat
  cp_no_show_penalty :: money
  cp_is_active :: bool
  cp_is_default :: bool

definition system_default :: "string \<Rightarrow> int \<Rightarrow> rat \<Rightarrow> rat \<Rightarrow> money \<Rightarrow> cancellation_policy" where
  "system_default n d pre mid pen =
     \<lparr>cp_name = n, cp_property_id = None, cp_pre_checkin_days = d, cp_pre_checkin_refund_pct = pre,
      cp_mid_stay_refund_pct = mid, cp_no_show_penalty = pen, cp_is_active = True, cp_is_default = True\<rparr>"

definition create_system_defaults :: "cancellation_policy list" where
  "create_system_defaults =
     [system_default ''FLEX'' 1 100 100 0, system_default ''MOD'' 5 100 100 0, system_default ''STRICT'' 7 50 50 0,
      system_default ''SUPER'' 30 50 25 0, system_default ''NOSHOW'' 0 0 0 1]"

definition first_policy ::
  "cancellation_policy list \<Rightarrow> int option \<Rightarrow> (cancellation_policy \<Rightarrow> bool) \<Rightarrow> cancellation_policy option" where
  "first_policy rows pid p = find (\<lambda>c. cp_property_id c = pid \<and> p c \<and> cp_is_active c) rows"

definition get_effective_policy ::
  "cancellation_policy list \<Rightarrow> int \<Rightarrow> string option \<Rightarrow> cancellation_policy option" where
  "get_effective_policy rows property_id policy_name =
     (let named = (\<lambda>pid. case policy_name of
                     None \<Rightarrow> None
                   | Some n \<Rightarrow> if n = [] then None else first_policy rows pid (\<lambda>c. cp_name c = n));
          dflt = (\<lambda>pid. first_policy rows pid cp_is_default)
      in case named (Some property_id) of
           Some c \<Rightarrow> Some c
         | None \<Rightarrow>
             (case dflt (Some property_id) of
                Some c \<Rightarrow> Some c
              | None \<Rightarrow> (case named None of Some c \<Rightarrow> Some c | None \<Rightarrow> dflt None)))"

subsection \<open>Quotes\<close>

record quote =
  q_allowed :: bool
  q_phase :: string
  q_policy :: "string option"
  q_refundable_base :: money
  q_refund :: money
  q_fine :: money
  q_nights_remaining :: int
  q_days_until_checkin :: int

definition quote_cents :: "money \<Rightarrow> money" where
  "quote_cents x = cents round_half_even x"

definition pre_checkin_pct :: "cancellation_policy \<Rightarrow> int \<Rightarrow> rat" where
  "pre_checkin_pct c days =
     (if cp_name c = ''MOD'' then (if days \<ge> 5 then 100 else if days \<ge> 1 then 50 else 0)
      else if cp_name c = ''STRICT'' then (if days \<ge> 7 then 50 else 0)
      else if cp_name c = ''SUPER'' then (if days \<ge> 30 then 50 else if days \<ge> 14 then 25 else 0)
      else if cp_name c = ''NOSHOW'' then 0
      else if cp_name c = ''FLEX'' then (if days \<ge> 1 then 100 else 0)
      else cp_pre_checkin_refund_pct c)"

definition mid_stay_refund :: "cancellation_policy \<Rightarrow> money \<Rightarrow> day \<Rightarrow> day \<Rightarrow> int \<Rightarrow> money" where
  "mid_stay_refund c base ci co remaining =
     (if co - ci > 0 \<and> remaining > 0
      then quote_cents (dec28 (dec28 (base * dec28 (of_int remaining / of_int (co - ci)))
                               * (cp_mid_stay_refund_pct c / 100)))
      else 0)"

definition no_show_fine :: "cancellation_policy \<Rightarrow> money \<Rightarrow> money \<Rightarrow> day \<Rightarrow> day \<Rightarrow> money" where
  "no_show_fine c total_amount base ci co =
     (if cp_no_show_penalty c \<ge> 1 then
        (if cp_no_show_penalty c = 1
         then quote_cents (if co - ci > 0 then dec28 (total_amount / of_int (co - ci)) else total_amount)
         else quote_cents (cp_no_show_penalty c))
      else quote_cents (base * (cp_no_show_penalty c / 100)))"

definition calculate_quote ::
  "cancellation_policy \<Rightarrow> money \<Rightarrow> money \<Rightarrow> string \<Rightarrow> day \<Rightarrow> day \<Rightarrow> day \<Rightarrow> bool \<Rightarrow> int option \<Rightarrow> quote" where
  "calculate_quote c total_amount amount_paid timing ci co cd checked_in nights =
     (let total = quote_cents total_amount; paid = quote_cents amount_paid;
          base = (if timing \<in> {''pay_now'', ''deposit''} then paid else total);
          q = \<lparr>q_allowed = True, q_phase = ''pre_checkin'', q_policy = Some (cp_name c),
               q_refundable_base = quote_cents base, q_refund = 0, q_fine = 0, q_nights_remaining = 0,
               q_days_until_checkin = 0\<rparr>
      in if checked_in \<or> (cd \<ge> ci \<and> cd < co) then
           let remaining = (case nights of None \<Rightarrow> co - cd | Some n \<Rightarrow> n);
               refund = mid_stay_refund c base ci co remaining
           in q\<lparr>q_phase := ''mid_stay'', q_nights_remaining := max remaining 0, q_refund := quote_cents refund,
                q_fine := quote_cents (base - refund)\<rparr>
         else if cd \<ge> ci then
           q\<lparr>q_phase := ''no_show'', q_fine := quote_cents (no_show_fine c total base ci co)\<rparr>
         else
           let days = max (ci - cd) 0; refund = quote_cents (base * (pre_checkin_pct c days / 100))
           in q\<lparr>q_days_until_checkin := days, q_refund := quote_cents refund, q_fine := quote_cents (base - refund)\<rparr>)"

definition CANCELLABLE_STATUSES :: "AccommodationBookingStatus list" where
  "CANCELLABLE_STATUSES =
     [DRAFT, HELD, AccommodationBookingStatus.PENDING, PENDING_PAYMENT, PENDING_APPROVAL, CONFIRMED, CHECKED_IN]"

text \<open>The row of a booking as the quote and the evaluator read it, with the properties of its listing.\<close>

record booking_terms = booking +
  bm_check_out :: day
  bm_num_nights :: "int option"
  bm_amount_paid :: "money option"
  bm_payment_timing :: "string option"
  bm_payment_status :: string
  bm_payment_guaranteed :: bool
  bm_flow_type :: "string option"
  bm_host_approved_at :: "time option"
  bm_expires_at :: "time option"
  bm_booking_mode :: string
  bm_require_host_approval :: bool

definition num0 :: "money option \<Rightarrow> money" where
  "num0 x = (case x of None \<Rightarrow> 0 | Some a \<Rightarrow> a)"

definition timing_of :: "booking_terms \<Rightarrow> string" where
  "timing_of b = (case bm_payment_timing b of None \<Rightarrow> ''pay_now'' | Some t \<Rightarrow> if t = [] then ''pay_now'' else t)"

definition refused_quote :: quote where
  "refused_quote = \<lparr>q_allowed = False, q_phase = ''none'', q_policy = None, q_refundable_base = 0, q_refund = 0, q_fine = 0,
     q_nights_remaining = 0, q_days_until_checkin = 0\<rparr>"

definition apply_policy_tiers :: "string \<Rightarrow> money \<Rightarrow> int \<Rightarrow> money" where
  "apply_policy_tiers n base days =
     (if base \<le> 0 then 0
      else if n = ''flexible'' then (if days \<ge> 1 then base else 0)
      else if n = ''moderate'' then (if days \<ge> 5 then base else if days \<ge> 1 then base * (1/2) else 0)
      else if n = ''strict'' then (if days \<ge> 7 then base * (1/2) else 0)
      else if n = ''super_strict'' then (if days \<ge> 30 then base * (1/2) else if days \<ge> 14 then base * (1/4) else 0)
      else 0)"

definition get_cancellation_refund :: "string \<Rightarrow> int \<Rightarrow> money \<Rightarrow> money" where
  "get_cancellation_refund policy days total_amount =
     (if policy = ''flexible'' then (if days \<ge> 1 then total_amount else 0)
      else if policy = ''moderate'' then (if days \<ge> 5 then total_amount else if days \<ge> 1 then total_amount * (1/2) else 0)
      else if policy = ''strict'' then (if days \<ge> 7 then total_amount * (1/2) else 0)
      else if policy = ''super_strict'' then (if days \<ge> 30 then total_amount * (1/2) else if days \<ge> 14 then total_amount * (1/4) else 0)
      else 0)"

text \<open>The legacy quote reads the name of the policy and, when the property has a policy row, its policy.\<close>

definition legacy_cancellation_quote :: "string \<Rightarrow> string option \<Rightarrow> day \<Rightarrow> booking_terms \<Rightarrow> quote" where
  "legacy_cancellation_quote policy_name policy_row today b =
     (let total = num0 (bk_total_amount b); q = refused_quote\<lparr>q_policy := Some policy_name, q_allowed := True\<rparr> in
      if booking_status_of (bk_status b) = Some CHECKED_IN then
        let remaining = bm_check_out b - today; q = q\<lparr>q_phase := ''mid_stay'', q_nights_remaining := max remaining 0\<rparr> in
        if remaining \<le> 0 then q
        else
          let nights = (case bm_num_nights b of None \<Rightarrow> 1 | Some n \<Rightarrow> if n = 0 then 1 else n);
              base = min (dec28 (total * of_int remaining / of_int nights)) total;
              refund = (if policy_name \<in> {''flexible'', ''moderate''} then base
                        else if policy_name = ''strict'' then dec28 (base * (1/2))
                        else if policy_name = ''super_strict'' then dec28 (base * (1/4)) else 0)
          in q\<lparr>q_refundable_base := quote_cents base, q_refund := quote_cents refund, q_fine := quote_cents (dec28 (base - refund))\<rparr>
      else
        let days = bk_check_in b - today;
            refund = (case policy_row of Some p \<Rightarrow> get_cancellation_refund p days total
                      | None \<Rightarrow> apply_policy_tiers policy_name total days)
        in q\<lparr>q_phase := ''pre_checkin'', q_days_until_checkin := days, q_refundable_base := quote_cents total,
             q_refund := quote_cents refund, q_fine := quote_cents (total - refund)\<rparr>)"

text \<open>
  \<open>get_cancellation_quote\<close> with the effective policy, which the caller resolves from the snapshot or from
  \<open>get_effective_policy\<close>.  A status outside the enum raises.
\<close>

definition get_cancellation_quote ::
  "cancellation_policy option \<Rightarrow> string \<Rightarrow> string option \<Rightarrow> day \<Rightarrow> booking_terms \<Rightarrow> state_error + quote" where
  "get_cancellation_quote policy legacy_name legacy_row today b =
     (case booking_status_of (bk_status b) of
        None \<Rightarrow> Inl (ValueError (bk_status b))
      | Some s \<Rightarrow>
          Inr (if s \<notin> set CANCELLABLE_STATUSES then refused_quote
               else case policy of
                 None \<Rightarrow> legacy_cancellation_quote legacy_name legacy_row today b
               | Some c \<Rightarrow>
                   let mid = (s = CHECKED_IN \<or> (today \<ge> bk_check_in b \<and> today < bm_check_out b)) in
                   calculate_quote c (num0 (bk_total_amount b)) (num0 (bm_amount_paid b)) (timing_of b) (bk_check_in b)
                     (bm_check_out b) today (s = CHECKED_IN)
                     (Some (if mid then max (bm_check_out b - today) 0 else 0))))"

text \<open>The amount that \<open>cancel_booking\<close> proposes to pay back in cash.\<close>

definition refundable_cash_amount :: "booking_terms \<Rightarrow> quote \<Rightarrow> money" where
  "refundable_cash_amount b q = (if timing_of b \<in> {''pay_now'', ''deposit''} then q_refund q else 0)"

subsection \<open>The policy evaluator\<close>

record property_booking_policy =
  pb_require_payment_guarantee :: bool
  pb_deposit_percentage :: "rat option"
  pb_allow_pay_now :: bool
  pb_allow_pay_on_arrival :: bool
  pb_allow_pay_at_checkout :: bool
  pb_allow_deposit_payment :: bool

text \<open>A property without a row is evaluated with a fresh object, whose columns are all empty.\<close>

definition fresh_policy :: property_booking_policy where
  "fresh_policy = \<lparr>pb_require_payment_guarantee = False, pb_deposit_percentage = None, pb_allow_pay_now = False,
     pb_allow_pay_on_arrival = False, pb_allow_pay_at_checkout = False, pb_allow_deposit_payment = False\<rparr>"

definition policy_or_fresh :: "property_booking_policy option \<Rightarrow> property_booking_policy" where
  "policy_or_fresh p = (case p of None \<Rightarrow> fresh_policy | Some p \<Rightarrow> p)"

definition approval_required_flows :: "string list" where
  "approval_required_flows = [''host_approval'', ''pay_on_arrival_approval'', ''deposit_approval'', ''invoice_approval'']"

text \<open>The required amount, or \<open>None\<close> when no payment is required.\<close>

definition evaluate_payment_requirement ::
  "booking_terms \<Rightarrow> property_booking_policy \<Rightarrow> bool \<Rightarrow> payment_error + money option" where
  "evaluate_payment_requirement b p payment_being_made =
     (let timing = timing_of b; total = num0 (bk_total_amount b) in
      if payment_being_made then Inr None
      else if timing \<in> {''pay_on_arrival'', ''pay_at_checkout'', ''invoice''} then Inr None
      else if timing = ''deposit'' then
        let pct = num0 (pb_deposit_percentage p); required = total * pct / 100 in
        Inr (if pct > 0 \<and> num0 (bm_amount_paid b) < required then Some required else None)
      else if timing = ''pay_now'' then
        (if pb_require_payment_guarantee p \<and> \<not> bm_payment_guaranteed b then Inr (Some total)
         else case payment_state_of (bm_payment_status b) of
           None \<Rightarrow> Inl (PaymentValueError (bm_payment_status b))
         | Some s \<Rightarrow> Inr (if s \<in> {PAID, PARTIALLY_PAID} then None else Some total))
      else Inr None)"

datatype decision = Allowed | Approval_required | Payment_required money | Expired | Missing "string list"

definition can_confirm ::
  "time \<Rightarrow> property_booking_policy option \<Rightarrow> booking_terms \<Rightarrow> bool \<Rightarrow> payment_error + decision" where
  "can_confirm now policy b payment_being_made =
     (let approval = (bm_booking_mode b = ''host_approval'' \<or> bm_require_host_approval b
                      \<or> (case bm_flow_type b of None \<Rightarrow> False | Some f \<Rightarrow> f \<in> set approval_required_flows)) in
      if approval \<and> bm_host_approved_at b = None then Inr Approval_required
      else rbind (evaluate_payment_requirement b (policy_or_fresh policy) payment_being_made) (\<lambda>req.
        case req of
          Some amount \<Rightarrow> Inr (Payment_required amount)
        | None \<Rightarrow>
            Inr (case bm_expires_at b of
                   None \<Rightarrow> Allowed
                 | Some e \<Rightarrow> if e < now then Expired else Allowed)))"

definition evaluator_can_check_in ::
  "checkin_env \<Rightarrow> property_booking_policy option \<Rightarrow> booking_terms \<Rightarrow> payment_error + decision" where
  "evaluator_can_check_in env policy b =
     (if bk_status b \<noteq> booking_status_value CONFIRMED then Inr (Missing [''Booking not confirmed''])
      else case ce_local_today env (bk_property_id b) of
        None \<Rightarrow> Inr (Missing [''Property IANA timezone not configured''])
      | Some today \<Rightarrow>
          if bk_check_in b > today then Inr (Missing [''Check-in date not reached at property''])
          else
            let reg = (if registration_satisfied env (booking.truncate b) then [] else [''Guest registration incomplete'']) in
            rbind (if (case policy of None \<Rightarrow> False | Some p \<Rightarrow> pb_require_payment_guarantee p) \<and> timing_of b = ''pay_now''
                   then (case payment_state_of (bm_payment_status b) of
                           None \<Rightarrow> Inl (PaymentValueError (bm_payment_status b))
                         | Some s \<Rightarrow> Inr (if s \<in> {PAID, PARTIALLY_PAID} then []
                                         else [''Payment required before check-in per property policy'']))
                   else Inr []) (\<lambda>pay.
            Inr (if reg @ pay \<noteq> [] then Missing (reg @ pay) else Allowed)))"

definition get_allowed_payment_timings :: "property_booking_policy option \<Rightarrow> string list" where
  "get_allowed_payment_timings policy =
     (case policy of
        None \<Rightarrow> [''pay_now'', ''pay_on_arrival'', ''pay_at_checkout'', ''deposit'', ''invoice'']
      | Some p \<Rightarrow>
          (if pb_allow_pay_now p then [''pay_now''] else []) @ (if pb_allow_pay_on_arrival p then [''pay_on_arrival''] else [])
          @ (if pb_allow_pay_at_checkout p then [''pay_at_checkout''] else [])
          @ (if pb_allow_deposit_payment p then [''deposit''] else []) @ [''invoice''])"

definition calculate_deposit_amount :: "property_booking_policy option \<Rightarrow> booking_terms \<Rightarrow> money" where
  "calculate_deposit_amount policy b =
     (case policy of
        None \<Rightarrow> 0
      | Some p \<Rightarrow> (case pb_deposit_percentage p of None \<Rightarrow> 0 | Some pct \<Rightarrow> num0 (bk_total_amount b) * pct / 100))"

end
