(* ===== verification/Stay_Quotes.thy ===== *)
theory Stay_Quotes
  imports Stay_Policy
begin

section \<open>Correctness of prices and quotes\<close>

text \<open>
  Rounding to 28 significant digits is monotone and exact on stored amounts.  From this follow the exact parts of a price, what a
  cancellation refunds with and without a policy row, two cases in which it refunds more than was paid, and that the policy
  evaluator lets a guest check in exactly when the booking state machine and the payment policy do.
\<close>

subsection \<open>The decimal context\<close>

lemma places_le: "places n x \<le> n"
  by (induction n x rule: places.induct) auto

lemma places_mono: "x \<le> y \<Longrightarrow> places n y \<le> places n x"
  by (induction n arbitrary: x y) auto

lemma places_upper: "0 \<le> x \<Longrightarrow> 0 < places n x \<Longrightarrow> x * 10 ^ places n x < 10 ^ 28"
proof (induction n arbitrary: x)
  case (Suc n)
  from Suc.prems have small: "x * 10 < 10 ^ 28" by (auto split: if_splits)
  have "x * 10 * 10 ^ places n (x * 10) < 10 ^ 28"
    using Suc.IH [of "x * 10"] Suc.prems(1) small by (cases "places n (x * 10) = 0") auto
  then show ?case using small by (simp add: mult.assoc)
qed simp

lemma places_lower: "places n x < n \<Longrightarrow> 10 ^ 28 \<le> x * 10 ^ Suc (places n x)"
proof (induction n arbitrary: x)
  case (Suc n)
  show ?case
  proof (cases "x * 10 < 10 ^ 28")
    case True
    with Suc.IH [of "x * 10"] Suc.prems show ?thesis by (simp add: mult.assoc)
  qed (use Suc.prems in simp)
qed simp

lemma places_less: "j \<le> places n x \<Longrightarrow> 0 < j \<Longrightarrow> 0 \<le> x \<Longrightarrow> x * 10 ^ j < 10 ^ 28"
proof -
  assume j: "j \<le> places n x" "0 < j" and x: "0 \<le> x"
  have "x * 10 ^ j \<le> x * 10 ^ places n x" using j x by (intro mult_left_mono power_increasing) auto
  also have "\<dots> < 10 ^ 28" using j x by (intro places_upper) auto
  finally show ?thesis .
qed

lemma quantize_fixed: "y * 10 ^ k = of_int m \<Longrightarrow> quantize_to k round_half_even y = y"
proof -
  assume y: "y * 10 ^ k = of_int m"
  have "quantize_to k round_half_even y = of_int (round_half_even (of_int m)) / 10 ^ k" by (simp only: quantize_to_def y)
  also have "\<dots> = y" using y by (simp add: half_even.rnd_int field_simps)
  finally show ?thesis .
qed

lemma dec28_mono:
  assumes "0 \<le> x" and "x \<le> y"
  shows "dec28 x \<le> dec28 y"
proof (cases "places 100 x = places 100 y")
  case True
  with assms(2) show ?thesis by (simp add: dec28_def half_even.quantize_mono)
next
  case False
  define p where "p = places 100 y"
  define q where "q = places 100 x"
  have pq: "p < q" using False places_mono [OF assms(2), of 100] by (simp add: p_def q_def)
  define b :: rat where "b = 10 ^ 27 / 10 ^ p"
  have "q \<le> 100" by (simp add: q_def places_le)
  with pq have "10 ^ 28 \<le> y * 10 ^ Suc p" unfolding p_def by (intro places_lower) auto
  then have y: "b \<le> y" by (simp add: b_def field_simps)
  have "x * 10 ^ Suc p < 10 ^ 28" using pq assms(1) unfolding q_def by (intro places_less [of _ 100]) auto
  then have x: "x \<le> b" by (simp add: b_def field_simps)
  have "(10 :: rat) ^ q = 10 ^ p * 10 ^ (q - p)" using pq by (simp flip: power_add)
  then have "b * 10 ^ q = of_int (10 ^ 27 * 10 ^ (q - p))" unfolding b_def by simp
  then have "dec28 x \<le> b"
    using half_even.quantize_mono [OF x, of q] quantize_fixed by (metis dec28_def q_def)
  also have "b * 10 ^ p = of_int (10 ^ 27)" by (simp add: b_def)
  then have "b \<le> dec28 y"
    using half_even.quantize_mono [OF y, of p] quantize_fixed by (metis dec28_def p_def)
  finally show ?thesis .
qed

lemma dec28_0 [simp]: "dec28 0 = 0"
  by (simp add: dec28_def half_even.quantize_zero)

lemma dec28_nonneg: "0 \<le> x \<Longrightarrow> 0 \<le> dec28 x"
  using dec28_mono [of 0 x] by simp

text \<open>Amounts in whole cents below \<open>10 ^ 25\<close> are exact.\<close>

lemma places_two: "x < 10 ^ 25 \<Longrightarrow> 2 \<le> places 100 x"
proof -
  assume x: "x < 10 ^ 25"
  have "places 100 x = Suc (Suc (places 98 (x * 10 * 10)))"
    using x by (simp add: numeral_eq_Suc)
  then show ?thesis by simp
qed

lemma dec28_exact:
  assumes "whole_cents x" and "x < 10 ^ 25"
  shows "dec28 x = x"
proof -
  from assms(1) obtain m where m: "x * 100 = of_int m" by (auto simp: whole_cents_def elim: Ints_cases)
  define k where "k = places 100 x"
  have k: "2 \<le> k" unfolding k_def by (rule places_two [OF assms(2)])
  have "x * 10 ^ k = x * 100 * 10 ^ (k - 2)" using k by (simp add: power_diff)
  also have "\<dots> = of_int (m * 10 ^ (k - 2))" by (simp add: m)
  finally show ?thesis unfolding dec28_def k_def [symmetric] by (rule quantize_fixed)
qed

lemma dec28_le:
  assumes "0 \<le> x" and "x \<le> y" and "whole_cents y" and "y < 10 ^ 25"
  shows "dec28 x \<le> y"
  using dec28_mono [OF assms(1,2)] dec28_exact [OF assms(3,4)] by simp

subsection \<open>Prices\<close>

lemma price_money_whole: "whole_cents (price_money x)"
  unfolding price_money_def by (rule half_up.whole_cents_quantize)

lemma price_money_exact: "whole_cents x \<Longrightarrow> price_money x = x"
  unfolding price_money_def by (rule half_up.quantize_whole_cents)

lemma price_money_nonneg: "0 \<le> x \<Longrightarrow> 0 \<le> price_money x"
  unfolding price_money_def by (rule half_up.quantize_nonneg)

lemma half_up_error: "\<bar>of_int (round_half_up x) - x\<bar> \<le> (1 / 2 :: rat)"
proof (cases "0 \<le> x")
  case True
  then have r: "round_half_up x = \<lfloor>x + 1 / 2\<rfloor>" by (simp add: round_half_up_def)
  have "of_int \<lfloor>x + 1 / 2\<rfloor> \<le> x + 1 / 2" "x + 1 / 2 < of_int \<lfloor>x + 1 / 2\<rfloor> + 1" using floor_correct [of "x + 1 / 2"] by simp_all
  then show ?thesis unfolding r abs_le_iff by linarith
next
  case False
  then have r: "round_half_up x = \<lceil>x - 1 / 2\<rceil>" by (simp add: round_half_up_def)
  have "x - 1 / 2 \<le> of_int \<lceil>x - 1 / 2\<rceil>" "of_int \<lceil>x - 1 / 2\<rceil> - 1 < x - 1 / 2" using ceiling_correct [of "x - 1 / 2"] by simp_all
  then show ?thesis unfolding r abs_le_iff by linarith
qed

lemma price_money_error: "\<bar>price_money x - x\<bar> \<le> 1 / 200"
proof -
  define y where "y = x * 100"
  define z :: rat where "z = of_int (round_half_up y)"
  have "price_money x = z / 100" "x = y / 100"
    by (simp_all add: price_money_def quantize_to_def y_def z_def)
  moreover have "z - y \<le> 1 / 2" "y - z \<le> 1 / 2"
    using half_up_error [of y] unfolding abs_le_iff z_def by simp_all
  ultimately show ?thesis unfolding abs_le_iff by linarith
qed

text \<open>The rate card that applies, the refusals, and the rates that no column allows to be negative.\<close>

definition applied_rates :: "rate_card \<Rightarrow> rate_card option option \<Rightarrow> rate_card" where
  "applied_rates prop room = (case room of Some (Some r) \<Rightarrow> r | _ \<Rightarrow> prop)"

definition foreign_room :: "rate_card \<Rightarrow> rate_card option option \<Rightarrow> bool" where
  "foreign_room prop room \<longleftrightarrow>
     (case room of None \<Rightarrow> False | Some None \<Rightarrow> True | Some (Some r) \<Rightarrow> rc_property_id r \<noteq> rc_property_id prop)"

definition rates_ok :: "rate_card \<Rightarrow> bool" where
  "rates_ok r \<longleftrightarrow> 0 \<le> rc_base_price_per_night r \<and> 0 \<le> rc_cleaning_fee r \<and> 0 \<le> rc_service_fee_pct r"

definition rooms_priced :: "int option \<Rightarrow> int" where
  "rooms_priced n = max 1 (case n of None \<Rightarrow> 1 | Some k \<Rightarrow> k)"

lemma calculate_total_cases:
  "calculate_total prop room ci co n promo loyalty credit tax =
    (if co \<le> ci then Inl Checkout_must_be_after_checkin
     else if foreign_room prop room then Inl Room_type_not_of_property
     else Inr (price_breakdown (applied_rates prop room) (co - ci) (rooms_priced n) promo loyalty credit (num0 tax)))"
  by (auto simp: calculate_total_def Let_def foreign_room_def applied_rates_def rooms_priced_def num0_def not_le
      split: option.splits)

text \<open>
  C37: the price of a stay.  A price is refused exactly when the stay has no night or the room type is not one of the property.
  Otherwise, for the rates of the room type or else of the property: the subtotal is the nightly rate in whole cents times the
  nights times the rooms, the cleaning fee is charged per room, the service fee is its percentage of the subtotal and the tax
  its percentage of subtotal, cleaning and service fee, both up to half a cent; the gross total is exactly the sum of the four, the
  total is the gross total less the discounts or 0 when these are larger, and all are in whole cents.  For rates and
  discounts that are not negative the total lies between 0 and the gross total.
\<close>

theorem price_correct:
  "case calculate_total prop room ci co n promo loyalty credit tax of
     Inl e \<Rightarrow> e = (if co \<le> ci then Checkout_must_be_after_checkin else Room_type_not_of_property) \<and> (ci < co \<longrightarrow> foreign_room prop room)
   | Inr p \<Rightarrow> ci < co \<and> \<not> foreign_room prop room
       \<and> pr_subtotal p = price_money (rc_base_price_per_night (applied_rates prop room)) * of_int (co - ci) * of_int (rooms_priced n)
       \<and> pr_cleaning_fee p = price_money (rc_cleaning_fee (applied_rates prop room)) * of_int (rooms_priced n)
       \<and> \<bar>pr_service_fee p - pr_subtotal p * rc_service_fee_pct (applied_rates prop room) / 100\<bar> \<le> 1 / 200
       \<and> \<bar>pr_taxes p - (pr_subtotal p + pr_cleaning_fee p + pr_service_fee p) * num0 tax / 100\<bar> \<le> 1 / 200
       \<and> pr_gross_total p = pr_subtotal p + pr_cleaning_fee p + pr_service_fee p + pr_taxes p
       \<and> pr_total p = max 0 (pr_gross_total p - (price_money promo + price_money loyalty + price_money credit))
       \<and> list_all whole_cents [pr_subtotal p, pr_cleaning_fee p, pr_service_fee p, pr_taxes p, pr_gross_total p, pr_total p]
       \<and> (rates_ok (applied_rates prop room) \<and> 0 \<le> num0 tax \<and> 0 \<le> promo \<and> 0 \<le> loyalty \<and> 0 \<le> credit \<longrightarrow>
            0 \<le> pr_total p \<and> pr_total p \<le> pr_gross_total p)"
proof (cases "co \<le> ci \<or> foreign_room prop room")
  case True
  then show ?thesis by (auto simp: calculate_total_cases)
next
  case False
  let ?r = "applied_rates prop room" and ?k = "rooms_priced n"
  define p where "p = price_breakdown ?r (co - ci) ?k promo loyalty credit (num0 tax)"
  have whole_times: "whole_cents (price_money x * of_int m)" for x m by (intro money_simps price_money_whole)
  have sub: "pr_subtotal p = price_money (rc_base_price_per_night ?r) * of_int (co - ci) * of_int ?k"
    unfolding p_def price_breakdown_def Let_def price.simps
    using price_money_exact [OF whole_times, of "rc_base_price_per_night ?r" "(co - ci) * ?k"] by (simp add: mult.assoc)
  have clean: "pr_cleaning_fee p = price_money (rc_cleaning_fee ?r) * of_int ?k"
    by (simp add: p_def price_breakdown_def Let_def)
  have service: "pr_service_fee p = price_money (pr_subtotal p * (rc_service_fee_pct ?r / 100))"
    and taxes: "pr_taxes p = price_money ((pr_subtotal p + pr_cleaning_fee p + pr_service_fee p) * (num0 tax / 100))"
    and gross: "pr_gross_total p = price_money (pr_subtotal p + pr_cleaning_fee p + pr_service_fee p + pr_taxes p)"
    and net: "pr_total p = price_money (pr_gross_total p
      - min (price_money (price_money promo + price_money loyalty + price_money credit)) (pr_gross_total p))"
    by (simp_all add: p_def price_breakdown_def Let_def)
  let ?off = "price_money promo + price_money loyalty + price_money credit"
  have whole: "whole_cents (pr_subtotal p)" "whole_cents (pr_cleaning_fee p)" "whole_cents (pr_service_fee p)"
    "whole_cents (pr_taxes p)" "whole_cents (pr_gross_total p)"
    unfolding gross using whole_times [of _ "(co - ci) * ?k"]
    by (simp_all add: sub clean service taxes price_money_whole money_simps mult.assoc)
  have off: "whole_cents ?off" by (intro money_simps price_money_whole)
  have sum: "pr_gross_total p = pr_subtotal p + pr_cleaning_fee p + pr_service_fee p + pr_taxes p"
    unfolding gross using whole by (intro price_money_exact) (simp add: money_simps)
  have total: "pr_total p = max 0 (pr_gross_total p - ?off)"
    unfolding net price_money_exact [OF off]
    using price_money_exact [of "pr_gross_total p - ?off"] price_money_exact [of 0] whole(5) off
    by (cases "?off \<le> pr_gross_total p") (simp_all add: money_simps min_def max_def)
  have wtotal: "whole_cents (pr_total p)" unfolding net by (rule price_money_whole)
  have nonneg: "0 \<le> pr_gross_total p" "0 \<le> ?off"
    if "rates_ok ?r" "0 \<le> num0 tax" "0 \<le> promo" "0 \<le> loyalty" "0 \<le> credit"
  proof -
    have k: "0 \<le> ?k" by (simp add: rooms_priced_def)
    have "0 \<le> pr_subtotal p" "0 \<le> pr_cleaning_fee p"
      using that(1) False k unfolding sub clean rates_ok_def
      by (auto intro!: mult_nonneg_nonneg price_money_nonneg)
    moreover from this that(1) have "0 \<le> pr_service_fee p"
      unfolding service rates_ok_def by (auto intro!: price_money_nonneg mult_nonneg_nonneg)
    moreover from calculation that(2) have "0 \<le> pr_taxes p"
      unfolding taxes by (auto intro!: price_money_nonneg mult_nonneg_nonneg)
    ultimately show "0 \<le> pr_gross_total p" unfolding sum by simp
    show "0 \<le> ?off" using that(3-5) by (intro add_nonneg_nonneg price_money_nonneg)
  qed
  have "calculate_total prop room ci co n promo loyalty credit tax = Inr p"
    using False by (simp add: calculate_total_cases p_def)
  moreover have "\<bar>pr_service_fee p - pr_subtotal p * rc_service_fee_pct ?r / 100\<bar> \<le> 1 / 200"
    unfolding service using price_money_error [of "pr_subtotal p * (rc_service_fee_pct ?r / 100)"] by simp
  moreover have "\<bar>pr_taxes p - (pr_subtotal p + pr_cleaning_fee p + pr_service_fee p) * num0 tax / 100\<bar> \<le> 1 / 200"
    unfolding taxes using price_money_error [of "(pr_subtotal p + pr_cleaning_fee p + pr_service_fee p) * (num0 tax / 100)"] by simp
  moreover have "0 \<le> pr_total p \<and> pr_total p \<le> pr_gross_total p"
    if "rates_ok ?r \<and> 0 \<le> num0 tax \<and> 0 \<le> promo \<and> 0 \<le> loyalty \<and> 0 \<le> credit"
    using nonneg that unfolding total by auto
  ultimately show ?thesis using False sub clean sum total whole wtotal by auto
qed

definition demo_rates :: rate_card where
  "demo_rates = \<lparr>rc_property_id = 1, rc_base_price_per_night = 100, rc_cleaning_fee = 25, rc_service_fee_pct = 10\<rparr>"

text \<open>Three nights in two rooms, with a discount above the price.\<close>

theorem price_correct_witness:
  "\<exists>p. calculate_total demo_rates None 10 13 (Some 2) 1000 0 0 (Some 18) = Inr p
     \<and> pr_subtotal p = 600 \<and> pr_cleaning_fee p = 50 \<and> \<bar>pr_service_fee p - 60\<bar> \<le> 1 / 200
     \<and> 0 \<le> pr_total p \<and> pr_total p \<le> pr_gross_total p"
proof -
  obtain p where p: "calculate_total demo_rates None 10 13 (Some 2) 1000 0 0 (Some 18) = Inr p"
    by (simp add: calculate_total_cases foreign_room_def)
  have "price_money 100 = 100" "price_money 25 = 25"
    using price_money_exact [OF whole_cents_int, of 100] price_money_exact [OF whole_cents_int, of 25] by simp_all
  moreover have "rates_ok demo_rates" by (simp add: rates_ok_def demo_rates_def)
  ultimately show ?thesis
    using price_correct [of 13 10 demo_rates None "Some 2" "Some 18" 1000 0 0] p
    by (auto simp: applied_rates_def rooms_priced_def num0_def demo_rates_def)
qed

text \<open>A booking of several rooms is priced as one room.\<close>

lemma rooms_not_priced: "booking_price prop room ci co m = booking_price prop room ci co n"
  by (simp add: booking_price_def)

subsection \<open>Cancellation\<close>

text \<open>The check constraints of a policy row.\<close>

definition policy_ok :: "cancellation_policy \<Rightarrow> bool" where
  "policy_ok c \<longleftrightarrow> 0 \<le> cp_pre_checkin_refund_pct c \<and> cp_pre_checkin_refund_pct c \<le> 100
     \<and> 0 \<le> cp_mid_stay_refund_pct c \<and> cp_mid_stay_refund_pct c \<le> 100 \<and> 0 \<le> cp_no_show_penalty c"

lemma quote_cents_whole: "whole_cents (quote_cents x)"
  unfolding quote_cents_def by (rule half_even.whole_cents_quantize)

lemma quote_cents_exact: "whole_cents x \<Longrightarrow> quote_cents x = x"
  unfolding quote_cents_def by (rule half_even.quantize_whole_cents)

lemma quote_cents_range: "0 \<le> x \<Longrightarrow> x \<le> y \<Longrightarrow> whole_cents y \<Longrightarrow> 0 \<le> quote_cents x \<and> quote_cents x \<le> y"
  unfolding quote_cents_def by (simp add: half_even.quantize_nonneg half_even.quantize_le_whole)

lemma pre_checkin_pct_range: "policy_ok c \<Longrightarrow> 0 \<le> pre_checkin_pct c d \<and> pre_checkin_pct c d \<le> 100"
  by (simp add: pre_checkin_pct_def policy_ok_def)

lemma share_range:
  assumes "0 \<le> base" and "0 \<le> pct" and "pct \<le> (100 :: rat)"
  shows "0 \<le> base * (pct / 100) \<and> base * (pct / 100) \<le> base"
proof -
  have "base * (pct / 100) \<le> base * 1" using assms by (intro mult_left_mono) auto
  then show ?thesis using assms by simp
qed

lemma mid_stay_range:
  assumes "policy_ok c" and "0 \<le> base" and "whole_cents base" and "base < 10 ^ 25" and "n \<le> co - ci \<or> n \<le> 0"
  shows "0 \<le> mid_stay_refund c base ci co n \<and> mid_stay_refund c base ci co n \<le> base \<and> whole_cents (mid_stay_refund c base ci co n)"
proof (cases "co - ci > 0 \<and> n > 0")
  case True
  define r where "r = dec28 (of_int n / of_int (co - ci))"
  have one: "whole_cents 1" by (simp add: whole_cents_def)
  have "(of_int n :: rat) / of_int (co - ci) \<le> 1" using True assms(5) by simp
  then have r: "0 \<le> r" "r \<le> 1"
    using True one unfolding r_def by (auto intro!: dec28_nonneg dec28_le)
  define s where "s = dec28 (base * r)"
  have s: "0 \<le> s" "s \<le> base"
    using assms(2-4) r unfolding s_def by (auto intro!: dec28_nonneg dec28_le mult_left_le)
  have share: "0 \<le> s * (cp_mid_stay_refund_pct c / 100)" "s * (cp_mid_stay_refund_pct c / 100) \<le> base"
    using share_range [OF s(1), of "cp_mid_stay_refund_pct c"] assms(1) s(2) by (auto simp: policy_ok_def)
  then have "0 \<le> dec28 (s * (cp_mid_stay_refund_pct c / 100))" "dec28 (s * (cp_mid_stay_refund_pct c / 100)) \<le> base"
    using assms(3,4) by (auto intro: dec28_nonneg dec28_le)
  from quote_cents_range [OF this assms(3)] show ?thesis
    using True by (simp add: mid_stay_refund_def quote_cents_whole r_def s_def)
qed (use assms in \<open>auto simp: mid_stay_refund_def\<close>)

text \<open>An amount as its column stores it.\<close>

definition stored_amount :: "money \<Rightarrow> bool" where
  "stored_amount x \<longleftrightarrow> whole_cents x \<and> 0 \<le> x \<and> x < 10 ^ 25"

text \<open>What a quote splits: the amount paid of a booking that is paid now or by deposit, the total of any other.\<close>

definition quoted_base :: "booking_terms \<Rightarrow> money" where
  "quoted_base b = (if timing_of b \<in> {''pay_now'', ''deposit''} then num0 (bm_amount_paid b) else num0 (bk_total_amount b))"

lemma no_show_fine_nonneg:
  assumes "policy_ok c" and "0 \<le> amount" and "0 \<le> base"
  shows "0 \<le> quote_cents (no_show_fine c amount base ci co)"
proof -
  have q: "0 \<le> x \<Longrightarrow> 0 \<le> quote_cents x" for x unfolding quote_cents_def by (rule half_even.quantize_nonneg)
  have "0 \<le> cp_no_show_penalty c" using assms(1) by (simp add: policy_ok_def)
  with assms(2,3) show ?thesis unfolding no_show_fine_def by (auto intro!: q dec28_nonneg mult_nonneg_nonneg)
qed

lemma policy_quote:
  assumes "get_cancellation_quote (Some c) legacy row today b = Inr q" and "policy_ok c"
    and "stored_amount (num0 (bm_amount_paid b))" and "stored_amount (num0 (bk_total_amount b))"
    and "bk_check_in b \<le> today \<or> bk_status b \<noteq> ''checked_in''"
  shows "0 \<le> q_refund q \<and> 0 \<le> q_fine q \<and> q_refund q \<le> quoted_base b
    \<and> (q_allowed q \<longrightarrow> (if q_phase q = ''no_show'' then q_refund q = 0 else q_refund q + q_fine q = quoted_base b))"
proof -
  let ?ci = "bk_check_in b" and ?co = "bm_check_out b" and ?base = "quoted_base b"
  have base: "whole_cents ?base" "0 \<le> ?base" "?base < 10 ^ 25" and total: "0 \<le> num0 (bk_total_amount b)"
    using assms(3,4) by (auto simp: quoted_base_def stored_amount_def)
  have cents: "quote_cents (num0 (bm_amount_paid b)) = num0 (bm_amount_paid b)"
    "quote_cents (num0 (bk_total_amount b)) = num0 (bk_total_amount b)" "quote_cents ?base = ?base"
    using assms(3,4) base(1) by (simp_all add: stored_amount_def quote_cents_exact)
  from assms(1) obtain s where s: "booking_status_of (bk_status b) = Some s"
    by (auto simp: get_cancellation_quote_def split: option.splits)
  have checked_in: "s = CHECKED_IN \<Longrightarrow> ?ci \<le> today"
    using s assms(5) by (auto simp: booking_status_of_def dest!: find_SomeD)
  have mid: "0 \<le> mid_stay_refund c ?base ?ci ?co (max (?co - today) 0)
      \<and> mid_stay_refund c ?base ?ci ?co (max (?co - today) 0) \<le> ?base
      \<and> whole_cents (mid_stay_refund c ?base ?ci ?co (max (?co - today) 0))" if "?ci \<le> today"
    using that by (intro mid_stay_range [OF assms(2) base(2,1,3)]) auto
  have pre: "0 \<le> quote_cents (?base * (pre_checkin_pct c d / 100)) \<and> quote_cents (?base * (pre_checkin_pct c d / 100)) \<le> ?base" for d
    using share_range [OF base(2)] pre_checkin_pct_range [OF assms(2)] quote_cents_range [OF _ _ base(1)] by blast
  have parts: "0 \<le> quote_cents x \<and> 0 \<le> quote_cents (?base - x) \<and> quote_cents x \<le> ?base \<and> quote_cents x + quote_cents (?base - x) = ?base"
    if "whole_cents x" "0 \<le> x" "x \<le> ?base" for x
    using that base(1) by (simp add: quote_cents_exact money_simps)
  have cases: "q = refused_quote
      \<or> (?ci \<le> today \<and> q_phase q = ''mid_stay'' \<and> q_refund q = quote_cents (mid_stay_refund c ?base ?ci ?co (max (?co - today) 0))
          \<and> q_fine q = quote_cents (?base - mid_stay_refund c ?base ?ci ?co (max (?co - today) 0)))
      \<or> (q_phase q = ''no_show'' \<and> q_refund q = 0 \<and> q_fine q = quote_cents (no_show_fine c (num0 (bk_total_amount b)) ?base ?ci ?co))
      \<or> (q_phase q = ''pre_checkin'' \<and> (\<exists>d. q_refund q = quote_cents (quote_cents (?base * (pre_checkin_pct c d / 100)))
          \<and> q_fine q = quote_cents (?base - quote_cents (?base * (pre_checkin_pct c d / 100)))))"
    using assms(1) s checked_in unfolding get_cancellation_quote_def calculate_quote_def Let_def cents quoted_base_def [symmetric]
    by (cases "s \<in> set CANCELLABLE_STATUSES"; cases "s = CHECKED_IN") (auto split: if_splits)
  then show ?thesis
  proof (elim disjE conjE exE)
    assume "?ci \<le> today" "q_phase q = ''mid_stay''"
      "q_refund q = quote_cents (mid_stay_refund c ?base ?ci ?co (max (?co - today) 0))"
      "q_fine q = quote_cents (?base - mid_stay_refund c ?base ?ci ?co (max (?co - today) 0))"
    with mid parts show ?thesis by simp
  next
    fix d assume "q_phase q = ''pre_checkin''" "q_refund q = quote_cents (quote_cents (?base * (pre_checkin_pct c d / 100)))"
      "q_fine q = quote_cents (?base - quote_cents (?base * (pre_checkin_pct c d / 100)))"
    with pre [of d] parts [OF quote_cents_whole] show ?thesis by simp
  qed (use base(2) no_show_fine_nonneg [OF assms(2) total base(2)] in \<open>simp_all add: refused_quote_def\<close>)
qed

lemma legacy_refund_range:
  assumes "get_cancellation_quote None legacy row today b = Inr q" and "stored_amount (num0 (bk_total_amount b))"
    and "case bm_num_nights b of None \<Rightarrow> True | Some n \<Rightarrow> 1 \<le> n"
  shows "0 \<le> q_refund q \<and> q_refund q \<le> num0 (bk_total_amount b)"
proof -
  let ?total = "num0 (bk_total_amount b)" and ?remaining = "bm_check_out b - today"
  have total: "whole_cents ?total" "0 \<le> ?total" "?total < 10 ^ 25" using assms(2) by (simp_all add: stored_amount_def)
  have range: "0 \<le> quote_cents x \<and> quote_cents x \<le> ?total" if "0 \<le> x" "x \<le> ?total" for x
    using quote_cents_range [OF that total(1)] .
  have share: "0 \<le> dec28 (x * k) \<and> dec28 (x * k) \<le> ?total" if "0 \<le> x" "x \<le> ?total" "0 \<le> k" "k \<le> 1" for x k
  proof -
    have "x * k \<le> x * 1" using that by (intro mult_left_mono) simp_all
    with that total show ?thesis by (auto intro!: dec28_nonneg dec28_le)
  qed
  consider "q = refused_quote" | "q = legacy_cancellation_quote legacy row today b"
    using assms(1) by (auto simp: get_cancellation_quote_def split: option.splits if_splits)
  then show ?thesis
  proof cases
    case 1
    with total(2) show ?thesis by (simp add: refused_quote_def)
  next
    case 2
    show ?thesis
    proof (cases "booking_status_of (bk_status b) = Some CHECKED_IN")
      case True
      define nights where "nights = (case bm_num_nights b of None \<Rightarrow> 1 | Some n \<Rightarrow> if n = 0 then 1 else n)"
      define base where "base = min (dec28 (?total * of_int ?remaining / of_int nights)) ?total"
      have "0 < nights" using assms(3) by (auto simp: nights_def split: option.splits)
      then have base: "0 \<le> base" "base \<le> ?total" if "0 < ?remaining"
        using that total(2) unfolding base_def by (auto intro!: dec28_nonneg divide_nonneg_nonneg mult_nonneg_nonneg)
      have "q_refund q = (if ?remaining \<le> 0 then 0
          else quote_cents (if legacy \<in> {''flexible'', ''moderate''} then base else if legacy = ''strict'' then dec28 (base * (1/2))
            else if legacy = ''super_strict'' then dec28 (base * (1/4)) else 0))"
        unfolding 2 legacy_cancellation_quote_def Let_def base_def nights_def using True by (simp add: refused_quote_def)
      then show ?thesis using base share [OF base, of "1/2"] share [OF base, of "1/4"] range total(2) by auto
    next
      case False
      have tiers: "0 \<le> apply_policy_tiers n ?total d \<and> apply_policy_tiers n ?total d \<le> ?total"
        "0 \<le> get_cancellation_refund n d ?total \<and> get_cancellation_refund n d ?total \<le> ?total" for n d
        using total(2) by (simp_all add: apply_policy_tiers_def get_cancellation_refund_def)
      have "q_refund q = quote_cents (case row of Some p \<Rightarrow> get_cancellation_refund p (bk_check_in b - today) ?total
          | None \<Rightarrow> apply_policy_tiers legacy ?total (bk_check_in b - today))"
        unfolding 2 legacy_cancellation_quote_def Let_def using False by simp
      with tiers range show ?thesis by (cases row) simp_all
    qed
  qed
qed

text \<open>
  C38: what a cancellation by a guest pays back.  Let the stored amounts be as their columns allow and a checked-in guest not be early for the server's
  date.  Under a policy row, whatever the timing of the payment, the cash refund is between 0 and the amount paid, refund and fine are not
  negative, and an allowed cancellation splits the amount paid (paid now or by deposit) or the total (otherwise) exactly into refund and fine,
  except that a no-show gets nothing.  Without a policy row the legacy quote only keeps the cash refund between 0 and the total.
\<close>

theorem refund_within_payment:
  assumes "get_cancellation_quote policy legacy row today b = Inr q" and "case policy of None \<Rightarrow> True | Some c \<Rightarrow> policy_ok c"
    and "stored_amount (num0 (bm_amount_paid b))" and "stored_amount (num0 (bk_total_amount b))"
    and "case bm_num_nights b of None \<Rightarrow> True | Some n \<Rightarrow> 1 \<le> n"
    and "bk_check_in b \<le> today \<or> bk_status b \<noteq> ''checked_in''"
  shows "0 \<le> refundable_cash_amount b q
    \<and> refundable_cash_amount b q \<le> (if policy = None then num0 (bk_total_amount b) else num0 (bm_amount_paid b))
    \<and> (policy \<noteq> None \<longrightarrow> 0 \<le> q_refund q \<and> 0 \<le> q_fine q
        \<and> (q_allowed q \<longrightarrow> (if q_phase q = ''no_show'' then q_refund q = 0 else q_refund q + q_fine q = quoted_base b)))"
proof (cases policy)
  case None
  with legacy_refund_range [of legacy row today b q] assms show ?thesis
    by (auto simp: refundable_cash_amount_def stored_amount_def)
next
  case (Some c)
  with policy_quote [of c legacy row today b q] assms show ?thesis
    by (auto simp: refundable_cash_amount_def quoted_base_def stored_amount_def)
qed

definition demo_terms :: booking_terms where
  "demo_terms =
     \<lparr>bk_id = 1, bk_status = ''confirmed'', bk_property_id = 1, bk_check_in = 20, bk_registration_deadline = None,
      bk_refund_amount = None, bk_total_amount = Some 300, bk_primary_guest_id = Some 7, bk_guest_user_id = Some 7,
      bk_guest_email = None, bm_check_out = 23, bm_num_nights = Some 3, bm_amount_paid = Some 300,
      bm_payment_timing = None, bm_payment_status = ''paid'', bm_payment_guaranteed = True, bm_flow_type = None,
      bm_host_approved_at = None, bm_expires_at = None, bm_booking_mode = ''instant'', bm_require_host_approval = False\<rparr>"

theorem refund_within_payment_witness:
  "\<exists>q. get_cancellation_quote (get_effective_policy create_system_defaults 1 (Some ''STRICT'')) ''strict'' None 10 demo_terms = Inr q
     \<and> refundable_cash_amount demo_terms q = 150 \<and> q_refund q + q_fine q = 300"
proof -
  define c where "c = system_default ''STRICT'' 7 50 50 0"
  have eff: "get_effective_policy create_system_defaults 1 (Some ''STRICT'') = Some c"
    by (simp add: get_effective_policy_def first_policy_def create_system_defaults_def c_def system_default_def)
  have ok: "policy_ok c" by (simp add: policy_ok_def c_def system_default_def)
  have w: "whole_cents (of_int n)" for n by (simp add: whole_cents_def)
  have cents: "quote_cents 300 = 300" "quote_cents 150 = 150"
    using w [of 300] w [of 150] by (simp_all add: quote_cents_exact)
  obtain q where q: "get_cancellation_quote (Some c) ''strict'' None 10 demo_terms = Inr q"
    and r: "q_refund q = 150" "q_allowed q" "q_phase q = ''pre_checkin''"
    by (simp add: get_cancellation_quote_def demo_terms_def booking_status_of_def all_booking_statuses_def
        CANCELLABLE_STATUSES_def calculate_quote_def Let_def num0_def timing_of_def c_def system_default_def
        pre_checkin_pct_def cents)
  have "refundable_cash_amount demo_terms q \<le> 300 \<and> q_refund q + q_fine q = 300"
    using refund_within_payment [OF q] ok w [of 300] r
    by (simp add: demo_terms_def timing_of_def num0_def stored_amount_def quoted_base_def)
  with q r eff show ?thesis by (auto simp: refundable_cash_amount_def timing_of_def demo_terms_def)
qed

text \<open>
  Where more is paid back than was paid.  Without a policy row, a booking of 300 with a deposit of 30 is refunded 300.  And when the
  server's date is a day behind the property's, a guest of three nights who has just checked in has four nights left.
\<close>

lemma legacy_refund_exceeds_payment:
  "\<exists>q. get_cancellation_quote None ''flexible'' None 10 (demo_terms\<lparr>bm_amount_paid := Some 30, bm_payment_timing := Some ''deposit''\<rparr>) = Inr q
    \<and> refundable_cash_amount (demo_terms\<lparr>bm_amount_paid := Some 30, bm_payment_timing := Some ''deposit''\<rparr>) q = 300"
proof -
  have "quote_cents 300 = 300" using quote_cents_exact [OF whole_cents_int, of 300] by simp
  then show ?thesis
    by (simp add: get_cancellation_quote_def demo_terms_def booking_status_of_def all_booking_statuses_def CANCELLABLE_STATUSES_def
        legacy_cancellation_quote_def apply_policy_tiers_def refused_quote_def Let_def num0_def timing_of_def refundable_cash_amount_def)
qed

lemma early_guest_refund_exceeds_payment:
  "\<exists>q. get_cancellation_quote (Some (system_default ''FLEX'' 1 100 100 0)) ''flexible'' None 19 (demo_terms\<lparr>bk_status := ''checked_in''\<rparr>) = Inr q
    \<and> refundable_cash_amount (demo_terms\<lparr>bk_status := ''checked_in''\<rparr>) q > 300"
proof -
  have w: "whole_cents (of_int n)" for n by (simp add: whole_cents_def)
  have "1 \<le> dec28 (4 / 3)" using dec28_mono [of 1 "4/3"] dec28_exact [OF w [of 1]] by simp
  have cents: "quote_cents 300 = 300" using quote_cents_exact [OF w, of 300] by simp
  have d: "dec28 (4 / 3) * 300 \<ge> 399" using dec28_mono [of "133/100" "4/3"] dec28_exact [of "133/100"] by (simp add: whole_cents_def)
  have e: "399 \<le> dec28 (300 * dec28 (4 / 3))" using dec28_mono [of 399 "300 * dec28 (4/3)"] d dec28_exact [OF w [of 399]] by (simp add: mult.commute)
  have f: "399 \<le> dec28 (dec28 (300 * dec28 (4 / 3)))" using dec28_mono [OF _ e] dec28_exact [OF w [of 399]] by simp
  have g: "399 \<le> quote_cents (quote_cents (dec28 (dec28 (300 * dec28 (4 / 3)))))"
    unfolding quote_cents_def using f w [of 399] by (intro half_even.quantize_ge_whole) simp_all
  then show ?thesis
    by (simp add: get_cancellation_quote_def demo_terms_def booking_status_of_def all_booking_statuses_def CANCELLABLE_STATUSES_def
        calculate_quote_def mid_stay_refund_def system_default_def Let_def num0_def timing_of_def refundable_cash_amount_def cents)
qed

subsection \<open>The two gates of check-in\<close>

lemma check_in_move: "booking_can_transition env b CHECKED_IN = Inr True \<longleftrightarrow> state_can_check_in env b"
proof -
  have "CHECKED_IN \<in> set (booking_transitions CONFIRMED)" by simp
  moreover have "state_can_check_in env b \<Longrightarrow> bk_status b = booking_status_value CONFIRMED"
    by (simp add: state_can_check_in_def split: if_splits)
  ultimately show ?thesis
    unfolding booking_can_transition_True using booking_status_value.simps by (auto intro!: exI [of _ CONFIRMED])
qed

lemma truncate_terms [simp]:
  "bk_status (booking.truncate b) = bk_status b" "bk_property_id (booking.truncate b) = bk_property_id b"
  "bk_check_in (booking.truncate b) = bk_check_in b"
  by (simp_all add: booking.truncate_def)

text \<open>
  C39: the policy evaluator and the booking state machine agree on check-in.  The evaluator allows a check-in exactly when the
  state machine allows the move to checked-in for the same booking and, where the property requires a payment
  guarantee and the booking is paid now, it is paid at least in part.
\<close>

theorem check_in_gates:
  "evaluator_can_check_in env policy b = Inr Allowed \<longleftrightarrow>
     booking_can_transition env (booking.truncate b) CHECKED_IN = Inr True
     \<and> ((\<exists>p. policy = Some p \<and> pb_require_payment_guarantee p) \<and> timing_of b = ''pay_now'' \<longrightarrow>
        payment_state_of (bm_payment_status b) \<in> {Some PAID, Some PARTIALLY_PAID})"
  by (auto simp: evaluator_can_check_in_def check_in_move state_can_check_in_def Let_def rbind_def
      split: option.splits if_splits sum.splits)

theorem check_in_gates_witness:
  "\<exists>env p. pb_require_payment_guarantee p \<and> evaluator_can_check_in env (Some p) demo_terms = Inr Allowed
     \<and> booking_can_transition env (booking.truncate demo_terms) CHECKED_IN = Inr True"
proof -
  define env where "env = \<lparr>ce_now = 0, ce_local_today = (\<lambda>_. Some 21), ce_registrations = (\<lambda>_. None)\<rparr>"
  define p where "p = fresh_policy\<lparr>pb_require_payment_guarantee := True\<rparr>"
  have "evaluator_can_check_in env (Some p) demo_terms = Inr Allowed"
    by (simp add: evaluator_can_check_in_def demo_terms_def env_def p_def fresh_policy_def registration_satisfied_def
        booking.truncate_def timing_of_def payment_state_of_def all_payment_states_def)
  moreover from check_in_gates [THEN iffD1, OF this]
  have "booking_can_transition env (booking.truncate demo_terms) CHECKED_IN = Inr True" by blast
  ultimately show ?thesis by (intro exI [of _ env] exI [of _ p]) (simp add: p_def fresh_policy_def)
qed

end
