(* ===== verification/Spec2Isabelle.thy ===== *)
theory Spec2Isabelle
  imports Payment_States Wallet_Errors Wallet_Refinement Market_Settlement Ticket_Reservations Transport_Runs
    Request_Claims Stay_Inventory Stay_Quotes
begin

text \<open>
  A verification library for the money and booking core of AFCON360, a Flask application for travel to a football
  tournament: a wallet with a double-entry ledger, event tickets, transport reservations and accommodation.  The theories
  translate the services that decide over money and scarce inventory, line by line, into HOL functions on records of
  database rows, and prove what these services promise.

  \<^bold>\<open>How the code is modelled.\<close>  A table is the list of its rows, a row a record with the columns that the code reads or
  writes, a database the record of its tables with a counter for new keys.  A service function is a HOL function of its
  arguments and the database to a sum type (\<open>Inl\<close> the exception) and the database after the commit; what a
  rollback undoes and what an inner commit keeps is written out in each function.  Enums are datatypes with their
  stored strings.  \<open>Decimal\<close> is an exact rational with the rounding of each \<open>quantize\<close>; time stamps are
  microseconds, dates are days.  Code outside the translated files is an input: the clock, the signed-in user, configuration
  values, password and PIN hashes, fraud decisions, random references and the local date of a property are fields of the
  environment records (\<open>wallet_env\<close>, \<open>market_env\<close>, \<open>tr_env\<close>, \<open>ride_env\<close>, \<open>request_env\<close>, \<open>checkin_env\<close>) or arguments.
  An operation runs alone, and interleavings of whole operations are the runs below; row locks and serialised transactions are modelled
  only where an operation skips locked rows, as the sweep of ticket holds does.

  \<^bold>\<open>Shared theories.\<close>
  \<^item> \<open>Prelude\<close>: error monad, table operations, amounts; locale \<open>rounding_mode\<close> with the laws of \<open>quantize\<close>, interpreted for
    the three rounding modes the code uses.
  \<^item> \<open>State_Tables\<close>: locales \<open>transition_machine\<close>, \<open>ranked_table\<close> and \<open>ranked_machine\<close> for state machines given by a dictionary
    of successors, interpreted by bookings, payments, reservations and obligations.
  \<^item> \<open>Run_Systems\<close>: locales \<open>run_invariant\<close>, \<open>run_effect\<close> and \<open>simulation\<close> that carry what one step keeps to every run,
    interpreted by every service with a step relation.

  \<^bold>\<open>Wallet\<close> (\<open>app/wallet\<close>).
  \<^item> \<open>Wallet_Ledger\<close>: the rows of \<open>models/\<close> and the repositories of \<open>repositories/\<close>; locales \<open>ledger_store\<close> (a balance is the sum
    of its postings) and \<open>idempotency_store\<close> (a key has one transaction), interpreted on the ledger and on the
    transactions.  The balance overview agrees with the balance, and \<open>get_or_create\<close> round trips.
  \<^item> \<open>Wallet_Limits\<close>: windows, volumes, KYC tiers and limit checks (\<open>services/regulatory_volume_calculator.py\<close>,
    \<open>kyc_limit_service.py\<close>).
  \<^item> \<open>Wallet_FX\<close>: \<open>services/currency_service.py\<close> and the rate service: served rates are safe, conversion creates no value.
  \<^item> \<open>Wallet_Service\<close>: the operations of \<open>services/wallet_service.py\<close>; \<open>Wallet_Correct\<close> gives the exact effect of a deposit, a
    withdrawal and a transfer; \<open>Wallet_Runs\<close> the invariant of all runs and the harmlessness of replays, whether they return
    or are refused by the checks before the lookup of the key; \<open>Wallet_Errors\<close> authorisation, the ceilings of a withdrawal of a
    user or an organisation, adjustments, and the consequences of three defects; \<open>Wallet_Refinement\<close> an
    abstract bank, the proof that the service refines it, and from it that no run overdraws an account.

  \<^bold>\<open>Marketplace invoices\<close> (\<open>services/marketplace_invoice_service.py\<close>, \<open>models/marketplace_invoice.py\<close>), which collect the
  price of a service through the wallet.
  \<^item> \<open>Market_Invoices\<close>: invoices, payment attempts, allocations and payment methods, and every operation of the service that
    changes them, with \<open>commit=True\<close>.  Reading the allocations of an invoice flushes what the session has added before, as the
    relationship is a query; the function that reads them after an insert sees the new row.
  \<^item> \<open>Market_Correct\<close>: a run of the invoice service is a run of the wallet on its database, so the integrity of the wallet
    carries over; the terms of an invoice never change and a retried creation returns the same invoice.
  \<^item> \<open>Market_Settlement\<close>: an invoice settled from a wallet is backed by one completed transfer of its amount from the payer to
    the escrow account; when a payment attempt succeeds; and why no refund through the wallet is ever recorded.

  \<^bold>\<open>Tickets\<close> (\<open>app/events/inventory.py\<close>, \<open>tasks.py\<close>, \<open>sale_guard.py\<close>).  \<open>Ticket_Inventory\<close>: seats, holds, sale modes; seats are
  conserved along every run, and the holds in the limited tiers of a capped event stay within the cap; tiers without a limit
  escape it.  \<open>Ticket_Reservations\<close>: when a reservation succeeds, and that the chain of sweep tasks, each with its own clock
  and locked rows and with other operations in between, is complete and ends.

  \<^bold>\<open>Transport\<close> (\<open>app/transport/services/reservation_*.py\<close>).  \<open>Transport_Reservation\<close>: policy, the reservation service and its
  expiry job.  \<open>Transport_Capacity\<close>: the coverage scan against its specification and the invariants of a step.
  \<open>Transport_Runs\<close>: no vehicle is booked twice, no pool is overcommitted, reserved reservations are funded.

  \<^bold>\<open>Rides\<close> (\<open>app/transport/services\<close>, \<open>api/driver_routes.py\<close>): a confirmed booking is offered to drivers, claimed by one with a vehicle,
  driven and released.
  \<^item> \<open>Ride_Offers\<close>: the Redis store of \<open>offer_service.py\<close>, its keys as pairs, its two scripts as atomic steps and its sweep, with the answer
    whether Redis can be reached as an argument.  A driver is listed exactly the open offers, and an offer is accepted once.
  \<^item> \<open>Ride_Dispatch\<close>: rides, drivers and vehicles; claim and release of \<open>assignment_service.py\<close>, the transitions, cancellations, no-shows,
    failed matches and retries of \<open>booking_service.py\<close>, and the trip actions of \<open>_execute_driver_trip_action\<close>.  Clock and settings are the fields of
    \<open>ride_env\<close>.  The collection of the fare after a completed trip is \<open>settle_after_completion\<close> of \<open>Market_Invoices\<close>.
  \<^item> \<open>Ride_Correct\<close>: an abstract board of crews, and the proof that every operation refines it (an interpretation of \<open>simulation\<close>), also
    when new bookings and changes of the fleet come in between.
  \<^item> \<open>Ride_Claims\<close>: no crew serves two rides, when a claim succeeds, what a release gives back, the schedule of fees, and two places where the code
    departs from its comments.

  \<^bold>\<open>Ride requests\<close> (\<open>app/transport/services/ride_request_dispatch_service.py\<close>, \<open>ride_request_service.py\<close>): a rider's request is offered to ranked
  drivers, one after the other, and becomes a booking when one accepts.
  \<^item> \<open>Ride_Requests\<close>: requests, search cycles, offer attempts and payment rows, every operation of the dispatch service, and the part of \<open>create_request\<close>
    that stores a validated trip with its invoice and first cycle.  The database holds the rides of \<open>Ride_Dispatch\<close> and the invoices of
    \<open>Market_Invoices\<close>; an acceptance calls the claim of the former and reads the latter.  The ranking, the parser of UUIDs and the new references are
    fields of \<open>request_env\<close>.
  \<^item> \<open>Request_Correct\<close>: the invariant \<open>requests_ok\<close> of the tables and the moves of requests, cycles and attempts that each operation makes.
  \<^item> \<open>Request_Runs\<close>: recovery, acceptance and creation, the step relation \<open>request_step\<close> of requests and rides together, and the interpretations of
    \<open>run_effect\<close> (a row never goes back) and of \<open>simulation\<close> (the crews follow the board of \<open>Ride_Correct\<close>).
  \<^item> \<open>Request_Claims\<close>: one driver is asked at a time and at most five per cycle, a search that only meets declines ends, what an
    acceptance does, that a repeated creation returns the request, and that an old request can no longer be accepted.

  \<^bold>\<open>Accommodation\<close> (\<open>app/accommodation\<close>).  \<open>Booking_States\<close> and \<open>Payment_States\<close>: the two state machines of \<open>state_machine/\<close>.
  \<open>Stay_Availability\<close>: \<open>services/availability_service.py\<close> with its rows; \<open>Stay_Inventory\<close>: units are never oversold while
  holds are not converted to bookings, when a hold succeeds, and how a conversion lets units be sold twice.  \<open>Stay_Policy\<close>: prices, cancellation policies
  and quotes, the policy evaluator; \<open>Stay_Quotes\<close>: the parts of a price, that refunds under a policy row stay within the payment and
  those of the legacy quote only within the total, two refunds that exceed the payment, and that the evaluator agrees with
  the booking state machine on check-in.

  \<^bold>\<open>Bounds and fuel.\<close>  \<open>get_rate_from_provider\<close> recurses over the interpreter's recursion limit as fuel; its theorem shows
  that two levels are enough.  \<open>sweep\<close> recurses over the list of the contexts of its pages; a chain that uses them all up has
  filled every page with at least one hold, so more contexts than there are holds suffice.  \<open>places\<close> looks for at most 100 decimal places: an amount that is not zero has its 28 significant digits
  within them, as it is at least \<open>10 ^ -72\<close>.  All other recursion is over lists.

  \<^bold>\<open>Not modelled.\<close>  Web routes and forms, authentication, identity, documents of KYC, notifications, media, maps, feeds and
  administration pages, which are glue over frameworks and outside services; fraud scores and distances, which are
  computed in binary floating point; external payment providers; the rounding of a platform fee to the six places of its
  column, the rounding of an inverted mock rate to 28 digits and errors of the insert of a commission; failures between the
  Redis commands of \<open>create_offer\<close>, which is one atomic step here; a broker that refuses the next page of a sweep; the text of payment
  certificates; schema migrations, which are generated.
\<close>

end
